(* ===== verification/Barrier_Prelude.thy ===== *)
theory Barrier_Prelude
  imports Main "HOL-Library.Word"
begin

text \<open>
  Shared vocabulary of the development: the machine integer types of
  \<^verbatim>\<open>common/basic_types.h\<close>, the big-endian integer encoding that the source inlines in
  \<^verbatim>\<open>IClipboard.cpp\<close>, \<^verbatim>\<open>ProtocolUtil.cpp\<close> and \<^verbatim>\<open>PacketStreamFilter.cpp\<close>, and the generic
  facts on words, lists and bytes that the component theories use.  The collection
  \<open>codec\<close> gathers the decode-after-encode equations.
\<close>

unbundle bit_operations_syntax

named_theorems codec \<open>decoding an encoded value gives the value back\<close>

section \<open>Machine integers and byte strings\<close>

type_synonym UInt8 = "8 word"
type_synonym UInt16 = "16 word"
type_synonym UInt32 = "32 word"
type_synonym bytes = "UInt8 list"

text \<open>The number of values of \<^verbatim>\<open>UInt32\<close>; a length kept in a \<^verbatim>\<open>UInt32\<close> wraps here.\<close>

abbreviation two32 :: nat where
  "two32 \<equiv> 4294967296"

text \<open>The bytes of a character string: \<^verbatim>\<open>static_cast<UInt8>(c)\<close> on each character.\<close>

definition bytes_of :: "string \<Rightarrow> bytes" where
  "bytes_of s = map of_char s"

lemma length_bytes_of [simp]: "length (bytes_of s) = length s"
  by (simp add: bytes_of_def)

lemma of_char_8_inject [simp]: "(of_char c :: 8 word) = of_char d \<longleftrightarrow> c = d"
proof
  assume "(of_char c :: 8 word) = of_char d"
  then have "(word_of_nat (of_char c) :: 8 word) = word_of_nat (of_char d)"
    by (simp add: of_nat_of_char)
  then have "(of_char c :: nat) mod 2 ^ 8 = of_char d mod 2 ^ 8"
    by (simp add: word_of_nat_eq_iff take_bit_eq_mod)
  then show "c = d"
    using of_char_eq_iff by fastforce
qed simp

lemma bytes_of_inject [simp]: "bytes_of s = bytes_of t \<longleftrightarrow> s = t"
  by (auto simp: bytes_of_def inj_map_eq_map inj_def)

section \<open>Big-endian integers\<close>

text \<open>
  \<^verbatim>\<open>IClipboard::writeUInt32\<close> and \<^verbatim>\<open>IClipboard::readUInt32\<close>.  The same shift-and-mask code is
  inlined in \<^verbatim>\<open>ProtocolUtil::writef_void\<close>, \<^verbatim>\<open>ProtocolUtil::vreadf\<close>,
  \<^verbatim>\<open>PacketStreamFilter::write\<close> and \<^verbatim>\<open>PacketStreamFilter::readPacketSize\<close>.
\<close>

definition writeUInt32 :: "UInt32 \<Rightarrow> bytes" where
  "writeUInt32 v =
     [ucast (drop_bit 24 v AND 0xff), ucast (drop_bit 16 v AND 0xff),
      ucast (drop_bit 8 v AND 0xff), ucast (v AND 0xff)]"

definition readUInt32 :: "UInt8 \<Rightarrow> UInt8 \<Rightarrow> UInt8 \<Rightarrow> UInt8 \<Rightarrow> UInt32" where
  "readUInt32 b0 b1 b2 b3 =
     push_bit 24 (ucast b0) OR push_bit 16 (ucast b1) OR push_bit 8 (ucast b2) OR ucast b3"

definition writeUInt16 :: "UInt16 \<Rightarrow> bytes" where
  "writeUInt16 v = [ucast (drop_bit 8 v AND 0xff), ucast (v AND 0xff)]"

definition readUInt16 :: "UInt8 \<Rightarrow> UInt8 \<Rightarrow> UInt16" where
  "readUInt16 b0 b1 = push_bit 8 (ucast b0) OR ucast b1"

lemma length_writeUInt32 [simp]: "length (writeUInt32 v) = 4"
  by (simp add: writeUInt32_def)

lemma length_writeUInt16 [simp]: "length (writeUInt16 v) = 2"
  by (simp add: writeUInt16_def)

lemma writeUInt32_not_Nil [simp]: "writeUInt32 v \<noteq> []"
  by (simp add: writeUInt32_def)

lemma ucast_and_0xff: "(ucast (v AND 0xff) :: 8 word) = ucast (v :: 'a::len word)"
proof -
  have eq: "mask 8 = (0xff :: 'a word)"
    by (simp add: mask_numeral)
  show ?thesis
    unfolding eq [symmetric]
    by (rule bit_word_eqI) (auto simp: bit_ucast_iff bit_and_iff bit_mask_iff dest: bit_imp_le_length)
qed

lemma not_bit_byte [simp]: "\<not> bit (b :: UInt8) (8 + n)" "\<not> bit b (16 + n)" "\<not> bit b (24 + n)"
  using bit_imp_le_length [of b] by (auto dest: bit_imp_le_length)

lemma bit_bytes4:
  fixes v :: UInt32
  assumes "n < 32"
  shows "bit v n \<longleftrightarrow>
    (24 \<le> n \<and> bit v (24 + (n - 24)) \<and> n - 24 < 8) \<or> (16 \<le> n \<and> bit v (16 + (n - 16)) \<and> n - 16 < 8) \<or>
    (8 \<le> n \<and> bit v (8 + (n - 8)) \<and> n - 8 < 8) \<or> (bit v n \<and> n < 8)"
proof -
  consider "n < 8" | "8 \<le> n" "n < 16" | "16 \<le> n" "n < 24" | "24 \<le> n" "n < 32"
    using assms by linarith
  then show ?thesis by cases auto
qed

lemma readUInt32_write [codec]:
  "readUInt32 (ucast (drop_bit 24 v AND 0xff)) (ucast (drop_bit 16 v AND 0xff))
     (ucast (drop_bit 8 v AND 0xff)) (ucast (v AND 0xff)) = (v :: UInt32)"
proof (rule bit_word_eqI)
  fix n assume "n < LENGTH(32)"
  then have n: "n < 32" by simp
  show "bit (readUInt32 (ucast (drop_bit 24 v AND 0xff)) (ucast (drop_bit 16 v AND 0xff))
     (ucast (drop_bit 8 v AND 0xff)) (ucast (v AND 0xff))) n = bit v n"
    unfolding ucast_and_0xff readUInt32_def
    by (rule trans [OF _ bit_bytes4 [OF n, symmetric]])
       (auto simp: n bit_or_iff bit_push_bit_iff bit_drop_bit_eq bit_ucast_iff)
qed

lemma readUInt16_write [codec]:
  "readUInt16 (ucast (drop_bit 8 v AND 0xff)) (ucast (v AND 0xff)) = (v :: UInt16)"
  unfolding ucast_and_0xff readUInt16_def
  by (rule bit_word_eqI)
     (auto simp: bit_or_iff bit_push_bit_iff bit_drop_bit_eq bit_ucast_iff)

lemma writeUInt32_read [codec]: "writeUInt32 (readUInt32 a b c d) = [a, b, c, d]"
  unfolding writeUInt32_def ucast_and_0xff readUInt32_def
  by (auto intro!: bit_word_eqI simp: bit_or_iff bit_push_bit_iff bit_drop_bit_eq bit_ucast_iff
        dest: bit_imp_le_length)

text \<open>Decoding the first four bytes of a byte string, as the pointer-based code does.\<close>

definition readBE32 :: "bytes \<Rightarrow> UInt32" where
  "readBE32 bs = readUInt32 (bs ! 0) (bs ! 1) (bs ! 2) (bs ! 3)"

lemma readBE32_write [codec]: "readBE32 (writeUInt32 v @ bs) = v"
  by (simp add: readBE32_def writeUInt32_def readUInt32_write)

lemma readBE32_write' [codec]: "readBE32 (writeUInt32 v) = v"
  using readBE32_write [of v "[]"] by simp

end
