(* ===== verification/Stream_Buffer.thy ===== *)
theory Stream_Buffer
  imports Barrier_Prelude
begin

text \<open>
  The byte FIFO of \<^verbatim>\<open>io/StreamBuffer.cpp\<close>: a list of chunks, the number of unread bytes and the
  number of bytes of the head chunk that are already consumed.  The locale \<open>byte_fifo\<close> states
  what the packet filter relies on (a FIFO of bytes), and the interpretation at the end shows
  that the chunk list implements it.  Sizes are naturals; the two places where the code adds
  to a \<^verbatim>\<open>UInt32\<close> wrap at \<open>two32\<close>.  A failed \<^verbatim>\<open>assert\<close> is \<open>None\<close>.
\<close>

section \<open>The interface of a byte queue\<close>

locale byte_fifo =
  fixes empty :: "'b"
    and put :: "'b \<Rightarrow> bytes \<Rightarrow> 'b"
    and peek :: "'b \<Rightarrow> nat \<Rightarrow> (bytes \<times> 'b) option"
    and discard :: "'b \<Rightarrow> nat \<Rightarrow> 'b option"
    and count :: "'b \<Rightarrow> nat"
    and content :: "'b \<Rightarrow> bytes"
    and wf :: "'b \<Rightarrow> bool"
    and room :: "'b \<Rightarrow> nat \<Rightarrow> bool"
  assumes wf_empty: "wf empty"
    and content_empty: "content empty = []"
    and wf_put: "wf b \<Longrightarrow> room b (length d) \<Longrightarrow> wf (put b d)"
    and content_put: "wf b \<Longrightarrow> room b (length d) \<Longrightarrow> content (put b d) = content b @ d"
    and room_put: "wf b \<Longrightarrow> room b (length d + k) \<Longrightarrow> room (put b d) k"
    and room_mono: "room b k \<Longrightarrow> j \<le> k \<Longrightarrow> room b j"
    and peek_ok: "wf b \<Longrightarrow> n \<le> length (content b) \<Longrightarrow>
      \<exists>p b'. peek b n = Some (p, b') \<and> wf b' \<and> content b' = content b \<and> n \<le> length p \<and>
        take n p = take n (content b) \<and> (\<forall>k. room b k \<longrightarrow> room b' k)"
    and peek_fail: "wf b \<Longrightarrow> length (content b) < n \<Longrightarrow> peek b n = None"
    and discard_ok: "wf b \<Longrightarrow>
      \<exists>b'. discard b n = Some b' \<and> wf b' \<and> content b' = drop n (content b) \<and>
        (\<forall>k. room b k \<longrightarrow> room b' k)"
    and count_ok: "wf b \<Longrightarrow> count b = length (content b)"
begin

text \<open>Reading \<open>n\<close> bytes is a peek followed by a discard: it takes a prefix off the content.\<close>

lemma fetch:
  assumes "wf b" and "n \<le> length (content b)"
  shows "\<exists>p b1 b2. peek b n = Some (p, b1) \<and> take n p = take n (content b) \<and> n \<le> length p \<and>
    discard b1 n = Some b2 \<and> wf b2 \<and> content b2 = drop n (content b) \<and> (\<forall>k. room b k \<longrightarrow> room b2 k)"
proof -
  from peek_ok [OF assms] obtain p b1 where p: "peek b n = Some (p, b1)" "wf b1"
    "content b1 = content b" "n \<le> length p" "take n p = take n (content b)"
    "\<forall>k. room b k \<longrightarrow> room b1 k" by blast
  from discard_ok [OF p(2), of n] obtain b2 where "discard b1 n = Some b2" "wf b2"
    "content b2 = drop n (content b1)" "\<forall>k. room b1 k \<longrightarrow> room b2 k" by blast
  with p show ?thesis by (intro exI [of _ p] exI [of _ b1] exI [of _ b2]) simp
qed

lemma discard_all:
  assumes "wf b" shows "\<exists>b'. discard b (count b) = Some b' \<and> wf b' \<and> content b' = []"
  using discard_ok [OF assms, of "count b"] count_ok [OF assms] by auto

lemma fold_put:
  "wf b \<Longrightarrow> room b (length (concat ds)) \<Longrightarrow>
    wf (foldl put b ds) \<and> content (foldl put b ds) = content b @ concat ds"
proof (induction ds arbitrary: b)
  case (Cons d ds)
  have "room b (length d)" using Cons.prems(2) room_mono by fastforce
  moreover have "room (put b d) (length (concat ds))"
    using Cons.prems room_put by simp
  ultimately show ?case
    using Cons.IH [of "put b d"] Cons.prems(1) by (simp add: wf_put content_put)
qed simp

end

section \<open>The chunk list\<close>

definition kChunkSize :: nat where
  "kChunkSize = 4096"

record StreamBuffer =
  sb_chunks :: "bytes list"
  sb_size :: nat
  sb_headUsed :: nat

definition StreamBuffer_new :: StreamBuffer where
  "StreamBuffer_new = \<lparr>sb_chunks = [], sb_size = 0, sb_headUsed = 0\<rparr>"

text \<open>
  \<^verbatim>\<open>peek\<close>: the loop appends following chunks to the head chunk until \<open>n\<close> unread bytes are
  contiguous.  The result is the memory from the returned pointer to the end of the head
  chunk (nothing for the null pointer returned when \<open>n = 0\<close>).
\<close>

fun peek_consolidate :: "nat \<Rightarrow> nat \<Rightarrow> bytes \<Rightarrow> bytes list \<Rightarrow> bytes \<times> bytes list" where
  "peek_consolidate used n head [] = (head, [])"
| "peek_consolidate used n head (c # cs) =
     (if length head - used < n then peek_consolidate used n (head @ c) cs else (head, c # cs))"

definition StreamBuffer_peek :: "StreamBuffer \<Rightarrow> nat \<Rightarrow> (bytes \<times> StreamBuffer) option" where
  "StreamBuffer_peek b n =
     (if n > sb_size b then None
      else if n = 0 then Some ([], b)
      else case sb_chunks b of
        [] \<Rightarrow> None
      | h # cs \<Rightarrow>
          let (h', cs') = peek_consolidate (sb_headUsed b) n h cs
          in Some (drop (sb_headUsed b) h', b\<lparr>sb_chunks := h' # cs'\<rparr>))"

text \<open>\<^verbatim>\<open>pop\<close>: whole chunks are dropped while they are covered by \<open>n\<close>.\<close>

fun pop_chunks :: "nat \<Rightarrow> nat \<Rightarrow> bytes list \<Rightarrow> (nat \<times> nat \<times> bytes list) option" where
  "pop_chunks used n [] = None"
| "pop_chunks used n (c # cs) =
     (if length c - used \<le> n then pop_chunks 0 (n - (length c - used)) cs
      else Some (used, n, c # cs))"

definition StreamBuffer_pop :: "StreamBuffer \<Rightarrow> nat \<Rightarrow> StreamBuffer option" where
  "StreamBuffer_pop b n =
     (if n \<ge> sb_size b then Some \<lparr>sb_chunks = [], sb_size = 0, sb_headUsed = 0\<rparr>
      else case pop_chunks (sb_headUsed b) n (sb_chunks b) of
        None \<Rightarrow> None
      | Some (used, left, cs) \<Rightarrow>
          Some \<lparr>sb_chunks = cs, sb_size = sb_size b - n,
                sb_headUsed = (if left > 0 then (used + left) mod two32 else used)\<rparr>)"

text \<open>
  \<^verbatim>\<open>write\<close>: fill the last chunk up to \<open>kChunkSize\<close>, then append new chunks.  The first
  argument is the chunk \<^verbatim>\<open>scan\<close> points to.
\<close>

function write_chunks :: "bytes \<Rightarrow> bytes \<Rightarrow> bytes list" where
  "write_chunks scan data =
     (if data = [] then [scan]
      else let count = min (kChunkSize - length scan) (length data);
               scan' = scan @ take count data; rest = drop count data
           in if rest = [] then [scan'] else scan' # write_chunks [] rest)"
  by pat_completeness auto
termination
  by (relation "measure (\<lambda>(s, d). 2 * length d + (if s = [] then 0 else 1))")
     (auto simp: Let_def kChunkSize_def)

declare write_chunks.simps [simp del]

definition StreamBuffer_write :: "StreamBuffer \<Rightarrow> bytes \<Rightarrow> StreamBuffer" where
  "StreamBuffer_write b data =
     (if data = [] then b
      else let (front, scan) =
             (if sb_chunks b = [] then ([], [])
              else if length (last (sb_chunks b)) \<ge> kChunkSize then (sb_chunks b, [])
              else (butlast (sb_chunks b), last (sb_chunks b)))
           in b\<lparr>sb_chunks := front @ write_chunks scan data,
                sb_size := (sb_size b + length data) mod two32\<rparr>)"

definition StreamBuffer_getSize :: "StreamBuffer \<Rightarrow> nat" where
  "StreamBuffer_getSize b = sb_size b"

section \<open>Invariant and abstraction\<close>

text \<open>The unread bytes.\<close>

definition sb_content :: "StreamBuffer \<Rightarrow> bytes" where
  "sb_content b = drop (sb_headUsed b) (concat (sb_chunks b))"

definition sb_wf :: "StreamBuffer \<Rightarrow> bool" where
  "sb_wf b \<longleftrightarrow>
     [] \<notin> set (sb_chunks b) \<and>
     (case sb_chunks b of [] \<Rightarrow> sb_headUsed b = 0 | c # cs \<Rightarrow> sb_headUsed b < length c) \<and>
     sb_size b = length (sb_content b) \<and> length (concat (sb_chunks b)) < two32"

text \<open>
  How much more may be written: the bytes the buffer still holds in memory (consumed bytes of
  the head chunk included) must stay below the range of \<^verbatim>\<open>UInt32\<close>.
\<close>

definition sb_room :: "StreamBuffer \<Rightarrow> nat \<Rightarrow> bool" where
  "sb_room b n \<longleftrightarrow> length (concat (sb_chunks b)) + n < two32"

lemma peek_consolidate_concat:
  "peek_consolidate u n h cs = (h', cs') \<Longrightarrow>
    h' @ concat cs' = h @ concat cs \<and> length h \<le> length h' \<and>
    (u \<le> length h \<and> n \<le> length h + length (concat cs) - u \<longrightarrow> n \<le> length h' - u) \<and>
    set cs' \<subseteq> set cs"
proof (induction u n h cs rule: peek_consolidate.induct)
  case (2 u n h c cs)
  then show ?case by (auto split: if_splits)
qed auto

lemma pop_chunks_ok:
  assumes "[] \<notin> set cs" and "case cs of [] \<Rightarrow> u = 0 | c # _ \<Rightarrow> u < length c"
    and "n < length (drop u (concat cs))"
  shows "\<exists>u' n' cs'. pop_chunks u n cs = Some (u', n', cs') \<and> [] \<notin> set cs' \<and> cs' \<noteq> [] \<and>
    u' + n' < length (hd cs') \<and> drop (u' + n') (concat cs') = drop (u + n) (concat cs) \<and>
    length (concat cs') \<le> length (concat cs)"
  using assms
proof (induction u n cs rule: pop_chunks.induct)
  case (2 u n c cs)
  show ?case
  proof (cases "length c - u \<le> n")
    case True
    let ?n = "n - (length c - u)"
    have u: "u < length c" using "2.prems"(2) by simp
    have "case cs of [] \<Rightarrow> (0::nat) = 0 | d # _ \<Rightarrow> 0 < length d"
      using "2.prems"(1) by (auto split: list.split)
    moreover have "?n < length (drop 0 (concat cs))" using "2.prems"(3) True u by simp
    moreover have "drop (u + n) (concat (c # cs)) = drop ?n (concat cs)"
      using True u by (simp add: add.commute)
    ultimately show ?thesis using "2.IH" [OF True] "2.prems"(1) True by fastforce
  next
    case False
    with "2.prems" show ?thesis by auto
  qed
qed auto

lemma concat_write_chunks [simp]: "concat (write_chunks s d) = s @ d"
  by (induction s d rule: write_chunks.induct)
     (subst write_chunks.simps, simp add: Let_def)

lemma write_chunks_nonempty:
  "length s < kChunkSize \<Longrightarrow> d \<noteq> [] \<Longrightarrow>
    [] \<notin> set (write_chunks s d) \<and> write_chunks s d \<noteq> [] \<and> length s \<le> length (hd (write_chunks s d))"
proof (induction s d rule: write_chunks.induct)
  case (1 s d)
  have "0 < kChunkSize" by (simp add: kChunkSize_def)
  then show ?case
    using 1 by (subst (1 2 3) write_chunks.simps) (auto simp: Let_def)
qed

section \<open>The chunk list is a byte queue\<close>

lemma sb_content_Cons:
  "sb_chunks b = c # cs \<Longrightarrow> sb_headUsed b \<le> length c \<Longrightarrow>
    sb_content b = drop (sb_headUsed b) c @ concat cs"
  by (simp add: sb_content_def)

lemma StreamBuffer_peek_ok:
  assumes wf: "sb_wf b" and n: "n \<le> length (sb_content b)"
  shows "\<exists>p b'. StreamBuffer_peek b n = Some (p, b') \<and> sb_wf b' \<and> sb_content b' = sb_content b \<and>
    n \<le> length p \<and> take n p = take n (sb_content b) \<and> (\<forall>k. sb_room b k \<longrightarrow> sb_room b' k)"
proof (cases "n = 0")
  case True
  with wf show ?thesis by (auto simp: StreamBuffer_peek_def)
next
  case False
  with n have "sb_content b \<noteq> []" by auto
  then obtain h cs where hcs: "sb_chunks b = h # cs"
    by (cases "sb_chunks b") (auto simp: sb_content_def)
  let ?u = "sb_headUsed b"
  obtain h' cs' where pc: "peek_consolidate ?u n h cs = (h', cs')" by force
  have u: "?u < length h" and ne: "[] \<notin> set (h # cs)" and sz: "sb_size b = length (sb_content b)"
    using wf hcs by (auto simp: sb_wf_def)
  note pc' = peek_consolidate_concat [OF pc]
  have len: "n \<le> length h' - ?u" and eq: "h' @ concat cs' = h @ concat cs"
    and le: "length h \<le> length h'" and sub: "set cs' \<subseteq> set cs"
    using pc' n u hcs by (auto simp: sb_content_def)
  let ?b = "b\<lparr>sb_chunks := h' # cs'\<rparr>"
  have same: "sb_content ?b = sb_content b" by (simp add: sb_content_def hcs eq)
  have "h' \<noteq> []" using le u by auto
  then have "sb_wf ?b"
    using wf hcs same eq le u sub ne by (auto simp: sb_wf_def)
  moreover have "take n (drop ?u h') = take n (sb_content b)"
    using len le u by (simp add: same [symmetric] sb_content_Cons [of ?b])
  moreover have "sb_room ?b k = sb_room b k" for k by (simp add: sb_room_def hcs eq)
  moreover have "StreamBuffer_peek b n = Some (drop ?u h', ?b)"
    using False n sz hcs pc by (simp add: StreamBuffer_peek_def)
  ultimately show ?thesis using same len by auto
qed

lemma StreamBuffer_pop_ok:
  assumes wf: "sb_wf b"
  shows "\<exists>b'. StreamBuffer_pop b n = Some b' \<and> sb_wf b' \<and> sb_content b' = drop n (sb_content b) \<and>
    (\<forall>k. sb_room b k \<longrightarrow> sb_room b' k)"
proof (cases "sb_size b \<le> n")
  case True
  with wf show ?thesis
    by (auto simp: StreamBuffer_pop_def sb_wf_def sb_content_def sb_room_def)
next
  case False
  have pre: "[] \<notin> set (sb_chunks b)"
    "case sb_chunks b of [] \<Rightarrow> sb_headUsed b = 0 | c # _ \<Rightarrow> sb_headUsed b < length c"
    "n < length (drop (sb_headUsed b) (concat (sb_chunks b)))"
    using wf False by (auto simp: sb_wf_def sb_content_def split: list.splits)
  obtain u n' cs where r: "pop_chunks (sb_headUsed b) n (sb_chunks b) = Some (u, n', cs)"
    "[] \<notin> set cs" "cs \<noteq> []" "u + n' < length (hd cs)"
    "drop (u + n') (concat cs) = drop (sb_headUsed b + n) (concat (sb_chunks b))"
    "length (concat cs) \<le> length (concat (sb_chunks b))"
    using pop_chunks_ok [OF pre] by blast
  have tot: "length (concat cs) < two32" using r(6) wf by (simp add: sb_wf_def)
  have "length (hd cs) \<le> length (concat cs)" using r(3) by (cases cs) auto
  then have "u + n' < two32" using r(4) tot by linarith
  then have used: "(if 0 < n' then (u + n') mod two32 else u) = u + n'" by simp
  let ?b = "\<lparr>sb_chunks = cs, sb_size = sb_size b - n, sb_headUsed = u + n'\<rparr>"
  have c: "sb_content ?b = drop n (sb_content b)"
    using r(5) by (simp add: sb_content_def add.commute)
  then have "sb_wf ?b"
    using wf r(2,3,4) tot by (cases cs) (auto simp: sb_wf_def)
  moreover have "StreamBuffer_pop b n = Some ?b"
    using False r(1) used by (simp add: StreamBuffer_pop_def)
  ultimately show ?thesis using c r(6) by (auto simp: sb_room_def)
qed

lemma StreamBuffer_write_chunks:
  assumes "sb_wf b" and "d \<noteq> []"
  shows "concat (sb_chunks (StreamBuffer_write b d)) = concat (sb_chunks b) @ d \<and>
    [] \<notin> set (sb_chunks (StreamBuffer_write b d)) \<and>
    (case sb_chunks (StreamBuffer_write b d) of [] \<Rightarrow> sb_headUsed b = 0
     | c # cs \<Rightarrow> sb_headUsed b < length c)"
proof -
  have k: "0 < kChunkSize" by (simp add: kChunkSize_def)
  consider (none) "sb_chunks b = []"
    | (full) "sb_chunks b \<noteq> []" "kChunkSize \<le> length (last (sb_chunks b))"
    | (part) xs c where "sb_chunks b = xs @ [c]" "length c < kChunkSize"
    by (metis append_butlast_last_id not_le)
  then show ?thesis
  proof cases
    case none
    with assms k write_chunks_nonempty [of "[]" d] show ?thesis
      by (auto simp: StreamBuffer_write_def sb_wf_def split: list.splits)
  next
    case full
    with assms k write_chunks_nonempty [of "[]" d] show ?thesis
      by (cases "sb_chunks b") (auto simp: StreamBuffer_write_def sb_wf_def)
  next
    case part
    with assms write_chunks_nonempty [of c d] concat_write_chunks [of c d] show ?thesis
      by (cases xs; cases "write_chunks c d")
         (auto simp: StreamBuffer_write_def sb_wf_def simp del: concat_write_chunks)
  qed
qed

lemma StreamBuffer_write_ok:
  assumes wf: "sb_wf b" and room: "sb_room b (length d + k)"
  shows "sb_wf (StreamBuffer_write b d) \<and> sb_content (StreamBuffer_write b d) = sb_content b @ d \<and>
    sb_room (StreamBuffer_write b d) k"
proof (cases "d = []")
  case True
  with wf room show ?thesis by (simp add: StreamBuffer_write_def)
next
  case False
  note w = StreamBuffer_write_chunks [OF wf False]
  let ?b = "StreamBuffer_write b d"
  have used: "sb_headUsed ?b = sb_headUsed b"
    by (simp add: StreamBuffer_write_def split: prod.split)
  have "sb_headUsed b \<le> length (concat (sb_chunks b))"
    using wf by (auto simp: sb_wf_def split: list.splits)
  then have c: "sb_content ?b = sb_content b @ d"
    using w used by (simp add: sb_content_def)
  have "sb_size ?b = (sb_size b + length d) mod two32"
    using False by (simp add: StreamBuffer_write_def split: prod.split)
  moreover have "sb_size b + length d < two32"
    using wf room by (simp add: sb_wf_def sb_room_def sb_content_def)
  ultimately have "sb_size ?b = length (sb_content ?b)"
    using wf c by (simp add: sb_wf_def)
  then show ?thesis
    using w c used room unfolding sb_wf_def sb_room_def by (auto split: list.splits)
qed

lemma StreamBuffer_getSize_ok: "sb_wf b \<Longrightarrow> StreamBuffer_getSize b = length (sb_content b)"
  by (simp add: StreamBuffer_getSize_def sb_wf_def)

interpretation sb: byte_fifo StreamBuffer_new StreamBuffer_write StreamBuffer_peek StreamBuffer_pop
  StreamBuffer_getSize sb_content sb_wf sb_room
proof unfold_locales
  show "sb_wf StreamBuffer_new" and "sb_content StreamBuffer_new = []"
    by (simp_all add: StreamBuffer_new_def sb_wf_def sb_content_def)
next
  fix b and d :: bytes assume "sb_wf b" and "sb_room b (length d)"
  then show "sb_wf (StreamBuffer_write b d)"
    and "sb_content (StreamBuffer_write b d) = sb_content b @ d"
    using StreamBuffer_write_ok [of b d 0] by simp_all
next
  fix b and d :: bytes and k assume "sb_wf b" and "sb_room b (length d + k)"
  then show "sb_room (StreamBuffer_write b d) k"
    using StreamBuffer_write_ok by blast
next
  fix b k j assume "sb_room b k" and "j \<le> k"
  then show "sb_room b j" by (simp add: sb_room_def)
next
  fix b n assume "sb_wf b" and "length (sb_content b) < n"
  then show "StreamBuffer_peek b n = None"
    by (simp add: StreamBuffer_peek_def sb_wf_def)
qed (rule StreamBuffer_peek_ok StreamBuffer_pop_ok StreamBuffer_getSize_ok; assumption)+

section \<open>Runs of operations\<close>

datatype sb_op = Put bytes | Peek nat | Discard nat

text \<open>The bytes each peek of a run sees; \<open>None\<close> when an assertion of the code fails.\<close>

fun sb_run :: "StreamBuffer \<Rightarrow> sb_op list \<Rightarrow> bytes list option" where
  "sb_run b [] = Some []"
| "sb_run b (Put d # ops) = sb_run (StreamBuffer_write b d) ops"
| "sb_run b (Peek n # ops) =
     (case StreamBuffer_peek b n of None \<Rightarrow> None
      | Some (p, b') \<Rightarrow> map_option (Cons (take n p)) (sb_run b' ops))"
| "sb_run b (Discard n # ops) =
     (case StreamBuffer_pop b n of None \<Rightarrow> None | Some b' \<Rightarrow> sb_run b' ops)"

fun queue_run :: "bytes \<Rightarrow> sb_op list \<Rightarrow> bytes list option" where
  "queue_run q [] = Some []"
| "queue_run q (Put d # ops) = queue_run (q @ d) ops"
| "queue_run q (Peek n # ops) =
     (if length q < n then None else map_option (Cons (take n q)) (queue_run q ops))"
| "queue_run q (Discard n # ops) = queue_run (drop n q) ops"

fun put_bytes :: "sb_op list \<Rightarrow> nat" where
  "put_bytes [] = 0"
| "put_bytes (Put d # ops) = length d + put_bytes ops"
| "put_bytes (_ # ops) = put_bytes ops"

lemma sb_run_queue_run:
  "sb_wf b \<Longrightarrow> sb_room b (put_bytes ops) \<Longrightarrow> sb_run b ops = queue_run (sb_content b) ops"
proof (induction b ops rule: sb_run.induct)
  case (2 b d ops)
  then have "sb_room b (length d)" by (auto elim: sb.room_mono)
  with 2 show ?case by (simp add: sb.wf_put sb.content_put sb.room_put)
next
  case (3 b n ops)
  show ?case
  proof (cases "length (sb_content b) < n")
    case True
    with 3 show ?thesis by (simp add: sb.peek_fail)
  next
    case False
    with 3 sb.peek_ok [of b n] show ?thesis by fastforce
  qed
next
  case (4 b n ops)
  with sb.discard_ok [of b n] show ?case by fastforce
qed simp

text \<open>
  C2.  Whatever sequence of writes, peeks and pops is run on a new \<^verbatim>\<open>StreamBuffer\<close>, every peek sees
  exactly the bytes a plain first-in first-out queue would hold, and an assertion fails exactly
  when more bytes are peeked than are queued, as long as fewer than \<open>2 ^ 32\<close> bytes are written.
\<close>

theorem StreamBuffer_is_fifo:
  assumes "put_bytes ops < two32"
  shows "sb_run StreamBuffer_new ops = queue_run [] ops"
  using sb_run_queue_run [OF sb.wf_empty, of ops] assms
  unfolding sb.content_empty by (simp add: sb_room_def StreamBuffer_new_def)

theorem StreamBuffer_is_fifo_witness:
  "sb_run StreamBuffer_new [Put [1, 2, 3], Discard 1, Put [4], Peek 3] = Some [[2, 3, 4]]"
  using StreamBuffer_is_fifo [of "[Put [1, 2, 3], Discard 1, Put [4], Peek 3]"] by simp

end
