(* ===== verification/Byte_Source.thy ===== *)
theory Byte_Source
  imports Barrier_Prelude
begin

text \<open>
  The reading half of the stream interface \<^verbatim>\<open>barrier::IStream\<close> (\<^verbatim>\<open>io/IStream.h\<close>) as a locale.
  \<open>sread s n\<close> is \<^verbatim>\<open>read(buffer, n)\<close>: the bytes stored into the buffer and the stream afterwards,
  or \<open>None\<close> when an assertion of the implementation fails.  \<open>avail\<close> is what the stream can
  still deliver without further input.  \<^verbatim>\<open>ProtocolUtil\<close> is proved correct for every stream that
  keeps these laws; the packet filter is shown to keep them where it is modelled.
\<close>

locale byte_source =
  fixes sread :: "'s \<Rightarrow> nat \<Rightarrow> (bytes \<times> 's) option"
    and avail :: "'s \<Rightarrow> bytes"
    and ok :: "'s \<Rightarrow> bool"
  assumes sread_ok: "ok s \<Longrightarrow>
    \<exists>d s'. sread s n = Some (d, s') \<and> ok s' \<and> avail s = d @ avail s' \<and> length d \<le> n \<and>
      (0 < n \<and> avail s \<noteq> [] \<longrightarrow> d \<noteq> [])"
begin

lemma sread_cases:
  assumes "ok s"
  obtains d s' where "sread s n = Some (d, s')" "ok s'" "avail s = d @ avail s'" "length d \<le> n"
    "0 < n \<Longrightarrow> avail s \<noteq> [] \<Longrightarrow> d \<noteq> []"
  using sread_ok [OF assms, of n] by blast

end

text \<open>
  The simplest stream: a byte string that is read from the front.  It is what remains of a
  packet once its payload has been handed over, and it makes the protocol functions
  executable on concrete input.
\<close>

definition bytes_read :: "bytes \<Rightarrow> nat \<Rightarrow> (bytes \<times> bytes) option" where
  "bytes_read s n = Some (take n s, drop n s)"

interpretation bytes_src: byte_source bytes_read "\<lambda>s. s" "\<lambda>_. True"
  by unfold_locales (auto simp: bytes_read_def)

end
