(* ===== verification/Packet_Stream.thy ===== *)
theory Packet_Stream
  imports Stream_Buffer Byte_Source
begin

text \<open>
  The packetizing filter of \<^verbatim>\<open>barrier/PacketStreamFilter.cpp\<close>.  Each message on the wire is a
  four byte big-endian length followed by the payload.  The state is the filter's fields plus
  a log of what it does to the rest of the program (events queued or dispatched, bytes
  written to the filtered stream).  The filtered stream below is the environment: \<open>readMore\<close>
  takes the blocks that the successive calls \<^verbatim>\<open>getStream()->read(buffer, 4096)\<close> return.
\<close>

datatype stream_event = InputReady | InputShutdown | InputFormatError | OtherEvent nat

datatype stream_action =
    AddEvent stream_event
  | Dispatch stream_event
  | StreamWrite bytes
  | StreamClose
  | StreamShutdownInput

record PacketStreamFilter =
  psf_size :: nat
  psf_buffer :: StreamBuffer
  psf_inputShutdown :: bool
  psf_log :: "stream_action list"

definition PROTOCOL_MAX_MESSAGE_LENGTH :: nat where
  "PROTOCOL_MAX_MESSAGE_LENGTH = 4 * 1024 * 1024"

definition PacketStreamFilter_new :: PacketStreamFilter where
  "PacketStreamFilter_new =
     \<lparr>psf_size = 0, psf_buffer = StreamBuffer_new, psf_inputShutdown = False, psf_log = []\<rparr>"

definition psf_do :: "stream_action \<Rightarrow> PacketStreamFilter \<Rightarrow> PacketStreamFilter" where
  "psf_do a f = f\<lparr>psf_log := psf_log f @ [a]\<rparr>"

section \<open>Operations\<close>

definition isReadyNoLock :: "PacketStreamFilter \<Rightarrow> bool" where
  "isReadyNoLock f \<longleftrightarrow> psf_size f \<noteq> 0 \<and> StreamBuffer_getSize (psf_buffer f) \<ge> psf_size f"

definition PacketStreamFilter_isReady :: "PacketStreamFilter \<Rightarrow> bool" where
  "PacketStreamFilter_isReady f = isReadyNoLock f"

definition PacketStreamFilter_getSize :: "PacketStreamFilter \<Rightarrow> nat" where
  "PacketStreamFilter_getSize f = (if isReadyNoLock f then psf_size f else 0)"

text \<open>\<^verbatim>\<open>readPacketSize\<close>: the flag is its result, false on an erroneous packet size.\<close>

definition readPacketSize :: "PacketStreamFilter \<Rightarrow> (bool \<times> PacketStreamFilter) option" where
  "readPacketSize f =
     (if psf_size f = 0 \<and> StreamBuffer_getSize (psf_buffer f) \<ge> 4 then
        case StreamBuffer_peek (psf_buffer f) 4 of
          None \<Rightarrow> None
        | Some (p, b1) \<Rightarrow>
            (case StreamBuffer_pop b1 4 of
               None \<Rightarrow> None
             | Some b2 \<Rightarrow>
                 let sz = unat (readBE32 p); f' = f\<lparr>psf_buffer := b2, psf_size := sz\<rparr>
                 in if sz > PROTOCOL_MAX_MESSAGE_LENGTH
                    then Some (False, psf_do (AddEvent InputFormatError) f')
                    else Some (True, f'))
      else Some (True, f))"

text \<open>\<^verbatim>\<open>read\<close> into a non-null buffer: the bytes copied and the filter afterwards.\<close>

definition PacketStreamFilter_read ::
    "PacketStreamFilter \<Rightarrow> nat \<Rightarrow> (bytes \<times> PacketStreamFilter) option" where
  "PacketStreamFilter_read f n0 =
     (if n0 = 0 then Some ([], f)
      else if \<not> isReadyNoLock f then Some ([], f)
      else
        let n = (if n0 > psf_size f then psf_size f else n0) in
        case StreamBuffer_peek (psf_buffer f) n of
          None \<Rightarrow> None
        | Some (p, b1) \<Rightarrow>
            (case StreamBuffer_pop b1 n of
               None \<Rightarrow> None
             | Some b2 \<Rightarrow>
                 (case readPacketSize (f\<lparr>psf_buffer := b2, psf_size := psf_size f - n\<rparr>) of
                    None \<Rightarrow> None
                  | Some (_, f') \<Rightarrow>
                      Some (take n p,
                        if psf_inputShutdown f' \<and> psf_size f' = 0
                        then psf_do (AddEvent InputShutdown) f' else f'))))"

definition PacketStreamFilter_write :: "PacketStreamFilter \<Rightarrow> bytes \<Rightarrow> PacketStreamFilter" where
  "PacketStreamFilter_write f buffer =
     psf_do (StreamWrite buffer)
       (psf_do (StreamWrite (writeUInt32 (word_of_nat (length buffer)))) f)"

definition PacketStreamFilter_close :: "PacketStreamFilter \<Rightarrow> PacketStreamFilter option" where
  "PacketStreamFilter_close f =
     (case StreamBuffer_pop (psf_buffer f) (StreamBuffer_getSize (psf_buffer f)) of
        None \<Rightarrow> None
      | Some b \<Rightarrow> Some (psf_do StreamClose (f\<lparr>psf_size := 0, psf_buffer := b\<rparr>)))"

definition PacketStreamFilter_shutdownInput ::
    "PacketStreamFilter \<Rightarrow> PacketStreamFilter option" where
  "PacketStreamFilter_shutdownInput f =
     (case StreamBuffer_pop (psf_buffer f) (StreamBuffer_getSize (psf_buffer f)) of
        None \<Rightarrow> None
      | Some b \<Rightarrow> Some (psf_do StreamShutdownInput (f\<lparr>psf_size := 0, psf_buffer := b\<rparr>)))"

text \<open>
  The loop of \<^verbatim>\<open>readMore\<close>: it stops when the stream returns no data or when a packet size is
  erroneous; the blocks not read stay with the stream.
\<close>

fun readMore_loop ::
    "PacketStreamFilter \<Rightarrow> bytes list \<Rightarrow> (PacketStreamFilter \<times> bytes list) option" where
  "readMore_loop f [] = Some (f, [])"
| "readMore_loop f (d # ds) =
     (if d = [] then Some (f, ds)
      else case readPacketSize (f\<lparr>psf_buffer := StreamBuffer_write (psf_buffer f) d\<rparr>) of
        None \<Rightarrow> None
      | Some (okay, f') \<Rightarrow> if okay then readMore_loop f' ds else Some (f', ds))"

definition readMore ::
    "PacketStreamFilter \<Rightarrow> bytes list \<Rightarrow> (bool \<times> PacketStreamFilter \<times> bytes list) option" where
  "readMore f ds =
     (case readMore_loop f ds of
        None \<Rightarrow> None
      | Some (f', rest) \<Rightarrow> Some (isReadyNoLock f \<noteq> isReadyNoLock f', f', rest))"

definition PacketStreamFilter_filterEvent ::
    "PacketStreamFilter \<Rightarrow> stream_event \<Rightarrow> bytes list \<Rightarrow> (PacketStreamFilter \<times> bytes list) option" where
  "PacketStreamFilter_filterEvent f ev ds =
     (if ev = InputReady then
        (case readMore f ds of
           None \<Rightarrow> None
         | Some (changed, f', rest) \<Rightarrow>
             if changed then Some (psf_do (Dispatch ev) f', rest) else Some (f', rest))
      else if ev = InputShutdown then
        (let f' = f\<lparr>psf_inputShutdown := True\<rparr>
         in if psf_size f' \<noteq> 0 then Some (f', ds) else Some (psf_do (Dispatch ev) f', ds))
      else Some (psf_do (Dispatch ev) f, ds))"

section \<open>Invariant and the bytes still to be delivered\<close>

definition psf_content :: "PacketStreamFilter \<Rightarrow> bytes" where
  "psf_content f = sb_content (psf_buffer f)"

definition psf_wf :: "PacketStreamFilter \<Rightarrow> bool" where
  "psf_wf f \<longleftrightarrow> sb_wf (psf_buffer f)"

text \<open>A message as it travels: length, then payload.\<close>

definition frame :: "bytes \<Rightarrow> bytes" where
  "frame p = writeUInt32 (word_of_nat (length p)) @ p"

text \<open>What the reads will hand over of a byte string that starts with a length.\<close>

function deliverable :: "bytes \<Rightarrow> bytes" where
  "deliverable w =
     (if length w < 4 then []
      else let n = unat (readBE32 w)
           in if n = 0 \<or> length w < 4 + n then []
              else take n (drop 4 w) @ deliverable (drop (4 + n) w))"
  by pat_completeness auto
termination
  by (relation "measure length") auto

declare deliverable.simps [simp del]

definition psf_avail :: "PacketStreamFilter \<Rightarrow> bytes" where
  "psf_avail f =
     (if psf_size f = 0 \<or> length (psf_content f) < psf_size f then []
      else take (psf_size f) (psf_content f) @ deliverable (drop (psf_size f) (psf_content f)))"

lemma psf_do_simps [simp]:
  "psf_size (psf_do a f) = psf_size f" "psf_buffer (psf_do a f) = psf_buffer f"
  "psf_inputShutdown (psf_do a f) = psf_inputShutdown f"
  "psf_content (psf_do a f) = psf_content f" "psf_wf (psf_do a f) = psf_wf f"
  "psf_avail (psf_do a f) = psf_avail f" "isReadyNoLock (psf_do a f) = isReadyNoLock f"
  by (simp_all add: psf_do_def psf_content_def psf_wf_def psf_avail_def isReadyNoLock_def)

lemma isReady_iff:
  "psf_wf f \<Longrightarrow> isReadyNoLock f \<longleftrightarrow> psf_size f \<noteq> 0 \<and> psf_size f \<le> length (psf_content f)"
  by (simp add: isReadyNoLock_def psf_wf_def psf_content_def sb.count_ok)

lemma readBE32_take:
  assumes "take 4 p = take 4 w"
  shows "readBE32 p = readBE32 w"
proof -
  have "p ! i = w ! i" if "i < 4" for i
    using assms that by (metis nth_take)
  then show ?thesis by (simp add: readBE32_def)
qed

text \<open>What \<^verbatim>\<open>readPacketSize\<close> does on the abstract content.\<close>

lemma readPacketSize_noop:
  "psf_wf f \<Longrightarrow> psf_size f \<noteq> 0 \<or> length (psf_content f) < 4 \<Longrightarrow> readPacketSize f = Some (True, f)"
  by (auto simp: readPacketSize_def psf_wf_def psf_content_def sb.count_ok)

lemma readPacketSize_header:
  assumes wf: "psf_wf f" and z: "psf_size f = 0" and four: "4 \<le> length (psf_content f)"
  shows "\<exists>f'. readPacketSize f = Some (unat (readBE32 (psf_content f)) \<le> PROTOCOL_MAX_MESSAGE_LENGTH, f') \<and>
    psf_wf f' \<and> psf_size f' = unat (readBE32 (psf_content f)) \<and> psf_content f' = drop 4 (psf_content f) \<and>
    psf_inputShutdown f' = psf_inputShutdown f \<and>
    psf_log f' = psf_log f @ (if psf_size f' \<le> PROTOCOL_MAX_MESSAGE_LENGTH then [] else [AddEvent InputFormatError]) \<and>
    (\<forall>k. sb_room (psf_buffer f) k \<longrightarrow> sb_room (psf_buffer f') k)"
proof -
  from wf have sbwf: "sb_wf (psf_buffer f)" by (simp add: psf_wf_def)
  from four have four': "4 \<le> length (sb_content (psf_buffer f))" by (simp add: psf_content_def)
  obtain p b1 b2 where pp: "StreamBuffer_peek (psf_buffer f) 4 = Some (p, b1)"
    "take 4 p = take 4 (sb_content (psf_buffer f))" "4 \<le> length p" "StreamBuffer_pop b1 4 = Some b2"
    "sb_wf b2" "sb_content b2 = drop 4 (sb_content (psf_buffer f))"
    "\<forall>k. sb_room (psf_buffer f) k \<longrightarrow> sb_room b2 k"
    using sb.fetch [OF sbwf four'] by (elim exE conjE) (rule that)
  have hd: "readBE32 p = readBE32 (sb_content (psf_buffer f))"
    using pp(2) by (rule readBE32_take)
  let ?f = "f\<lparr>psf_buffer := b2, psf_size := unat (readBE32 p)\<rparr>"
  let ?ok = "unat (readBE32 p) \<le> PROTOCOL_MAX_MESSAGE_LENGTH"
  have "readPacketSize f = Some (?ok, if ?ok then ?f else psf_do (AddEvent InputFormatError) ?f)"
    using z four' pp(1,4) sbwf by (simp add: readPacketSize_def sb.count_ok Let_def)
  then show ?thesis
    using pp(5,6,7) hd by (auto simp: psf_wf_def psf_content_def psf_do_def)
qed

lemma readPacketSize_avail:
  assumes wf: "psf_wf f" and r: "readPacketSize f = Some (okay, f')"
  shows "psf_wf f' \<and> psf_avail f' = (if psf_size f = 0 then deliverable (psf_content f) else psf_avail f)"
proof (cases "psf_size f = 0 \<and> 4 \<le> length (psf_content f)")
  case True
  then have "psf_wf f'" "psf_size f' = unat (readBE32 (psf_content f))"
    "psf_content f' = drop 4 (psf_content f)"
    using readPacketSize_header [OF wf] r by auto
  with True show ?thesis
    by (subst deliverable.simps) (auto simp: psf_avail_def Let_def drop_drop add.commute)
next
  case False
  moreover have "deliverable (psf_content f) = []" if "length (psf_content f) < 4"
    using that by (subst deliverable.simps) simp
  ultimately show ?thesis
    using readPacketSize_noop [OF wf] r wf by (auto simp: psf_avail_def)
qed

lemma readPacketSize_total: "psf_wf f \<Longrightarrow> \<exists>okay f'. readPacketSize f = Some (okay, f')"
  using readPacketSize_noop [of f] readPacketSize_header [of f] by (meson leI)

section \<open>Reading\<close>

text \<open>
  What a read does when a whole packet is buffered: it returns a prefix of the packet, and
  when the packet is used up the next packet size is taken from the rest (\<open>f1\<close> is the filter
  just before that).
\<close>

lemma PacketStreamFilter_read_ready:
  assumes wf: "psf_wf f" and ready: "isReadyNoLock f" and n: "0 < n"
  obtains f1 okay f2 f' where
    "PacketStreamFilter_read f n = Some (take (min n (psf_size f)) (psf_content f), f')"
    "psf_size f1 = psf_size f - n" "psf_content f1 = drop (min n (psf_size f)) (psf_content f)"
    "psf_wf f1" "readPacketSize f1 = Some (okay, f2)"
    "psf_wf f'" "psf_size f' = psf_size f2" "psf_content f' = psf_content f2"
    "psf_avail f' = psf_avail f2"
proof -
  let ?n = "min n (psf_size f)"
  have len: "?n \<le> length (sb_content (psf_buffer f))" and sbwf: "sb_wf (psf_buffer f)"
    using ready wf by (auto simp: isReady_iff psf_content_def psf_wf_def)
  obtain p b1 b2 where pp: "StreamBuffer_peek (psf_buffer f) ?n = Some (p, b1)"
    "take ?n p = take ?n (sb_content (psf_buffer f))" "?n \<le> length p" "StreamBuffer_pop b1 ?n = Some b2"
    "sb_wf b2" "sb_content b2 = drop ?n (sb_content (psf_buffer f))"
    "\<forall>k. sb_room (psf_buffer f) k \<longrightarrow> sb_room b2 k"
    using sb.fetch [OF sbwf len] by (elim exE conjE) (rule that)
  let ?f1 = "f\<lparr>psf_buffer := b2, psf_size := psf_size f - ?n\<rparr>"
  have f1: "psf_wf ?f1" using pp(5) by (simp add: psf_wf_def)
  obtain okay f2 where r: "readPacketSize ?f1 = Some (okay, f2)" "psf_wf f2"
    using readPacketSize_total [OF f1] readPacketSize_avail [OF f1] by blast
  let ?f' = "if psf_inputShutdown f2 \<and> psf_size f2 = 0 then psf_do (AddEvent InputShutdown) f2 else f2"
  have min: "(if n > psf_size f then psf_size f else n) = ?n" by auto
  have "PacketStreamFilter_read f n = Some (take ?n (psf_content f), ?f')"
    using ready n pp(1,2,4) r(1)
    by (simp add: PacketStreamFilter_read_def min Let_def psf_content_def del: min_less_iff_conj)
  then show thesis
    by (rule that [where ?f1.0 = ?f1 and ?f2.0 = f2 and okay = okay])
       (use f1 r pp(6) in \<open>auto simp: psf_content_def min_def\<close>)
qed

lemma PacketStreamFilter_read_ok:
  assumes wf: "psf_wf f"
  shows "\<exists>d f'. PacketStreamFilter_read f n = Some (d, f') \<and> psf_wf f' \<and> psf_avail f = d @ psf_avail f' \<and>
    length d \<le> n \<and> (0 < n \<and> psf_avail f \<noteq> [] \<longrightarrow> d \<noteq> [])"
proof (cases "0 < n \<and> isReadyNoLock f")
  case False
  then have "PacketStreamFilter_read f n = Some ([], f)" by (auto simp: PacketStreamFilter_read_def)
  moreover have "n = 0 \<or> psf_avail f = []"
    using False wf by (auto simp: isReady_iff psf_avail_def)
  ultimately show ?thesis using wf by auto
next
  case True
  then obtain f1 okay f2 f' where r:
    "PacketStreamFilter_read f n = Some (take (min n (psf_size f)) (psf_content f), f')"
    "psf_size f1 = psf_size f - n" "psf_content f1 = drop (min n (psf_size f)) (psf_content f)"
    "psf_wf f1" "readPacketSize f1 = Some (okay, f2)" "psf_wf f'" "psf_avail f' = psf_avail f2"
    using PacketStreamFilter_read_ready [OF wf, of n] by metis
  have ready: "psf_size f \<noteq> 0" "psf_size f \<le> length (psf_content f)"
    using True wf by (auto simp: isReady_iff)
  have "psf_avail f = take (min n (psf_size f)) (psf_content f) @ psf_avail f'"
  proof (cases "psf_size f \<le> n")
    case True
    then show ?thesis
      using r(2,3,7) readPacketSize_avail [OF r(4,5)] ready by (simp add: psf_avail_def min_def)
  next
    case False
    then have "take (psf_size f) (psf_content f) =
        take n (psf_content f) @ take (psf_size f - n) (drop n (psf_content f))"
      by (metis add_diff_inverse_nat less_or_eq_imp_le not_le take_add)
    then show ?thesis
      using False r(2,3,7) readPacketSize_avail [OF r(4,5)] ready
      by (auto simp: psf_avail_def min_def)
  qed
  then show ?thesis using r(1,6) ready True by auto
qed

text \<open>The filter is a byte source for the protocol layer.\<close>

interpretation psf_src: byte_source PacketStreamFilter_read psf_avail psf_wf
  by unfold_locales (rule PacketStreamFilter_read_ok)

section \<open>Framing\<close>

definition good_packet :: "bytes \<Rightarrow> bool" where
  "good_packet p \<longleftrightarrow> p \<noteq> [] \<and> length p \<le> PROTOCOL_MAX_MESSAGE_LENGTH"

text \<open>The bytes on the wire that the state stands for: the size already taken off is put back.\<close>

definition psf_wire :: "PacketStreamFilter \<Rightarrow> bytes" where
  "psf_wire f = (if psf_size f = 0 then [] else writeUInt32 (word_of_nat (psf_size f))) @ psf_content f"

text \<open>A filter that has taken the size of the next packet if it could.\<close>

definition psf_settled :: "PacketStreamFilter \<Rightarrow> bool" where
  "psf_settled f \<longleftrightarrow> psf_wf f \<and> psf_size f < two32 \<and> (psf_size f \<noteq> 0 \<or> length (psf_content f) < 4)"

definition frames :: "bytes list \<Rightarrow> bytes" where
  "frames ps = concat (map frame ps)"

lemma frames_simps [simp]: "frames [] = []" "frames (p # ps) = frame p @ frames ps"
  by (simp_all add: frames_def)

lemma good_packet_size: "good_packet p \<Longrightarrow> 0 < length p \<and> length p < two32"
  by (auto simp: good_packet_def PROTOCOL_MAX_MESSAGE_LENGTH_def)

lemma length_frame [simp]: "length (frame p) = 4 + length p"
  by (simp add: frame_def)

lemma unat_word_of_nat32: "n < two32 \<Longrightarrow> unat (word_of_nat n :: UInt32) = n"
  by (simp add: unat_of_nat take_bit_nat_eq_self_iff)

lemma readBE32_frame: "good_packet p \<Longrightarrow> unat (readBE32 (frame p @ w)) = length p"
  by (simp add: frame_def readBE32_write unat_word_of_nat32 good_packet_size)

lemma drop_frame [simp]: "drop 4 (frame p) = p"
  by (simp add: frame_def)

lemma deliverable_frames: "\<forall>p \<in> set ps. good_packet p \<Longrightarrow> deliverable (frames ps) = concat ps"
proof (induction ps)
  case Nil
  show ?case by (subst deliverable.simps) simp
next
  case (Cons p ps)
  then have gp: "good_packet p" by simp
  have "drop (4 + length p) (frame p @ frames ps) = frames ps" by simp
  with Cons gp good_packet_size [OF gp] show ?case
    by (subst deliverable.simps) (simp add: readBE32_frame Let_def)
qed

text \<open>
  One block of input: if what has arrived so far is a prefix of well-formed frames, the size
  taken from it is the size of the first frame, so it is accepted and nothing is lost.
\<close>

lemma readPacketSize_prefix:
  assumes wf: "psf_wf f" and small: "psf_size f < two32" and good: "\<forall>p \<in> set ps. good_packet p"
    and pre: "psf_wire f @ w = frames ps"
  shows "\<exists>f'. readPacketSize f = Some (True, f') \<and> psf_settled f' \<and> psf_wire f' = psf_wire f \<and>
    psf_log f' = psf_log f \<and> (\<forall>k. sb_room (psf_buffer f) k \<longrightarrow> sb_room (psf_buffer f') k)"
proof (cases "psf_size f = 0 \<and> 4 \<le> length (psf_content f)")
  case False
  then show ?thesis
    using readPacketSize_noop [OF wf] wf small by (auto simp: psf_settled_def)
next
  case True
  then have c: "psf_content f @ w = frames ps" using pre by (simp add: psf_wire_def)
  then obtain p qs where ps: "ps = p # qs"
    using True by (cases ps) auto
  with good have gp: "good_packet p" by simp
  have "take 4 (psf_content f) = take 4 (frame p @ frames qs)"
    using c True ps by (metis append.right_neutral diff_is_0_eq frames_simps(2) take_0 take_append)
  then have sz: "unat (readBE32 (psf_content f)) = length p"
    using readBE32_take [of "psf_content f" "frame p @ frames qs"] readBE32_frame [OF gp] by simp
  obtain f' where r: "readPacketSize f = Some (length p \<le> PROTOCOL_MAX_MESSAGE_LENGTH, f')"
    "psf_wf f'" "psf_size f' = length p" "psf_content f' = drop 4 (psf_content f)"
    "psf_log f' = psf_log f" "\<forall>k. sb_room (psf_buffer f) k \<longrightarrow> sb_room (psf_buffer f') k"
    using readPacketSize_header [OF wf] True gp sz by (auto simp: good_packet_def)
  have "take 4 (psf_content f) = writeUInt32 (word_of_nat (length p))"
    using \<open>take 4 (psf_content f) = _\<close> by (simp add: frame_def)
  then have "psf_wire f' = psf_wire f"
    using r(3,4) True good_packet_size [OF gp] by (simp add: psf_wire_def) (metis append_take_drop_id)
  with r good_packet_size [OF gp] gp show ?thesis
    by (auto simp: psf_settled_def good_packet_def)
qed

lemma readMore_loop_frames:
  assumes "psf_settled f" and "\<forall>p \<in> set ps. good_packet p" and "\<forall>d \<in> set ds. d \<noteq> []"
    and "psf_wire f @ concat ds @ w = frames ps" and "sb_room (psf_buffer f) (length (concat ds))"
  shows "\<exists>f'. readMore_loop f ds = Some (f', []) \<and> psf_settled f' \<and>
    psf_wire f' = psf_wire f @ concat ds \<and> psf_log f' = psf_log f"
  using assms
proof (induction ds arbitrary: f)
  case Nil
  then show ?case by simp
next
  case (Cons d ds)
  let ?f = "f\<lparr>psf_buffer := StreamBuffer_write (psf_buffer f) d\<rparr>"
  have wf: "sb_wf (psf_buffer f)" using Cons.prems(1) by (simp add: psf_settled_def psf_wf_def)
  have room: "sb_room (psf_buffer f) (length d)"
    using Cons.prems(5) by (auto elim: sb.room_mono)
  have content: "psf_content ?f = psf_content f @ d" and f1: "psf_wf ?f"
    using wf room by (simp_all add: psf_content_def psf_wf_def sb.content_put sb.wf_put)
  then have wire: "psf_wire ?f = psf_wire f @ d" by (simp add: psf_wire_def)
  have small: "psf_size ?f < two32" using Cons.prems(1) by (simp add: psf_settled_def)
  have pre: "psf_wire ?f @ (concat ds @ w) = frames ps" using Cons.prems(4) wire by simp
  obtain f' where f': "readPacketSize ?f = Some (True, f')" "psf_settled f'"
    "psf_wire f' = psf_wire f @ d" "psf_log f' = psf_log f"
    "\<forall>k. sb_room (psf_buffer ?f) k \<longrightarrow> sb_room (psf_buffer f') k"
    using readPacketSize_prefix [OF f1 small Cons.prems(2) pre] wire by auto
  have "sb_room (psf_buffer f') (length (concat ds))"
    using f'(5) sb.room_put [OF wf] Cons.prems(5) by simp
  moreover have "psf_wire f' @ concat ds @ w = frames ps"
    using f'(3) Cons.prems(4) by simp
  ultimately obtain f2 where "readMore_loop f' ds = Some (f2, [])" "psf_settled f2"
    "psf_wire f2 = psf_wire f' @ concat ds" "psf_log f2 = psf_log f'"
    using Cons.IH [OF f'(2) Cons.prems(2)] Cons.prems(3) by auto
  then show ?case using f' Cons.prems(3) by auto
qed

lemma settled_frames:
  assumes "psf_settled f" and "\<forall>p \<in> set ps. good_packet p" and "psf_wire f = frames ps"
  shows "case ps of [] \<Rightarrow> psf_size f = 0 \<and> psf_content f = []
    | p # qs \<Rightarrow> psf_size f = length p \<and> psf_content f = p @ frames qs"
proof (cases ps)
  case Nil
  with assms show ?thesis by (auto simp: psf_wire_def split: if_splits)
next
  case (Cons p qs)
  have "length (psf_wire f) \<ge> 4" using assms(3) Cons by simp
  then have "psf_size f \<noteq> 0"
    using assms(1) by (auto simp: psf_settled_def psf_wire_def split: if_splits)
  moreover from this have "writeUInt32 (word_of_nat (psf_size f)) @ psf_content f =
      writeUInt32 (word_of_nat (length p)) @ p @ frames qs"
    using assms(3) Cons by (simp add: psf_wire_def frame_def)
  then have "writeUInt32 (word_of_nat (psf_size f)) = writeUInt32 (word_of_nat (length p))"
    and "psf_content f = p @ frames qs" by (simp_all add: append_eq_append_conv)
  then have "psf_size f = length p"
    using assms(1,2) Cons good_packet_size [of p] readBE32_write'
    by (metis list.set_intros(1) psf_settled_def unat_word_of_nat32)
  ultimately show ?thesis using Cons \<open>psf_content f = _\<close> by simp
qed

text \<open>
  A client that asks for the size of the buffered packet and reads that much, up to \<open>k\<close> times.
\<close>

fun drain :: "nat \<Rightarrow> PacketStreamFilter \<Rightarrow> (bytes list \<times> PacketStreamFilter) option" where
  "drain 0 f = Some ([], f)"
| "drain (Suc k) f =
     (case PacketStreamFilter_read f (PacketStreamFilter_getSize f) of
        None \<Rightarrow> None
      | Some (d, f') \<Rightarrow> map_option (\<lambda>(ds, f''). (d # ds, f'')) (drain k f'))"

lemma read_one_packet:
  assumes st: "psf_settled f" and good: "\<forall>q \<in> set (p # ps). good_packet q"
    and wire: "psf_wire f = frames (p # ps)"
  shows "\<exists>f'. PacketStreamFilter_read f (PacketStreamFilter_getSize f) = Some (p, f') \<and>
    psf_settled f' \<and> psf_wire f' = frames ps"
proof -
  have sz: "psf_size f = length p" "psf_content f = p @ frames ps"
    using settled_frames [OF st good wire] by simp_all
  have wf: "psf_wf f" using st by (simp add: psf_settled_def)
  have gp: "0 < length p" using good good_packet_size by simp
  then have ready: "isReadyNoLock f" using sz isReady_iff [OF wf] by simp
  then obtain f1 okay f2 f' where r:
    "PacketStreamFilter_read f (length p) = Some (take (min (length p) (psf_size f)) (psf_content f), f')"
    "psf_size f1 = psf_size f - length p"
    "psf_content f1 = drop (min (length p) (psf_size f)) (psf_content f)"
    "psf_wf f1" "readPacketSize f1 = Some (okay, f2)" "psf_wf f'" "psf_size f' = psf_size f2"
    "psf_content f' = psf_content f2" "psf_avail f' = psf_avail f2"
    by (rule PacketStreamFilter_read_ready [OF wf _ gp])
  have "psf_wire f1 @ [] = frames ps" using r(2,3) sz by (simp add: psf_wire_def)
  moreover have "psf_size f1 < two32" using r(2) sz by simp
  ultimately have "psf_settled f2" "psf_wire f2 = frames ps"
    using readPacketSize_prefix [OF r(4) _ _, of ps "[]"] good r(5) by auto
  then have "psf_settled f'" "psf_wire f' = frames ps"
    using r(6,7,8) by (auto simp: psf_settled_def psf_wire_def)
  moreover have "PacketStreamFilter_getSize f = length p"
    using ready sz by (simp add: PacketStreamFilter_getSize_def)
  ultimately show ?thesis using r(1) sz by auto
qed

lemma drain_frames:
  "psf_settled f \<Longrightarrow> \<forall>p \<in> set ps. good_packet p \<Longrightarrow> psf_wire f = frames ps \<Longrightarrow>
    \<exists>f'. drain (length ps) f = Some (ps, f') \<and> psf_settled f' \<and> psf_wire f' = []"
proof (induction ps arbitrary: f)
  case (Cons p ps)
  from read_one_packet [OF Cons.prems] obtain f' where f':
    "PacketStreamFilter_read f (PacketStreamFilter_getSize f) = Some (p, f')" "psf_settled f'"
    "psf_wire f' = frames ps" by blast
  then obtain f2 where "drain (length ps) f' = Some (ps, f2)" "psf_settled f2" "psf_wire f2 = []"
    using Cons.IH [of f'] Cons.prems(2) by auto
  with f' show ?case by simp
qed simp

lemma psf_settled_new:
  "psf_settled PacketStreamFilter_new" "psf_wire PacketStreamFilter_new = []"
  "psf_log PacketStreamFilter_new = []"
  using sb.wf_empty sb.content_empty
  by (simp_all add: psf_settled_def psf_wire_def PacketStreamFilter_new_def psf_wf_def psf_content_def)

text \<open>The bytes a filter has put on the wire, and a filter that sends packets one by one.\<close>

definition psf_sent :: "PacketStreamFilter \<Rightarrow> bytes" where
  "psf_sent f = concat (map (\<lambda>a. case a of StreamWrite b \<Rightarrow> b | _ \<Rightarrow> []) (psf_log f))"

definition send_all :: "bytes list \<Rightarrow> PacketStreamFilter \<Rightarrow> PacketStreamFilter" where
  "send_all ps f = fold (\<lambda>p g. PacketStreamFilter_write g p) ps f"

lemma psf_sent_send_all: "psf_sent (send_all ps f) = psf_sent f @ frames ps"
proof (induction ps arbitrary: f)
  case Nil
  then show ?case by (simp add: send_all_def)
next
  case (Cons p ps)
  have "psf_sent (PacketStreamFilter_write f p) = psf_sent f @ frame p"
    by (simp add: psf_sent_def PacketStreamFilter_write_def psf_do_def frame_def)
  with Cons.IH [of "PacketStreamFilter_write f p"] show ?case by (simp add: send_all_def)
qed

text \<open>
  C1.  Packet framing survives any segmentation of the byte stream.  Send any packets (none empty,
  none longer than the protocol limit) through \<^verbatim>\<open>PacketStreamFilter::write\<close>, cut the resulting
  bytes into blocks in any way, and hand the blocks to \<^verbatim>\<open>readMore\<close> of a new filter: no format
  error is raised, and a client that repeatedly reads \<^verbatim>\<open>getSize()\<close> bytes gets exactly the packets,
  in order, after which nothing is buffered.
\<close>

theorem packet_framing:
  assumes good: "\<forall>p \<in> set ps. good_packet p"
    and cut: "concat blocks = psf_sent (send_all ps PacketStreamFilter_new)"
    and nonempty: "\<forall>d \<in> set blocks. d \<noteq> []"
    and size: "length (concat blocks) < two32"
  shows "\<exists>changed f f'. readMore PacketStreamFilter_new blocks = Some (changed, f, []) \<and>
    psf_log f = [] \<and> drain (length ps) f = Some (ps, f') \<and> PacketStreamFilter_getSize f' = 0 \<and>
    psf_content f' = []"
proof -
  have cut': "concat blocks = frames ps"
    using cut by (simp add: psf_sent_send_all) (simp add: psf_sent_def psf_settled_new)
  have "sb_room (psf_buffer PacketStreamFilter_new) (length (concat blocks))"
    using size by (simp add: sb_room_def PacketStreamFilter_new_def StreamBuffer_new_def)
  then obtain f where f: "readMore_loop PacketStreamFilter_new blocks = Some (f, [])" "psf_settled f"
    "psf_wire f = frames ps" "psf_log f = []"
    using readMore_loop_frames [OF psf_settled_new(1) good nonempty, where w = "[]"] cut'
    by (auto simp: psf_settled_new)
  from drain_frames [OF f(2) good f(3)] obtain f' where f': "drain (length ps) f = Some (ps, f')"
    "psf_settled f'" "psf_wire f' = []" by blast
  have "psf_size f' = 0 \<and> psf_content f' = []"
    using settled_frames [OF f'(2), of "[]"] f'(3) by simp
  then show ?thesis
    using f f' by (auto simp: readMore_def PacketStreamFilter_getSize_def isReadyNoLock_def)
qed

theorem packet_framing_witness:
  "\<exists>changed f f'. readMore PacketStreamFilter_new [[0, 0], [0, 2, 7], [8, 0, 0, 0, 1], [9]] = Some (changed, f, []) \<and>
    psf_log f = [] \<and> drain (length [[7, 8], [9 :: UInt8]]) f = Some ([[7, 8], [9]], f') \<and>
    PacketStreamFilter_getSize f' = 0 \<and> psf_content f' = []"
proof (rule packet_framing)
  show "concat [[0, 0], [0, 2, 7], [8, 0, 0, 0, 1], [9]] = psf_sent (send_all [[7, 8], [9]] PacketStreamFilter_new)"
    by (simp add: psf_sent_send_all) (simp add: psf_sent_def psf_settled_new frame_def writeUInt32_def)
qed (auto simp: good_packet_def PROTOCOL_MAX_MESSAGE_LENGTH_def)

text \<open>
  C3.  A read never crosses a packet boundary and never runs ahead of the input: it returns at most
  the bytes asked for, at most the rest of the current packet, and exactly the next bytes of
  what can still be delivered.
\<close>

theorem packet_read_bounded:
  assumes "psf_wf f" and "PacketStreamFilter_read f n = Some (d, f')"
  shows "length d \<le> n \<and> length d \<le> psf_size f \<and> psf_avail f = d @ psf_avail f' \<and>
    (d = [] \<longleftrightarrow> n = 0 \<or> \<not> PacketStreamFilter_isReady f)"
proof (cases "0 < n \<and> isReadyNoLock f")
  case False
  then have "PacketStreamFilter_read f n = Some ([], f)"
    by (auto simp: PacketStreamFilter_read_def)
  with assms False show ?thesis by (auto simp: PacketStreamFilter_isReady_def)
next
  case True
  then have "d = take (min n (psf_size f)) (psf_content f)"
    using PacketStreamFilter_read_ready [OF assms(1), of n] assms(2) by (metis option.inject prod.inject)
  moreover have "psf_avail f = d @ psf_avail f'"
    using PacketStreamFilter_read_ok [OF assms(1), of n] assms(2) by auto
  ultimately show ?thesis
    using True assms(1) by (auto simp: isReady_iff PacketStreamFilter_isReady_def)
qed

theorem packet_read_bounded_witness:
  "\<exists>d f'. PacketStreamFilter_read (PacketStreamFilter_new\<lparr>psf_size := 2, psf_buffer :=
      StreamBuffer_write StreamBuffer_new [5, 6, 7]\<rparr>) 9 = Some (d, f') \<and> length d \<le> 2"
proof -
  let ?f = "PacketStreamFilter_new\<lparr>psf_size := 2, psf_buffer := StreamBuffer_write StreamBuffer_new [5, 6, 7]\<rparr>"
  have wf: "psf_wf ?f"
    using sb.wf_put [OF sb.wf_empty, of "[5, 6, 7]"]
    by (simp add: psf_wf_def sb_room_def StreamBuffer_new_def)
  obtain d f' where r: "PacketStreamFilter_read ?f 9 = Some (d, f')"
    using PacketStreamFilter_read_ok [OF wf] by blast
  show ?thesis using packet_read_bounded [OF wf r] r by auto
qed



end
