(* ===== verification/Protocol_Util.thy ===== *)
theory Protocol_Util
  imports Packet_Stream
begin

text \<open>
  The message codec of \<^verbatim>\<open>barrier/ProtocolUtil.cpp\<close>: printf-like formats drive \<^verbatim>\<open>writef\<close> (with its
  two passes \<^verbatim>\<open>getLength\<close> and \<^verbatim>\<open>writef_void\<close>) and \<^verbatim>\<open>readf\<close>.  A C argument list is a list of
  \<open>warg\<close>; taking an argument of the wrong type, undefined in C++, is the error \<open>BadArg\<close>; a
  failing \<^verbatim>\<open>assert\<close> is \<open>AssertFail\<close>.  The scan of the format string is the same in all three
  loops of the source and is done once here, by \<open>fmt_tokens\<close>.  Reading works on any stream with
  the operation of locale \<open>byte_source\<close>; the second half of the theory proves that a message
  that was written is read back from every such stream.
\<close>

datatype perr =
    XIOEndOfStream | XIOReadMismatch | XBadClient
  | AssertFail | BadArg | BufferOverflow

datatype warg =
    WInt UInt32
  | WVec8 "UInt8 list"
  | WVec16 "UInt16 list"
  | WVec32 "UInt32 list"
  | WStr "bytes option"
  | WPtr bytes

datatype rarg =
    R8 UInt8 | R16 UInt16 | R32 UInt32
  | RVec8 "UInt8 list" | RVec16 "UInt16 list" | RVec32 "UInt32 list"
  | RStr bytes

datatype fmt_token = Lit char | Conv UInt32 char

definition PROTOCOL_MAX_LIST_LENGTH :: nat where
  "PROTOCOL_MAX_LIST_LENGTH = 1024 * 1024"

definition PROTOCOL_MAX_STRING_LENGTH :: nat where
  "PROTOCOL_MAX_STRING_LENGTH = 1024 * 1024"

section \<open>Format strings\<close>

definition digit_of :: "char \<Rightarrow> UInt32 option" where
  "digit_of c = map_of (zip ''0123456789'' [0, 1, 2, 3, 4, 5, 6, 7, 8, 9]) c"

text \<open>\<^verbatim>\<open>eatLength\<close>: the number so far, the number and the rest of the format; \<^verbatim>\<open>UInt32\<close> wraps.\<close>

fun eatLength_loop :: "UInt32 \<Rightarrow> string \<Rightarrow> UInt32 \<times> string" where
  "eatLength_loop n [] = (n, [])"
| "eatLength_loop n (c # cs) =
     (case digit_of c of
        Some d \<Rightarrow> eatLength_loop (10 * n + d) cs
      | None \<Rightarrow> (n, c # cs))"

definition eatLength :: "string \<Rightarrow> UInt32 \<times> string" where
  "eatLength fmt = eatLength_loop 0 fmt"

lemma eatLength_loop_length: "eatLength_loop n cs = (m, r) \<Longrightarrow> length r \<le> length cs"
  by (induction n cs rule: eatLength_loop.induct) (auto split: option.splits)

text \<open>
  A format as the loops see it: plain characters, and conversions with their length.  A format
  that ends inside a conversion has the terminating NUL as its conversion character.
\<close>

function fmt_tokens :: "string \<Rightarrow> fmt_token list" where
  "fmt_tokens [] = []"
| "fmt_tokens (c # cs) =
     (if c = CHR ''%'' then
        (case eatLength cs of
           (len, []) \<Rightarrow> [Conv len (CHR 0x00)]
         | (len, k # r) \<Rightarrow> Conv len k # fmt_tokens r)
      else Lit c # fmt_tokens cs)"
  by pat_completeness auto
termination
  by (relation "measure length")
     (auto simp: eatLength_def dest!: sym [of "(_, _)"] eatLength_loop_length)

section \<open>Writing\<close>

text \<open>
  One conversion of \<^verbatim>\<open>getLength\<close>: its size and the arguments left.  Note the second \<^verbatim>\<open>va_arg\<close> that
  the source takes for \<open>%s\<close>.
\<close>

definition len_ok :: "UInt32 \<Rightarrow> bool" where
  "len_ok len \<longleftrightarrow> len = 1 \<or> len = 2 \<or> len = 4"

definition getLength_conv :: "UInt32 \<Rightarrow> char \<Rightarrow> warg list \<Rightarrow> perr + (UInt32 \<times> warg list)" where
  "getLength_conv len k args =
     (if k = CHR ''i'' then
        (if \<not> len_ok len then Inl AssertFail
         else case args of WInt _ # as \<Rightarrow> Inr (len, as) | _ \<Rightarrow> Inl BadArg)
      else if k = CHR ''I'' then
        (if \<not> len_ok len then Inl AssertFail
         else if len = 1 then
           (case args of WVec8 v # as \<Rightarrow> Inr (word_of_nat (length v) + 4, as) | _ \<Rightarrow> Inl BadArg)
         else if len = 2 then
           (case args of WVec16 v # as \<Rightarrow> Inr (2 * word_of_nat (length v) + 4, as) | _ \<Rightarrow> Inl BadArg)
         else
           (case args of WVec32 v # as \<Rightarrow> Inr (4 * word_of_nat (length v) + 4, as) | _ \<Rightarrow> Inl BadArg))
      else if k = CHR ''s'' then
        (if len \<noteq> 0 then Inl AssertFail
         else case args of WStr (Some s) # as \<Rightarrow> Inr (word_of_nat (length s) + 4, drop 1 as) | _ \<Rightarrow> Inl BadArg)
      else if k = CHR ''S'' then
        (if len \<noteq> 0 then Inl AssertFail
         else case args of WInt n # WPtr _ # as \<Rightarrow> Inr (n + 4, as) | _ \<Rightarrow> Inl BadArg)
      else if k = CHR ''%'' then
        (if len \<noteq> 0 then Inl AssertFail else Inr (1, args))
      else Inl AssertFail)"

fun getLength_loop :: "UInt32 \<Rightarrow> fmt_token list \<Rightarrow> warg list \<Rightarrow> perr + UInt32" where
  "getLength_loop n [] args = Inr n"
| "getLength_loop n (Lit c # ts) args = getLength_loop (n + 1) ts args"
| "getLength_loop n (Conv len k # ts) args =
     (case getLength_conv len k args of
        Inl e \<Rightarrow> Inl e
      | Inr (l, as) \<Rightarrow> getLength_loop (n + l) ts as)"

definition getLength :: "string \<Rightarrow> warg list \<Rightarrow> perr + UInt32" where
  "getLength fmt args = getLength_loop 0 (fmt_tokens fmt) args"

text \<open>
  A counted sequence: the count is the length as a \<^verbatim>\<open>UInt32\<close>, and that many elements follow.
\<close>

definition write_counted :: "('a \<Rightarrow> bytes) \<Rightarrow> 'a list \<Rightarrow> bytes" where
  "write_counted enc v =
     (let n = word_of_nat (length v) :: UInt32 in writeUInt32 n @ concat (map enc (take (unat n) v)))"

definition writef_void_conv :: "UInt32 \<Rightarrow> char \<Rightarrow> warg list \<Rightarrow> perr + (bytes \<times> warg list)" where
  "writef_void_conv len k args =
     (if k = CHR ''i'' then
        (case args of
           WInt v # as \<Rightarrow>
             if len = 1 then Inr ([ucast (v AND 0xff)], as)
             else if len = 2 then Inr ([ucast (drop_bit 8 v AND 0xff), ucast (v AND 0xff)], as)
             else if len = 4 then Inr (writeUInt32 v, as)
             else Inl AssertFail
         | _ \<Rightarrow> Inl BadArg)
      else if k = CHR ''I'' then
        (if len = 1 then
           (case args of WVec8 v # as \<Rightarrow> Inr (write_counted (\<lambda>b. [b]) v, as) | _ \<Rightarrow> Inl BadArg)
         else if len = 2 then
           (case args of WVec16 v # as \<Rightarrow> Inr (write_counted writeUInt16 v, as) | _ \<Rightarrow> Inl BadArg)
         else if len = 4 then
           (case args of WVec32 v # as \<Rightarrow> Inr (write_counted writeUInt32 v, as) | _ \<Rightarrow> Inl BadArg)
         else Inl AssertFail)
      else if k = CHR ''s'' then
        (if len \<noteq> 0 then Inl AssertFail
         else case args of
             WStr None # as \<Rightarrow> Inr (writeUInt32 0, as)
           | WStr (Some s) # as \<Rightarrow> Inr (write_counted (\<lambda>b. [b]) s, as)
           | _ \<Rightarrow> Inl BadArg)
      else if k = CHR ''S'' then
        (if len \<noteq> 0 then Inl AssertFail
         else case args of
             WInt n # WPtr src # as \<Rightarrow>
               if unat n \<le> length src then Inr (writeUInt32 n @ take (unat n) src, as) else Inl BadArg
           | _ \<Rightarrow> Inl BadArg)
      else if k = CHR ''%'' then
        (if len \<noteq> 0 then Inl AssertFail else Inr ([of_char (CHR ''%'')], args))
      else Inl AssertFail)"

fun writef_void_loop :: "fmt_token list \<Rightarrow> warg list \<Rightarrow> perr + bytes" where
  "writef_void_loop [] args = Inr []"
| "writef_void_loop (Lit c # ts) args =
     (case writef_void_loop ts args of Inl e \<Rightarrow> Inl e | Inr b \<Rightarrow> Inr (of_char c # b))"
| "writef_void_loop (Conv len k # ts) args =
     (case writef_void_conv len k args of
        Inl e \<Rightarrow> Inl e
      | Inr (d, as) \<Rightarrow> (case writef_void_loop ts as of Inl e \<Rightarrow> Inl e | Inr b \<Rightarrow> Inr (d @ b)))"

definition writef_void :: "string \<Rightarrow> warg list \<Rightarrow> perr + bytes" where
  "writef_void fmt args = writef_void_loop (fmt_tokens fmt) args"

text \<open>
  \<^verbatim>\<open>vwritef\<close>: the bytes handed to \<^verbatim>\<open>stream->write\<close>, \<open>None\<close> when it is not called.  The buffer of
  \<^verbatim>\<open>size\<close> zero bytes is overwritten from its start; writing past its end is \<open>BufferOverflow\<close>.
\<close>

definition vwritef :: "string \<Rightarrow> UInt32 \<Rightarrow> warg list \<Rightarrow> perr + bytes option" where
  "vwritef fmt sz args =
     (if sz = 0 then Inr None
      else case writef_void fmt args of
        Inl e \<Rightarrow> Inl e
      | Inr b \<Rightarrow>
          if length b > unat sz then Inl BufferOverflow
          else Inr (Some (b @ replicate (unat sz - length b) 0)))"

definition writef :: "string \<Rightarrow> warg list \<Rightarrow> perr + bytes option" where
  "writef fmt args =
     (case getLength fmt args of Inl e \<Rightarrow> Inl e | Inr sz \<Rightarrow> vwritef fmt sz args)"

section \<open>Reading\<close>

text \<open>
  \<^verbatim>\<open>ProtocolUtil::read\<close>: all \<open>count\<close> bytes or \<open>XIOEndOfStream\<close>.  The loop ends because every
  round that does not bail takes at least one byte off \<open>count\<close>.
\<close>

function pu_read :: "('s \<Rightarrow> nat \<Rightarrow> (bytes \<times> 's) option) \<Rightarrow> 's \<Rightarrow> nat \<Rightarrow> (perr + bytes) \<times> 's" where
  "pu_read sread s count =
     (if count = 0 then (Inr [], s)
      else case sread s count of
        None \<Rightarrow> (Inl AssertFail, s)
      | Some (d, s') \<Rightarrow>
          if d = [] then (Inl XIOEndOfStream, s')
          else (case pu_read sread s' (count - length d) of
                  (Inl e, s'') \<Rightarrow> (Inl e, s'')
                | (Inr r, s'') \<Rightarrow> (Inr (d @ r), s'')))"
  by pat_completeness auto
termination
  by (relation "measure (\<lambda>(_, _, count). count)") auto

declare pu_read.simps [simp del]

text \<open>
  The element loops of \<open>%I\<close>: the elements pushed so far stay in the vector when a read fails.
\<close>

fun read_elems ::
    "('s \<Rightarrow> nat \<Rightarrow> (bytes \<times> 's) option) \<Rightarrow> nat \<Rightarrow> (bytes \<Rightarrow> 'a) \<Rightarrow> nat \<Rightarrow> 's \<Rightarrow> 'a list \<times> perr option \<times> 's" where
  "read_elems sread w dec 0 s = ([], None, s)"
| "read_elems sread w dec (Suc n) s =
     (case pu_read sread s w of
        (Inl e, s') \<Rightarrow> ([], Some e, s')
      | (Inr b, s') \<Rightarrow> (case read_elems sread w dec n s' of (xs, e, s'') \<Rightarrow> (dec b # xs, e, s'')))"

definition vreadf_conv ::
    "('s \<Rightarrow> nat \<Rightarrow> (bytes \<times> 's) option) \<Rightarrow> UInt32 \<Rightarrow> char \<Rightarrow> 's \<Rightarrow> rarg list \<times> perr option \<times> 's" where
  "vreadf_conv sread len k s =
     (if k = CHR ''i'' then
        (if \<not> len_ok len then ([], Some AssertFail, s)
         else case pu_read sread s (unat len) of
             (Inl e, s') \<Rightarrow> ([], Some e, s')
           | (Inr b, s') \<Rightarrow>
               ([if len = 1 then R8 (b ! 0)
                 else if len = 2 then R16 (readUInt16 (b ! 0) (b ! 1))
                 else R32 (readBE32 b)], None, s'))
      else if k = CHR ''I'' then
        (if \<not> len_ok len then ([], Some AssertFail, s)
         else case pu_read sread s 4 of
             (Inl e, s') \<Rightarrow> ([], Some e, s')
           | (Inr b, s') \<Rightarrow>
               let n = unat (readBE32 b) in
               if n > PROTOCOL_MAX_LIST_LENGTH then ([], Some XBadClient, s')
               else if len = 1 then
                 (case read_elems sread 1 (\<lambda>e. e ! 0) n s' of (v, e, s'') \<Rightarrow> ([RVec8 v], e, s''))
               else if len = 2 then
                 (case read_elems sread 2 (\<lambda>e. readUInt16 (e ! 0) (e ! 1)) n s' of
                    (v, e, s'') \<Rightarrow> ([RVec16 v], e, s''))
               else
                 (case read_elems sread 4 readBE32 n s' of (v, e, s'') \<Rightarrow> ([RVec32 v], e, s'')))
      else if k = CHR ''s'' then
        (if len \<noteq> 0 then ([], Some AssertFail, s)
         else case pu_read sread s 4 of
             (Inl e, s') \<Rightarrow> ([], Some e, s')
           | (Inr b, s') \<Rightarrow>
               let n = unat (readBE32 b) in
               if n > PROTOCOL_MAX_STRING_LENGTH then ([], Some XBadClient, s')
               else (case pu_read sread s' n of
                       (Inl e, s'') \<Rightarrow> ([], Some e, s'')
                     | (Inr d, s'') \<Rightarrow> ([RStr d], None, s'')))
      else if k = CHR ''%'' then ([], if len \<noteq> 0 then Some AssertFail else None, s)
      else ([], Some AssertFail, s))"

text \<open>
  \<^verbatim>\<open>vreadf\<close>: the values stored through the pointer arguments, the exception if one is thrown,
  and the stream afterwards.
\<close>

fun vreadf_loop ::
    "('s \<Rightarrow> nat \<Rightarrow> (bytes \<times> 's) option) \<Rightarrow> fmt_token list \<Rightarrow> 's \<Rightarrow> rarg list \<times> perr option \<times> 's" where
  "vreadf_loop sread [] s = ([], None, s)"
| "vreadf_loop sread (Lit c # ts) s =
     (case pu_read sread s 1 of
        (Inl e, s') \<Rightarrow> ([], Some e, s')
      | (Inr b, s') \<Rightarrow>
          if b ! 0 \<noteq> of_char c then ([], Some XIOReadMismatch, s') else vreadf_loop sread ts s')"
| "vreadf_loop sread (Conv len k # ts) s =
     (case vreadf_conv sread len k s of
        (vs, Some e, s') \<Rightarrow> (vs, Some e, s')
      | (vs, None, s') \<Rightarrow> (case vreadf_loop sread ts s' of (ws, e, s'') \<Rightarrow> (vs @ ws, e, s'')))"

definition vreadf ::
    "('s \<Rightarrow> nat \<Rightarrow> (bytes \<times> 's) option) \<Rightarrow> string \<Rightarrow> 's \<Rightarrow> rarg list \<times> perr option \<times> 's" where
  "vreadf sread fmt s = vreadf_loop sread (fmt_tokens fmt) s"

text \<open>
  \<^verbatim>\<open>readf\<close> turns the \<^verbatim>\<open>XIO\<close> exceptions into its result; every other exception passes through.
\<close>

definition readf ::
    "('s \<Rightarrow> nat \<Rightarrow> (bytes \<times> 's) option) \<Rightarrow> string \<Rightarrow> 's \<Rightarrow> rarg list \<times> (perr + bool) \<times> 's" where
  "readf sread fmt s =
     (case vreadf sread fmt s of
        (vs, None, s') \<Rightarrow> (vs, Inr True, s')
      | (vs, Some e, s') \<Rightarrow>
          (vs, if e = XIOEndOfStream \<or> e = XIOReadMismatch then Inr False else Inl e, s'))"

section \<open>Message formats\<close>

text \<open>\<^verbatim>\<open>protocol_types.cpp\<close>.\<close>

definition kMsgHello :: string where "kMsgHello = ''Barrier%2i%2i''"
definition kMsgHelloBack :: string where "kMsgHelloBack = ''Barrier%2i%2i%s''"
definition kMsgCNoop :: string where "kMsgCNoop = ''CNOP''"
definition kMsgCClose :: string where "kMsgCClose = ''CBYE''"
definition kMsgCEnter :: string where "kMsgCEnter = ''CINN%2i%2i%4i%2i''"
definition kMsgCLeave :: string where "kMsgCLeave = ''COUT''"
definition kMsgCClipboard :: string where "kMsgCClipboard = ''CCLP%1i%4i''"
definition kMsgCScreenSaver :: string where "kMsgCScreenSaver = ''CSEC%1i''"
definition kMsgCResetOptions :: string where "kMsgCResetOptions = ''CROP''"
definition kMsgCInfoAck :: string where "kMsgCInfoAck = ''CIAK''"
definition kMsgCKeepAlive :: string where "kMsgCKeepAlive = ''CALV''"
definition kMsgDKeyDown :: string where "kMsgDKeyDown = ''DKDN%2i%2i%2i''"
definition kMsgDKeyDown1_0 :: string where "kMsgDKeyDown1_0 = ''DKDN%2i%2i''"
definition kMsgDKeyRepeat :: string where "kMsgDKeyRepeat = ''DKRP%2i%2i%2i%2i''"
definition kMsgDKeyRepeat1_0 :: string where "kMsgDKeyRepeat1_0 = ''DKRP%2i%2i%2i''"
definition kMsgDKeyUp :: string where "kMsgDKeyUp = ''DKUP%2i%2i%2i''"
definition kMsgDKeyUp1_0 :: string where "kMsgDKeyUp1_0 = ''DKUP%2i%2i''"
definition kMsgDMouseDown :: string where "kMsgDMouseDown = ''DMDN%1i''"
definition kMsgDMouseUp :: string where "kMsgDMouseUp = ''DMUP%1i''"
definition kMsgDMouseMove :: string where "kMsgDMouseMove = ''DMMV%2i%2i''"
definition kMsgDMouseRelMove :: string where "kMsgDMouseRelMove = ''DMRM%2i%2i''"
definition kMsgDMouseWheel :: string where "kMsgDMouseWheel = ''DMWM%2i%2i''"
definition kMsgDMouseWheel1_0 :: string where "kMsgDMouseWheel1_0 = ''DMWM%2i''"
definition kMsgDClipboard :: string where "kMsgDClipboard = ''DCLP%1i%4i%1i%s''"
definition kMsgDInfo :: string where "kMsgDInfo = ''DINF%2i%2i%2i%2i%2i%2i%2i''"
definition kMsgDSetOptions :: string where "kMsgDSetOptions = ''DSOP%4I''"
definition kMsgDFileTransfer :: string where "kMsgDFileTransfer = ''DFTR%1i%s''"
definition kMsgDDragInfo :: string where "kMsgDDragInfo = ''DDRG%2i%s''"
definition kMsgDDisplays :: string where "kMsgDDisplays = ''DISP%s''"
definition kMsgDServerAddresses :: string where "kMsgDServerAddresses = ''SADD%s''"
definition kMsgQInfo :: string where "kMsgQInfo = ''QINF''"
definition kMsgEIncompatible :: string where "kMsgEIncompatible = ''EICV%2i%2i''"
definition kMsgEBusy :: string where "kMsgEBusy = ''EBSY''"
definition kMsgEUnknown :: string where "kMsgEUnknown = ''EUNK''"
definition kMsgEBad :: string where "kMsgEBad = ''EBAD''"

lemmas kMsg_defs =
  kMsgHello_def kMsgHelloBack_def kMsgCNoop_def kMsgCClose_def kMsgCEnter_def kMsgCLeave_def
  kMsgCClipboard_def kMsgCScreenSaver_def kMsgCResetOptions_def kMsgCInfoAck_def kMsgCKeepAlive_def
  kMsgDKeyDown_def kMsgDKeyDown1_0_def kMsgDKeyRepeat_def kMsgDKeyRepeat1_0_def kMsgDKeyUp_def
  kMsgDKeyUp1_0_def kMsgDMouseDown_def kMsgDMouseUp_def kMsgDMouseMove_def kMsgDMouseRelMove_def
  kMsgDMouseWheel_def kMsgDMouseWheel1_0_def kMsgDClipboard_def kMsgDInfo_def kMsgDSetOptions_def
  kMsgDFileTransfer_def kMsgDDragInfo_def kMsgDDisplays_def kMsgDServerAddresses_def kMsgQInfo_def
  kMsgEIncompatible_def kMsgEBusy_def kMsgEUnknown_def kMsgEBad_def

text \<open>All of them, in the order of the source.\<close>

definition protocol_messages :: "string list" where
  "protocol_messages =
    [kMsgHello, kMsgHelloBack, kMsgCNoop, kMsgCClose, kMsgCEnter, kMsgCLeave, kMsgCClipboard,
     kMsgCScreenSaver, kMsgCResetOptions, kMsgCInfoAck, kMsgCKeepAlive, kMsgDKeyDown,
     kMsgDKeyDown1_0, kMsgDKeyRepeat, kMsgDKeyRepeat1_0, kMsgDKeyUp, kMsgDKeyUp1_0,
     kMsgDMouseDown, kMsgDMouseUp, kMsgDMouseMove, kMsgDMouseRelMove, kMsgDMouseWheel,
     kMsgDMouseWheel1_0, kMsgDClipboard, kMsgDInfo, kMsgDSetOptions, kMsgDFileTransfer,
     kMsgDDragInfo, kMsgDDisplays, kMsgDServerAddresses, kMsgQInfo, kMsgEIncompatible, kMsgEBusy,
     kMsgEUnknown, kMsgEBad]"

section \<open>The two passes of writing agree\<close>

text \<open>
  A format in which no conversion that takes an argument follows a \<open>%s\<close>.  Only on these do the two
  passes see the same arguments, because \<^verbatim>\<open>getLength\<close> takes one argument too many for \<open>%s\<close>.
\<close>

fun takes_no_arg :: "fmt_token \<Rightarrow> bool" where
  "takes_no_arg (Lit _) \<longleftrightarrow> True"
| "takes_no_arg (Conv len k) \<longleftrightarrow> k = CHR ''%''"

fun string_last :: "fmt_token list \<Rightarrow> bool" where
  "string_last [] \<longleftrightarrow> True"
| "string_last (Lit _ # ts) \<longleftrightarrow> string_last ts"
| "string_last (Conv len k # ts) \<longleftrightarrow> (if k = CHR ''s'' then list_all takes_no_arg ts else string_last ts)"

lemma length_concat_const: "(\<And>x. length (f x) = w) \<Longrightarrow> length (concat (map f xs)) = w * length xs"
  by (induction xs) auto

lemma write_counted_length:
  assumes "\<And>x. length (enc x) = w"
  shows "(word_of_nat (length (write_counted enc v)) :: UInt32) = word_of_nat w * word_of_nat (length v) + 4"
proof -
  let ?n = "word_of_nat (length v) :: UInt32"
  have "unat ?n \<le> length v" by (simp add: unat_of_nat)
  then have "length (write_counted enc v) = 4 + w * unat ?n"
    using assms by (simp add: write_counted_def Let_def length_concat_const)
  then show ?thesis by simp
qed

lemma getLength_conv_writef:
  assumes "writef_void_conv len k args = Inr (d, as)" and "WStr None \<notin> set args"
  shows "getLength_conv len k args = Inr (word_of_nat (length d), if k = CHR ''s'' then drop 1 as else as)"
  using assms
  by (auto simp: writef_void_conv_def getLength_conv_def len_ok_def write_counted_length
      split: if_splits list.splits warg.splits option.splits)

lemma writef_void_conv_args:
  "writef_void_conv len k args = Inr (d, as) \<Longrightarrow> set as \<subseteq> set args"
  by (auto simp: writef_void_conv_def split: if_splits list.splits warg.splits option.splits)

lemma getLength_no_args:
  assumes "list_all takes_no_arg ts" and "writef_void_loop ts args = Inr bs"
  shows "getLength_loop n ts args' = Inr (n + word_of_nat (length bs))"
  using assms
proof (induction ts arbitrary: n bs)
  case (Cons t ts)
  show ?case
  proof (cases t)
    case (Lit c)
    with Cons.prems obtain b where "bs = of_char c # b" "writef_void_loop ts args = Inr b"
      by (auto split: sum.splits)
    with Cons.IH [of b "n + 1"] Cons.prems(1) Lit show ?thesis by (simp add: ac_simps)
  next
    case (Conv len k)
    with Cons.prems have k: "k = CHR ''%''" "len = 0"
      by (auto simp: writef_void_conv_def split: if_splits)
    with Cons.prems Conv obtain b where "bs = of_char (CHR ''%'') # b" "writef_void_loop ts args = Inr b"
      by (auto simp: writef_void_conv_def split: sum.splits)
    with Cons.IH [of b "n + 1"] Cons.prems(1) Conv k show ?thesis
      by (simp add: getLength_conv_def ac_simps)
  qed
qed simp

lemma getLength_writef_void:
  assumes "string_last ts" and "writef_void_loop ts args = Inr bs" and "WStr None \<notin> set args"
  shows "getLength_loop n ts args = Inr (n + word_of_nat (length bs))"
  using assms
proof (induction ts args arbitrary: n bs rule: writef_void_loop.induct)
  case (2 c ts args)
  then obtain b where b: "bs = of_char c # b" "writef_void_loop ts args = Inr b"
    by (auto split: sum.splits)
  with "2.IH" [of b "n + 1"] "2.prems" show ?case by (simp add: ac_simps)
next
  case (3 len k ts args)
  then obtain d as b where b: "bs = d @ b" "writef_void_conv len k args = Inr (d, as)"
    "writef_void_loop ts as = Inr b"
    by (auto split: sum.splits)
  note g = getLength_conv_writef [OF b(2) "3.prems"(3)]
  show ?case
  proof (cases "k = CHR ''s''")
    case True
    with "3.prems"(1) getLength_no_args [OF _ b(3)] g b(1) show ?thesis by (simp add: ac_simps)
  next
    case False
    have "WStr None \<notin> set as" using writef_void_conv_args [OF b(2)] "3.prems"(3) by blast
    with False "3.IH" [OF b(2) refl, of b] "3.prems"(1) b g show ?thesis by (simp add: ac_simps)
  qed
qed simp

lemma getLength_total:
  assumes "string_last (fmt_tokens fmt)" and "WStr None \<notin> set args" and "writef_void fmt args = Inr bs"
  shows "getLength fmt args = Inr (word_of_nat (length bs))"
  using getLength_writef_void [OF assms(1), of args bs 0] assms(2,3)
  by (simp add: getLength_def writef_void_def)

lemma writef_total:
  assumes "string_last (fmt_tokens fmt)" and "WStr None \<notin> set args"
    and "writef_void fmt args = Inr bs" and "length bs < two32"
  shows "writef fmt args = Inr (if bs = [] then None else Some bs)"
proof -
  have u: "unat (word_of_nat (length bs) :: UInt32) = length bs"
    using assms(4) by (simp add: unat_of_nat)
  then have "(word_of_nat (length bs) :: UInt32) = 0 \<longleftrightarrow> bs = []"
    using unat_eq_zero [of "word_of_nat (length bs) :: UInt32"] by simp
  with getLength_total [OF assms(1-3)] u assms(3) show ?thesis by (auto simp: writef_def vwritef_def)
qed



section \<open>Every stream reads like its bytes\<close>

text \<open>Reading from a byte string is a split.\<close>

lemma pu_read_bytes:
  "pu_read bytes_read b n =
     (if n \<le> length b then (Inr (take n b), drop n b) else (Inl XIOEndOfStream, []))"
proof (cases "n = 0 \<or> b = []")
  case True
  then show ?thesis by (subst pu_read.simps) (auto simp: bytes_read_def)
next
  case False
  have "pu_read bytes_read (drop n b) 0 = (Inr [], drop n b)" for n
    by (subst pu_read.simps) simp
  moreover have "pu_read bytes_read [] (n - length b) = (Inl XIOEndOfStream, [])" if "\<not> n \<le> length b"
    using that by (subst pu_read.simps) (auto simp: bytes_read_def)
  ultimately show ?thesis
    using False by (subst pu_read.simps) (auto simp: bytes_read_def min_def)
qed

text \<open>
  \<open>same_read\<close> relates a result on a stream with the result on the stream's bytes.
\<close>

context byte_source
begin

definition same_read :: "'r \<times> 's \<Rightarrow> 'r \<times> bytes \<Rightarrow> bool" where
  "same_read x y \<longleftrightarrow> fst x = fst y \<and> ok (snd x) \<and> avail (snd x) = snd y"

lemma pu_read_same: "ok s \<Longrightarrow> same_read (pu_read sread s n) (pu_read bytes_read (avail s) n)"
proof (induction n arbitrary: s rule: less_induct)
  case (less n)
  obtain d s' where r: "sread s n = Some (d, s')" "ok s'" "avail s = d @ avail s'" "length d \<le> n"
    "0 < n \<Longrightarrow> avail s \<noteq> [] \<Longrightarrow> d \<noteq> []"
    using sread_cases [OF less.prems] by metis
  consider "n = 0" | "0 < n" "d = []" | "0 < n" "d \<noteq> []" by auto
  then show ?case
  proof cases
    case 1
    then have "pu_read sread s n = (Inr [], s)" by (simp add: pu_read.simps)
    with 1 less.prems show ?thesis by (simp add: same_read_def pu_read_bytes)
  next
    case 2
    have "pu_read sread s n = (Inl XIOEndOfStream, s')"
      using 2 r(1) by (subst pu_read.simps) simp
    moreover have "avail s = []" using 2 r(5) by blast
    ultimately show ?thesis using 2 r(2,3) by (simp add: same_read_def pu_read_bytes)
  next
    case 3
    then have "same_read (pu_read sread s' (n - length d)) (pu_read bytes_read (avail s') (n - length d))"
      using less.IH [of "n - length d"] r(2) by simp
    then obtain s'' where s'': "ok s''" "pu_read sread s' (n - length d) =
        (if n - length d \<le> length (avail s') then Inr (take (n - length d) (avail s')) else Inl XIOEndOfStream, s'')"
      "avail s'' = (if n - length d \<le> length (avail s') then drop (n - length d) (avail s') else [])"
      by (cases "pu_read sread s' (n - length d)") (auto simp: same_read_def pu_read_bytes split: if_splits)
    have "pu_read sread s n =
        (if n \<le> length (avail s) then Inr (take n (avail s)) else Inl XIOEndOfStream, s'')"
      using 3 r(1,3,4) s''(2) by (subst pu_read.simps) auto
    then show ?thesis using s'' r(3,4) by (auto simp: same_read_def pu_read_bytes)
  qed
qed

lemma pu_read_same_cases:
  assumes "ok s"
  obtains (eof) s' where "pu_read sread s n = (Inl XIOEndOfStream, s')" "ok s'" "avail s' = []" "length (avail s) < n"
  | (data) s' where "pu_read sread s n = (Inr (take n (avail s)), s')" "ok s'" "avail s' = drop n (avail s)"
      "n \<le> length (avail s)"
  using pu_read_same [OF assms, of n]
  by (cases "pu_read sread s n") (auto simp: same_read_def pu_read_bytes split: if_splits)

lemma read_elems_same:
  "ok s \<Longrightarrow>
    (case read_elems sread w dec n s of (xs, e, s') \<Rightarrow>
       ok s' \<and> read_elems bytes_read w dec n (avail s) = (xs, e, avail s'))"
proof (induction n arbitrary: s)
  case (Suc n)
  from Suc.prems show ?case
  proof (cases rule: pu_read_same_cases [of s w])
    case (data s')
    with Suc.IH [of s'] show ?thesis
      by (auto simp: pu_read_bytes split: prod.splits)
  qed (auto simp: pu_read_bytes)
qed simp

lemma vreadf_conv_same:
  assumes "ok s"
  shows "case vreadf_conv sread len k s of (xs, e, s') \<Rightarrow>
    ok s' \<and> vreadf_conv bytes_read len k (avail s) = (xs, e, avail s')"
proof -
  consider (i) "k = CHR ''i''" | (I) "k = CHR ''I''" | (s) "k = CHR ''s''"
    | (other) "k \<noteq> CHR ''i''" "k \<noteq> CHR ''I''" "k \<noteq> CHR ''s''" by blast
  then show ?thesis
  proof cases
    case i
    show ?thesis
      using assms
      by (cases rule: pu_read_same_cases [of s "unat len"])
         (use i assms in \<open>auto simp: vreadf_conv_def pu_read_bytes\<close>)
  next
    case I
    show ?thesis
      using assms
    proof (cases rule: pu_read_same_cases [of s 4])
      case (data s')
      let ?n = "unat (readBE32 (take 4 (avail s)))"
      show ?thesis
        using I data read_elems_same [OF data(2), of 1 "\<lambda>e. e ! 0" ?n]
          read_elems_same [OF data(2), of 2 "\<lambda>e. readUInt16 (e ! 0) (e ! 1)" ?n]
          read_elems_same [OF data(2), of 4 readBE32 ?n] assms
        by (auto simp: vreadf_conv_def pu_read_bytes Let_def split: prod.splits)
    qed (use I assms in \<open>auto simp: vreadf_conv_def pu_read_bytes\<close>)
  next
    case s
    show ?thesis
      using assms
    proof (cases rule: pu_read_same_cases [of s 4])
      case (data s')
      show ?thesis
        using data(2)
        by (cases rule: pu_read_same_cases [of s' "unat (readBE32 (take 4 (avail s)))"])
           (use s data assms in \<open>auto simp: vreadf_conv_def pu_read_bytes Let_def\<close>)
    qed (use s assms in \<open>auto simp: vreadf_conv_def pu_read_bytes\<close>)
  next
    case other
    with assms show ?thesis by (auto simp: vreadf_conv_def)
  qed
qed

lemma vreadf_loop_same:
  "ok s \<Longrightarrow>
    (case vreadf_loop sread ts s of (xs, e, s') \<Rightarrow>
       ok s' \<and> vreadf_loop bytes_read ts (avail s) = (xs, e, avail s'))"
proof (induction ts arbitrary: s)
  case (Cons t ts)
  show ?case
  proof (cases t)
    case (Lit c)
    from Cons.prems show ?thesis
    proof (cases rule: pu_read_same_cases [of s 1])
      case (data s')
      with Cons.IH [of s'] Lit show ?thesis by (auto simp: pu_read_bytes split: prod.splits)
    qed (auto simp: Lit pu_read_bytes)
  next
    case (Conv len k)
    obtain xs e s' where c: "vreadf_conv sread len k s = (xs, e, s')" by (metis prod_cases3)
    with vreadf_conv_same [OF Cons.prems, of len k] Cons.IH [of s'] Conv show ?thesis
      by (cases e) (auto split: prod.splits)
  qed
qed simp

text \<open>The interface lemma: \<^verbatim>\<open>readf\<close> on a stream is \<^verbatim>\<open>readf\<close> on what the stream can deliver.\<close>

lemma readf_same:
  "ok s \<Longrightarrow> readf sread fmt s = (xs, r, s') \<Longrightarrow>
    ok s' \<and> readf bytes_read fmt (avail s) = (xs, r, avail s')"
  using vreadf_loop_same [of s "fmt_tokens fmt"]
  by (auto simp: readf_def vreadf_def split: prod.splits option.splits)

end

section \<open>Round trip\<close>

text \<open>The value a reader with the same format gets for an argument, and the protocol's limits.\<close>

definition sent_value :: "UInt32 \<Rightarrow> warg \<Rightarrow> rarg" where
  "sent_value len a =
     (case a of
        WInt v \<Rightarrow> if len = 1 then R8 (ucast v) else if len = 2 then R16 (ucast v) else R32 v
      | WVec8 v \<Rightarrow> RVec8 v | WVec16 v \<Rightarrow> RVec16 v | WVec32 v \<Rightarrow> RVec32 v
      | WStr s \<Rightarrow> RStr (case s of None \<Rightarrow> [] | Some b \<Rightarrow> b)
      | WPtr b \<Rightarrow> RStr b)"

fun sent_values :: "fmt_token list \<Rightarrow> warg list \<Rightarrow> rarg list" where
  "sent_values (Lit _ # ts) as = sent_values ts as"
| "sent_values (Conv len _ # ts) (a # as) = sent_value len a # sent_values ts as"
| "sent_values _ _ = []"

fun within_limits :: "warg \<Rightarrow> bool" where
  "within_limits (WVec8 v) \<longleftrightarrow> length v \<le> PROTOCOL_MAX_LIST_LENGTH"
| "within_limits (WVec16 v) \<longleftrightarrow> length v \<le> PROTOCOL_MAX_LIST_LENGTH"
| "within_limits (WVec32 v) \<longleftrightarrow> length v \<le> PROTOCOL_MAX_LIST_LENGTH"
| "within_limits (WStr (Some s)) \<longleftrightarrow> length s \<le> PROTOCOL_MAX_STRING_LENGTH"
| "within_limits _ \<longleftrightarrow> True"

text \<open>Conversions that mean the same in a written and in a read format.\<close>

fun symmetric_token :: "fmt_token \<Rightarrow> bool" where
  "symmetric_token (Lit _) \<longleftrightarrow> True"
| "symmetric_token (Conv len k) \<longleftrightarrow>
     (k = CHR ''i'' \<or> k = CHR ''I'') \<and> len_ok len \<or> k = CHR ''s'' \<and> len = 0"

lemma small_length [simp]:
  "n \<le> PROTOCOL_MAX_LIST_LENGTH \<Longrightarrow> n mod two32 = n"
  "n \<le> PROTOCOL_MAX_STRING_LENGTH \<Longrightarrow> n mod two32 = n"
  by (simp_all add: PROTOCOL_MAX_LIST_LENGTH_def PROTOCOL_MAX_STRING_LENGTH_def)

lemma read_elems_write:
  assumes "\<And>x. length (enc x) = w" and "\<And>x. dec (enc x) = x"
  shows "read_elems bytes_read w dec (length xs) (concat (map enc xs) @ r) = (xs, None, r)"
  using assms by (induction xs) (auto simp: pu_read_bytes)

lemma write_counted_read:
  assumes "length v mod two32 = length v"
  shows "pu_read bytes_read (write_counted enc v @ r) 4 =
    (Inr (writeUInt32 (word_of_nat (length v))), concat (map enc v) @ r)"
    "unat (readBE32 (writeUInt32 (word_of_nat (length v)))) = length v"
  using assms by (simp_all add: write_counted_def pu_read_bytes unat_of_nat codec)

lemma bytes_concat [simp]: "concat (map (\<lambda>b. [b]) xs) = xs"
  by (induction xs) auto

lemma read_string_bytes:
  "length s \<le> PROTOCOL_MAX_STRING_LENGTH \<Longrightarrow>
    vreadf_conv bytes_read 0 (CHR ''s'') (write_counted (\<lambda>b. [b]) s @ r) = ([RStr s], None, r)"
  by (simp add: vreadf_conv_def write_counted_read) (simp add: pu_read_bytes)

lemma read_vector_bytes:
  assumes "length v \<le> PROTOCOL_MAX_LIST_LENGTH"
  shows "vreadf_conv bytes_read 1 (CHR ''I'') (write_counted (\<lambda>b. [b]) v @ r) = ([RVec8 v], None, r)"
  using assms read_elems_write [of "\<lambda>b. [b]" 1 "\<lambda>e. e ! 0" v r]
  by (simp add: vreadf_conv_def len_ok_def write_counted_read)

lemma read_vector_words:
  assumes "length v \<le> PROTOCOL_MAX_LIST_LENGTH"
  shows "vreadf_conv bytes_read 2 (CHR ''I'') (write_counted writeUInt16 v @ r) = ([RVec16 v], None, r)"
  using assms read_elems_write [of writeUInt16 2 "\<lambda>e. readUInt16 (e ! 0) (e ! 1)" v r]
  by (simp add: vreadf_conv_def len_ok_def write_counted_read)
     (simp add: writeUInt16_def readUInt16_write)

lemma read_vector_dwords:
  assumes "length v \<le> PROTOCOL_MAX_LIST_LENGTH"
  shows "vreadf_conv bytes_read 4 (CHR ''I'') (write_counted writeUInt32 v @ r) = ([RVec32 v], None, r)"
  using assms read_elems_write [of writeUInt32 4 readBE32 v r]
  by (simp add: vreadf_conv_def len_ok_def write_counted_read codec) (simp add: unat_of_nat)

lemma ucast_halves:
  fixes v :: UInt32
  shows "readUInt16 (ucast (drop_bit 8 v AND 0xff)) (ucast (v AND 0xff)) = ucast v"
  unfolding ucast_and_0xff readUInt16_def
  by (rule bit_word_eqI)
     (auto simp: bit_or_iff bit_push_bit_iff bit_drop_bit_eq bit_ucast_iff)

lemmas ucast_halves' = ucast_halves [unfolded ucast_and_0xff]

lemma conv_roundtrip:
  assumes w: "writef_void_conv len k args = Inr (d, as)" and sym: "symmetric_token (Conv len k)"
    and lim: "list_all within_limits args"
  shows "\<exists>a. args = a # as \<and> vreadf_conv bytes_read len k (d @ r) = ([sent_value len a], None, r)"
proof -
  obtain a as' where args: "args = a # as'"
    using w sym by (cases args) (auto simp: writef_void_conv_def split: if_splits)
  consider (i) "k = CHR ''i''" "len_ok len" | (I) "k = CHR ''I''" "len_ok len" | (s) "k = CHR ''s''" "len = 0"
    using sym by auto
  then show ?thesis
  proof cases
    case i
    with w args show ?thesis
      by (cases a) (auto simp: writef_void_conv_def vreadf_conv_def len_ok_def pu_read_bytes
          sent_value_def ucast_and_0xff [of v for v] codec ucast_halves' split: if_splits)
  next
    case I
    with w args lim show ?thesis
      by (cases a) (auto simp: writef_void_conv_def sent_value_def len_ok_def
          read_vector_bytes read_vector_words read_vector_dwords split: if_splits)
  next
    case s
    have "vreadf_conv bytes_read 0 (CHR ''s'') (writeUInt32 0 @ r) = ([RStr []], None, r)"
      using read_string_bytes [of "[]" r] by (simp add: write_counted_def)
    with s w args lim show ?thesis
      by (cases a) (auto simp: writef_void_conv_def sent_value_def read_string_bytes
          split: option.splits)
  qed
qed

lemma loop_roundtrip:
  assumes "writef_void_loop ts args = Inr bs" and "list_all symmetric_token ts"
    and "list_all within_limits args"
  shows "vreadf_loop bytes_read ts (bs @ r) = (sent_values ts args, None, r)"
  using assms
proof (induction ts args arbitrary: bs rule: writef_void_loop.induct)
  case (1 args)
  then show ?case by simp
next
  case (2 c ts args)
  then obtain b where "bs = of_char c # b" "writef_void_loop ts args = Inr b"
    by (auto split: sum.splits)
  with 2 show ?case by (auto simp: pu_read_bytes)
next
  case (3 len k ts args)
  then obtain d as b where b: "bs = d @ b" "writef_void_conv len k args = Inr (d, as)"
    "writef_void_loop ts as = Inr b"
    by (auto split: sum.splits)
  from conv_roundtrip [OF b(2), of "b @ r"] "3.prems" obtain a where a: "args = a # as"
    "vreadf_conv bytes_read len k (d @ b @ r) = ([sent_value len a], None, b @ r)" by auto
  with "3.IH" [OF b(2) refl b(3)] "3.prems" b(1) show ?case by simp
qed

lemma readf_roundtrip_bytes:
  assumes "writef_void fmt args = Inr bs" and "list_all symmetric_token (fmt_tokens fmt)"
    and "list_all within_limits args"
  shows "readf bytes_read fmt (bs @ r) = (sent_values (fmt_tokens fmt) args, Inr True, r)"
  using loop_roundtrip [of "fmt_tokens fmt" args bs r] assms
  by (simp add: readf_def vreadf_def writef_void_def)

lemma protocol_messages_ok:
  "list_all (\<lambda>m. string_last (fmt_tokens m) \<and> list_all symmetric_token (fmt_tokens m)) protocol_messages"
  by (simp add: protocol_messages_def kMsg_defs eatLength_def digit_of_def len_ok_def)

lemma writef_Some:
  assumes "string_last (fmt_tokens fmt)" and "WStr None \<notin> set args" and "writef fmt args = Inr (Some bs)"
  shows "writef_void fmt args = Inr bs"
proof -
  obtain sz b where b: "getLength fmt args = Inr sz" "writef_void fmt args = Inr b" "length b \<le> unat sz"
    "bs = b @ replicate (unat sz - length b) 0"
    using assms(3) by (auto simp: writef_def vwritef_def split: sum.splits if_splits)
  moreover have "sz = word_of_nat (length b)"
    using getLength_total [OF assms(1,2) b(2)] b(1) by simp
  moreover have "length b < two32"
    using b(3) unsigned_less [where 'a = nat, of sz] by simp
  ultimately show ?thesis by (simp add: unat_of_nat)
qed

text \<open>
  C6.  Every protocol message survives the trip: what \<^verbatim>\<open>writef\<close> sends for a message of
  \<^verbatim>\<open>protocol_types.cpp\<close>, once it is at the front of what a packet filter can deliver, is read back
  by \<^verbatim>\<open>readf\<close> with the same format from that filter; each argument arrives at the width of its
  conversion, and exactly the bytes of the message are consumed.
\<close>

theorem message_roundtrip:
  assumes "fmt \<in> set protocol_messages" and "writef fmt args = Inr (Some bs)"
    and "WStr None \<notin> set args" and "list_all within_limits args"
    and "psf_wf f" and "psf_avail f = bs @ rest"
  shows "\<exists>f'. readf PacketStreamFilter_read fmt f = (sent_values (fmt_tokens fmt) args, Inr True, f') \<and>
    psf_wf f' \<and> psf_avail f' = rest"
proof -
  have fmt: "string_last (fmt_tokens fmt)" "list_all symmetric_token (fmt_tokens fmt)"
    using assms(1) protocol_messages_ok by (auto simp: list_all_iff)
  have "readf bytes_read fmt (psf_avail f) = (sent_values (fmt_tokens fmt) args, Inr True, rest)"
    using readf_roundtrip_bytes [OF writef_Some [OF fmt(1) assms(3,2)] fmt(2) assms(4)] assms(6) by simp
  moreover obtain xs r f' where "readf PacketStreamFilter_read fmt f = (xs, r, f')"
    by (metis prod_cases3)
  ultimately show ?thesis using psf_src.readf_same [OF assms(5)] by auto
qed

theorem message_roundtrip_witness:
  "\<exists>f'. readf PacketStreamFilter_read kMsgDMouseDown (PacketStreamFilter_new\<lparr>psf_size := 5, psf_buffer :=
      StreamBuffer_write StreamBuffer_new [68, 77, 68, 78, 3]\<rparr>) = ([R8 3], Inr True, f') \<and>
    psf_wf f' \<and> psf_avail f' = []"
proof -
  let ?f = "PacketStreamFilter_new\<lparr>psf_size := 5, psf_buffer :=
      StreamBuffer_write StreamBuffer_new [68, 77, 68, 78, 3]\<rparr>"
  have w: "writef kMsgDMouseDown [WInt 3] = Inr (Some [68, 77, 68, 78, 3])"
    by (simp add: kMsgDMouseDown_def writef_def vwritef_def getLength_def writef_void_def eatLength_def
        digit_of_def getLength_conv_def writef_void_conv_def len_ok_def)
  have room: "sb_room StreamBuffer_new (length [68, 77, 68, 78, 3 :: UInt8])"
    by (simp add: sb_room_def StreamBuffer_new_def)
  have wf: "psf_wf ?f"
    using sb.wf_put [OF sb.wf_empty room] by (simp add: psf_wf_def)
  have "psf_content ?f = [68, 77, 68, 78, 3]"
    using sb.content_put [OF sb.wf_empty room] sb.content_empty by (simp add: psf_content_def)
  then have av: "psf_avail ?f = [68, 77, 68, 78, 3] @ []"
    by (simp add: psf_avail_def deliverable.simps)
  show ?thesis
    using message_roundtrip [OF _ w _ _ wf av]
    by (simp add: protocol_messages_def) (simp add: kMsgDMouseDown_def eatLength_def digit_of_def sent_value_def)
qed

section \<open>Truncated and hostile input\<close>

text \<open>
  A reader on byte strings is exact when what it accepts is a prefix that it accepts whatever
  follows, and every shorter prefix is an unexpected end of the stream.
\<close>

definition exact :: "(bytes \<Rightarrow> 'v \<times> perr option \<times> bytes) \<Rightarrow> bool" where
  "exact p \<longleftrightarrow> (\<forall>b v r. p b = (v, None, r) \<longrightarrow>
     (\<exists>d. b = d @ r \<and> (\<forall>r'. p (d @ r') = (v, None, r')) \<and>
       (\<forall>n < length d. \<exists>v' r'. p (take n d) = (v', Some XIOEndOfStream, r'))))"

definition rd :: "nat \<Rightarrow> bytes \<Rightarrow> bytes \<times> perr option \<times> bytes" where
  "rd n b = (case pu_read bytes_read b n of (Inl e, r) \<Rightarrow> ([], Some e, r) | (Inr d, r) \<Rightarrow> (d, None, r))"

definition rbind :: "('w \<Rightarrow> 'v) \<Rightarrow> ('w \<Rightarrow> 'u \<Rightarrow> 'v) \<Rightarrow> (bytes \<Rightarrow> 'w \<times> perr option \<times> bytes) \<Rightarrow>
    ('w \<Rightarrow> bytes \<Rightarrow> 'u \<times> perr option \<times> bytes) \<Rightarrow> bytes \<Rightarrow> 'v \<times> perr option \<times> bytes" where
  "rbind part whole p q b =
     (case p b of
        (v, Some e, r) \<Rightarrow> (part v, Some e, r)
      | (v, None, r) \<Rightarrow> (case q v r of (u, e, r') \<Rightarrow> (whole v u, e, r')))"

lemma exact_return: "exact (\<lambda>b. (v, None, b))"
  by (simp add: exact_def)

lemma exact_fail: "exact (\<lambda>b. (v, Some e, b))"
  by (simp add: exact_def)

lemma exact_rd: "exact (rd n)"
  unfolding exact_def
proof (intro allI impI)
  fix b v r
  assume "rd n b = (v, None, r)"
  then have "n \<le> length b" "v = take n b" "r = drop n b"
    by (auto simp: rd_def pu_read_bytes split: if_splits)
  then show "\<exists>d. b = d @ r \<and> (\<forall>r'. rd n (d @ r') = (v, None, r')) \<and>
      (\<forall>m < length d. \<exists>v' r'. rd n (take m d) = (v', Some XIOEndOfStream, r'))"
    by (intro exI [of _ "take n b"]) (auto simp: rd_def pu_read_bytes)
qed

lemma exact_bind:
  assumes p: "exact p" and q: "\<And>v. exact (q v)"
  shows "exact (rbind part whole p q)"
  unfolding exact_def
proof (intro allI impI)
  fix b v r
  assume "rbind part whole p q b = (v, None, r)"
  then obtain w u r1 where 1: "p b = (w, None, r1)" and 2: "q w r1 = (u, None, r)" and v: "v = whole w u"
    by (auto simp: rbind_def split: prod.splits option.splits)
  from p 1 obtain d1 where d1: "b = d1 @ r1" "\<And>r'. p (d1 @ r') = (w, None, r')"
    "\<And>n. n < length d1 \<Longrightarrow> \<exists>v' r'. p (take n d1) = (v', Some XIOEndOfStream, r')"
    unfolding exact_def by meson
  from q 2 obtain d2 where d2: "r1 = d2 @ r" "\<And>r'. q w (d2 @ r') = (u, None, r')"
    "\<And>n. n < length d2 \<Longrightarrow> \<exists>v' r'. q w (take n d2) = (v', Some XIOEndOfStream, r')"
    unfolding exact_def by meson
  have "\<exists>v' r'. rbind part whole p q (take n (d1 @ d2)) = (v', Some XIOEndOfStream, r')"
    if le: "n < length (d1 @ d2)" for n
  proof (cases "n < length d1")
    case True
    with d1(3) [of n] show ?thesis by (auto simp: rbind_def)
  next
    case False
    then have "n - length d1 < length d2" using le by auto
    then obtain v' r' where "q w (take (n - length d1) d2) = (v', Some XIOEndOfStream, r')"
      using d2(3) by blast
    with False d1(2) show ?thesis by (simp add: rbind_def)
  qed
  then show "\<exists>d. b = d @ r \<and> (\<forall>r'. rbind part whole p q (d @ r') = (v, None, r')) \<and>
      (\<forall>n < length d. \<exists>v' r'. rbind part whole p q (take n d) = (v', Some XIOEndOfStream, r'))"
    using d1(1,2) d2(1,2) v by (intro exI [of _ "d1 @ d2"]) (simp add: rbind_def)
qed

lemma exact_if: "exact p \<Longrightarrow> exact q \<Longrightarrow> exact (if c then p else q)"
  by simp

lemmas exact_intros = exact_return exact_fail exact_rd exact_bind exact_if

lemma read_elems_bind:
  "read_elems bytes_read w dec (Suc n) =
     rbind (\<lambda>_. []) (\<lambda>b xs. dec b # xs) (rd w) (\<lambda>_. read_elems bytes_read w dec n)"
  by (rule ext) (simp add: rbind_def rd_def split: prod.splits sum.splits)

lemma exact_read_elems: "exact (read_elems bytes_read w dec n)"
proof (induction n)
  case 0
  have "read_elems bytes_read w dec 0 = (\<lambda>b. ([], None, b))" by (rule ext) simp
  then show ?case by (simp add: exact_return)
next
  case (Suc n)
  then show ?case by (simp add: read_elems_bind exact_intros del: read_elems.simps)
qed

lemma vreadf_conv_bind:
  "vreadf_conv bytes_read len (CHR ''i'') =
     (if \<not> len_ok len then (\<lambda>s. ([], Some AssertFail, s))
      else rbind (\<lambda>_. []) (\<lambda>_ u. u) (rd (unat len)) (\<lambda>b s.
        ([if len = 1 then R8 (b ! 0) else if len = 2 then R16 (readUInt16 (b ! 0) (b ! 1))
          else R32 (readBE32 b)], None, s)))"
  "vreadf_conv bytes_read len (CHR ''s'') =
     (if len \<noteq> 0 then (\<lambda>s. ([], Some AssertFail, s))
      else rbind (\<lambda>_. []) (\<lambda>_ u. u) (rd 4) (\<lambda>b.
        if unat (readBE32 b) > PROTOCOL_MAX_STRING_LENGTH then (\<lambda>s. ([], Some XBadClient, s))
        else rbind (\<lambda>_. []) (\<lambda>_ u. u) (rd (unat (readBE32 b))) (\<lambda>d s. ([RStr d], None, s))))"
  by (rule ext, simp add: vreadf_conv_def rbind_def rd_def Let_def pu_read_bytes)+

lemma vreadf_conv_bind_vector:
  assumes "len_ok len"
  shows "vreadf_conv bytes_read len (CHR ''I'') =
     rbind (\<lambda>_. []) (\<lambda>_ u. u) (rd 4) (\<lambda>b.
       if unat (readBE32 b) > PROTOCOL_MAX_LIST_LENGTH then (\<lambda>s. ([], Some XBadClient, s))
       else if len = 1 then rbind (\<lambda>v. [RVec8 v]) (\<lambda>_ u. u)
         (read_elems bytes_read 1 (\<lambda>e. e ! 0) (unat (readBE32 b))) (\<lambda>v s. ([RVec8 v], None, s))
       else if len = 2 then rbind (\<lambda>v. [RVec16 v]) (\<lambda>_ u. u)
         (read_elems bytes_read 2 (\<lambda>e. readUInt16 (e ! 0) (e ! 1)) (unat (readBE32 b)))
         (\<lambda>v s. ([RVec16 v], None, s))
       else rbind (\<lambda>v. [RVec32 v]) (\<lambda>_ u. u)
         (read_elems bytes_read 4 readBE32 (unat (readBE32 b))) (\<lambda>v s. ([RVec32 v], None, s)))"
  using assms
  by (intro ext, simp add: vreadf_conv_def rbind_def rd_def Let_def pu_read_bytes)
     (simp split: prod.split option.split)

lemma exact_vreadf_conv: "exact (vreadf_conv bytes_read len k)"
proof -
  consider "k = CHR ''i''" | "k = CHR ''I''" "len_ok len" | "k = CHR ''s''"
    | (none) "k = CHR ''%''" "len = 0"
    | (assert) "k \<notin> {CHR ''i'', CHR ''I'', CHR ''s''}" "\<not> (k = CHR ''%'' \<and> len = 0)"
    | (vector) "k = CHR ''I''" "\<not> len_ok len" by blast
  then show ?thesis
  proof cases
    case none
    then have "vreadf_conv bytes_read len k = (\<lambda>s. ([], None, s))"
      by (simp add: vreadf_conv_def fun_eq_iff)
    then show ?thesis by (simp add: exact_return)
  next
    case assert
    then have "vreadf_conv bytes_read len k = (\<lambda>s. ([], Some AssertFail, s))"
      by (auto simp: vreadf_conv_def fun_eq_iff)
    then show ?thesis by (simp add: exact_fail)
  next
    case vector
    then have "vreadf_conv bytes_read len k = (\<lambda>s. ([], Some AssertFail, s))"
      by (auto simp: vreadf_conv_def fun_eq_iff)
    then show ?thesis by (simp add: exact_fail)
  qed (simp_all add: vreadf_conv_bind vreadf_conv_bind_vector exact_intros exact_read_elems)
qed

lemma exact_vreadf_loop: "exact (vreadf_loop bytes_read ts)"
proof (induction ts)
  case Nil
  have "vreadf_loop bytes_read [] = (\<lambda>b. ([], None, b))" by (rule ext) simp
  then show ?case by (simp add: exact_return)
next
  case (Cons t ts)
  have "vreadf_loop bytes_read (t # ts) =
    (case t of
       Lit c \<Rightarrow> rbind (\<lambda>_. []) (\<lambda>_ u. u) (rd 1) (\<lambda>b.
         if b ! 0 \<noteq> of_char c then (\<lambda>s. ([], Some XIOReadMismatch, s)) else vreadf_loop bytes_read ts)
     | Conv len k \<Rightarrow> rbind (\<lambda>v. v) (@) (vreadf_conv bytes_read len k) (\<lambda>_. vreadf_loop bytes_read ts))"
    by (rule ext)
       (auto simp: rbind_def rd_def split: fmt_token.splits prod.splits sum.splits option.splits)
  then show ?case
    by (cases t) (simp_all add: Cons.IH exact_vreadf_conv exact_intros)
qed

text \<open>
  C7.  No truncated message is ever accepted and none is fatal: when \<^verbatim>\<open>readf\<close> accepts a byte string by
  consuming \<open>d\<close>, then on every stream that can deliver only a proper prefix of \<open>d\<close> it returns
  false (and raises nothing), whatever the format.
\<close>

theorem readf_truncated:
  assumes full: "readf bytes_read fmt (d @ r) = (xs, Inr True, r)"
    and n: "n < length d" and f: "psf_wf f" "psf_avail f = take n d"
  shows "\<exists>ys f'. readf PacketStreamFilter_read fmt f = (ys, Inr False, f') \<and> psf_wf f'"
proof -
  have "vreadf_loop bytes_read (fmt_tokens fmt) (d @ r) = (xs, None, r)"
    using full by (auto simp: readf_def vreadf_def split: prod.splits option.splits if_splits)
  then obtain v r' where "vreadf_loop bytes_read (fmt_tokens fmt) (take n d) = (v, Some XIOEndOfStream, r')"
    using exact_vreadf_loop [of "fmt_tokens fmt", unfolded exact_def] n by (metis append_same_eq)
  then have b: "readf bytes_read fmt (psf_avail f) = (v, Inr False, r')"
    using f(2) by (simp add: readf_def vreadf_def)
  obtain ys q f' where p: "readf PacketStreamFilter_read fmt f = (ys, q, f')" by (metis prod_cases3)
  with psf_src.readf_same [OF f(1) p] b show ?thesis by auto
qed

theorem readf_truncated_witness:
  "\<exists>ys f'. readf PacketStreamFilter_read kMsgCScreenSaver PacketStreamFilter_new = (ys, Inr False, f') \<and> psf_wf f'"
proof -
  have "readf bytes_read kMsgCScreenSaver ([67, 83, 69, 67, 1] @ []) = ([R8 1], Inr True, [])"
    by (simp add: kMsgCScreenSaver_def eatLength_def digit_of_def readf_def vreadf_def vreadf_conv_def
        pu_read_bytes len_ok_def)
  moreover have "psf_avail PacketStreamFilter_new = take 0 [67, 83, 69, 67, 1]"
    by (simp add: psf_avail_def PacketStreamFilter_new_def)
  ultimately show ?thesis
    using psf_settled_new(1) readf_truncated [of kMsgCScreenSaver "[67, 83, 69, 67, 1]" "[]" "[R8 1]" 0]
    by (simp add: psf_settled_def)
qed

text \<open>Values within the protocol's limits, as the reader may trust them.\<close>

fun received_within_limits :: "rarg \<Rightarrow> bool" where
  "received_within_limits (RVec8 v) \<longleftrightarrow> length v \<le> PROTOCOL_MAX_LIST_LENGTH"
| "received_within_limits (RVec16 v) \<longleftrightarrow> length v \<le> PROTOCOL_MAX_LIST_LENGTH"
| "received_within_limits (RVec32 v) \<longleftrightarrow> length v \<le> PROTOCOL_MAX_LIST_LENGTH"
| "received_within_limits (RStr s) \<longleftrightarrow> length s \<le> PROTOCOL_MAX_STRING_LENGTH"
| "received_within_limits _ \<longleftrightarrow> True"

lemma read_elems_bound:
  "read_elems bytes_read w dec n b = (xs, e, r) \<Longrightarrow> length xs \<le> n \<and> (e = None \<or> e = Some XIOEndOfStream)"
proof (induction n arbitrary: b xs e r)
  case (Suc n)
  then show ?case
    by (cases "read_elems bytes_read w dec n (drop w b)")
       (fastforce simp: pu_read_bytes split: if_splits)
qed simp

lemma vreadf_conv_safe:
  assumes "vreadf_conv bytes_read len k b = (vs, e, r)" and "symmetric_token (Conv len k)"
  shows "list_all received_within_limits vs \<and> e \<in> {None, Some XIOEndOfStream, Some XBadClient}"
  using assms
  by (auto simp: vreadf_conv_def pu_read_bytes Let_def
      split: prod.splits if_splits dest!: read_elems_bound)

lemma vreadf_loop_safe:
  assumes "vreadf_loop bytes_read ts b = (vs, e, r)" and "list_all symmetric_token ts"
  shows "list_all received_within_limits vs \<and>
    e \<in> {None, Some XIOEndOfStream, Some XIOReadMismatch, Some XBadClient}"
  using assms
proof (induction ts arbitrary: b vs e r)
  case (Cons t ts)
  show ?case
  proof (cases t)
    case (Lit c)
    with Cons show ?thesis by (auto simp: pu_read_bytes split: if_splits)
  next
    case (Conv len k)
    obtain v1 e1 r1 where c: "vreadf_conv bytes_read len k b = (v1, e1, r1)" by (metis prod_cases3)
    note safe = vreadf_conv_safe [OF c]
    show ?thesis
    proof (cases e1)
      case None
      obtain v2 e2 r2 where l: "vreadf_loop bytes_read ts r1 = (v2, e2, r2)" by (metis prod_cases3)
      with None c Conv Cons.prems Cons.IH [OF l] safe show ?thesis by auto
    qed (use c Conv Cons.prems safe in auto)
  qed
qed simp

text \<open>
  C8.  Whatever bytes arrive, reading a protocol message ends in one of three ways: accepted, refused
  by returning false, or \<^verbatim>\<open>XBadClient\<close>.  No assertion fails, and every list and string handed to
  the caller respects the protocol's length limits.
\<close>

theorem readf_safe:
  assumes "fmt \<in> set protocol_messages" and "psf_wf f"
  shows "\<exists>xs res f'. readf PacketStreamFilter_read fmt f = (xs, res, f') \<and> psf_wf f' \<and>
    list_all received_within_limits xs \<and> res \<in> {Inr True, Inr False, Inl XBadClient}"
proof -
  obtain xs res f' where r: "readf PacketStreamFilter_read fmt f = (xs, res, f')" by (metis prod_cases3)
  with psf_src.readf_same [OF assms(2) r]
  have b: "psf_wf f'" "readf bytes_read fmt (psf_avail f) = (xs, res, psf_avail f')" by auto
  have "list_all symmetric_token (fmt_tokens fmt)"
    using assms(1) protocol_messages_ok by (auto simp: list_all_iff)
  with b vreadf_loop_safe [of "fmt_tokens fmt" "psf_avail f"]
  have "list_all received_within_limits xs \<and> res \<in> {Inr True, Inr False, Inl XBadClient}"
    by (auto simp: readf_def vreadf_def split: prod.splits option.splits)
  with r b show ?thesis by blast
qed

theorem readf_safe_witness:
  "\<exists>xs res f'. readf PacketStreamFilter_read kMsgDClipboard PacketStreamFilter_new = (xs, res, f') \<and>
    psf_wf f' \<and> list_all received_within_limits xs \<and> res \<in> {Inr True, Inr False, Inl XBadClient}"
  using psf_settled_new(1)
  by (intro readf_safe) (auto simp: psf_settled_def protocol_messages_def)

end
