(* ===== verification/String_Util.thy ===== *)
theory String_Util
  imports Barrier_Prelude
begin

text \<open>
  The string functions of \<^verbatim>\<open>base/String.cpp\<close>.  A \<^verbatim>\<open>std::string\<close> is a \<open>string\<close>; C strings are lists
  without NUL.  What the source takes from the standard library (\<^verbatim>\<open>find\<close>, \<^verbatim>\<open>strtol\<close>, formatted
  stream input and output, \<^verbatim>\<open>tolower\<close> in the C locale) is defined first.
\<close>

type_synonym size_t = "64 word"

section \<open>Standard library functions\<close>

text \<open>\<^verbatim>\<open>subject.find(find, pos)\<close>: \<open>None\<close> is \<^verbatim>\<open>npos\<close>.\<close>

fun prefix_at :: "string \<Rightarrow> string \<Rightarrow> bool" where
  "prefix_at [] s \<longleftrightarrow> True"
| "prefix_at (c # cs) [] \<longleftrightarrow> False"
| "prefix_at (c # cs) (d # ds) \<longleftrightarrow> c = d \<and> prefix_at cs ds"

fun find_str :: "string \<Rightarrow> string \<Rightarrow> nat option" where
  "find_str f s =
     (if prefix_at f s then Some 0
      else case s of [] \<Rightarrow> None | _ # s' \<Rightarrow> map_option Suc (find_str f s'))"

declare find_str.simps [simp del]

definition str_find :: "string \<Rightarrow> string \<Rightarrow> nat \<Rightarrow> nat option" where
  "str_find subject f pos =
     (if pos \<le> length subject then map_option ((+) pos) (find_str f (drop pos subject)) else None)"

definition isspace :: "char \<Rightarrow> bool" where
  "isspace c \<longleftrightarrow> c \<in> set [CHR '' '', CHR 0x09, CHR 0x0A, CHR 0x0B, CHR 0x0C, CHR 0x0D]"

definition isdigit :: "char \<Rightarrow> bool" where
  "isdigit c \<longleftrightarrow> 48 \<le> (of_char c :: nat) \<and> (of_char c :: nat) \<le> 57"

definition digit_val :: "char \<Rightarrow> nat" where
  "digit_val c = of_char c - 48"

definition digit_char :: "nat \<Rightarrow> char" where
  "digit_char d = char_of (48 + d)"

definition decimal_val :: "string \<Rightarrow> nat" where
  "decimal_val ds = foldl (\<lambda>n c. 10 * n + digit_val c) 0 ds"

fun decimal :: "nat \<Rightarrow> string" where
  "decimal n = (if n < 10 then [digit_char n] else decimal (n div 10) @ [digit_char (n mod 10)])"

declare decimal.simps [simp del]

text \<open>
  \<^verbatim>\<open>strtol(s, &end, 10)\<close>: the value, the number of characters before \<^verbatim>\<open>end\<close>, and whether \<^verbatim>\<open>errno\<close> is set.
\<close>

definition strtol10 :: "string \<Rightarrow> int \<times> nat \<times> bool" where
  "strtol10 s =
     (let ws = takeWhile isspace s; s1 = drop (length ws) s;
          sign = takeWhile (\<lambda>c. c = CHR ''+'' \<or> c = CHR ''-'') (take 1 s1);
          s2 = drop (length sign) s1; ds = takeWhile isdigit s2;
          v = (if sign = ''-'' then - int (decimal_val ds) else int (decimal_val ds))
      in if ds = [] then (0, 0, False)
         else if v > 2 ^ 63 - 1 then (2 ^ 63 - 1, length ws + length sign + length ds, True)
         else if v < - (2 ^ 63) then (- (2 ^ 63), length ws + length sign + length ds, True)
         else (v, length ws + length sign + length ds, False))"

definition tolower_char :: "char \<Rightarrow> char" where
  "tolower_char c = (if 65 \<le> (of_char c :: nat) \<and> (of_char c :: nat) \<le> 90 then char_of (of_char c + 32 :: nat) else c)"

definition toupper_char :: "char \<Rightarrow> char" where
  "toupper_char c = (if 97 \<le> (of_char c :: nat) \<and> (of_char c :: nat) \<le> 122 then char_of (of_char c - 32 :: nat) else c)"

text \<open>The value of a \<^verbatim>\<open>char\<close> promoted to \<^verbatim>\<open>int\<close>, where \<^verbatim>\<open>char\<close> is signed.\<close>

definition char_int :: "char \<Rightarrow> int" where
  "char_int c = (let n = of_char c :: int in if n \<ge> 128 then n - 256 else n)"

section \<open>Functions of String.cpp\<close>

definition hex_to_number :: "char \<Rightarrow> int" where
  "hex_to_number ch =
     (case map_of (zip ''0123456789abcdefABCDEF''
          [0, 1, 2, 3, 4, 5, 6, 7, 8, 9, 10, 11, 12, 13, 14, 15, 10, 11, 12, 13, 14, 15]) ch of
        Some n \<Rightarrow> n
      | None \<Rightarrow> -1)"

text \<open>
  The scan of \<^verbatim>\<open>vformat\<close>: position, width and argument index of each substitution.  The first
  argument is the offset of the rest of the format; after an invalid index the scan goes on at
  \<^verbatim>\<open>end\<close>.
\<close>

function vformat_scan :: "nat \<Rightarrow> string \<Rightarrow> (nat \<times> nat \<times> nat) list" where
  "vformat_scan p [] = []"
| "vformat_scan p (c # cs) =
     (if c = CHR ''%'' then
        (case cs of
           [] \<Rightarrow> []
         | k # r \<Rightarrow>
             if k = CHR ''%'' then (p, 2, 0) # vformat_scan (p + 2) r
             else if k = CHR ''{'' then
               (case strtol10 r of
                  (i, n, errno) \<Rightarrow>
                    if errno \<or> i < 0 \<or> drop n r = [] \<or> hd (drop n r) \<noteq> CHR ''}''
                    then vformat_scan (p + 2 + n) (drop n r)
                    else (p, n + 3, nat i) # vformat_scan (p + n + 3) (drop (Suc n) r))
             else vformat_scan (p + 2) r)
      else vformat_scan (p + 1) cs)"
  by pat_completeness auto
termination
  by (relation "measure (\<lambda>(p, s). length s)") auto

text \<open>
  The rest of \<^verbatim>\<open>vformat\<close>: as many arguments as the highest index are taken, and the pieces are
  put together.  Taking more arguments than there are is undefined: \<open>None\<close>.
\<close>

fun vformat_subst :: "string \<Rightarrow> string list \<Rightarrow> nat \<Rightarrow> (nat \<times> nat \<times> nat) list \<Rightarrow> string" where
  "vformat_subst fmt value src [] = drop src fmt"
| "vformat_subst fmt value src ((pos, width, idx) # ps) =
     take (pos - src) (drop src fmt) @ value ! idx @ vformat_subst fmt value (pos + width) ps"

definition vformat :: "string \<Rightarrow> string list \<Rightarrow> string option" where
  "vformat fmt args =
     (let subs = vformat_scan 0 fmt; maxIndex = foldl (\<lambda>m (p, w, i). max m i) 0 subs
      in if maxIndex > length args then None
         else Some (vformat_subst fmt (''%'' # take maxIndex args) 0 subs))"

text \<open>
  \<^verbatim>\<open>sprintf\<close>: \<open>out\<close> is the complete formatted text.  \<^verbatim>\<open>vsnprintf\<close> with a buffer of \<open>len\<close> bytes returns
  its length and stores at most \<open>len - 1\<close> characters of it.
\<close>

function sprintf_loop :: "nat \<Rightarrow> string \<Rightarrow> string" where
  "sprintf_loop len out =
     (if len = 0 then []
      else if length out > len then sprintf_loop (len * 2) out else take (len - 1) out)"
  by pat_completeness auto
termination
  by (relation "measure (\<lambda>(len, out). length out - len)") auto

declare sprintf_loop.simps [simp del]

definition str_sprintf :: "string \<Rightarrow> string" where
  "str_sprintf out = sprintf_loop 1024 out"

text \<open>\<^verbatim>\<open>findReplaceAll\<close>; its loop need not end, so not returning is \<open>None\<close>.\<close>

partial_function (option) findReplaceAll_loop ::
    "string \<Rightarrow> string \<Rightarrow> string \<Rightarrow> nat \<Rightarrow> string option" where
  "findReplaceAll_loop subject f r pos =
     (case str_find subject f pos of
        None \<Rightarrow> Some subject
      | Some p \<Rightarrow>
          findReplaceAll_loop (take p subject @ r @ drop (p + length f) subject) f r (p + length r))"

definition findReplaceAll :: "string \<Rightarrow> string \<Rightarrow> string \<Rightarrow> string option" where
  "findReplaceAll subject f r = findReplaceAll_loop subject f r 0"

definition removeFileExt :: "string \<Rightarrow> string" where
  "removeFileExt filename =
     (if CHR ''.'' \<in> set filename
      then rev (drop 1 (dropWhile (\<lambda>c. c \<noteq> CHR ''.'') (rev filename)))
      else filename)"

definition hex_digit :: "nat \<Rightarrow> char" where
  "hex_digit i = ''0123456789abcdef'' ! i"

definition hex_digits :: "UInt8 \<Rightarrow> string" where
  "hex_digits b =
     (let n = unat b
      in if n < 16 then [hex_digit n] else [hex_digit (n div 16), hex_digit (n mod 16)])"

definition to_hex :: "bytes \<Rightarrow> nat \<Rightarrow> char \<Rightarrow> string" where
  "to_hex subject width fill =
     concat (map (\<lambda>b. let h = hex_digits b in replicate (width - length h) fill @ h) subject)"

fun from_hex_loop :: "string \<Rightarrow> bytes option" where
  "from_hex_loop [] = Some []"
| "from_hex_loop [c] = (if c = CHR '':'' then Some [] else None)"
| "from_hex_loop (c # d # cs) =
     (if c = CHR '':'' then from_hex_loop (d # cs)
      else if hex_to_number c < 0 \<or> hex_to_number d < 0 then None
      else map_option ((#) (word_of_int (hex_to_number c * 16 + hex_to_number d))) (from_hex_loop cs))"

text \<open>\<^verbatim>\<open>from_hex\<close> returns the empty vector on malformed input.\<close>

definition from_hex :: "string \<Rightarrow> bytes" where
  "from_hex data = (case from_hex_loop data of None \<Rightarrow> [] | Some v \<Rightarrow> v)"

definition uppercase :: "string \<Rightarrow> string" where
  "uppercase subject = map toupper_char subject"

definition removeChar :: "string \<Rightarrow> char \<Rightarrow> string" where
  "removeChar subject c = filter (\<lambda>d. d \<noteq> c) subject"

definition sizeTypeToString :: "size_t \<Rightarrow> string" where
  "sizeTypeToString n = decimal (unat n)"

text \<open>
  \<^verbatim>\<open>stringToSizeType\<close>.  When only blanks are left the stream sentry fails and the variable keeps
  the indeterminate value it started with, the parameter \<open>junk\<close>.
\<close>

definition stringToSizeType :: "size_t \<Rightarrow> string \<Rightarrow> size_t" where
  "stringToSizeType junk s =
     (let s1 = dropWhile isspace s;
          sign = takeWhile (\<lambda>c. c = CHR ''+'' \<or> c = CHR ''-'') (take 1 s1);
          ds = takeWhile isdigit (drop (length sign) s1); v = decimal_val ds
      in if s1 = [] then junk
         else if ds = [] then 0
         else if v \<ge> 2 ^ 64 then - 1
         else if sign = ''-'' then - word_of_nat v else word_of_nat v)"

text \<open>\<^verbatim>\<open>splitString\<close>, with \<^verbatim>\<open>head\<close> and the rest of the search as in the source.\<close>

function splitString_loop :: "string \<Rightarrow> char \<Rightarrow> nat \<Rightarrow> string list" where
  "splitString_loop s c head =
     (case str_find s [c] head of
        Some sep \<Rightarrow>
          (if head \<noteq> sep then [take (sep - head) (drop head s)] else []) @
          splitString_loop s c (sep + 1)
      | None \<Rightarrow> if head < length s then [take (length s - head) (drop head s)] else [])"
  by pat_completeness auto
termination
  by (relation "measure (\<lambda>(s, c, head). Suc (length s) - head)")
     (auto simp: str_find_def split: if_splits)

declare splitString_loop.simps [simp del]

definition splitString :: "string \<Rightarrow> char \<Rightarrow> string list" where
  "splitString s c = splitString_loop s c 0"

definition cmpEqual :: "char \<Rightarrow> char \<Rightarrow> bool" where
  "cmpEqual a b \<longleftrightarrow> tolower_char a = tolower_char b"

definition cmpLess :: "char \<Rightarrow> char \<Rightarrow> bool" where
  "cmpLess a b \<longleftrightarrow> char_int (tolower_char a) < char_int (tolower_char b)"

text \<open>\<^verbatim>\<open>std::lexicographical_compare\<close> with \<^verbatim>\<open>cmpLess\<close>.\<close>

fun CaselessCmp_less :: "string \<Rightarrow> string \<Rightarrow> bool" where
  "CaselessCmp_less _ [] \<longleftrightarrow> False"
| "CaselessCmp_less [] (_ # _) \<longleftrightarrow> True"
| "CaselessCmp_less (a # as) (b # bs) \<longleftrightarrow>
     (if cmpLess a b then True else if cmpLess b a then False else CaselessCmp_less as bs)"

definition CaselessCmp_equal :: "string \<Rightarrow> string \<Rightarrow> bool" where
  "CaselessCmp_equal a b \<longleftrightarrow> \<not> (CaselessCmp_less a b \<or> CaselessCmp_less b a)"

section \<open>Searching\<close>

lemma prefix_at_iff: "prefix_at f s \<longleftrightarrow> take (length f) s = f"
  by (induction f s rule: prefix_at.induct) auto

lemma find_str_Some:
  "find_str f s = Some k \<Longrightarrow> k + length f \<le> length s \<and> prefix_at f (drop k s) \<and> (\<forall>j<k. \<not> prefix_at f (drop j s))"
proof (induction f s arbitrary: k rule: find_str.induct)
  case (1 f s)
  show ?case
  proof (cases "prefix_at f s")
    case True
    moreover have "length f \<le> length s"
      using True unfolding prefix_at_iff by (metis length_take min.cobounded1)
    ultimately show ?thesis using "1.prems" by (simp add: find_str.simps [of f s])
  next
    case False
    with "1.prems" obtain c s' k' where s: "s = c # s'" "k = Suc k'" "find_str f s' = Some k'"
      by (auto simp: find_str.simps [of f s] split: list.splits)
    with "1.IH" [OF False s(1) s(3)] False show ?thesis
      by (auto simp: less_Suc_eq_0_disj)
  qed
qed

lemma find_str_None: "find_str f s = None \<Longrightarrow> j \<le> length s \<Longrightarrow> \<not> prefix_at f (drop j s)"
proof (induction f s arbitrary: j rule: find_str.induct)
  case (1 f s)
  then have np: "\<not> prefix_at f s" by (auto simp: find_str.simps [of f s] split: if_splits)
  show ?case
  proof (cases s)
    case (Cons c s')
    then have "find_str f s' = None" using "1.prems"(1) np by (simp add: find_str.simps [of f "c # s'"])
    with "1.IH" [OF np Cons, of "j - 1"] "1.prems"(2) Cons np show ?thesis by (cases j) auto
  qed (use np "1.prems" in simp)
qed

text \<open>Replacing left to right, without rescanning what was put in: the meaning of \<^verbatim>\<open>findReplaceAll\<close>.\<close>

function replaced :: "string \<Rightarrow> string \<Rightarrow> string \<Rightarrow> string" where
  "replaced f r s =
     (if f = [] then s
      else if prefix_at f s then r @ replaced f r (drop (length f) s)
      else case s of [] \<Rightarrow> [] | c # cs \<Rightarrow> c # replaced f r cs)"
  by pat_completeness auto
termination
proof (relation "measure (\<lambda>(f, r, s). length s)")
  fix f r s :: string
  assume "f \<noteq> []" "prefix_at f s"
  then show "((f, r, drop (length f) s), f, r, s) \<in> measure (\<lambda>(f, r, s). length s)"
    by (cases s; cases f) auto
qed auto

declare replaced.simps [simp del]

lemma replaced_none:
  "f \<noteq> [] \<Longrightarrow> \<forall>j \<le> length s. \<not> prefix_at f (drop j s) \<Longrightarrow> replaced f r s = s"
proof (induction s)
  case Nil
  then show ?case by (simp add: replaced.simps)
next
  case (Cons c s)
  have "\<not> prefix_at f (drop j s)" if "j \<le> length s" for j
    using Cons.prems(2) that by (auto dest: spec [of _ "Suc j"])
  with Cons show ?case using Cons.prems(2) by (auto simp: replaced.simps [of f r "c # s"] dest: spec [of _ 0])
qed

lemma replaced_skip:
  "f \<noteq> [] \<Longrightarrow> k \<le> length s \<Longrightarrow> \<forall>j<k. \<not> prefix_at f (drop j s) \<Longrightarrow>
    replaced f r s = take k s @ replaced f r (drop k s)"
proof (induction k arbitrary: s)
  case (Suc k)
  then obtain c s' where s: "s = c # s'" by (cases s) auto
  have "\<forall>j<k. \<not> prefix_at f (drop j s')" using Suc.prems(3) s by (auto dest: spec [of _ "Suc _"])
  moreover have "\<not> prefix_at f s" using Suc.prems(3) by (auto dest: spec [of _ 0])
  ultimately show ?case
    using Suc.IH [of s'] Suc.prems(1,2) s by (simp add: replaced.simps [of f r "c # s'"])
qed simp

lemma findReplaceAll_loop_replaced:
  assumes "f \<noteq> []" and "pos \<le> length s"
  shows "findReplaceAll_loop s f r pos = Some (take pos s @ replaced f r (drop pos s))"
  using assms
proof (induction "length s - pos" arbitrary: s pos rule: less_induct)
  case less
  show ?case
  proof (cases "find_str f (drop pos s)")
    case None
    then have "replaced f r (drop pos s) = drop pos s"
      using less.prems find_str_None [OF None] by (intro replaced_none) auto
    with None less.prems show ?thesis
      by (subst findReplaceAll_loop.simps) (simp add: str_find_def)
  next
    case (Some k)
    note k = find_str_Some [OF Some]
    let ?p = "pos + k"
    let ?s = "take ?p s @ r @ drop (?p + length f) s"
    have kl: "?p + length f \<le> length s" using k less.prems(2) by auto
    have len: "length ?s - (?p + length r) < length s - pos" "?p + length r \<le> length ?s"
      using kl less.prems by (cases f; simp)+
    have "findReplaceAll_loop s f r pos = findReplaceAll_loop ?s f r (?p + length r)"
      using Some less.prems by (subst findReplaceAll_loop.simps) (simp add: str_find_def)
    also have "\<dots> = Some (take (?p + length r) ?s @ replaced f r (drop (?p + length r) ?s))"
      by (rule less.hyps [OF len(1) less.prems(1) len(2)])
    also have "take (?p + length r) ?s = take ?p s @ r" using kl by simp
    also have "drop (?p + length r) ?s = drop (?p + length f) s" using kl by simp
    also have "(take ?p s @ r) @ replaced f r (drop (?p + length f) s) =
        take pos s @ take k (drop pos s) @ replaced f r (drop k (drop pos s))"
      using k less.prems(1) replaced.simps [of f r "drop k (drop pos s)"]
      by (simp add: take_add ac_simps) (metis add.commute take_add append.assoc)
    also have "\<dots> = take pos s @ replaced f r (drop pos s)"
      using k less.prems by (subst replaced_skip [of f k "drop pos s"]) auto
    finally show ?thesis .
  qed
qed

text \<open>
  C9.  \<^verbatim>\<open>findReplaceAll\<close> returns for every non-empty search string, and its result is the left to right
  replacement of the non-overlapping occurrences, with the replacement never scanned again.
\<close>

theorem findReplaceAll_correct:
  assumes "f \<noteq> []"
  shows "findReplaceAll subject f r = Some (replaced f r subject)"
  using findReplaceAll_loop_replaced [OF assms, of 0 subject r] by (simp add: findReplaceAll_def)

theorem findReplaceAll_correct_witness:
  "findReplaceAll ''a%20b%20'' ''%20'' ''%20 '' = Some ''a%20 b%20 ''"
  using findReplaceAll_correct [of "''%20''" "''a%20b%20''" "''%20 ''"]
  by (simp add: replaced.simps)

section \<open>Formatting\<close>

text \<open>A single-pass description of \<^verbatim>\<open>vformat\<close> that copies or substitutes as it reads.\<close>

function vformat_spec :: "string list \<Rightarrow> string \<Rightarrow> string" where
  "vformat_spec value [] = []"
| "vformat_spec value (c # cs) =
     (if c = CHR ''%'' then
        (case cs of
           [] \<Rightarrow> [c]
         | k # r \<Rightarrow>
             if k = CHR ''%'' then value ! 0 @ vformat_spec value r
             else if k = CHR ''{'' then
               (case strtol10 r of
                  (i, n, errno) \<Rightarrow>
                    if errno \<or> i < 0 \<or> drop n r = [] \<or> hd (drop n r) \<noteq> CHR ''}''
                    then c # k # take n r @ vformat_spec value (drop n r)
                    else value ! nat i @ vformat_spec value (drop (Suc n) r))
             else c # k # vformat_spec value r)
      else c # vformat_spec value cs)"
  by pat_completeness auto
termination
  by (relation "measure (\<lambda>(v, s). length s)") auto

lemma strtol10_consumed:
  assumes "strtol10 r = (i, n, e)"
  shows "n \<le> length r"
proof -
  define s1 where "s1 = drop (length (takeWhile isspace r)) r"
  define sg where "sg = takeWhile (\<lambda>c. c = CHR ''+'' \<or> c = CHR ''-'') (take 1 s1)"
  define ds where "ds = takeWhile isdigit (drop (length sg) s1)"
  have "length (takeWhile isspace r) + length s1 = length r"
    using length_takeWhile_le [of isspace r] by (simp add: s1_def)
  moreover have "length sg \<le> length s1"
    using length_takeWhile_le [of "\<lambda>c. c = CHR ''+'' \<or> c = CHR ''-''" "take 1 s1"]
    by (simp add: sg_def)
  moreover have "length ds \<le> length s1 - length sg"
    using length_takeWhile_le [of isdigit "drop (length sg) s1"] by (simp add: ds_def)
  moreover have "n = 0 \<or> n = length (takeWhile isspace r) + length sg + length ds"
    using assms unfolding strtol10_def Let_def s1_def [symmetric] sg_def [symmetric] ds_def [symmetric]
    by (auto split: if_splits)
  ultimately show ?thesis by auto
qed

lemma vformat_subst_scan:
  assumes "fmt = pre @ s" and "length pre = p" and "src \<le> p"
  shows "vformat_subst fmt value src (vformat_scan p s) = drop src pre @ vformat_spec value s"
  using assms
proof (induction p s arbitrary: pre src rule: vformat_scan.induct)
  case (1 p)
  then show ?case by simp
next
  case (2 p c cs)
  show ?case
  proof (cases "c = CHR ''%''")
    case False
    with "2.IH"(5) [of "pre @ [c]" src] "2.prems" show ?thesis by simp
  next
    case pc: True
    show ?thesis
    proof (cases cs)
      case Nil
      with pc "2.prems" show ?thesis by simp
    next
      case (Cons k r)
      consider (lit) "k = CHR ''%''" | (arg) "k = CHR ''{''" | (other) "k \<noteq> CHR ''%''" "k \<noteq> CHR ''{''" by blast
      then show ?thesis
      proof cases
        case lit
        have "vformat_subst fmt value (p + 2) (vformat_scan (p + 2) r) = vformat_spec value r"
          using "2.IH"(1) [OF pc Cons lit, of "pre @ [c, k]" "p + 2"] "2.prems" Cons by simp
        with pc Cons lit "2.prems" show ?thesis by simp
      next
        case other
        with "2.IH"(4) [OF pc Cons other, of "pre @ [c, k]" src] "2.prems" pc Cons show ?thesis
          by simp
      next
        case arg
        then have k: "k \<noteq> CHR ''%''" by simp
        obtain i n e where st: "strtol10 r = (i, n, e)" by (metis prod_cases3)
        show ?thesis
        proof (cases "e \<or> i < 0 \<or> drop n r = [] \<or> hd (drop n r) \<noteq> CHR ''}''")
          case True
          have "vformat_subst fmt value src (vformat_scan (p + 2 + n) (drop n r)) =
              drop src (pre @ [c, k] @ take n r) @ vformat_spec value (drop n r)"
            using strtol10_consumed [OF st] "2.prems" Cons
            by (intro "2.IH"(2) [OF pc Cons k arg st [symmetric] refl True]) auto
          with True arg pc Cons st "2.prems" show ?thesis by simp
        next
          case False
          then have n: "n < length r" by auto
          have "vformat_subst fmt value (p + n + 3) (vformat_scan (p + n + 3) (drop (Suc n) r)) =
              drop (p + n + 3) (pre @ [c, k] @ take (Suc n) r) @ vformat_spec value (drop (Suc n) r)"
            using n "2.prems" Cons
            by (intro "2.IH"(3) [OF pc Cons k arg st [symmetric] refl False]) auto
          with False n arg pc Cons st "2.prems" show ?thesis by (simp add: add.assoc [of p n 3, symmetric])
        qed
      qed
    qed
  qed
qed

lemma max_index:
  "foldl (\<lambda>m (p, w, i). max m i) k subs \<le> n \<longleftrightarrow> k \<le> n \<and> (\<forall>(p, w, i) \<in> set subs. i \<le> n)" for n :: nat
  by (induction subs arbitrary: k) auto

lemma vformat_subst_take:
  "\<forall>(p, w, i) \<in> set subs. i \<le> m \<Longrightarrow>
    vformat_subst fmt (v # take m args) src subs = vformat_subst fmt (v # args) src subs"
  by (induction subs arbitrary: src) (auto simp: nth_Cons split: nat.splits)

text \<open>
  \<^verbatim>\<open>vformat\<close>, which first records positions and widths and then splices, computes the single-pass
  substitution of \<open>%{i}\<close> by the \<open>i\<close>-th argument and of \<open>%%\<close> and \<open>%{0}\<close> by a percent sign, with
  ill-formed escapes copied; it is defined exactly when every index has an argument.
\<close>

theorem vformat_correct:
  "vformat fmt args =
     (if \<forall>(p, w, i) \<in> set (vformat_scan 0 fmt). i \<le> length args
      then Some (vformat_spec (''%'' # args) fmt) else None)"
proof -
  let ?subs = "vformat_scan 0 fmt"
  define m where "m = foldl (\<lambda>m (p, w, i). max m i) 0 ?subs"
  have le: "m \<le> n \<longleftrightarrow> (\<forall>(p, w, i) \<in> set ?subs. i \<le> n)" for n
    unfolding m_def using max_index [of 0 ?subs n] by simp
  have "vformat_subst fmt (''%'' # take m args) 0 ?subs = vformat_spec (''%'' # args) fmt"
    using vformat_subst_scan [of fmt "[]" fmt 0 0 "''%'' # args"] vformat_subst_take [of ?subs m] le [of m]
    by simp
  then show ?thesis
    unfolding le [of "length args", symmetric] vformat_def Let_def m_def [symmetric] by (simp add: not_less)
qed

theorem vformat_correct_witness:
  "vformat ''50%% of %{1}%'' [''x''] = Some ''50% of x%''"
  by (subst vformat_correct)
     (simp add: strtol10_def isspace_def isdigit_def decimal_val_def digit_val_def)

section \<open>Numbers\<close>

lemma digit_char_simps [simp]:
  assumes "d < 10"
  shows "isdigit (digit_char d)" "digit_val (digit_char d) = d" "\<not> isspace (digit_char d)"
    "digit_char d \<noteq> CHR ''+''" "digit_char d \<noteq> CHR ''-''"
proof -
  have n: "(of_char (digit_char d) :: nat) = 48 + d"
    using assms by (simp add: digit_char_def take_bit_eq_mod of_char_mod_256 flip: take_bit_nat_def)
  then show "isdigit (digit_char d)" "digit_val (digit_char d) = d"
    using assms by (auto simp: isdigit_def digit_val_def)
  show "\<not> isspace (digit_char d)" "digit_char d \<noteq> CHR ''+''" "digit_char d \<noteq> CHR ''-''"
    using n assms by (auto simp: isspace_def)
qed

lemma decimal_digits: "set (decimal n) \<subseteq> digit_char ` {..<10}"
proof (induction n rule: less_induct)
  case (less n)
  show ?case
    using less [of "n div 10"] by (subst decimal.simps) auto
qed

lemma decimal_not_Nil [simp]: "decimal n \<noteq> []"
  by (subst decimal.simps) simp

lemma decimal_val_decimal: "decimal_val (decimal n) = n"
proof (induction n rule: less_induct)
  case (less n)
  show ?case
    using less [of "n div 10"] by (subst decimal.simps) (auto simp: decimal_val_def)
qed

lemma stringToSizeType_decimal: "stringToSizeType junk (sizeTypeToString n) = n"
proof -
  let ?s = "decimal (unat n)"
  have dig: "isdigit c" "\<not> isspace c" "c \<noteq> CHR ''+''" "c \<noteq> CHR ''-''" if "c \<in> set ?s" for c
    using subsetD [OF decimal_digits that] digit_char_simps by (metis imageE lessThan_iff)+
  then have "dropWhile isspace ?s = ?s" "takeWhile isdigit ?s = ?s"
    "takeWhile (\<lambda>c. c = CHR ''+'' \<or> c = CHR ''-'') (take 1 ?s) = []"
    by (cases ?s; auto)+
  moreover have "unat n < 2 ^ 64" using unsigned_less [where 'a = nat, of n] by simp
  ultimately show ?thesis
    by (simp add: stringToSizeType_def sizeTypeToString_def decimal_val_decimal Let_def
        del: takeWhile_eq_all_conv)
qed

lemma hex_digit_chars:
  assumes "i < 16"
  shows "hex_to_number (hex_digit i) = int i" "hex_digit i \<noteq> CHR '':''"
proof -
  have "\<forall>i \<in> set [0..<16]. hex_to_number (hex_digit i) = int i \<and>
      hex_digit i \<noteq> CHR '':''"
    by code_simp
  with assms show "hex_to_number (hex_digit i) = int i" "hex_digit i \<noteq> CHR '':''"
    by auto
qed

lemma from_hex_byte:
  "from_hex_loop (replicate (2 - length (hex_digits b)) (CHR ''0'') @ hex_digits b @ cs) =
    map_option ((#) b) (from_hex_loop cs)"
proof -
  have n: "unat b < 256" using unsigned_less [where 'a = nat, of b] by simp
  then have "unat b div 16 < 16" "unat b mod 16 < 16" by auto
  moreover have "hex_to_number (CHR ''0'') = 0" by (simp add: hex_to_number_def)
  moreover have "(word_of_int (int (unat b div 16) * 16 + int (unat b mod 16)) :: UInt8) = b"
  proof -
    have "int (unat b div 16) * 16 + int (unat b mod 16) = int (unat b)"
      using div_mult_mod_eq [of "unat b" 16] by linarith
    then show ?thesis by simp
  qed
  ultimately show ?thesis
    by (auto simp: hex_digits_def Let_def hex_digit_chars numeral_2_eq_2)
qed

text \<open>
  \<^verbatim>\<open>from_hex\<close> inverts \<^verbatim>\<open>to_hex\<close> as it is used for fingerprints (width 2, filled with zeros).
\<close>

theorem from_hex_to_hex: "from_hex (to_hex bs 2 (CHR ''0'')) = bs"
proof -
  have "from_hex_loop (to_hex bs 2 (CHR ''0'')) = Some bs"
    by (induction bs) (simp_all add: to_hex_def from_hex_byte Let_def)
  then show ?thesis by (simp add: from_hex_def)
qed

lemma sprintf_loop_small: "0 < len \<Longrightarrow> length out < len \<Longrightarrow> sprintf_loop len out = out"
  by (subst sprintf_loop.simps) auto

text \<open>
  \<^verbatim>\<open>sprintf\<close> returns the whole formatted text whenever its length is not exactly the size of one
  of the buffers it tries, 1024 times a power of two; at such a length the last character is lost.
\<close>

theorem sprintf_complete:
  "str_sprintf out =
     (if \<exists>k \<le> length out. length out = 1024 * 2 ^ k then butlast out else out)"
proof -
  have "sprintf_loop (1024 * 2 ^ j) out =
      (if \<exists>k. j \<le> k \<and> length out = 1024 * 2 ^ k then butlast out else out)" for j
  proof (induction "length out - 1024 * 2 ^ j" arbitrary: j rule: less_induct)
    case less
    consider "length out < 1024 * 2 ^ j" | "length out = 1024 * 2 ^ j" | "1024 * 2 ^ j < length out"
      by linarith
    then show ?case
    proof cases
      case 1
      moreover have "length out \<noteq> 1024 * 2 ^ k" if "j \<le> k" for k
        using 1 power_increasing [OF that, of "2 :: nat"] by auto
      ultimately show ?thesis using sprintf_loop_small [of "1024 * 2 ^ j" out] by auto
    next
      case 2
      then show ?thesis
        by (subst sprintf_loop.simps) (auto simp: butlast_conv_take)
    next
      case 3
      have s: "1024 * 2 ^ j * 2 = 1024 * (2 :: nat) ^ Suc j" by simp
      have "sprintf_loop (1024 * 2 ^ j) out = sprintf_loop (1024 * 2 ^ Suc j) out"
        using 3 unfolding s [symmetric] by (subst sprintf_loop.simps) simp
      also have "\<dots> = (if \<exists>k. Suc j \<le> k \<and> length out = 1024 * 2 ^ k then butlast out else out)"
        using 3 by (intro less) (simp add: diff_less_mono2)
      also have "(\<exists>k. Suc j \<le> k \<and> length out = 1024 * 2 ^ k) \<longleftrightarrow> (\<exists>k. j \<le> k \<and> length out = 1024 * 2 ^ k)"
        using 3 by (metis Suc_leI le_neq_implies_less Suc_leD less_irrefl)
      finally show ?thesis .
    qed
  qed
  from this [of 0] have "str_sprintf out = (if \<exists>k. length out = 1024 * 2 ^ k then butlast out else out)"
    by (simp add: str_sprintf_def)
  moreover have "k \<le> 1024 * 2 ^ k" for k :: nat
    using less_exp [of k] by linarith
  ultimately show ?thesis by metis
qed

theorem sprintf_complete_witness:
  "str_sprintf (replicate 1024 (CHR ''x'')) = replicate 1023 (CHR ''x'') \<and> str_sprintf ''abc'' = ''abc''"
proof -
  have "str_sprintf (replicate 1024 (CHR ''x'')) = butlast (replicate 1024 (CHR ''x''))"
    unfolding sprintf_complete [of "replicate 1024 (CHR ''x'')"] by (auto intro: exI [of _ 0])
  moreover have "(3 :: nat) \<noteq> 1024 * 2 ^ k" for k
    using one_le_power [of "2 :: nat" k] by linarith
  then have "str_sprintf ''abc'' = ''abc''" unfolding sprintf_complete [of "''abc''"] by (auto simp: numeral_3_eq_3 [symmetric])
  ultimately show ?thesis by (simp add: butlast_conv_take)
qed

section \<open>Caseless comparison\<close>

lemma char_int_inject [simp]: "char_int c = char_int d \<longleftrightarrow> c = d"
proof -
  have r: "0 \<le> (of_char e :: int) \<and> (of_char e :: int) < 256" for e
    by (simp add: of_char_def horner_sum_bound)
  show ?thesis
    using r [of c] r [of d] of_char_eq_iff [where 'a = int] by (auto simp: char_int_def Let_def)
qed

definition caseless_key :: "string \<Rightarrow> int list" where
  "caseless_key s = map (\<lambda>c. char_int (tolower_char c)) s"

lemma caseless_key_eq: "caseless_key a = caseless_key b \<longleftrightarrow> map tolower_char a = map tolower_char b"
proof -
  have "caseless_key s = map char_int (map tolower_char s)" for s by (simp add: caseless_key_def)
  moreover have "inj char_int" by (simp add: inj_def)
  ultimately show ?thesis by (simp only: inj_map_eq_map)
qed

lemma CaselessCmp_less_key: "CaselessCmp_less a b \<longleftrightarrow> (caseless_key a, caseless_key b) \<in> lexord {(x, y). x < y}"
  by (induction a b rule: CaselessCmp_less.induct) (auto simp: caseless_key_def cmpLess_def)

lemma CaselessCmp_irrefl: "\<not> CaselessCmp_less a a"
  unfolding CaselessCmp_less_key by (rule lexord_irreflexive) simp

lemma CaselessCmp_trans: "CaselessCmp_less a b \<Longrightarrow> CaselessCmp_less b c \<Longrightarrow> CaselessCmp_less a c"
  unfolding CaselessCmp_less_key by (rule lexord_trans) (auto intro: transI)

lemma CaselessCmp_equal_iff: "CaselessCmp_equal a b \<longleftrightarrow> map tolower_char a = map tolower_char b"
proof -
  have "CaselessCmp_equal a b \<longleftrightarrow> caseless_key a = caseless_key b"
    unfolding CaselessCmp_equal_def CaselessCmp_less_key
    using lexord_linear [of "{(x :: int, y). x < y}" "caseless_key a" "caseless_key b"] less_linear
      lexord_irreflexive [of "{(x :: int, y). x < y}"] by auto
  then show ?thesis by (simp add: caseless_key_eq)
qed

section \<open>Splitting\<close>

lemma find_char:
  "case find_str [c] s of
     Some k \<Rightarrow> c \<notin> set (take k s) \<and> k < length s \<and> drop k s = c # drop (Suc k) s
   | None \<Rightarrow> c \<notin> set s"
proof (induction s)
  case Nil
  then show ?case by (simp add: find_str.simps)
next
  case (Cons d s)
  then show ?case by (subst find_str.simps) (auto split: option.splits)
qed

lemma splitString_loop_pieces:
  "head \<le> length s \<Longrightarrow>
    concat (splitString_loop s c head) = removeChar (drop head s) c \<and>
    (\<forall>w \<in> set (splitString_loop s c head). w \<noteq> [] \<and> c \<notin> set w)"
proof (induction s c head rule: splitString_loop.induct)
  case (1 s c head)
  show ?case
  proof (cases "find_str [c] (drop head s)")
    case None
    then have "c \<notin> set (drop head s)" using find_char [of c "drop head s"] by simp
    moreover from this have "removeChar (drop head s) c = drop head s"
      by (auto simp: removeChar_def intro: filter_True)
    ultimately show ?thesis
      using None "1.prems" by (subst (1 2) splitString_loop.simps) (auto simp: str_find_def)
  next
    case (Some k)
    let ?w = "take k (drop head s)"
    have k: "c \<notin> set ?w" "k < length (drop head s)" "drop k (drop head s) = c # drop (Suc k) (drop head s)"
      using find_char [of c "drop head s"] Some by simp_all
    have find: "str_find s [c] head = Some (head + k)" using Some "1.prems" by (simp add: str_find_def)
    have "drop head s = ?w @ c # drop (head + k + 1) s"
      using k(3) append_take_drop_id [of k "drop head s"] by (simp add: add.commute)
    moreover have "removeChar (?w @ c # u) c = ?w @ removeChar u c" for u
      using k(1) by (auto simp: removeChar_def intro: filter_True)
    ultimately have "removeChar (drop head s) c = ?w @ removeChar (drop (head + k + 1) s) c"
      by metis
    moreover have "splitString_loop s c head =
        (if k \<noteq> 0 then [?w] else []) @ splitString_loop s c (head + k + 1)"
      using find by (subst splitString_loop.simps) simp
    ultimately show ?thesis using "1.IH" [OF find] k(1,2) by auto
  qed
qed

lemma splitString_pieces:
  "concat (splitString s c) = removeChar s c"
  "w \<in> set (splitString s c) \<Longrightarrow> w \<noteq> [] \<and> c \<notin> set w"
  using splitString_loop_pieces [of 0 s c] by (auto simp: splitString_def)

end
