(* ===== verification/Clipboard_Data.thy ===== *)
theory Clipboard_Data
  imports Barrier_Prelude
begin

text \<open>
  Clipboards.  \<^verbatim>\<open>barrier/IClipboard.cpp\<close> has algorithms (\<^verbatim>\<open>marshall\<close>, \<^verbatim>\<open>unmarshall\<close>, \<^verbatim>\<open>copy\<close>) written
  against the virtual interface \<^verbatim>\<open>IClipboard\<close>; here the interface is a record of operations,
  its contract the locale \<open>iclipboard\<close>, and \<^verbatim>\<open>barrier/Clipboard.cpp\<close>, the in-memory clipboard, an
  interpretation of it.  A failing \<^verbatim>\<open>assert\<close> is \<open>ClipAssert\<close>; reading memory past the marshalled
  string and its terminating NUL, which the source does not guard against, is \<open>OutOfBounds\<close>.
\<close>

datatype clip_err = ClipAssert | OutOfBounds

type_synonym ClipTime = UInt32

definition kNumFormats :: nat where
  "kNumFormats = 3"

record 'c IClipboard =
  ic_empty :: "'c \<Rightarrow> clip_err + (bool \<times> 'c)"
  ic_add :: "nat \<Rightarrow> bytes \<Rightarrow> 'c \<Rightarrow> clip_err + 'c"
  ic_open :: "ClipTime \<Rightarrow> 'c \<Rightarrow> clip_err + (bool \<times> 'c)"
  ic_close :: "'c \<Rightarrow> clip_err + 'c"
  ic_getTime :: "'c \<Rightarrow> ClipTime"
  ic_has :: "nat \<Rightarrow> 'c \<Rightarrow> clip_err + bool"
  ic_get :: "nat \<Rightarrow> 'c \<Rightarrow> clip_err + bytes"

section \<open>Algorithms on the interface\<close>

definition bind_sum :: "'e + 'a \<Rightarrow> ('a \<Rightarrow> 'e + 'b) \<Rightarrow> 'e + 'b" where
  "bind_sum x f = (case x of Inl e \<Rightarrow> Inl e | Inr a \<Rightarrow> f a)"

lemma bind_sum_simps [simp]: "bind_sum (Inl e) f = Inl e" "bind_sum (Inr a) f = f a"
  by (simp_all add: bind_sum_def)

text \<open>Four bytes at offset \<open>i\<close> of the memory \<open>mem\<close>.\<close>

definition read_at :: "bytes \<Rightarrow> nat \<Rightarrow> clip_err + UInt32" where
  "read_at mem i = (if i + 4 \<le> length mem then Inr (readBE32 (drop i mem)) else Inl OutOfBounds)"

fun unmarshall_formats :: "'c IClipboard \<Rightarrow> bytes \<Rightarrow> nat \<Rightarrow> nat \<Rightarrow> 'c \<Rightarrow> clip_err + 'c" where
  "unmarshall_formats vt mem 0 index c = Inr c"
| "unmarshall_formats vt mem (Suc n) index c =
     bind_sum (read_at mem index) (\<lambda>format.
     bind_sum (read_at mem (index + 4)) (\<lambda>sz.
     bind_sum
       (if unat format < kNumFormats then
          (if unat sz = 0 \<or> index + 8 + unat sz \<le> length mem
           then ic_add vt (unat format) (take (unat sz) (drop (index + 8) mem)) c
           else Inl OutOfBounds)
        else Inr c)
     (\<lambda>c'. unmarshall_formats vt mem n (index + 8 + unat sz) c')))"

definition IClipboard_unmarshall :: "'c IClipboard \<Rightarrow> 'c \<Rightarrow> bytes \<Rightarrow> ClipTime \<Rightarrow> clip_err + 'c" where
  "IClipboard_unmarshall vt c data time =
     (let mem = data @ [0] in
      bind_sum (ic_open vt time c) (\<lambda>(opened, c1).
      if \<not> opened then Inr c1
      else
        bind_sum (ic_empty vt c1) (\<lambda>(_, c2).
        bind_sum (read_at mem 0) (\<lambda>numFormats.
        bind_sum (unmarshall_formats vt mem (unat numFormats) 4 c2) (\<lambda>c3.
        ic_close vt c3)))))"

text \<open>
  \<^verbatim>\<open>marshall\<close>: first pass (which formats there are, and their data), second pass (the string).
\<close>

fun marshall_collect :: "'c IClipboard \<Rightarrow> 'c \<Rightarrow> nat list \<Rightarrow> clip_err + (UInt32 \<times> bytes list)" where
  "marshall_collect vt c [] = Inr (0, [])"
| "marshall_collect vt c (f # fs) =
     bind_sum (ic_has vt f c) (\<lambda>h.
     bind_sum (if h then ic_get vt f c else Inr []) (\<lambda>d.
     bind_sum (marshall_collect vt c fs) (\<lambda>(n, ds). Inr (if h then n + 1 else n, d # ds))))"

fun marshall_write :: "'c IClipboard \<Rightarrow> 'c \<Rightarrow> (nat \<times> bytes) list \<Rightarrow> clip_err + bytes" where
  "marshall_write vt c [] = Inr []"
| "marshall_write vt c ((f, d) # fs) =
     bind_sum (ic_has vt f c) (\<lambda>h.
     bind_sum (marshall_write vt c fs) (\<lambda>rest.
     Inr ((if h then writeUInt32 (word_of_nat f) @ writeUInt32 (word_of_nat (length d)) @ d else []) @ rest)))"

definition IClipboard_marshall :: "'c IClipboard \<Rightarrow> 'c \<Rightarrow> clip_err + (bytes \<times> 'c)" where
  "IClipboard_marshall vt c =
     bind_sum (ic_open vt 0 c) (\<lambda>(opened, c1).
     if \<not> opened then Inr ([], c1)
     else
       bind_sum (marshall_collect vt c1 [0..<kNumFormats]) (\<lambda>(n, formatData).
       bind_sum (marshall_write vt c1 (zip [0..<kNumFormats] formatData)) (\<lambda>body.
       bind_sum (ic_close vt c1) (\<lambda>c2. Inr (writeUInt32 n @ body, c2)))))"

text \<open>\<^verbatim>\<open>copy(dst, src, time)\<close>: the result, the destination and the source afterwards.\<close>

fun copy_formats :: "'c IClipboard \<Rightarrow> 'd IClipboard \<Rightarrow> 'd \<Rightarrow> nat list \<Rightarrow> 'c \<Rightarrow> clip_err + 'c" where
  "copy_formats vd vs src [] dst = Inr dst"
| "copy_formats vd vs src (f # fs) dst =
     bind_sum (ic_has vs f src) (\<lambda>h.
     bind_sum (if h then bind_sum (ic_get vs f src) (\<lambda>d. ic_add vd f d dst) else Inr dst)
     (copy_formats vd vs src fs))"

definition IClipboard_copy_at ::
    "'c IClipboard \<Rightarrow> 'd IClipboard \<Rightarrow> 'c \<Rightarrow> 'd \<Rightarrow> ClipTime \<Rightarrow> clip_err + (bool \<times> 'c \<times> 'd)" where
  "IClipboard_copy_at vd vs dst src time =
     bind_sum (ic_open vs time src) (\<lambda>(so, src1).
     if \<not> so then Inr (False, dst, src1)
     else
       bind_sum (ic_open vd time dst) (\<lambda>(do, dst1).
       bind_sum
         (if \<not> do then Inr (False, dst1)
          else
            bind_sum (ic_empty vd dst1) (\<lambda>(em, dst2).
            bind_sum (if em then copy_formats vd vs src1 [0..<kNumFormats] dst2 else Inr dst2) (\<lambda>dst3.
            bind_sum (ic_close vd dst3) (\<lambda>dst4. Inr (em, dst4)))))
       (\<lambda>(success, dst').
       bind_sum (ic_close vs src1) (\<lambda>src2. Inr (success, dst', src2)))))"

definition IClipboard_copy ::
    "'c IClipboard \<Rightarrow> 'd IClipboard \<Rightarrow> 'c \<Rightarrow> 'd \<Rightarrow> clip_err + (bool \<times> 'c \<times> 'd)" where
  "IClipboard_copy vd vs dst src = IClipboard_copy_at vd vs dst src (ic_getTime vs src)"

section \<open>The in-memory clipboard\<close>

record Clipboard =
  cb_open :: bool
  cb_time :: ClipTime
  cb_owner :: bool
  cb_timeOwned :: ClipTime
  cb_added :: "bool list"
  cb_data :: "bytes list"

definition Clipboard_new :: Clipboard where
  "Clipboard_new = \<lparr>cb_open = False, cb_time = 0, cb_owner = True, cb_timeOwned = 0,
     cb_added = replicate kNumFormats False, cb_data = replicate kNumFormats []\<rparr>"

definition Clipboard_empty :: "Clipboard \<Rightarrow> clip_err + (bool \<times> Clipboard)" where
  "Clipboard_empty c =
     (if \<not> cb_open c then Inl ClipAssert
      else Inr (True, c\<lparr>cb_data := replicate kNumFormats [], cb_added := replicate kNumFormats False,
                        cb_timeOwned := cb_time c, cb_owner := True\<rparr>))"

definition Clipboard_add :: "nat \<Rightarrow> bytes \<Rightarrow> Clipboard \<Rightarrow> clip_err + Clipboard" where
  "Clipboard_add format data c =
     (if \<not> cb_open c then Inl ClipAssert
      else if \<not> cb_owner c then Inl ClipAssert
      else if format \<ge> kNumFormats then Inl OutOfBounds
      else Inr (c\<lparr>cb_data := (cb_data c)[format := data], cb_added := (cb_added c)[format := True]\<rparr>))"

definition Clipboard_open :: "ClipTime \<Rightarrow> Clipboard \<Rightarrow> clip_err + (bool \<times> Clipboard)" where
  "Clipboard_open time c =
     (if cb_open c then Inl ClipAssert else Inr (True, c\<lparr>cb_open := True, cb_time := time\<rparr>))"

definition Clipboard_close :: "Clipboard \<Rightarrow> clip_err + Clipboard" where
  "Clipboard_close c = (if \<not> cb_open c then Inl ClipAssert else Inr (c\<lparr>cb_open := False\<rparr>))"

definition Clipboard_getTime :: "Clipboard \<Rightarrow> ClipTime" where
  "Clipboard_getTime c = cb_timeOwned c"

definition Clipboard_has :: "nat \<Rightarrow> Clipboard \<Rightarrow> clip_err + bool" where
  "Clipboard_has format c =
     (if \<not> cb_open c then Inl ClipAssert
      else if format \<ge> kNumFormats then Inl OutOfBounds else Inr (cb_added c ! format))"

definition Clipboard_get :: "nat \<Rightarrow> Clipboard \<Rightarrow> clip_err + bytes" where
  "Clipboard_get format c =
     (if \<not> cb_open c then Inl ClipAssert
      else if format \<ge> kNumFormats then Inl OutOfBounds else Inr (cb_data c ! format))"

definition Clipboard_vt :: "Clipboard IClipboard" where
  "Clipboard_vt =
     \<lparr>ic_empty = Clipboard_empty, ic_add = Clipboard_add, ic_open = Clipboard_open,
      ic_close = Clipboard_close, ic_getTime = Clipboard_getTime, ic_has = Clipboard_has,
      ic_get = Clipboard_get\<rparr>"

definition Clipboard_unmarshall :: "Clipboard \<Rightarrow> bytes \<Rightarrow> ClipTime \<Rightarrow> clip_err + Clipboard" where
  "Clipboard_unmarshall c data time = IClipboard_unmarshall Clipboard_vt c data time"

definition Clipboard_marshall :: "Clipboard \<Rightarrow> clip_err + (bytes \<times> Clipboard)" where
  "Clipboard_marshall c = IClipboard_marshall Clipboard_vt c"

section \<open>The contract of the interface\<close>

text \<open>
  \<open>ok\<close> is the implementation's invariant, \<open>opened\<close> whether the clipboard is open, \<open>owned\<close> whether it
  may be written, and \<open>content\<close> the data it has per format.
\<close>

definition entry :: "nat \<Rightarrow> bytes \<Rightarrow> bytes" where
  "entry f d = writeUInt32 (word_of_nat f) @ writeUInt32 (word_of_nat (length d)) @ d"

definition entries :: "(nat \<Rightarrow> bytes option) \<Rightarrow> nat list \<Rightarrow> bytes" where
  "entries m fs = concat (map (\<lambda>f. case m f of None \<Rightarrow> [] | Some d \<Rightarrow> entry f d) fs)"

definition count_formats :: "(nat \<Rightarrow> bytes option) \<Rightarrow> nat list \<Rightarrow> nat" where
  "count_formats m fs = length (filter (\<lambda>f. m f \<noteq> None) fs)"

text \<open>The wire format of a clipboard with the given content.\<close>

definition marshalled :: "(nat \<Rightarrow> bytes option) \<Rightarrow> bytes" where
  "marshalled m =
     writeUInt32 (word_of_nat (count_formats m [0..<kNumFormats])) @ entries m [0..<kNumFormats]"

definition fits :: "(nat \<Rightarrow> bytes option) \<Rightarrow> bool" where
  "fits m \<longleftrightarrow> (\<forall>f d. m f = Some d \<longrightarrow> f < kNumFormats \<and> length d < two32)"

lemma entries_simps [simp]:
  "entries m [] = []"
  "entries m (f # fs) = (case m f of None \<Rightarrow> [] | Some d \<Rightarrow> entry f d) @ entries m fs"
  "count_formats m [] = 0"
  "count_formats m (f # fs) = (if m f = None then 0 else 1) + count_formats m fs"
  by (simp_all add: entries_def count_formats_def)

lemma small_format: "f < kNumFormats \<Longrightarrow> unat (word_of_nat f :: UInt32) = f"
  by (simp add: unat_of_nat kNumFormats_def)

lemma read_at_entry:
  assumes "f < kNumFormats" and "length d < two32"
  shows "read_at (pre @ entry f d @ post) (length pre) = Inr (word_of_nat f)"
    "read_at (pre @ entry f d @ post) (length pre + 4) = Inr (word_of_nat (length d))"
    "take (length d) (drop (length pre + 8) (pre @ entry f d @ post)) = d"
    "length pre + 8 + length d \<le> length (pre @ entry f d @ post)"
  using readBE32_write [of "word_of_nat (length d)" "d @ post"]
  by (simp_all add: read_at_def entry_def codec)

locale iclipboard =
  fixes vt :: "'c IClipboard"
    and ok :: "'c \<Rightarrow> bool"
    and opened :: "'c \<Rightarrow> bool"
    and owned :: "'c \<Rightarrow> bool"
    and now :: "'c \<Rightarrow> ClipTime"
    and content :: "'c \<Rightarrow> nat \<Rightarrow> bytes option"
  assumes open_law: "ok c \<Longrightarrow> \<not> opened c \<Longrightarrow>
      \<exists>c'. ic_open vt t c = Inr (True, c') \<and> ok c' \<and> opened c' \<and> content c' = content c \<and>
        now c' = t \<and> ic_getTime vt c' = ic_getTime vt c"
    and close_law: "ok c \<Longrightarrow> opened c \<Longrightarrow>
      \<exists>c'. ic_close vt c = Inr c' \<and> ok c' \<and> \<not> opened c' \<and> content c' = content c \<and>
        ic_getTime vt c' = ic_getTime vt c"
    and empty_law: "ok c \<Longrightarrow> opened c \<Longrightarrow>
      \<exists>c'. ic_empty vt c = Inr (True, c') \<and> ok c' \<and> opened c' \<and> owned c' \<and> content c' = (\<lambda>_. None) \<and>
        ic_getTime vt c' = now c"
    and add_law: "ok c \<Longrightarrow> opened c \<Longrightarrow> owned c \<Longrightarrow> f < kNumFormats \<Longrightarrow>
      \<exists>c'. ic_add vt f d c = Inr c' \<and> ok c' \<and> opened c' \<and> owned c' \<and> content c' = (content c)(f \<mapsto> d) \<and>
        ic_getTime vt c' = ic_getTime vt c"
    and has_law: "ok c \<Longrightarrow> opened c \<Longrightarrow> f < kNumFormats \<Longrightarrow> ic_has vt f c = Inr (content c f \<noteq> None)"
    and get_law: "ok c \<Longrightarrow> opened c \<Longrightarrow> f < kNumFormats \<Longrightarrow> content c f = Some d \<Longrightarrow> ic_get vt f c = Inr d"
begin

lemma marshall_collect_content:
  assumes "ok c" "opened c" "\<forall>f \<in> set fs. f < kNumFormats"
  shows "marshall_collect vt c fs =
    Inr (word_of_nat (count_formats (content c) fs),
      map (\<lambda>f. case content c f of None \<Rightarrow> [] | Some d \<Rightarrow> d) fs)"
  using assms by (induction fs) (auto simp: has_law get_law split: option.splits)

lemma marshall_write_content:
  assumes "ok c" "opened c" "\<forall>f \<in> set fs. f < kNumFormats"
  shows "marshall_write vt c (zip fs (map (\<lambda>f. case content c f of None \<Rightarrow> [] | Some d \<Rightarrow> d) fs)) =
    Inr (entries (content c) fs)"
  using assms by (induction fs) (auto simp: has_law entry_def split: option.splits)

lemma marshall_content:
  assumes "ok c" "\<not> opened c"
  shows "\<exists>c'. IClipboard_marshall vt c = Inr (marshalled (content c), c') \<and> ok c' \<and> \<not> opened c' \<and>
    content c' = content c"
proof -
  obtain c1 where c1: "ic_open vt 0 c = Inr (True, c1)" "ok c1" "opened c1" "content c1 = content c"
    using open_law [OF assms] by blast
  obtain c2 where c2: "ic_close vt c1 = Inr c2" "ok c2" "\<not> opened c2" "content c2 = content c1"
    using close_law [OF c1(2,3)] by blast
  show ?thesis
    using c1 c2 marshall_collect_content [OF c1(2,3), of "[0..<kNumFormats]"]
      marshall_write_content [OF c1(2,3), of "[0..<kNumFormats]"]
    by (simp add: IClipboard_marshall_def marshalled_def)
qed

lemma unmarshall_formats_entries:
  assumes "ok c" "opened c" "owned c" "\<forall>f \<in> set fs. f < kNumFormats" "fits m"
    and "mem = pre @ entries m fs @ post"
  shows "\<exists>c'. unmarshall_formats vt mem (count_formats m fs) (length pre) c = Inr c' \<and>
    ok c' \<and> opened c' \<and> owned c' \<and> ic_getTime vt c' = ic_getTime vt c \<and>
    content c' = (\<lambda>f. if f \<in> set fs \<and> m f \<noteq> None then m f else content c f)"
  using assms
proof (induction fs arbitrary: c pre)
  case (Cons f fs)
  show ?case
  proof (cases "m f")
    case None
    with Cons.IH [of c pre] Cons.prems show ?thesis by (auto simp: fun_eq_iff)
  next
    case (Some d)
    with Cons.prems(4,5) have fd: "f < kNumFormats" "length d < two32" by (auto simp: fits_def)
    obtain c1 where c1: "ic_add vt f d c = Inr c1" "ok c1" "opened c1" "owned c1"
      "content c1 = (content c)(f \<mapsto> d)" "ic_getTime vt c1 = ic_getTime vt c"
      using add_law [OF Cons.prems(1-3) fd(1)] by blast
    have mem: "mem = pre @ entry f d @ (entries m fs @ post)" using Cons.prems(6) Some by simp
    then have "mem = (pre @ entry f d) @ entries m fs @ post" by simp
    from Cons.IH [OF c1(2-4) _ Cons.prems(5) this] Cons.prems(4) obtain c' where c':
      "unmarshall_formats vt mem (count_formats m fs) (length (pre @ entry f d)) c1 = Inr c'"
      "ok c'" "opened c'" "owned c'" "ic_getTime vt c' = ic_getTime vt c1"
      "content c' = (\<lambda>f. if f \<in> set fs \<and> m f \<noteq> None then m f else content c1 f)" by auto
    have "length (pre @ entry f d) = length pre + 8 + length d" by (simp add: entry_def)
    moreover have "unat (word_of_nat (length d) :: UInt32) = length d" using fd(2) by (simp add: unat_of_nat)
    ultimately have "unmarshall_formats vt mem (count_formats m (f # fs)) (length pre) c = Inr c'"
      using Some c1(1) c'(1) small_format [OF fd(1)] fd(1) read_at_entry [OF fd, of pre "entries m fs @ post"]
      unfolding mem by (simp add: add.assoc)
    with c' c1 Some show ?thesis by (auto simp: fun_eq_iff)
  qed
qed auto

lemma unmarshall_marshalled:
  assumes "ok c" "\<not> opened c" "fits m"
  shows "\<exists>c'. IClipboard_unmarshall vt c (marshalled m) time = Inr c' \<and> ok c' \<and> \<not> opened c' \<and>
    content c' = m \<and> ic_getTime vt c' = time"
proof -
  let ?n = "count_formats m [0..<kNumFormats]"
  let ?pre = "writeUInt32 (word_of_nat ?n)"
  obtain c1 where c1: "ic_open vt time c = Inr (True, c1)" "ok c1" "opened c1" "now c1 = time"
    using open_law [OF assms(1,2)] by blast
  obtain c2 where c2: "ic_empty vt c1 = Inr (True, c2)" "ok c2" "opened c2" "owned c2"
    "content c2 = (\<lambda>_. None)" "ic_getTime vt c2 = time"
    using empty_law [OF c1(2,3)] c1(4) by blast
  have mem: "marshalled m @ [0] = ?pre @ entries m [0..<kNumFormats] @ [0]" by (simp add: marshalled_def)
  from unmarshall_formats_entries [OF c2(2-4) _ assms(3) mem] obtain c3 where c3:
    "unmarshall_formats vt (marshalled m @ [0]) ?n 4 c2 = Inr c3" "ok c3" "opened c3"
    "ic_getTime vt c3 = time"
    "content c3 = (\<lambda>f. if f \<in> set [0..<kNumFormats] \<and> m f \<noteq> None then m f else content c2 f)"
    using c2(6) by auto
  have "content c3 f = m f" for f
    using c3(5) c2(5) assms(3) by (cases "m f") (auto simp: fits_def)
  then have "content c3 = m" by (rule ext)
  moreover obtain c4 where "ic_close vt c3 = Inr c4" "ok c4" "\<not> opened c4" "content c4 = content c3"
    "ic_getTime vt c4 = ic_getTime vt c3"
    using close_law [OF c3(2,3)] by blast
  moreover have "?n \<le> kNumFormats"
    using length_filter_le [of "\<lambda>f. m f \<noteq> None" "[0..<kNumFormats]"] by (simp add: count_formats_def)
  then have "unat (word_of_nat ?n :: UInt32) = ?n" by (simp add: unat_of_nat kNumFormats_def)
  moreover have "read_at (marshalled m @ [0]) 0 = Inr (word_of_nat ?n)"
    by (simp add: read_at_def mem codec)
  ultimately show ?thesis
    using c1(1) c2(1) c3(1,4) by (simp add: IClipboard_unmarshall_def Let_def)
qed

end

text \<open>Copying between two clipboards that both keep the contract.\<close>

locale iclipboard_pair = d: iclipboard vd dok dopened downed dnow dcontent +
  s: iclipboard vs sok sopened sowned snow scontent
  for vd :: "'c IClipboard" and dok dopened downed dnow dcontent
    and vs :: "'d IClipboard" and sok sopened sowned snow scontent
begin

lemma copy_formats_content:
  assumes "sok src" "sopened src" "dok dst" "dopened dst" "downed dst" "\<forall>f \<in> set fs. f < kNumFormats"
  shows "\<exists>dst'. copy_formats vd vs src fs dst = Inr dst' \<and> dok dst' \<and> dopened dst' \<and>
    ic_getTime vd dst' = ic_getTime vd dst \<and>
    dcontent dst' = (\<lambda>f. if f \<in> set fs \<and> scontent src f \<noteq> None then scontent src f else dcontent dst f)"
  using assms
proof (induction fs arbitrary: dst)
  case (Cons f fs)
  then have f: "f < kNumFormats" by simp
  show ?case
  proof (cases "scontent src f")
    case None
    with Cons.IH [of dst] Cons.prems s.has_law [of src f] show ?thesis by (auto simp: fun_eq_iff)
  next
    case (Some data)
    obtain d1 where d1: "ic_add vd f data dst = Inr d1" "dok d1" "dopened d1" "downed d1"
      "dcontent d1 = (dcontent dst)(f \<mapsto> data)" "ic_getTime vd d1 = ic_getTime vd dst"
      using d.add_law [OF Cons.prems(3-5) f] by blast
    with Cons.IH [of d1] Cons.prems s.has_law [of src f] s.get_law [of src f data] Some f show ?thesis
      by (auto simp: fun_eq_iff)
  qed
qed auto

lemma copy_content:
  assumes "sok src" "\<not> sopened src" "dok dst" "\<not> dopened dst" "\<forall>f \<ge> kNumFormats. scontent src f = None"
  shows "\<exists>dst' src'. IClipboard_copy_at vd vs dst src time = Inr (True, dst', src') \<and> dok dst' \<and>
    \<not> dopened dst' \<and> dcontent dst' = scontent src \<and> ic_getTime vd dst' = time \<and>
    sok src' \<and> \<not> sopened src' \<and> scontent src' = scontent src"
proof -
  obtain s1 where s1: "ic_open vs time src = Inr (True, s1)" "sok s1" "sopened s1" "scontent s1 = scontent src"
    using s.open_law [OF assms(1,2)] by blast
  obtain d1 where d1: "ic_open vd time dst = Inr (True, d1)" "dok d1" "dopened d1" "dnow d1 = time"
    using d.open_law [OF assms(3,4)] by blast
  obtain d2 where d2: "ic_empty vd d1 = Inr (True, d2)" "dok d2" "dopened d2" "downed d2"
    "dcontent d2 = (\<lambda>_. None)" "ic_getTime vd d2 = time"
    using d.empty_law [OF d1(2,3)] d1(4) by blast
  from copy_formats_content [OF s1(2,3) d2(2-4), of "[0..<kNumFormats]"] obtain d3 where d3:
    "copy_formats vd vs s1 [0..<kNumFormats] d2 = Inr d3" "dok d3" "dopened d3"
    "ic_getTime vd d3 = time"
    "dcontent d3 = (\<lambda>f. if f \<in> set [0..<kNumFormats] \<and> scontent s1 f \<noteq> None then scontent s1 f else dcontent d2 f)"
    using d2(6) by auto
  have "dcontent d3 f = scontent src f" for f
    using d3(5) d2(5) s1(4) assms(5) by (cases "f < kNumFormats") auto
  then have "dcontent d3 = scontent src" by (rule ext)
  moreover obtain d4 where "ic_close vd d3 = Inr d4" "dok d4" "\<not> dopened d4" "dcontent d4 = dcontent d3"
    "ic_getTime vd d4 = ic_getTime vd d3"
    using d.close_law [OF d3(2,3)] by blast
  moreover obtain s2 where "ic_close vs s1 = Inr s2" "sok s2" "\<not> sopened s2" "scontent s2 = scontent s1"
    using s.close_law [OF s1(2,3)] by blast
  ultimately show ?thesis
    using s1 d1 d2 d3 by (simp add: IClipboard_copy_at_def)
qed

end

section \<open>The in-memory clipboard keeps the contract\<close>

definition cb_wf :: "Clipboard \<Rightarrow> bool" where
  "cb_wf c \<longleftrightarrow> length (cb_added c) = kNumFormats \<and> length (cb_data c) = kNumFormats"

definition cb_content :: "Clipboard \<Rightarrow> nat \<Rightarrow> bytes option" where
  "cb_content c f = (if f < kNumFormats \<and> cb_added c ! f then Some (cb_data c ! f) else None)"

lemmas Clipboard_ops_defs = Clipboard_empty_def Clipboard_add_def Clipboard_open_def
  Clipboard_close_def Clipboard_getTime_def Clipboard_has_def Clipboard_get_def

interpretation cb: iclipboard Clipboard_vt cb_wf cb_open cb_owner cb_time cb_content
proof
  fix c f d
  assume "cb_wf c" "cb_open c" "cb_owner c" "f < kNumFormats"
  then show "\<exists>c'. ic_add Clipboard_vt f d c = Inr c' \<and> cb_wf c' \<and> cb_open c' \<and> cb_owner c' \<and>
      cb_content c' = (cb_content c)(f \<mapsto> d) \<and> ic_getTime Clipboard_vt c' = ic_getTime Clipboard_vt c"
    by (auto simp: Clipboard_vt_def Clipboard_ops_defs cb_wf_def cb_content_def nth_list_update fun_eq_iff)
qed (auto simp: Clipboard_vt_def Clipboard_ops_defs cb_wf_def cb_content_def fun_eq_iff split: if_splits)

interpretation cb_pair: iclipboard_pair Clipboard_vt cb_wf cb_open cb_owner cb_time cb_content
  Clipboard_vt cb_wf cb_open cb_owner cb_time cb_content
  by unfold_locales

lemma cb_content_bound: "\<forall>f \<ge> kNumFormats. cb_content c f = None"
  by (simp add: cb_content_def)

lemma cb_fits: "\<forall>d \<in> set (cb_data c). length d < two32 \<Longrightarrow> cb_wf c \<Longrightarrow> fits (cb_content c)"
  by (auto simp: fits_def cb_content_def cb_wf_def split: if_splits)

text \<open>
  C10.  A marshalled clipboard unmarshals to the same content: for every closed clipboard whose data
  sizes fit in 32 bits, sending the result of \<^verbatim>\<open>marshall\<close> to \<^verbatim>\<open>unmarshall\<close> of any other closed clipboard
  replaces that clipboard's content by the sender's, sets its time and leaves both closed; no
  assertion fails and no memory outside the data is read.
\<close>

theorem clipboard_roundtrip:
  assumes "cb_wf a" "\<not> cb_open a" "\<forall>d \<in> set (cb_data a). length d < two32"
    and "cb_wf b" "\<not> cb_open b"
  shows "\<exists>data a' b'. Clipboard_marshall a = Inr (data, a') \<and> Clipboard_unmarshall b data time = Inr b' \<and>
    cb_content a' = cb_content a \<and> cb_content b' = cb_content a \<and> Clipboard_getTime b' = time \<and>
    \<not> cb_open a' \<and> \<not> cb_open b'"
proof -
  obtain a' where a': "IClipboard_marshall Clipboard_vt a = Inr (marshalled (cb_content a), a')"
    "\<not> cb_open a'" "cb_content a' = cb_content a"
    using cb.marshall_content [OF assms(1,2)] by blast
  moreover obtain b' where "IClipboard_unmarshall Clipboard_vt b (marshalled (cb_content a)) time = Inr b'"
    "\<not> cb_open b'" "cb_content b' = cb_content a" "ic_getTime Clipboard_vt b' = time"
    using cb.unmarshall_marshalled [OF assms(4,5) cb_fits [OF assms(3,1)]] by blast
  ultimately show ?thesis
    by (auto simp: Clipboard_marshall_def Clipboard_unmarshall_def Clipboard_vt_def)
qed

theorem clipboard_roundtrip_witness:
  "\<exists>data a' b'. Clipboard_marshall (Clipboard_new\<lparr>cb_added := [True, False, True], cb_data := [[1, 2], [], [3]]\<rparr>) =
      Inr (data, a') \<and> Clipboard_unmarshall Clipboard_new data 7 = Inr b' \<and>
      cb_content b' 0 = Some [1, 2] \<and> cb_content b' 1 = None \<and> cb_content b' 2 = Some [3]"
proof -
  let ?a = "Clipboard_new\<lparr>cb_added := [True, False, True], cb_data := [[1, 2], [], [3]]\<rparr>"
  have wf: "cb_wf ?a" "\<not> cb_open ?a" "cb_wf Clipboard_new" "\<not> cb_open Clipboard_new"
    by (simp_all add: cb_wf_def Clipboard_new_def kNumFormats_def)
  have small: "\<forall>d \<in> set (cb_data ?a). length d < two32" by simp
  have "cb_content ?a 0 = Some [1, 2]" "cb_content ?a 1 = None" "cb_content ?a 2 = Some [3]"
    by (simp_all add: cb_content_def kNumFormats_def)
  with clipboard_roundtrip [OF wf(1,2) small wf(3,4)] show ?thesis by metis
qed

text \<open>
  \<^verbatim>\<open>copy\<close> makes the destination an exact copy: every format of the source is there, formats the source
  lacks are gone, the destination carries the source's time, and the source is unchanged.
\<close>

theorem clipboard_copy:
  assumes "cb_wf src" "\<not> cb_open src" "cb_wf dst" "\<not> cb_open dst"
  shows "\<exists>dst' src'. IClipboard_copy Clipboard_vt Clipboard_vt dst src = Inr (True, dst', src') \<and>
    cb_content dst' = cb_content src \<and> Clipboard_getTime dst' = Clipboard_getTime src \<and>
    cb_content src' = cb_content src \<and> cb_wf dst' \<and> \<not> cb_open dst' \<and> \<not> cb_open src'"
  using cb_pair.copy_content [OF assms cb_content_bound, of "Clipboard_getTime src"]
  by (auto simp: IClipboard_copy_def Clipboard_vt_def)

theorem clipboard_copy_witness:
  "\<exists>dst' src'. IClipboard_copy Clipboard_vt Clipboard_vt
      (Clipboard_new\<lparr>cb_added := [False, True, False], cb_data := [[], [9], []]\<rparr>)
      (Clipboard_new\<lparr>cb_added := [True, False, False], cb_data := [[5], [], []]\<rparr>) = Inr (True, dst', src') \<and>
    cb_content dst' 0 = Some [5] \<and> cb_content dst' 1 = None"
proof -
  let ?s = "Clipboard_new\<lparr>cb_added := [True, False, False], cb_data := [[5], [], []]\<rparr>"
  let ?d = "Clipboard_new\<lparr>cb_added := [False, True, False], cb_data := [[], [9], []]\<rparr>"
  have wf: "cb_wf ?s" "\<not> cb_open ?s" "cb_wf ?d" "\<not> cb_open ?d"
    by (simp_all add: cb_wf_def Clipboard_new_def kNumFormats_def)
  have "cb_content ?s 0 = Some [5]" "cb_content ?s 1 = None"
    by (simp_all add: cb_content_def kNumFormats_def)
  with clipboard_copy [OF wf] show ?thesis by metis
qed



end
