(* ===== verification/Stream_Chunks.thy ===== *)
theory Stream_Chunks
  imports Protocol_Util String_Util
begin

text \<open>
  Chunked transfers: \<^verbatim>\<open>barrier/Chunk.cpp\<close>, \<^verbatim>\<open>ClipboardChunk.cpp\<close>, \<^verbatim>\<open>FileChunk.cpp\<close> and the producer
  loops of \<^verbatim>\<open>StreamChunker.cpp\<close>.  The producers queue events; here they return them as a list.
  The receivers read one message at a time from a stream.  The second half shows that a
  transfer that is produced, sent and received gives the data back.
\<close>

datatype EDataReceived = kStart | kNotFinish | kFinish | kError

definition kDataStart :: UInt8 where "kDataStart = 1"
definition kDataChunk :: UInt8 where "kDataChunk = 2"
definition kDataEnd :: UInt8 where "kDataEnd = 3"

definition kClipboardEnd :: UInt8 where "kClipboardEnd = 2"

definition g_chunkSize :: nat where "g_chunkSize = 32 * 1024"

record Chunk =
  ch_chunk :: bytes
  ch_dataSize :: nat

definition chars_of :: "bytes \<Rightarrow> string" where
  "chars_of b = map (\<lambda>x. char_of (unat x)) b"

lemma chars_of_bytes_of [simp]: "chars_of (bytes_of s) = s"
proof -
  have "unat (of_char c :: UInt8) = of_char c" for c
  proof -
    have "(of_char c :: nat) < 256" by (simp add: of_char_def horner_sum_bound)
    then have "unat (word_of_nat (of_char c :: nat) :: UInt8) = of_char c" by (simp add: unat_of_nat)
    then show ?thesis by (simp add: of_nat_of_char)
  qed
  then show ?thesis by (simp add: chars_of_def bytes_of_def o_def)
qed

text \<open>The bytes of a \<^verbatim>\<open>UInt32\<close> in memory (little-endian hosts), as \<^verbatim>\<open>memcpy\<close> moves them.\<close>

definition to_memory :: "UInt32 \<Rightarrow> bytes" where
  "to_memory v = rev (writeUInt32 v)"

definition from_memory :: "bytes \<Rightarrow> UInt32" where
  "from_memory b = readBE32 (rev (take 4 b))"

lemma from_to_memory [codec]: "from_memory (to_memory v @ r) = v"
  by (simp add: from_memory_def to_memory_def codec)

lemma length_to_memory [simp]: "length (to_memory v) = 4"
  by (simp add: to_memory_def)

section \<open>Clipboard chunks\<close>

definition ClipboardChunk_make :: "UInt8 \<Rightarrow> UInt32 \<Rightarrow> UInt8 \<Rightarrow> bytes \<Rightarrow> Chunk" where
  "ClipboardChunk_make cid sequence mark content =
     \<lparr>ch_chunk = [cid] @ to_memory sequence @ [mark] @ content @ [0], ch_dataSize = length content\<rparr>"

definition ClipboardChunk_start :: "UInt8 \<Rightarrow> UInt32 \<Rightarrow> string \<Rightarrow> Chunk" where
  "ClipboardChunk_start cid sequence sz = ClipboardChunk_make cid sequence kDataStart (bytes_of sz)"

definition ClipboardChunk_data :: "UInt8 \<Rightarrow> UInt32 \<Rightarrow> bytes \<Rightarrow> Chunk" where
  "ClipboardChunk_data cid sequence data = ClipboardChunk_make cid sequence kDataChunk data"

definition ClipboardChunk_end :: "UInt8 \<Rightarrow> UInt32 \<Rightarrow> Chunk" where
  "ClipboardChunk_end cid sequence = ClipboardChunk_make cid sequence kDataEnd []"

definition ClipboardChunk_send :: "Chunk \<Rightarrow> perr + bytes option" where
  "ClipboardChunk_send c =
     (let chunk = ch_chunk c; cid = chunk ! 0; sequence = from_memory (drop 1 chunk); mark = chunk ! 5;
          dataChunk = take (ch_dataSize c) (drop 6 chunk)
      in writef kMsgDClipboard [WInt (ucast cid), WInt sequence, WInt (ucast mark), WStr (Some dataChunk)])"

text \<open>
  The receiver's variables: the caller's \<^verbatim>\<open>dataCached\<close>, \<^verbatim>\<open>id\<close> and \<^verbatim>\<open>sequence\<close>, and the static
  \<^verbatim>\<open>s_expectedSize\<close>.
\<close>

record clip_rx =
  rx_cached :: bytes
  rx_id :: UInt8
  rx_sequence :: UInt32
  rx_expected :: size_t

text \<open>The values \<^verbatim>\<open>readf\<close> stored before it returned; \<^verbatim>\<open>mark\<close> and \<^verbatim>\<open>data\<close> are local.\<close>

fun store_id_seq :: "rarg list \<Rightarrow> clip_rx \<Rightarrow> clip_rx" where
  "store_id_seq (R8 i # R32 q # _) st = st\<lparr>rx_id := i, rx_sequence := q\<rparr>"
| "store_id_seq (R8 i # _) st = st\<lparr>rx_id := i\<rparr>"
| "store_id_seq _ st = st"

text \<open>What \<^verbatim>\<open>ClipboardChunk::assemble\<close> does with the values and the result of \<^verbatim>\<open>readf\<close>.\<close>

definition clip_process ::
    "size_t \<Rightarrow> rarg list \<Rightarrow> perr + bool \<Rightarrow> clip_rx \<Rightarrow> (perr + EDataReceived) \<times> clip_rx" where
  "clip_process junk outs res st =
     (let st1 = store_id_seq outs st in
      case res of
        Inl e \<Rightarrow> (Inl e, st1)
      | Inr False \<Rightarrow> (Inr kError, st1)
      | Inr True \<Rightarrow>
          (case outs of
             [R8 _, R32 _, R8 mark, RStr data] \<Rightarrow>
               if mark = kDataStart then
                 (Inr kStart,
                  st1\<lparr>rx_expected := stringToSizeType junk (chars_of data), rx_cached := []\<rparr>)
               else if mark = kDataChunk then
                 (Inr kNotFinish, st1\<lparr>rx_cached := rx_cached st1 @ data\<rparr>)
               else if mark = kDataEnd then
                 (if rx_id st1 \<ge> kClipboardEnd then (Inr kError, st1)
                  else if rx_expected st1 \<noteq> word_of_nat (length (rx_cached st1)) then (Inr kError, st1)
                  else (Inr kFinish, st1))
               else (Inr kError, st1)
           | _ \<Rightarrow> (Inl BadArg, st1)))"

definition ClipboardChunk_assemble ::
    "size_t \<Rightarrow> ('s \<Rightarrow> nat \<Rightarrow> (bytes \<times> 's) option) \<Rightarrow> clip_rx \<Rightarrow> 's \<Rightarrow> (perr + EDataReceived) \<times> clip_rx \<times> 's" where
  "ClipboardChunk_assemble junk sread st s =
     (case readf sread (drop 4 kMsgDClipboard) s of
        (outs, res, s') \<Rightarrow> (case clip_process junk outs res st of (r, st') \<Rightarrow> (r, st', s')))"

section \<open>File chunks\<close>

definition FileChunk_start :: "string \<Rightarrow> Chunk" where
  "FileChunk_start sz = \<lparr>ch_chunk = [kDataStart] @ bytes_of sz @ [0], ch_dataSize = length sz\<rparr>"

definition FileChunk_data :: "bytes \<Rightarrow> Chunk" where
  "FileChunk_data data = \<lparr>ch_chunk = [kDataChunk] @ data @ [0], ch_dataSize = length data\<rparr>"

definition FileChunk_end :: Chunk where
  "FileChunk_end = \<lparr>ch_chunk = [kDataEnd, 0], ch_dataSize = 0\<rparr>"

definition FileChunk_send :: "UInt8 \<Rightarrow> bytes \<Rightarrow> nat \<Rightarrow> perr + bytes option" where
  "FileChunk_send mark data dataSize =
     writef kMsgDFileTransfer [WInt (ucast mark), WStr (Some (take dataSize data))]"

record file_rx =
  frx_received :: bytes
  frx_expected :: size_t

text \<open>
  \<^verbatim>\<open>FileChunk::assemble\<close>; its static stopwatch and byte counters only feed debug messages.
\<close>

definition file_process ::
    "size_t \<Rightarrow> rarg list \<Rightarrow> perr + bool \<Rightarrow> file_rx \<Rightarrow> (perr + EDataReceived) \<times> file_rx" where
  "file_process junk outs res st =
     (case res of
        Inl e \<Rightarrow> (Inl e, st)
      | Inr False \<Rightarrow> (Inr kError, st)
      | Inr True \<Rightarrow>
          (case outs of
             [R8 mark, RStr content] \<Rightarrow>
               if mark = kDataStart then
                 (Inr kStart, st\<lparr>frx_received := [], frx_expected := stringToSizeType junk (chars_of content)\<rparr>)
               else if mark = kDataChunk then
                 (Inr kNotFinish, st\<lparr>frx_received := frx_received st @ content\<rparr>)
               else if mark = kDataEnd then
                 (if frx_expected st \<noteq> word_of_nat (length (frx_received st)) then (Inr kError, st)
                  else (Inr kFinish, st))
               else (Inr kError, st)
           | _ \<Rightarrow> (Inl BadArg, st)))"

definition FileChunk_assemble ::
    "size_t \<Rightarrow> ('s \<Rightarrow> nat \<Rightarrow> (bytes \<times> 's) option) \<Rightarrow> file_rx \<Rightarrow> 's \<Rightarrow> (perr + EDataReceived) \<times> file_rx \<times> 's" where
  "FileChunk_assemble junk sread st s =
     (case readf sread (drop 4 kMsgDFileTransfer) s of
        (outs, res, s') \<Rightarrow> (case file_process junk outs res st of (r, st') \<Rightarrow> (r, st', s')))"

section \<open>StreamChunker\<close>

datatype chunk_event = KeepAlive | ChunkSending Chunk

datatype chunk_err = OutOfRange | ReadPastEnd | OpenFailed

text \<open>
  The loop of \<^verbatim>\<open>sendClipboard\<close>.  \<open>chunkSize\<close> is \<open>g_chunkSize\<close> at the head of every round: it is only
  lowered in the last one.  The test \<open>chunkSize = 0\<close> adds nothing to \<open>sentLength + chunkSize = sz\<close> as
  long as \<open>sentLength \<le> sz\<close>, which holds in every round.
\<close>

function sendClipboard_loop ::
    "bytes \<Rightarrow> nat \<Rightarrow> UInt8 \<Rightarrow> UInt32 \<Rightarrow> nat \<Rightarrow> chunk_err + chunk_event list" where
  "sendClipboard_loop data sz cid sequence sentLength =
     (let chunkSize = (if sentLength + g_chunkSize > sz then sz - sentLength else g_chunkSize);
          sub = take chunkSize (drop sentLength data)
      in if sentLength > length data then Inl OutOfRange
         else if chunkSize > length sub + 1 then Inl ReadPastEnd
         else
           let chunk = take chunkSize (sub @ [0]);
               evs = [KeepAlive, ChunkSending (ClipboardChunk_data cid sequence chunk)]
           in if sentLength + chunkSize = sz \<or> chunkSize = 0 then Inr evs
              else (case sendClipboard_loop data sz cid sequence (sentLength + chunkSize) of
                      Inl e \<Rightarrow> Inl e
                    | Inr rest \<Rightarrow> Inr (evs @ rest)))"
  by pat_completeness auto
termination
  by (relation "measure (\<lambda>(data, sz, cid, sequence, sent). sz - sent)") (auto simp: g_chunkSize_def split: if_splits)

declare sendClipboard_loop.simps [simp del]

definition sendClipboard ::
    "bytes \<Rightarrow> nat \<Rightarrow> UInt8 \<Rightarrow> UInt32 \<Rightarrow> chunk_err + chunk_event list" where
  "sendClipboard data sz cid sequence =
     (case sendClipboard_loop data sz cid sequence 0 of
        Inl e \<Rightarrow> Inl e
      | Inr evs \<Rightarrow>
          Inr ([ChunkSending (ClipboardChunk_start cid sequence (sizeTypeToString (word_of_nat sz)))] @ evs @
               [ChunkSending (ClipboardChunk_end cid sequence)]))"

record StreamChunker =
  sc_isChunkingFile :: bool
  sc_interruptFile :: bool

definition interruptFile :: "StreamChunker \<Rightarrow> StreamChunker" where
  "interruptFile st = (if sc_isChunkingFile st then st\<lparr>sc_interruptFile := True\<rparr> else st)"

text \<open>
  The loop of \<^verbatim>\<open>sendFile\<close>.  The list of flags says before which polls another thread calls
  \<^verbatim>\<open>interruptFile\<close>.
\<close>

fun sendFile_poll :: "StreamChunker \<Rightarrow> bool list \<Rightarrow> StreamChunker \<times> bool list" where
  "sendFile_poll st [] = (st, [])"
| "sendFile_poll st (i # is) = (if i then interruptFile st else st, is)"

function sendFile_loop ::
    "bytes \<Rightarrow> nat \<Rightarrow> StreamChunker \<Rightarrow> bool list \<Rightarrow> chunk_event list \<times> StreamChunker \<times> bool list" where
  "sendFile_loop file sentLength st ints =
     (case sendFile_poll st ints of
        (st1, ints1) \<Rightarrow>
          if sc_interruptFile st1 then ([], st1\<lparr>sc_interruptFile := False\<rparr>, ints1)
          else
            let sz = length file;
                chunkSize = (if sentLength + g_chunkSize > sz then sz - sentLength else g_chunkSize);
                evs = [KeepAlive, ChunkSending (FileChunk_data (take chunkSize (drop sentLength file)))]
            in if sentLength + chunkSize = sz \<or> chunkSize = 0 then (evs, st1, ints1)
               else (case sendFile_loop file (sentLength + chunkSize) st1 ints1 of
                       (rest, st2, ints2) \<Rightarrow> (evs @ rest, st2, ints2)))"
  by pat_completeness auto
termination
  by (relation "measure (\<lambda>(file, sent, st, ints). length file - sent)")
     (auto simp: g_chunkSize_def split: if_splits)

declare sendFile_loop.simps [simp del]

text \<open>\<^verbatim>\<open>sendFile\<close>; the file is \<open>None\<close> when it cannot be opened.\<close>

definition sendFile ::
    "bytes option \<Rightarrow> StreamChunker \<Rightarrow> bool list \<Rightarrow> chunk_event list \<times> StreamChunker \<times> chunk_err option" where
  "sendFile file st ints =
     (let st0 = st\<lparr>sc_isChunkingFile := True\<rparr> in
      case file of
        None \<Rightarrow> ([], st0, Some OpenFailed)
      | Some content \<Rightarrow>
          (case sendFile_loop content 0 st0 ints of
             (evs, st1, ints1) \<Rightarrow>
               (case sendFile_poll st1 ints1 of
                  (st2, _) \<Rightarrow>
                    ([ChunkSending (FileChunk_start (sizeTypeToString (word_of_nat (length content))))] @ evs @
                      [ChunkSending FileChunk_end], st2\<lparr>sc_isChunkingFile := False\<rparr>, None))))"

section \<open>What the producers send\<close>

text \<open>A byte string cut into pieces of \<open>g_chunkSize\<close> bytes; the empty string is one empty piece.\<close>

function chunks_of :: "bytes \<Rightarrow> bytes list" where
  "chunks_of d =
     (if length d \<le> g_chunkSize then [d] else take g_chunkSize d # chunks_of (drop g_chunkSize d))"
  by pat_completeness auto
termination
  by (relation "measure length") (auto simp: g_chunkSize_def)

declare chunks_of.simps [simp del]

lemma concat_chunks_of [simp]: "concat (chunks_of d) = d"
  by (induction d rule: chunks_of.induct) (subst chunks_of.simps, simp)

lemma chunks_of_bound: "c \<in> set (chunks_of d) \<Longrightarrow> length c \<le> g_chunkSize"
  by (induction d rule: chunks_of.induct) (subst (asm) chunks_of.simps, auto split: if_splits)

definition chunk_events :: "(bytes \<Rightarrow> Chunk) \<Rightarrow> bytes list \<Rightarrow> chunk_event list" where
  "chunk_events mk cs = concat (map (\<lambda>c. [KeepAlive, ChunkSending (mk c)]) cs)"

lemma chunk_events_simps [simp]:
  "chunk_events mk [] = []"
  "chunk_events mk (c # cs) = KeepAlive # ChunkSending (mk c) # chunk_events mk cs"
  by (simp_all add: chunk_events_def)

lemma sendClipboard_loop_chunks:
  assumes "sent \<le> length data"
  shows "sendClipboard_loop data (length data) cid q sent =
    Inr (chunk_events (ClipboardChunk_data cid q) (chunks_of (drop sent data)))"
  using assms
proof (induction "length data - sent" arbitrary: sent rule: less_induct)
  case less
  show ?case
  proof (cases "length (drop sent data) \<le> g_chunkSize")
    case True
    with less.prems show ?thesis
      by (subst sendClipboard_loop.simps, subst chunks_of.simps) (auto simp: Let_def)
  next
    case False
    then have "sendClipboard_loop data (length data) cid q (sent + g_chunkSize) =
        Inr (chunk_events (ClipboardChunk_data cid q) (chunks_of (drop (sent + g_chunkSize) data)))"
      using less.hyps [of "sent + g_chunkSize"] by (simp add: g_chunkSize_def)
    with False less.prems show ?thesis
      by (subst sendClipboard_loop.simps, subst chunks_of.simps)
         (auto simp: Let_def g_chunkSize_def add.commute)
  qed
qed

lemma sendClipboard_events:
  "sendClipboard data (length data) cid q =
     Inr ([ChunkSending (ClipboardChunk_start cid q (sizeTypeToString (word_of_nat (length data))))] @
       chunk_events (ClipboardChunk_data cid q) (chunks_of data) @
       [ChunkSending (ClipboardChunk_end cid q)])"
  by (simp add: sendClipboard_def sendClipboard_loop_chunks)

text \<open>An interrupted file transfer sends the first few pieces.\<close>

lemma sendFile_loop_chunks:
  assumes "sent \<le> length file"
  shows "\<exists>k st' ints'. sendFile_loop file sent st ints =
    (chunk_events FileChunk_data (take k (chunks_of (drop sent file))), st', ints') \<and>
    (\<not> sc_interruptFile st \<and> True \<notin> set ints \<longrightarrow> length (chunks_of (drop sent file)) \<le> k)"
  using assms
proof (induction "length file - sent" arbitrary: sent st ints rule: less_induct)
  case less
  obtain st1 ints1 where p: "sendFile_poll st ints = (st1, ints1)" by force
  have calm: "\<not> sc_interruptFile st \<and> True \<notin> set ints \<Longrightarrow> \<not> sc_interruptFile st1 \<and> True \<notin> set ints1"
    using p by (cases ints) auto
  consider (stop) "sc_interruptFile st1"
    | (last) "\<not> sc_interruptFile st1" "length (drop sent file) \<le> g_chunkSize"
    | (more) "\<not> sc_interruptFile st1" "\<not> length (drop sent file) \<le> g_chunkSize" by blast
  then show ?case
  proof cases
    case stop
    then have "sendFile_loop file sent st ints =
        (chunk_events FileChunk_data (take 0 (chunks_of (drop sent file))), st1\<lparr>sc_interruptFile := False\<rparr>, ints1)"
      using p by (subst sendFile_loop.simps) simp
    with stop calm show ?thesis by blast
  next
    case last
    then have "sendFile_loop file sent st ints =
        (chunk_events FileChunk_data (take 1 (chunks_of (drop sent file))), st1, ints1)"
      using p less.prems by (subst sendFile_loop.simps, subst chunks_of.simps) (auto simp: Let_def)
    moreover have "length (chunks_of (drop sent file)) \<le> 1" using last by (subst chunks_of.simps) simp
    ultimately show ?thesis by blast
  next
    case more
    then have le: "sent + g_chunkSize \<le> length file" "length file - (sent + g_chunkSize) < length file - sent"
      by (auto simp: g_chunkSize_def)
    from less.hyps [OF le(2,1), of st1 ints1] obtain k st' ints' where k:
      "sendFile_loop file (sent + g_chunkSize) st1 ints1 =
        (chunk_events FileChunk_data (take k (chunks_of (drop (sent + g_chunkSize) file))), st', ints')"
      "\<not> sc_interruptFile st1 \<and> True \<notin> set ints1 \<longrightarrow> length (chunks_of (drop (sent + g_chunkSize) file)) \<le> k"
      by blast
    have cs: "chunks_of (drop sent file) =
        take g_chunkSize (drop sent file) # chunks_of (drop (sent + g_chunkSize) file)"
      using more by (subst chunks_of.simps) (simp add: add.commute)
    have "sendFile_loop file sent st ints =
        (chunk_events FileChunk_data (take (Suc k) (chunks_of (drop sent file))), st', ints')"
      using p more le k(1) unfolding cs
      by (subst sendFile_loop.simps) (auto simp: Let_def g_chunkSize_def)
    moreover have "\<not> sc_interruptFile st \<and> True \<notin> set ints \<longrightarrow> length (chunks_of (drop sent file)) \<le> Suc k"
      using calm k(2) cs by auto
    ultimately show ?thesis by blast
  qed
qed

section \<open>Messages on the wire\<close>

lemma ucast_up_down [simp]: "(ucast (ucast (b :: UInt8) :: UInt32) :: UInt8) = b"
  by (rule bit_word_eqI) (simp add: bit_ucast_iff)

definition clip_message :: "UInt8 \<Rightarrow> UInt32 \<Rightarrow> UInt8 \<Rightarrow> bytes \<Rightarrow> bytes" where
  "clip_message cid q mark d = [cid] @ writeUInt32 q @ [mark] @ write_counted (\<lambda>b. [b]) d"

definition file_message :: "UInt8 \<Rightarrow> bytes \<Rightarrow> bytes" where
  "file_message mark d = [mark] @ write_counted (\<lambda>b. [b]) d"

lemma chunk_formats:
  "fmt_tokens (drop 4 kMsgDClipboard) = [Conv 1 (CHR ''i''), Conv 4 (CHR ''i''), Conv 1 (CHR ''i''), Conv 0 (CHR ''s'')]"
  "fmt_tokens (drop 4 kMsgDFileTransfer) = [Conv 1 (CHR ''i''), Conv 0 (CHR ''s'')]"
  "fmt_tokens kMsgDClipboard = map Lit ''DCLP'' @ fmt_tokens (drop 4 kMsgDClipboard)"
  "fmt_tokens kMsgDFileTransfer = map Lit ''DFTR'' @ fmt_tokens (drop 4 kMsgDFileTransfer)"
  by (simp_all add: kMsgDClipboard_def kMsgDFileTransfer_def eatLength_def digit_of_def)

lemma write_string_length: "length d \<le> PROTOCOL_MAX_STRING_LENGTH \<Longrightarrow> length (write_counted (\<lambda>b. [b]) d) = 4 + length d"
  by (simp add: write_counted_def Let_def unat_of_nat)

lemma ClipboardChunk_send_message:
  assumes "length d \<le> PROTOCOL_MAX_STRING_LENGTH"
  shows "ClipboardChunk_send (ClipboardChunk_make cid q mark d) =
    Inr (Some (bytes_of ''DCLP'' @ clip_message cid q mark d))"
proof -
  let ?args = "[WInt (ucast cid), WInt q, WInt (ucast mark), WStr (Some d)]"
  have "writef_void kMsgDClipboard ?args = Inr (bytes_of ''DCLP'' @ clip_message cid q mark d)"
    by (simp add: writef_void_def chunk_formats writef_void_conv_def clip_message_def bytes_of_def
        ucast_and_0xff)
  moreover have "length (bytes_of ''DCLP'' @ clip_message cid q mark d) < two32"
    using assms by (simp add: clip_message_def write_string_length PROTOCOL_MAX_STRING_LENGTH_def)
  ultimately have "writef kMsgDClipboard ?args = Inr (Some (bytes_of ''DCLP'' @ clip_message cid q mark d))"
    using writef_total [of kMsgDClipboard ?args] by (simp add: chunk_formats clip_message_def)
  then show ?thesis
    by (simp add: ClipboardChunk_send_def ClipboardChunk_make_def codec to_memory_def from_memory_def
        nth_append Let_def)
qed

lemma FileChunk_send_message:
  assumes "length d \<le> PROTOCOL_MAX_STRING_LENGTH"
  shows "FileChunk_send mark (d @ r) (length d) = Inr (Some (bytes_of ''DFTR'' @ file_message mark d))"
proof -
  let ?args = "[WInt (ucast mark), WStr (Some d)]"
  have "writef_void kMsgDFileTransfer ?args = Inr (bytes_of ''DFTR'' @ file_message mark d)"
    by (simp add: writef_void_def chunk_formats writef_void_conv_def file_message_def bytes_of_def
        ucast_and_0xff)
  moreover have "length (bytes_of ''DFTR'' @ file_message mark d) < two32"
    using assms by (simp add: file_message_def write_string_length PROTOCOL_MAX_STRING_LENGTH_def)
  ultimately show ?thesis
    using writef_total [of kMsgDFileTransfer ?args]
    by (simp add: FileChunk_send_def chunk_formats file_message_def)
qed

lemma readf_clip_message:
  assumes "length d \<le> PROTOCOL_MAX_STRING_LENGTH"
  shows "readf bytes_read (drop 4 kMsgDClipboard) (clip_message cid q mark d @ r) =
    ([R8 cid, R32 q, R8 mark, RStr d], Inr True, r)"
  using assms read_string_bytes [OF assms, of r]
  by (simp add: readf_def vreadf_def chunk_formats clip_message_def vreadf_conv_def [of _ _ "CHR ''i''"]
      len_ok_def pu_read_bytes codec)

lemma readf_file_message:
  assumes "length d \<le> PROTOCOL_MAX_STRING_LENGTH"
  shows "readf bytes_read (drop 4 kMsgDFileTransfer) (file_message mark d @ r) =
    ([R8 mark, RStr d], Inr True, r)"
  using assms read_string_bytes [OF assms, of r]
  by (simp add: readf_def vreadf_def chunk_formats file_message_def vreadf_conv_def [of _ _ "CHR ''i''"]
      len_ok_def pu_read_bytes)

section \<open>Receiving a transfer\<close>

text \<open>
  A receiver that reads the four byte message code and hands the rest to \<^verbatim>\<open>assemble\<close>, for \<open>n\<close> messages;
  the results of the calls in order.  Both kinds of transfer have this shape.
\<close>

fun receive :: "('st \<Rightarrow> 's \<Rightarrow> (perr + EDataReceived) \<times> 'st \<times> 's) \<Rightarrow> ('s \<Rightarrow> nat \<Rightarrow> (bytes \<times> 's) option) \<Rightarrow>
    string \<Rightarrow> nat \<Rightarrow> 'st \<Rightarrow> 's \<Rightarrow> (perr + EDataReceived) list \<times> 'st \<times> 's" where
  "receive asm sread code 0 st s = ([], st, s)"
| "receive asm sread code (Suc n) st s =
     (case readf sread code s of
        (_, res, s1) \<Rightarrow>
          if res \<noteq> Inr True then ([], st, s1)
          else (case asm st s1 of
                  (r, st1, s2) \<Rightarrow>
                    (case receive asm sread code n st1 s2 of (rs, st2, s3) \<Rightarrow> (r # rs, st2, s3))))"

context byte_source
begin

lemma ClipboardChunk_assemble_same:
  "ok s \<Longrightarrow> ClipboardChunk_assemble junk sread st s = (r, st', s') \<Longrightarrow>
    ok s' \<and> ClipboardChunk_assemble junk bytes_read st (avail s) = (r, st', avail s')"
  using readf_same [of s "drop 4 kMsgDClipboard"]
  by (cases "readf sread (drop 4 kMsgDClipboard) s")
     (auto simp: ClipboardChunk_assemble_def split: prod.splits)

lemma FileChunk_assemble_same:
  "ok s \<Longrightarrow> FileChunk_assemble junk sread st s = (r, st', s') \<Longrightarrow>
    ok s' \<and> FileChunk_assemble junk bytes_read st (avail s) = (r, st', avail s')"
  using readf_same [of s "drop 4 kMsgDFileTransfer"]
  by (cases "readf sread (drop 4 kMsgDFileTransfer) s")
     (auto simp: FileChunk_assemble_def split: prod.splits)

lemma receive_same:
  assumes same: "\<And>st s r st' s'. ok s \<Longrightarrow> asm st s = (r, st', s') \<Longrightarrow> ok s' \<and> asm' st (avail s) = (r, st', avail s')"
  shows "ok s \<Longrightarrow> receive asm sread code n st s = (rs, st', s') \<Longrightarrow>
    ok s' \<and> receive asm' bytes_read code n st (avail s) = (rs, st', avail s')"
proof (induction n arbitrary: st s rs st' s')
  case (Suc n)
  obtain xs res s1 where r: "readf sread code s = (xs, res, s1)" by (metis prod_cases3)
  with readf_same [OF Suc.prems(1) r] have b: "ok s1" "readf bytes_read code (avail s) = (xs, res, avail s1)"
    by auto
  show ?case
  proof (cases "res = Inr True")
    case True
    obtain q st1 s2 where a: "asm st s1 = (q, st1, s2)" by (metis prod_cases3)
    obtain qs st2 s3 where l: "receive asm sread code n st1 s2 = (qs, st2, s3)" by (metis prod_cases3)
    with same [OF b(1) a] Suc.IH [of s2 st1 qs st2 s3] True r b a Suc.prems(2) show ?thesis by auto
  qed (use r b Suc.prems in auto)
qed simp

end

lemma readf_code:
  "CHR ''%'' \<notin> set code \<Longrightarrow> readf bytes_read code (bytes_of code @ r) = ([], Inr True, r)"
proof -
  assume "CHR ''%'' \<notin> set code"
  then have "fmt_tokens code = map Lit code" by (induction code) auto
  moreover have "vreadf_loop bytes_read (map Lit code) (bytes_of code @ r) = ([], None, r)"
    by (induction code) (auto simp: bytes_of_def pu_read_bytes)
  ultimately show ?thesis by (simp add: readf_def vreadf_def)
qed

lemma receive_append:
  assumes "receive asm sread code m st s = (rs, st1, s1)" and "length rs = m"
  shows "receive asm sread code (m + n) st s =
    (case receive asm sread code n st1 s1 of (qs, st2, s2) \<Rightarrow> (rs @ qs, st2, s2))"
  using assms
proof (induction m arbitrary: st s rs)
  case (Suc m)
  then obtain xs s' r st' s'' qs where "readf sread code s = (xs, Inr True, s')" "asm st s' = (r, st', s'')"
    "receive asm sread code m st' s'' = (qs, st1, s1)" "rs = r # qs" "length qs = m"
    by (auto split: prod.splits if_splits)
  with Suc.IH [of st' s'' qs] show ?case by (auto split: prod.splits)
qed (auto split: prod.splits)

section \<open>Clipboard transfers\<close>

abbreviation clip_asm :: "size_t \<Rightarrow> clip_rx \<Rightarrow> bytes \<Rightarrow> (perr + EDataReceived) \<times> clip_rx \<times> bytes" where
  "clip_asm junk \<equiv> ClipboardChunk_assemble junk bytes_read"

lemma clip_chunks_received:
  assumes "\<forall>c \<in> set cs. length c \<le> PROTOCOL_MAX_STRING_LENGTH"
  shows "receive (clip_asm junk) bytes_read ''DCLP'' (length cs) st
      (concat (map (\<lambda>c. bytes_of ''DCLP'' @ clip_message cid q kDataChunk c) cs) @ r) =
    (replicate (length cs) (Inr kNotFinish),
     if cs = [] then st else st\<lparr>rx_cached := rx_cached st @ concat cs, rx_id := cid, rx_sequence := q\<rparr>, r)"
  using assms
proof (induction cs arbitrary: st)
  case (Cons c cs)
  then have c: "length c \<le> PROTOCOL_MAX_STRING_LENGTH" by simp
  have "clip_asm junk st (clip_message cid q kDataChunk c @ s) =
      (Inr kNotFinish, st\<lparr>rx_id := cid, rx_sequence := q, rx_cached := rx_cached st @ c\<rparr>, s)" for s st
    using readf_clip_message [OF c, of cid q kDataChunk s]
    by (simp add: ClipboardChunk_assemble_def clip_process_def Let_def kDataStart_def kDataChunk_def)
  with Cons show ?case by (simp add: readf_code)
qed simp

text \<open>All messages of a transfer, with the receiver's codes.\<close>

fun sent_messages :: "chunk_event list \<Rightarrow> (Chunk \<Rightarrow> perr + bytes option) \<Rightarrow> bytes list option" where
  "sent_messages [] send = Some []"
| "sent_messages (KeepAlive # evs) send = sent_messages evs send"
| "sent_messages (ChunkSending c # evs) send =
     (case send c of
        Inr (Some b) \<Rightarrow> map_option ((#) b) (sent_messages evs send)
      | _ \<Rightarrow> None)"

lemma sent_messages_append:
  "sent_messages (xs @ ys) send =
    (case sent_messages xs send of
       None \<Rightarrow> None
     | Some a \<Rightarrow> map_option ((@) a) (sent_messages ys send))"
  by (induction xs send rule: sent_messages.induct)
     (auto simp: map_option_case split: option.splits sum.splits)

lemma sent_messages_chunks:
  "(\<And>c. c \<in> set cs \<Longrightarrow> send (mk c) = Inr (Some (f c))) \<Longrightarrow>
    sent_messages (chunk_events mk cs) send = Some (map f cs)"
  by (induction cs) auto

lemma g_chunkSize_limit: "g_chunkSize \<le> PROTOCOL_MAX_STRING_LENGTH"
  by (simp add: g_chunkSize_def PROTOCOL_MAX_STRING_LENGTH_def)

lemma decimal_length: "n < 10 ^ k \<Longrightarrow> 0 < k \<Longrightarrow> length (decimal n) \<le> k"
proof (induction k arbitrary: n)
  case (Suc k)
  show ?case
  proof (cases "n < 10")
    case False
    then have "0 < k" using Suc.prems(1) by (cases k) auto
    moreover have "n div 10 < 10 ^ k" using Suc.prems(1) by (simp add: less_mult_imp_div_less mult.commute)
    ultimately show ?thesis using Suc.IH [of "n div 10"] False by (subst decimal.simps) simp
  qed (subst decimal.simps, simp)
qed simp

lemma size_string_limit: "length (sizeTypeToString n) \<le> PROTOCOL_MAX_STRING_LENGTH"
proof -
  have "unat n < 10 ^ 20" using unsigned_less [where 'a = nat, of n] by simp
  then show ?thesis
    using decimal_length [of "unat n" 20]
    by (simp add: sizeTypeToString_def PROTOCOL_MAX_STRING_LENGTH_def)
qed

lemma chunks_limit: "c \<in> set (chunks_of d) \<Longrightarrow> length c \<le> PROTOCOL_MAX_STRING_LENGTH"
  using chunks_of_bound g_chunkSize_limit by (meson le_trans)

definition clip_messages :: "UInt8 \<Rightarrow> UInt32 \<Rightarrow> bytes \<Rightarrow> bytes list" where
  "clip_messages cid q data =
     map ((@) (bytes_of ''DCLP''))
       ([clip_message cid q kDataStart (bytes_of (sizeTypeToString (word_of_nat (length data))))] @
        map (clip_message cid q kDataChunk) (chunks_of data) @ [clip_message cid q kDataEnd []])"

lemma sendClipboard_messages:
  "\<exists>evs. sendClipboard data (length data) cid q = Inr evs \<and>
    sent_messages evs ClipboardChunk_send = Some (clip_messages cid q data)"
proof -
  have chunk: "ClipboardChunk_send (ClipboardChunk_data cid q c) =
      Inr (Some (bytes_of ''DCLP'' @ clip_message cid q kDataChunk c))" if "c \<in> set (chunks_of data)" for c
    using ClipboardChunk_send_message [OF chunks_limit [OF that]] by (simp add: ClipboardChunk_data_def)
  have "sent_messages (chunk_events (ClipboardChunk_data cid q) (chunks_of data)) ClipboardChunk_send =
      Some (map (\<lambda>c. bytes_of ''DCLP'' @ clip_message cid q kDataChunk c) (chunks_of data))"
    by (rule sent_messages_chunks) (rule chunk)
  moreover have "ClipboardChunk_send (ClipboardChunk_end cid q) =
      Inr (Some (bytes_of ''DCLP'' @ clip_message cid q kDataEnd []))"
    using ClipboardChunk_send_message [of "[]"] by (simp add: ClipboardChunk_end_def)
  moreover have "ClipboardChunk_send (ClipboardChunk_start cid q (sizeTypeToString n)) =
      Inr (Some (bytes_of ''DCLP'' @ clip_message cid q kDataStart (bytes_of (sizeTypeToString n))))" for n
    using ClipboardChunk_send_message [of "bytes_of (sizeTypeToString n)"] size_string_limit
    by (simp add: ClipboardChunk_start_def)
  ultimately show ?thesis
    by (simp add: sendClipboard_events sent_messages_append clip_messages_def o_def)
qed

lemma clip_messages_received:
  assumes "cid < kClipboardEnd"
  shows "receive (clip_asm junk) bytes_read ''DCLP'' (length (clip_messages cid q data)) st
      (concat (clip_messages cid q data) @ r) =
    ([Inr kStart] @ replicate (length (chunks_of data)) (Inr kNotFinish) @ [Inr kFinish],
     \<lparr>rx_cached = data, rx_id = cid, rx_sequence = q, rx_expected = word_of_nat (length data)\<rparr>, r)"
proof -
  let ?sz = "word_of_nat (length data) :: size_t"
  let ?s = "bytes_of (sizeTypeToString ?sz)"
  have start: "clip_asm junk st (clip_message cid q kDataStart ?s @ s) =
      (Inr kStart, \<lparr>rx_cached = [], rx_id = cid, rx_sequence = q, rx_expected = ?sz\<rparr>, s)" for s
    using readf_clip_message [of ?s cid q kDataStart s] size_string_limit [of ?sz]
    by (simp add: ClipboardChunk_assemble_def clip_process_def stringToSizeType_decimal)
  let ?st = "\<lparr>rx_cached = data, rx_id = cid, rx_sequence = q, rx_expected = ?sz\<rparr>"
  have finish: "clip_asm junk ?st (clip_message cid q kDataEnd [] @ s) = (Inr kFinish, ?st, s)" for s
    using readf_clip_message [of "[]" cid q kDataEnd s] assms
    by (simp add: ClipboardChunk_assemble_def clip_process_def Let_def kDataStart_def kDataChunk_def kDataEnd_def not_le)
  have ne: "chunks_of data \<noteq> []" by (subst chunks_of.simps) simp
  have "receive (clip_asm junk) bytes_read ''DCLP'' (length (chunks_of data))
      \<lparr>rx_cached = [], rx_id = cid, rx_sequence = q, rx_expected = ?sz\<rparr>
      (concat (map (\<lambda>c. bytes_of ''DCLP'' @ clip_message cid q kDataChunk c) (chunks_of data)) @ s) =
    (replicate (length (chunks_of data)) (Inr kNotFinish), ?st, s)" for s
    using clip_chunks_received [of "chunks_of data"] chunks_limit ne by simp
  from receive_append [OF this, of 1] show ?thesis
    using start finish by (simp add: clip_messages_def readf_code o_def)
qed

text \<open>
  C12.  A clipboard transfer is lossless: the messages that \<^verbatim>\<open>sendClipboard\<close> produces for any data, received
  one by one from a packet filter, make \<^verbatim>\<open>assemble\<close> report the start, progress for each 32 KiB piece and
  the end, with the data, clipboard and sequence number of the sender and no data corruption error.
\<close>

theorem clipboard_transfer:
  assumes "cid < kClipboardEnd"
  shows "\<exists>evs msgs. sendClipboard data (length data) cid q = Inr evs \<and>
    sent_messages evs ClipboardChunk_send = Some msgs \<and>
    (\<forall>f. psf_wf f \<and> psf_avail f = concat msgs \<longrightarrow>
      (\<exists>f'. receive (ClipboardChunk_assemble junk PacketStreamFilter_read) PacketStreamFilter_read ''DCLP''
          (length msgs) st f =
        ([Inr kStart] @ replicate (length (chunks_of data)) (Inr kNotFinish) @ [Inr kFinish],
         \<lparr>rx_cached = data, rx_id = cid, rx_sequence = q, rx_expected = word_of_nat (length data)\<rparr>, f') \<and>
        psf_avail f' = []))"
proof -
  obtain evs where evs: "sendClipboard data (length data) cid q = Inr evs"
    "sent_messages evs ClipboardChunk_send = Some (clip_messages cid q data)"
    using sendClipboard_messages by blast
  have "\<exists>f'. receive (ClipboardChunk_assemble junk PacketStreamFilter_read) PacketStreamFilter_read ''DCLP''
      (length (clip_messages cid q data)) st f =
      ([Inr kStart] @ replicate (length (chunks_of data)) (Inr kNotFinish) @ [Inr kFinish],
       \<lparr>rx_cached = data, rx_id = cid, rx_sequence = q, rx_expected = word_of_nat (length data)\<rparr>, f') \<and>
      psf_avail f' = []"
    if f: "psf_wf f" "psf_avail f = concat (clip_messages cid q data)" for f
  proof -
    obtain rs st' f' where r: "receive (ClipboardChunk_assemble junk PacketStreamFilter_read)
        PacketStreamFilter_read ''DCLP'' (length (clip_messages cid q data)) st f = (rs, st', f')"
      by (metis prod_cases3)
    have "psf_wf f' \<and> receive (clip_asm junk) bytes_read ''DCLP'' (length (clip_messages cid q data)) st
        (psf_avail f) = (rs, st', psf_avail f')"
      by (rule psf_src.receive_same [OF _ f(1) r]) (rule psf_src.ClipboardChunk_assemble_same)
    then show ?thesis using clip_messages_received [OF assms, of junk q data st "[]"] f(2) r by auto
  qed
  with evs show ?thesis by blast
qed

theorem clipboard_transfer_witness:
  "\<exists>evs msgs. sendClipboard [104, 105] (length [104, 105 :: UInt8]) 1 7 = Inr evs \<and>
    sent_messages evs ClipboardChunk_send = Some msgs \<and>
    (\<forall>f. psf_wf f \<and> psf_avail f = concat msgs \<longrightarrow>
      (\<exists>f'. receive (ClipboardChunk_assemble 0 PacketStreamFilter_read) PacketStreamFilter_read ''DCLP''
          (length msgs) \<lparr>rx_cached = [1], rx_id = 0, rx_sequence = 0, rx_expected = 9\<rparr> f =
        ([Inr kStart] @ replicate (length (chunks_of [104, 105])) (Inr kNotFinish) @ [Inr kFinish],
         \<lparr>rx_cached = [104, 105], rx_id = 1, rx_sequence = 7,
           rx_expected = word_of_nat (length [104, 105 :: UInt8])\<rparr>, f') \<and> psf_avail f' = []))"
  by (rule clipboard_transfer) (simp add: kClipboardEnd_def)

section \<open>File transfers\<close>

abbreviation file_asm :: "size_t \<Rightarrow> file_rx \<Rightarrow> bytes \<Rightarrow> (perr + EDataReceived) \<times> file_rx \<times> bytes" where
  "file_asm junk \<equiv> FileChunk_assemble junk bytes_read"

text \<open>The callers of \<^verbatim>\<open>FileChunk::send\<close> pass the mark and the data of the chunk.\<close>

definition send_file_chunk :: "Chunk \<Rightarrow> perr + bytes option" where
  "send_file_chunk c = FileChunk_send (ch_chunk c ! 0) (drop 1 (ch_chunk c)) (ch_dataSize c)"

definition file_messages :: "bytes \<Rightarrow> bytes list \<Rightarrow> bytes list" where
  "file_messages content cs =
     map ((@) (bytes_of ''DFTR''))
       ([file_message kDataStart (bytes_of (sizeTypeToString (word_of_nat (length content))))] @
        map (file_message kDataChunk) cs @ [file_message kDataEnd []])"

lemma sendFile_messages:
  "\<exists>k evs st'. sendFile (Some content) st ints = (evs, st', None) \<and>
    sent_messages evs send_file_chunk = Some (file_messages content (take k (chunks_of content))) \<and>
    (\<not> sc_interruptFile st \<and> True \<notin> set ints \<longrightarrow> length (chunks_of content) \<le> k) \<and> \<not> sc_isChunkingFile st'"
proof -
  obtain k st1 ints1 where k: "sendFile_loop content 0 (st\<lparr>sc_isChunkingFile := True\<rparr>) ints =
      (chunk_events FileChunk_data (take k (chunks_of content)), st1, ints1)"
    "\<not> sc_interruptFile st \<and> True \<notin> set ints \<longrightarrow> length (chunks_of content) \<le> k"
    using sendFile_loop_chunks [of 0 content "st\<lparr>sc_isChunkingFile := True\<rparr>" ints] by auto
  have chunk: "send_file_chunk (FileChunk_data c) = Inr (Some (bytes_of ''DFTR'' @ file_message kDataChunk c))"
    if "c \<in> set (take k (chunks_of content))" for c
    using FileChunk_send_message [of c kDataChunk "[0]"] chunks_limit [OF in_set_takeD [OF that]]
    by (simp add: send_file_chunk_def FileChunk_data_def)
  have start: "send_file_chunk (FileChunk_start (sizeTypeToString n)) =
      Inr (Some (bytes_of ''DFTR'' @ file_message kDataStart (bytes_of (sizeTypeToString n))))" for n
    using FileChunk_send_message [of "bytes_of (sizeTypeToString n)" kDataStart "[0]"] size_string_limit [of n]
    by (simp add: send_file_chunk_def FileChunk_start_def)
  have fin: "send_file_chunk FileChunk_end = Inr (Some (bytes_of ''DFTR'' @ file_message kDataEnd []))"
    using FileChunk_send_message [of "[]" kDataEnd "[0]"] by (simp add: send_file_chunk_def FileChunk_end_def)
  have "sent_messages (chunk_events FileChunk_data (take k (chunks_of content))) send_file_chunk =
      Some (map (\<lambda>c. bytes_of ''DFTR'' @ file_message kDataChunk c) (take k (chunks_of content)))"
    by (rule sent_messages_chunks) (rule chunk)
  moreover obtain st2 ints2 where "sendFile_poll st1 ints1 = (st2, ints2)" by force
  ultimately show ?thesis using k(1) start fin k(2)
    by (auto simp: sendFile_def Let_def sent_messages_append file_messages_def o_def)
qed

lemma file_chunks_received:
  assumes "\<forall>c \<in> set cs. length c \<le> PROTOCOL_MAX_STRING_LENGTH"
  shows "receive (file_asm junk) bytes_read ''DFTR'' (length cs) st
      (concat (map (\<lambda>c. bytes_of ''DFTR'' @ file_message kDataChunk c) cs) @ r) =
    (replicate (length cs) (Inr kNotFinish), st\<lparr>frx_received := frx_received st @ concat cs\<rparr>, r)"
  using assms
proof (induction cs arbitrary: st)
  case (Cons c cs)
  then have c: "length c \<le> PROTOCOL_MAX_STRING_LENGTH" by simp
  have "file_asm junk st (file_message kDataChunk c @ s) =
      (Inr kNotFinish, st\<lparr>frx_received := frx_received st @ c\<rparr>, s)" for s st
    using readf_file_message [OF c, of kDataChunk s]
    by (simp add: FileChunk_assemble_def file_process_def kDataStart_def kDataChunk_def)
  with Cons show ?case by (simp add: readf_code)
qed simp

lemma file_messages_received:
  assumes "length content < 2 ^ 64" and "prefix_len \<le> length (chunks_of content)"
  defines "cs \<equiv> take prefix_len (chunks_of content)"
  shows "receive (file_asm junk) bytes_read ''DFTR'' (length (file_messages content cs)) st
      (concat (file_messages content cs) @ r) =
    ([Inr kStart] @ replicate (length cs) (Inr kNotFinish) @
       [Inr (if concat cs = content then kFinish else kError)],
     \<lparr>frx_received = concat cs, frx_expected = word_of_nat (length content)\<rparr>, r)"
proof -
  let ?sz = "word_of_nat (length content) :: size_t"
  let ?s = "bytes_of (sizeTypeToString ?sz)"
  have start: "file_asm junk st (file_message kDataStart ?s @ s) =
      (Inr kStart, \<lparr>frx_received = [], frx_expected = ?sz\<rparr>, s)" for s
    using readf_file_message [of ?s kDataStart s] size_string_limit [of ?sz]
    by (simp add: FileChunk_assemble_def file_process_def stringToSizeType_decimal)
  let ?st = "\<lparr>frx_received = concat cs, frx_expected = ?sz\<rparr>"
  have split: "concat cs @ concat (drop prefix_len (chunks_of content)) = content"
    unfolding cs_def by (metis append_take_drop_id concat_append concat_chunks_of)
  then have len: "length (concat cs) \<le> length content" by (metis le_add1 length_append)
  with split have "concat cs = content \<longleftrightarrow> length (concat cs) = length content"
    by (metis append_eq_append_conv append_Nil2 length_append)
  moreover have "(?sz = word_of_nat (length (concat cs))) \<longleftrightarrow> length content = length (concat cs)"
    using assms(1) len by (simp add: word_of_nat_eq_iff take_bit_eq_mod)
  ultimately have finish: "file_asm junk ?st (file_message kDataEnd [] @ s) =
      (Inr (if concat cs = content then kFinish else kError), ?st, s)" for s
    using readf_file_message [of "[]" kDataEnd s]
    by (auto simp: FileChunk_assemble_def file_process_def kDataStart_def kDataChunk_def kDataEnd_def)
  have "\<forall>c \<in> set cs. length c \<le> PROTOCOL_MAX_STRING_LENGTH"
    unfolding cs_def using chunks_limit by (auto dest: in_set_takeD)
  then have "receive (file_asm junk) bytes_read ''DFTR'' (length cs)
      \<lparr>frx_received = [], frx_expected = ?sz\<rparr>
      (concat (map (\<lambda>c. bytes_of ''DFTR'' @ file_message kDataChunk c) cs) @ s) =
    (replicate (length cs) (Inr kNotFinish), ?st, s)" for s
    using file_chunks_received [of cs] by simp
  from receive_append [OF this, of 1] show ?thesis
    using start finish by (simp add: file_messages_def readf_code o_def)
qed

text \<open>
  C13.  A file transfer is lossless or reported as failed: the messages of \<^verbatim>\<open>sendFile\<close>, with interruptions by
  another thread at any points, make the receiver hold a prefix of the file, and the last call of
  \<^verbatim>\<open>assemble\<close> reports success exactly when that prefix is the whole file, which is the case when nothing
  interrupted the transfer.
\<close>

theorem file_transfer:
  assumes "length content < 2 ^ 64"
  shows "\<exists>evs sc' msgs got n. sendFile (Some content) sc ints = (evs, sc', None) \<and>
    sent_messages evs send_file_chunk = Some msgs \<and> (\<exists>rest. content = got @ rest) \<and>
    (\<not> sc_interruptFile sc \<and> True \<notin> set ints \<longrightarrow> got = content) \<and>
    (\<forall>f. psf_wf f \<and> psf_avail f = concat msgs \<longrightarrow>
      (\<exists>f'. receive (FileChunk_assemble junk PacketStreamFilter_read) PacketStreamFilter_read ''DFTR''
          (length msgs) st f =
        ([Inr kStart] @ replicate n (Inr kNotFinish) @ [Inr (if got = content then kFinish else kError)],
         \<lparr>frx_received = got, frx_expected = word_of_nat (length content)\<rparr>, f')))"
proof -
  obtain k evs sc' where k: "sendFile (Some content) sc ints = (evs, sc', None)"
    "sent_messages evs send_file_chunk = Some (file_messages content (take k (chunks_of content)))"
    "\<not> sc_interruptFile sc \<and> True \<notin> set ints \<longrightarrow> length (chunks_of content) \<le> k"
    using sendFile_messages by blast
  define m where "m = min k (length (chunks_of content))"
  define cs where "cs = take m (chunks_of content)"
  have cs: "take k (chunks_of content) = cs" by (auto simp: cs_def m_def min_def)
  have bytes: "receive (file_asm junk) bytes_read ''DFTR'' (length (file_messages content cs)) st
      (concat (file_messages content cs)) =
    ([Inr kStart] @ replicate (length cs) (Inr kNotFinish) @
       [Inr (if concat cs = content then kFinish else kError)],
     \<lparr>frx_received = concat cs, frx_expected = word_of_nat (length content)\<rparr>, [])"
    using file_messages_received [OF assms, of m junk st "[]"] by (simp add: cs_def m_def)
  have rx: "\<exists>f'. receive (FileChunk_assemble junk PacketStreamFilter_read) PacketStreamFilter_read ''DFTR''
      (length (file_messages content cs)) st f =
      ([Inr kStart] @ replicate (length cs) (Inr kNotFinish) @
         [Inr (if concat cs = content then kFinish else kError)],
       \<lparr>frx_received = concat cs, frx_expected = word_of_nat (length content)\<rparr>, f')"
    if f: "psf_wf f" "psf_avail f = concat (file_messages content cs)" for f
  proof -
    obtain rs st' f' where r: "receive (FileChunk_assemble junk PacketStreamFilter_read)
        PacketStreamFilter_read ''DFTR'' (length (file_messages content cs)) st f = (rs, st', f')"
      by (metis prod_cases3)
    have "psf_wf f' \<and> receive (file_asm junk) bytes_read ''DFTR'' (length (file_messages content cs)) st
        (psf_avail f) = (rs, st', psf_avail f')"
      by (rule psf_src.receive_same [OF _ f(1) r]) (rule psf_src.FileChunk_assemble_same)
    with bytes f(2) r show ?thesis by auto
  qed
  have "content = concat cs @ concat (drop m (chunks_of content))"
    unfolding cs_def by (metis append_take_drop_id concat_append concat_chunks_of)
  moreover have "\<not> sc_interruptFile sc \<and> True \<notin> set ints \<longrightarrow> concat cs = content"
    using k(3) by (auto simp: cs_def m_def)
  ultimately show ?thesis using k(1,2) rx unfolding cs by blast
qed

theorem file_transfer_witness:
  "\<exists>evs sc' msgs got n. sendFile (Some [1, 2]) \<lparr>sc_isChunkingFile = False, sc_interruptFile = False\<rparr> [] =
      (evs, sc', None) \<and>
    sent_messages evs send_file_chunk = Some msgs \<and> (\<exists>rest. [1, 2] = got @ rest) \<and>
    (\<not> sc_interruptFile \<lparr>sc_isChunkingFile = False, sc_interruptFile = False\<rparr> \<and> True \<notin> set [] \<longrightarrow> got = [1, 2]) \<and>
    (\<forall>f. psf_wf f \<and> psf_avail f = concat msgs \<longrightarrow>
      (\<exists>f'. receive (FileChunk_assemble 0 PacketStreamFilter_read) PacketStreamFilter_read ''DFTR''
          (length msgs) \<lparr>frx_received = [9], frx_expected = 4\<rparr> f =
        ([Inr kStart] @ replicate n (Inr kNotFinish) @ [Inr (if got = [1, 2] then kFinish else kError)],
         \<lparr>frx_received = got, frx_expected = word_of_nat (length [1, 2 :: UInt8])\<rparr>, f')))"
  by (rule file_transfer) simp

end
