(* ===== verification/Unicode_Conv.thy ===== *)
theory Unicode_Conv
  imports Barrier_Prelude
begin

text \<open>
  The encoding conversions of \<^verbatim>\<open>base/Unicode.cpp\<close>.  Strings are byte strings; the \<^verbatim>\<open>errors\<close> out
  parameter is returned as a flag.  Multi-byte units are stored as the host does, little-endian.
  The C library's multibyte conversions behind \<^verbatim>\<open>ARCH->convString...\<close> are parameters.
\<close>

definition s_invalid :: UInt32 where "s_invalid = 0x0000ffff"
definition s_replacement :: UInt32 where "s_replacement = 0x0000fffd"

datatype EWideCharEncoding = kUCS2 | kUCS4 | kUTF16 | kUTF32

section \<open>Units\<close>

definition decode16 :: "UInt8 \<Rightarrow> UInt8 \<Rightarrow> bool \<Rightarrow> UInt16" where
  "decode16 n0 n1 byteSwapped = (if byteSwapped then readUInt16 n0 n1 else readUInt16 n1 n0)"

definition decode32 :: "UInt8 \<Rightarrow> UInt8 \<Rightarrow> UInt8 \<Rightarrow> UInt8 \<Rightarrow> bool \<Rightarrow> UInt32" where
  "decode32 n0 n1 n2 n3 byteSwapped =
     (if byteSwapped then readUInt32 n0 n1 n2 n3 else readUInt32 n3 n2 n1 n0)"

definition native16 :: "UInt16 \<Rightarrow> bytes" where
  "native16 v = rev (writeUInt16 v)"

definition native32 :: "UInt32 \<Rightarrow> bytes" where
  "native32 v = rev (writeUInt32 v)"

section \<open>Characters\<close>

text \<open>\<^verbatim>\<open>toUTF8\<close>: the bytes appended and whether the error flag is set.\<close>

definition encode :: "UInt32 \<Rightarrow> bytes" where
  "encode c =
     (if c < 0x00000080 then [ucast c]
      else if c < 0x00000800 then
        [ucast ((drop_bit 6 c AND 0x1f) + 0xc0), ucast ((c AND 0x3f) + 0x80)]
      else if c < 0x00010000 then
        [ucast ((drop_bit 12 c AND 0x0f) + 0xe0), ucast ((drop_bit 6 c AND 0x3f) + 0x80),
         ucast ((c AND 0x3f) + 0x80)]
      else if c < 0x00200000 then
        [ucast ((drop_bit 18 c AND 0x07) + 0xf0), ucast ((drop_bit 12 c AND 0x3f) + 0x80),
         ucast ((drop_bit 6 c AND 0x3f) + 0x80), ucast ((c AND 0x3f) + 0x80)]
      else if c < 0x04000000 then
        [ucast ((drop_bit 24 c AND 0x03) + 0xf8), ucast ((drop_bit 18 c AND 0x3f) + 0x80),
         ucast ((drop_bit 12 c AND 0x3f) + 0x80), ucast ((drop_bit 6 c AND 0x3f) + 0x80),
         ucast ((c AND 0x3f) + 0x80)]
      else
        [ucast ((drop_bit 30 c AND 0x01) + 0xfc), ucast ((drop_bit 24 c AND 0x3f) + 0x80),
         ucast ((drop_bit 18 c AND 0x3f) + 0x80), ucast ((drop_bit 12 c AND 0x3f) + 0x80),
         ucast ((drop_bit 6 c AND 0x3f) + 0x80), ucast ((c AND 0x3f) + 0x80)])"

definition toUTF8 :: "UInt32 \<Rightarrow> bytes \<times> bool" where
  "toUTF8 c =
     (if (c \<ge> 0x0000d800 \<and> c \<le> 0x0000dfff) \<or> c \<ge> 0x80000000
      then (encode s_replacement, True) else (encode c, False))"

text \<open>
  \<^verbatim>\<open>fromUTF8\<close>: the character and what is left of the data.  \<open>lead_size\<close> is the length announced by
  the first byte, 0 for a byte that cannot start a character.
\<close>

definition lead_size :: "UInt8 \<Rightarrow> nat" where
  "lead_size b =
     (if b < 0x80 then 1 else if b < 0xc0 then 0 else if b < 0xe0 then 2 else if b < 0xf0 then 3
      else if b < 0xf8 then 4 else if b < 0xfc then 5 else if b < 0xfe then 6 else 0)"

definition extract_char :: "nat \<Rightarrow> bytes \<Rightarrow> UInt32" where
  "extract_char sz d =
     (let b = (\<lambda>i. ucast (d ! i) :: UInt32) in
      if sz = 1 then b 0
      else if sz = 2 then push_bit 6 (b 0 AND 0x1f) OR (b 1 AND 0x3f)
      else if sz = 3 then
        push_bit 12 (b 0 AND 0x0f) OR push_bit 6 (b 1 AND 0x3f) OR (b 2 AND 0x3f)
      else if sz = 4 then
        push_bit 18 (b 0 AND 0x07) OR push_bit 12 (b 1 AND 0x3f) OR push_bit 6 (b 2 AND 0x3f) OR
        (b 3 AND 0x3f)
      else if sz = 5 then
        push_bit 24 (b 0 AND 0x03) OR push_bit 18 (b 1 AND 0x3f) OR push_bit 12 (b 2 AND 0x3f) OR
        push_bit 6 (b 3 AND 0x3f) OR (b 4 AND 0x3f)
      else
        push_bit 30 (b 0 AND 0x01) OR push_bit 24 (b 1 AND 0x3f) OR push_bit 18 (b 2 AND 0x3f) OR
        push_bit 12 (b 3 AND 0x3f) OR push_bit 6 (b 4 AND 0x3f) OR (b 5 AND 0x3f))"

text \<open>The fall-through switch: from the last byte down, a byte that is not 10xxxxxx lowers the size.\<close>

definition truncation :: "nat \<Rightarrow> bytes \<Rightarrow> bool \<times> nat" where
  "truncation sz d =
     foldl (\<lambda>(t, k) j. if j < sz \<and> d ! j AND 0xc0 \<noteq> 0x80 then (True, j) else (t, k)) (False, sz) [5, 4, 3, 2, 1]"

definition s_minChar :: "UInt32 list" where
  "s_minChar = [0, 0, 0x80, 0x800, 0x10000, 0x200000, 0x4000000]"

definition fromUTF8 :: "bytes \<Rightarrow> UInt32 \<times> bytes" where
  "fromUTF8 d =
     (let sz = lead_size (hd d) in
      if sz = 0 then (s_invalid, tl d)
      else if sz > length d then (s_invalid, [])
      else
        let c = extract_char sz d; (truncated, k) = truncation sz d; rest = drop k d
        in if truncated then (s_invalid, rest)
           else if c < s_minChar ! k then (s_invalid, rest)
           else if c \<ge> 0x0000d800 \<and> c \<le> 0x0000dfff then (s_invalid, rest)
           else if c \<ge> 0x0000fffe \<and> c \<le> 0x0000ffff then (s_invalid, rest)
           else (c, rest))"

lemma truncation_pos: "0 < sz \<Longrightarrow> 0 < snd (truncation sz d)"
  by (auto simp: truncation_def)

lemma fromUTF8_shorter: "d \<noteq> [] \<Longrightarrow> length (snd (fromUTF8 d)) < length d"
  using truncation_pos [of "lead_size (hd d)" d]
  by (cases d) (auto simp: fromUTF8_def Let_def split: prod.splits)

section \<open>From UTF-8\<close>

text \<open>The loop that all conversions from UTF-8 share: the characters in turn.\<close>

function chars_from :: "bytes \<Rightarrow> UInt32 list" where
  "chars_from d = (if d = [] then [] else case fromUTF8 d of (c, rest) \<Rightarrow> c # chars_from rest)"
  by pat_completeness auto
termination
  by (relation "measure length") (auto dest: fromUTF8_shorter simp: eq_snd_iff [symmetric] prod_eq_iff)

declare chars_from.simps [simp del]

text \<open>The source keeps the number of bytes in a \<^verbatim>\<open>UInt32\<close>.\<close>

definition sized :: "bytes \<Rightarrow> bytes" where
  "sized src = take (length src mod two32) src"

definition isUTF8 :: "bytes \<Rightarrow> bool" where
  "isUTF8 src \<longleftrightarrow> s_invalid \<notin> set (chars_from (sized src))"

definition ucs2_unit :: "UInt32 \<Rightarrow> bytes \<times> bool" where
  "ucs2_unit c =
     (if c = s_invalid then (native16 (ucast s_replacement), False)
      else if c \<ge> 0x00010000 then (native16 (ucast s_replacement), True)
      else (native16 (ucast c), False))"

definition ucs4_unit :: "UInt32 \<Rightarrow> bytes \<times> bool" where
  "ucs4_unit c = (if c = s_invalid then (native32 s_replacement, False) else (native32 c, False))"

definition utf16_units :: "UInt32 \<Rightarrow> bytes" where
  "utf16_units c =
     (if c < 0x00010000 then native16 (ucast c)
      else let c' = c - 0x00010000
           in native16 (ucast (drop_bit 10 c' + 0xd800)) @ native16 (ucast ((c' AND 0x03ff) + 0xdc00)))"

definition utf16_unit :: "UInt32 \<Rightarrow> bytes \<times> bool" where
  "utf16_unit c =
     (if c = s_invalid then (utf16_units s_replacement, False)
      else if c \<ge> 0x00110000 then (utf16_units s_replacement, True)
      else (utf16_units c, False))"

definition utf32_unit :: "UInt32 \<Rightarrow> bytes \<times> bool" where
  "utf32_unit c =
     (if c = s_invalid then (native32 s_replacement, False)
      else if c \<ge> 0x00110000 then (native32 s_replacement, True)
      else (native32 c, False))"

definition convert_from :: "(UInt32 \<Rightarrow> bytes \<times> bool) \<Rightarrow> bytes \<Rightarrow> bytes \<times> bool" where
  "convert_from unit src =
     (let us = map unit (chars_from (sized src)) in (concat (map fst us), list_ex snd us))"

definition UTF8ToUCS2 :: "bytes \<Rightarrow> bytes \<times> bool" where
  "UTF8ToUCS2 src = convert_from ucs2_unit src"

definition UTF8ToUCS4 :: "bytes \<Rightarrow> bytes \<times> bool" where
  "UTF8ToUCS4 src = convert_from ucs4_unit src"

definition UTF8ToUTF16 :: "bytes \<Rightarrow> bytes \<times> bool" where
  "UTF8ToUTF16 src = convert_from utf16_unit src"

definition UTF8ToUTF32 :: "bytes \<Rightarrow> bytes \<times> bool" where
  "UTF8ToUTF32 src = convert_from utf32_unit src"

section \<open>To UTF-8\<close>

text \<open>The units of the input: \<open>n\<close> units of two or four bytes (what is left over is not read).\<close>

fun units16 :: "bool \<Rightarrow> bytes \<Rightarrow> UInt16 list" where
  "units16 sw (a # b # r) = decode16 a b sw # units16 sw r"
| "units16 sw _ = []"

fun units32 :: "bool \<Rightarrow> bytes \<Rightarrow> UInt32 list" where
  "units32 sw (a # b # c # d # r) = decode32 a b c d sw # units32 sw r"
| "units32 sw _ = []"

text \<open>The byte order mark at the start, for units of \<open>w\<close> bytes: whether bytes are swapped, and the data.\<close>

definition bom16 :: "bytes \<Rightarrow> UInt16 list" where
  "bom16 d =
     (case units16 False d of
        [] \<Rightarrow> []
      | u # us \<Rightarrow>
          if u = 0xfeff then units16 False (drop 2 d)
          else if u = 0xfffe then units16 True (drop 2 d)
          else u # us)"

definition bom32 :: "bytes \<Rightarrow> UInt32 list" where
  "bom32 d =
     (case units32 False d of
        [] \<Rightarrow> []
      | u # us \<Rightarrow>
          if u = 0x0000feff then units32 False (drop 4 d)
          else if u = 0x0000fffe then units32 True (drop 4 d)
          else u # us)"

definition join_chars :: "(bytes \<times> bool) list \<Rightarrow> bytes \<times> bool" where
  "join_chars xs = (concat (map fst xs), list_ex snd xs)"

definition doUCS2ToUTF8 :: "bytes \<Rightarrow> bytes \<times> bool" where
  "doUCS2ToUTF8 d = join_chars (map (\<lambda>u. toUTF8 (ucast u)) (bom16 d))"

definition doUCS4ToUTF8 :: "bytes \<Rightarrow> bytes \<times> bool" where
  "doUCS4ToUTF8 d = join_chars (map toUTF8 (bom32 d))"

text \<open>
  The loop of \<^verbatim>\<open>doUTF16ToUTF8\<close>.  The second word of a pair is read before the data pointer moves, so
  it is the first word again.
\<close>

fun utf16_chars :: "UInt16 list \<Rightarrow> (bytes \<times> bool) list" where
  "utf16_chars [] = []"
| "utf16_chars (u # us) =
     (let c = ucast u :: UInt32 in
      if c < 0x0000d800 \<or> c > 0x0000dfff then toUTF8 c # utf16_chars us
      else case us of
          [] \<Rightarrow> [(encode s_replacement, True)]
        | _ # us' \<Rightarrow>
            if c \<ge> 0x0000d800 \<and> c \<le> 0x0000dbff then
              (let c2 = ucast u :: UInt32 in
               if c2 < 0x0000dc00 \<or> c2 > 0x0000dfff
               then (encode s_replacement, True) # utf16_chars us'
               else toUTF8 ((push_bit 10 (c - 0x0000d800) OR (c2 - 0x0000dc00)) + 0x00010000) # utf16_chars us')
            else (encode s_replacement, True) # utf16_chars us)"

definition doUTF16ToUTF8 :: "bytes \<Rightarrow> bytes \<times> bool" where
  "doUTF16ToUTF8 d = join_chars (utf16_chars (bom16 d))"

definition utf32_char :: "UInt32 \<Rightarrow> bytes \<times> bool" where
  "utf32_char c =
     (if c \<ge> 0x00110000 then (fst (toUTF8 s_replacement), True) else toUTF8 c)"

definition doUTF32ToUTF8 :: "bytes \<Rightarrow> bytes \<times> bool" where
  "doUTF32ToUTF8 d = join_chars (map utf32_char (bom32 d))"

text \<open>The number of units is computed from the \<^verbatim>\<open>UInt32\<close> size.\<close>

definition UCS2ToUTF8 :: "bytes \<Rightarrow> bytes \<times> bool" where
  "UCS2ToUTF8 src = doUCS2ToUTF8 (take (2 * ((length src mod two32) div 2)) src)"

definition UCS4ToUTF8 :: "bytes \<Rightarrow> bytes \<times> bool" where
  "UCS4ToUTF8 src = doUCS4ToUTF8 (take (4 * ((length src mod two32) div 4)) src)"

definition UTF16ToUTF8 :: "bytes \<Rightarrow> bytes \<times> bool" where
  "UTF16ToUTF8 src = doUTF16ToUTF8 (take (2 * ((length src mod two32) div 2)) src)"

definition UTF32ToUTF8 :: "bytes \<Rightarrow> bytes \<times> bool" where
  "UTF32ToUTF8 src = doUTF32ToUTF8 (take (4 * ((length src mod two32) div 4)) src)"

section \<open>Wide characters and text\<close>

text \<open>The memory of the \<^verbatim>\<open>wchar_t\<close> array and its length.\<close>

definition UTF8ToWideChar :: "EWideCharEncoding \<Rightarrow> bytes \<Rightarrow> bytes \<times> nat \<times> bool" where
  "UTF8ToWideChar enc src =
     (case enc of
        kUCS2 \<Rightarrow> (case UTF8ToUCS2 src of (tmp, e) \<Rightarrow> (tmp, length tmp mod two32 div 2, e))
      | kUCS4 \<Rightarrow> (case UTF8ToUCS4 src of (tmp, e) \<Rightarrow> (tmp, length tmp mod two32 div 4, e))
      | kUTF16 \<Rightarrow> (case UTF8ToUTF16 src of (tmp, e) \<Rightarrow> (tmp, length tmp mod two32 div 2, e))
      | kUTF32 \<Rightarrow> (case UTF8ToUTF32 src of (tmp, e) \<Rightarrow> (tmp, length tmp mod two32 div 4, e)))"

definition wideCharToUTF8 :: "EWideCharEncoding \<Rightarrow> bytes \<Rightarrow> nat \<Rightarrow> bytes \<times> bool" where
  "wideCharToUTF8 enc src n =
     (case enc of
        kUCS2 \<Rightarrow> doUCS2ToUTF8 (take (2 * n) src)
      | kUCS4 \<Rightarrow> doUCS4ToUTF8 (take (4 * n) src)
      | kUTF16 \<Rightarrow> doUTF16ToUTF8 (take (2 * n) src)
      | kUTF32 \<Rightarrow> doUTF32ToUTF8 (take (4 * n) src))"

definition UTF8ToText ::
    "EWideCharEncoding \<Rightarrow> (bytes \<Rightarrow> nat \<Rightarrow> bytes \<times> bool) \<Rightarrow> bytes \<Rightarrow> bytes \<times> bool" where
  "UTF8ToText enc convStringWCToMB src =
     (case UTF8ToWideChar enc src of
        (tmp, n, e) \<Rightarrow> (case convStringWCToMB tmp n of (mbs, e') \<Rightarrow> (mbs, e \<or> e')))"

definition textToUTF8 ::
    "EWideCharEncoding \<Rightarrow> (bytes \<Rightarrow> bytes \<times> nat \<times> bool) \<Rightarrow> bytes \<Rightarrow> bytes \<times> bool" where
  "textToUTF8 enc convStringMBToWC src =
     (case convStringMBToWC (sized src) of
        (wcs, len, e) \<Rightarrow> (case wideCharToUTF8 enc wcs len of (utf8, e') \<Rightarrow> (utf8, e \<or> e')))"

section \<open>Bits of a character\<close>

lemma and_masks:
  fixes x :: UInt32
  shows "x AND 0x3f = take_bit 6 x" "x AND 0x1f = take_bit 5 x" "x AND 0x0f = take_bit 4 x"
    "x AND 0x07 = take_bit 3 x" "x AND 0x03 = take_bit 2 x" "x AND 0x01 = take_bit 1 x"
  by (simp_all add: take_bit_eq_mask mask_numeral)

lemma take_bit_join:
  fixes x :: UInt32
  shows "push_bit m (take_bit k (drop_bit m x)) OR take_bit m x = take_bit (m + k) x"
  by (rule bit_word_eqI)
     (auto simp: bit_or_iff bit_push_bit_iff bit_take_bit_iff bit_drop_bit_eq)

lemma take_bit_nat:
  fixes x :: UInt32
  assumes "k < 32"
  obtains i where "i < 2 ^ k" "take_bit k x = word_of_nat i"
proof
  show "unat (take_bit k x) < 2 ^ k"
    using assms by (simp add: unsigned_take_bit_eq)
  show "take_bit k x = word_of_nat (unat (take_bit k x))" by simp
qed

text \<open>The bytes the encoder writes: a continuation byte, and the five kinds of lead byte.\<close>

lemma cont_byte:
  fixes x :: UInt32
  shows "take_bit 6 (ucast (ucast (take_bit 6 x + 0x80) :: UInt8)) = take_bit 6 x"
    "(ucast (take_bit 6 x + 0x80) :: UInt8) AND 0xc0 = 0x80"
proof -
  have "\<forall>i \<in> set [0..<64]. (ucast ((word_of_nat i :: UInt32) + 0x80) :: UInt8) AND 0xc0 = 0x80 \<and>
      (ucast (ucast ((word_of_nat i :: UInt32) + 0x80) :: UInt8) :: UInt32) AND 0x3f = word_of_nat i"
    by code_simp
  moreover obtain i where "i < 2 ^ 6" "take_bit 6 x = word_of_nat i" by (rule take_bit_nat [of 6 x]) simp
  ultimately show "take_bit 6 (ucast (ucast (take_bit 6 x + 0x80) :: UInt8)) = take_bit 6 x"
    "(ucast (take_bit 6 x + 0x80) :: UInt8) AND 0xc0 = 0x80"
    by (auto simp: and_masks)
qed

definition lead_ok :: "nat \<Rightarrow> UInt32 \<Rightarrow> nat \<Rightarrow> bool" where
  "lead_ok w k sz \<longleftrightarrow>
     (\<forall>i \<in> set [0..<2 ^ w]. lead_size (ucast (word_of_nat i + k)) = sz \<and>
        take_bit w (ucast (ucast (word_of_nat i + k) :: UInt8) :: UInt32) = word_of_nat i)"

lemma lead_okD:
  fixes x :: UInt32
  assumes "lead_ok w k sz" and "w < 32"
  shows "lead_size (ucast (take_bit w x + k)) = sz"
    "take_bit w (ucast (ucast (take_bit w x + k) :: UInt8)) = take_bit w x"
proof -
  obtain i where "i < 2 ^ w" "take_bit w x = word_of_nat i" by (rule take_bit_nat [OF assms(2)])
  with assms(1) show "lead_size (ucast (take_bit w x + k)) = sz"
    "take_bit w (ucast (ucast (take_bit w x + k) :: UInt8)) = take_bit w x"
    by (auto simp: lead_ok_def)
qed

lemma lead_ok_all:
  "lead_ok 5 0xc0 2" "lead_ok 4 0xe0 3" "lead_ok 3 0xf0 4" "lead_ok 2 0xf8 5" "lead_ok 1 0xfc 6"
  by code_simp+

lemmas lead_bytes = lead_ok_all [THEN lead_okD(1), simplified] lead_ok_all [THEN lead_okD(2), simplified]

lemma lead_size_ascii: "c < 0x80 \<Longrightarrow> lead_size (ucast (c :: UInt32)) = 1 \<and> (ucast (ucast c :: UInt8) :: UInt32) = c"
proof -
  assume c: "c < 0x80"
  have "\<forall>i \<in> set [0..<128]. lead_size (ucast (word_of_nat i :: UInt32)) = 1 \<and>
      (ucast (ucast (word_of_nat i :: UInt32) :: UInt8) :: UInt32) = word_of_nat i"
    by code_simp
  moreover have "unat c < 128" using c by (simp add: word_less_nat_alt)
  then have "c = word_of_nat (unat c)" "unat c \<in> set [0..<128]" by auto
  ultimately show ?thesis by metis
qed

lemma take_bit_below: "c < 2 ^ k \<Longrightarrow> k < 32 \<Longrightarrow> take_bit k c = (c :: UInt32)"
  by (simp add: take_bit_eq_mod mod_word_less)

section \<open>Decoding what was encoded\<close>

text \<open>The characters UTF-8 can carry here: 31 bits, no surrogates, not U+FFFE or U+FFFF.\<close>

definition encodable :: "UInt32 \<Rightarrow> bool" where
  "encodable c \<longleftrightarrow> c < 0x80000000 \<and> \<not> (0xd800 \<le> c \<and> c \<le> 0xdfff) \<and> \<not> (0xfffe \<le> c \<and> c \<le> 0xffff)"

lemmas decode_defs = fromUTF8_def extract_char_def truncation_def s_minChar_def Let_def

lemmas encode_simps = encode_def extract_char_def truncation_def s_minChar_def and_masks lead_bytes
  cont_byte

lemma join_bits:
  fixes c :: UInt32
  shows "c < 0x800 \<Longrightarrow> push_bit 6 (take_bit 5 (drop_bit 6 c)) OR take_bit 6 c = c"
    "c < 0x10000 \<Longrightarrow> push_bit 12 (take_bit 4 (drop_bit 12 c)) OR push_bit 6 (take_bit 6 (drop_bit 6 c)) OR
      take_bit 6 c = c"
    "c < 0x200000 \<Longrightarrow> push_bit 18 (take_bit 3 (drop_bit 18 c)) OR push_bit 12 (take_bit 6 (drop_bit 12 c)) OR
      push_bit 6 (take_bit 6 (drop_bit 6 c)) OR take_bit 6 c = c"
    "c < 0x4000000 \<Longrightarrow> push_bit 24 (take_bit 2 (drop_bit 24 c)) OR push_bit 18 (take_bit 6 (drop_bit 18 c)) OR
      push_bit 12 (take_bit 6 (drop_bit 12 c)) OR push_bit 6 (take_bit 6 (drop_bit 6 c)) OR take_bit 6 c = c"
    "c < 0x80000000 \<Longrightarrow> push_bit 30 (take_bit 1 (drop_bit 30 c)) OR push_bit 24 (take_bit 6 (drop_bit 24 c)) OR
      push_bit 18 (take_bit 6 (drop_bit 18 c)) OR push_bit 12 (take_bit 6 (drop_bit 12 c)) OR
      push_bit 6 (take_bit 6 (drop_bit 6 c)) OR take_bit 6 c = c"
  using take_bit_join [of 6 5 c] take_bit_join [of 6 6 c] take_bit_join [of 12 4 c] take_bit_join [of 12 6 c]
    take_bit_join [of 18 3 c] take_bit_join [of 18 6 c] take_bit_join [of 24 2 c] take_bit_join [of 24 6 c]
    take_bit_join [of 30 1 c] take_bit_below [of c 11] take_bit_below [of c 16] take_bit_below [of c 21]
    take_bit_below [of c 26] take_bit_below [of c 31]
  by simp_all

lemma extract_encode:
  assumes "c < 0x80000000"
  shows "\<exists>sz. lead_size (hd (encode c)) = sz \<and> length (encode c) = sz \<and> 0 < sz \<and>
    extract_char sz (encode c @ r) = c \<and> truncation sz (encode c @ r) = (False, sz) \<and> s_minChar ! sz \<le> c"
proof -
  consider (1) "c < 0x80" | (2) "0x80 \<le> c" "c < 0x800" | (3) "0x800 \<le> c" "c < 0x10000"
    | (4) "0x10000 \<le> c" "c < 0x200000" | (5) "0x200000 \<le> c" "c < 0x4000000" | (6) "0x4000000 \<le> c"
    by (meson not_less)
  then show ?thesis
  proof cases
    case 1
    then show ?thesis
      using lead_size_ascii by (simp add: encode_def extract_char_def truncation_def s_minChar_def)
  next
    case 2
    moreover from 2 have "\<not> c < 0x80" by (simp add: not_less)
    ultimately show ?thesis using join_bits(1) [of c] by (simp add: encode_simps)
  next
    case 3
    moreover from 3 have "\<not> c < 0x80" "\<not> c < 0x800" by (simp_all add: not_less order_trans [of _ "0x800"])
    ultimately show ?thesis using join_bits(2) [of c] by (simp add: encode_simps)
  next
    case 4
    moreover from 4 have "\<not> c < 0x80" "\<not> c < 0x800" "\<not> c < 0x10000"
      by (simp_all add: not_less order_trans [of _ "0x10000"])
    ultimately show ?thesis using join_bits(3) [of c] by (simp add: encode_simps)
  next
    case 5
    moreover from 5 have "\<not> c < 0x80" "\<not> c < 0x800" "\<not> c < 0x10000" "\<not> c < 0x200000"
      by (simp_all add: not_less order_trans [of _ "0x200000"])
    ultimately show ?thesis using join_bits(4) [of c] by (simp add: encode_simps)
  next
    case 6
    moreover from 6 have "\<not> c < 0x80" "\<not> c < 0x800" "\<not> c < 0x10000" "\<not> c < 0x200000" "\<not> c < 0x4000000"
      by (simp_all add: not_less order_trans [of _ "0x4000000"])
    ultimately show ?thesis using join_bits(5) [OF assms] by (simp add: encode_simps)
  qed
qed

lemma fromUTF8_encode:
  assumes "encodable c"
  shows "fromUTF8 (encode c @ r) = (c, r)"
proof -
  have c: "c < 0x80000000" using assms by (simp add: encodable_def)
  obtain sz where sz: "lead_size (hd (encode c)) = sz" "length (encode c) = sz" "0 < sz"
    "extract_char sz (encode c @ r) = c" "truncation sz (encode c @ r) = (False, sz)" "s_minChar ! sz \<le> c"
    using extract_encode [OF c] by blast
  then have "hd (encode c @ r) = hd (encode c)" by (cases "encode c") auto
  with sz assms show ?thesis by (auto simp: fromUTF8_def Let_def encodable_def not_less)
qed

lemma chars_from_encode:
  assumes "encodable c"
  shows "chars_from (encode c @ r) = c # chars_from r"
proof -
  have "encode c @ r \<noteq> []" by (simp add: encode_def)
  then show ?thesis using fromUTF8_encode [OF assms, of r] by (subst chars_from.simps) simp
qed

lemma chars_from_text: "\<forall>c \<in> set cs. encodable c \<Longrightarrow> chars_from (concat (map encode cs)) = cs"
  by (induction cs) (simp_all add: chars_from_encode chars_from.simps [of "[]"])

text \<open>
  C14.  UTF-8 decoding inverts encoding: the text made of any characters that UTF-8 can carry is
  accepted by \<^verbatim>\<open>isUTF8\<close>, and \<^verbatim>\<open>UTF8ToUCS4\<close> gives back exactly these characters without reporting an error.
\<close>

theorem utf8_roundtrip:
  assumes "\<forall>c \<in> set cs. encodable c" and "length (concat (map (fst \<circ> toUTF8) cs)) < two32"
  shows "isUTF8 (concat (map (fst \<circ> toUTF8) cs)) \<and>
    UTF8ToUCS4 (concat (map (fst \<circ> toUTF8) cs)) = (concat (map native32 cs), False)"
proof -
  have "fst (toUTF8 c) = encode c" if "c \<in> set cs" for c
    using assms(1) that by (auto simp: toUTF8_def encodable_def not_le)
  then have enc: "map (fst \<circ> toUTF8) cs = map encode cs" by simp
  have chars: "chars_from (sized (concat (map encode cs))) = cs"
    using chars_from_text [OF assms(1)] assms(2) unfolding enc by (simp add: sized_def)
  have valid: "s_invalid \<notin> set cs" using assms(1) by (auto simp: encodable_def s_invalid_def)
  have "ucs4_unit c = (native32 c, False)" if "c \<in> set cs" for c
    using valid that by (auto simp: ucs4_unit_def)
  then have "map fst (map ucs4_unit cs) = map native32 cs" "\<not> list_ex snd (map ucs4_unit cs)"
    by (auto simp: list_ex_iff)
  then show ?thesis
    unfolding enc using chars valid
    by (simp add: isUTF8_def UTF8ToUCS4_def convert_from_def Let_def del: map_map)
qed

theorem utf8_roundtrip_witness:
  "isUTF8 [0xe2, 0x82, 0xac, 0x41] \<and> UTF8ToUCS4 [0xe2, 0x82, 0xac, 0x41] = ([0xac, 0x20, 0, 0, 0x41, 0, 0, 0], False)"
proof -
  have e: "concat (map (fst \<circ> toUTF8) [0x20ac, 0x41]) = [0xe2, 0x82, 0xac, 0x41]"
    by (simp add: toUTF8_def encode_def)
  have n: "concat (map native32 [0x20ac, 0x41]) = [0xac, 0x20, 0, 0, 0x41, 0, 0, 0]"
    by (simp add: native32_def writeUInt32_def)
  show ?thesis
    using utf8_roundtrip [of "[0x20ac, 0x41]"] unfolding e n by (simp add: encodable_def)
qed

section \<open>Surrogate pairs\<close>

text \<open>
  The UTF-16 decoder never decodes a surrogate pair: a high surrogate followed by any word
  turns both words into one replacement character and sets the error flag.  (The second word is
  read from the address of the first.)
\<close>

theorem utf16_pair_lost:
  assumes "0xd800 \<le> h" and "h \<le> 0xdbff"
  shows "utf16_chars (h # l # us) = (encode s_replacement, True) # utf16_chars us"
proof -
  have u: "unat (0xd800 :: UInt16) \<le> unat h" "unat h \<le> unat (0xdbff :: UInt16)"
    using assms by (simp_all only: word_le_nat_alt)
  have "unat h < 2 ^ 16" using unsigned_less [where 'a = nat, of h] by simp
  then have n: "unat (ucast h :: UInt32) = unat h" by (simp add: unsigned_ucast_eq take_bit_eq_mod)
  have "(0xd800 :: UInt32) \<le> ucast h" "(ucast h :: UInt32) \<le> 0xdbff"
    using u by (simp_all add: word_le_nat_alt n)
  moreover from this have "\<not> (ucast h :: UInt32) < 0xd800" "\<not> 0xdfff < (ucast h :: UInt32)"
    "(ucast h :: UInt32) < 0xdc00"
    using u by (simp_all add: word_le_nat_alt word_less_nat_alt n)
  ultimately show ?thesis by (simp add: Let_def)
qed

theorem utf16_pair_lost_witness:
  "UTF16ToUTF8 [0x3d, 0xd8, 0x00, 0xde] = ([0xef, 0xbf, 0xbd], True)"
proof -
  have "bom16 [0x3d, 0xd8, 0x00, 0xde] = [0xd83d, 0xde00]"
    by (simp add: bom16_def decode16_def readUInt16_def)
  moreover have "utf16_chars [0xd83d, 0xde00] = [(encode s_replacement, True)]"
    using utf16_pair_lost [of "0xd83d" "0xde00" "[]"] by simp
  ultimately show ?thesis
    by (simp add: UTF16ToUTF8_def doUTF16ToUTF8_def join_chars_def encode_def s_replacement_def)
qed

end
