(* ===== verification/Std_Map.thy ===== *)
theory Std_Map
  imports Barrier_Prelude
begin

text \<open>
  \<^verbatim>\<open>std::map\<close> with a comparison object: a list of entries kept in ascending order of the keys.
  Keys that are equivalent under the comparison are the same key to the map, but the key first
  inserted is the one stored (screen names keep their case this way).  Locale \<open>ordered_map\<close> is the
  requirement of the standard on the comparison, a strict weak order, and derives the laws of
  lookup, insertion and erasure; the comparison objects of the program are interpretations of it
  where they are modelled.
\<close>

type_synonym ('k, 'v) smap = "('k \<times> 'v) list"

fun smap_find :: "('k \<Rightarrow> 'k \<Rightarrow> bool) \<Rightarrow> 'k \<Rightarrow> ('k, 'v) smap \<Rightarrow> ('k \<times> 'v) option" where
  "smap_find lt k [] = None"
| "smap_find lt k ((k', v) # m) =
     (if lt k' k then smap_find lt k m else if lt k k' then None else Some (k', v))"

text \<open>\<^verbatim>\<open>insert\<close> leaves an entry with an equivalent key alone.\<close>

fun smap_insert :: "('k \<Rightarrow> 'k \<Rightarrow> bool) \<Rightarrow> 'k \<Rightarrow> 'v \<Rightarrow> ('k, 'v) smap \<Rightarrow> ('k, 'v) smap" where
  "smap_insert lt k v [] = [(k, v)]"
| "smap_insert lt k v ((k', v') # m) =
     (if lt k' k then (k', v') # smap_insert lt k v m
      else if lt k k' then (k, v) # (k', v') # m else (k', v') # m)"

fun smap_erase :: "('k \<Rightarrow> 'k \<Rightarrow> bool) \<Rightarrow> 'k \<Rightarrow> ('k, 'v) smap \<Rightarrow> ('k, 'v) smap" where
  "smap_erase lt k [] = []"
| "smap_erase lt k ((k', v') # m) =
     (if lt k' k then (k', v') # smap_erase lt k m
      else if lt k k' then (k', v') # m else m)"

text \<open>Assignment through an iterator that \<^verbatim>\<open>find\<close> returned.\<close>

fun smap_update :: "('k \<Rightarrow> 'k \<Rightarrow> bool) \<Rightarrow> 'k \<Rightarrow> ('v \<Rightarrow> 'v) \<Rightarrow> ('k, 'v) smap \<Rightarrow> ('k, 'v) smap" where
  "smap_update lt k f [] = []"
| "smap_update lt k f ((k', v') # m) =
     (if lt k' k then (k', v') # smap_update lt k f m
      else if lt k k' then (k', v') # m else (k', f v') # m)"

text \<open>The entries before and from \<^verbatim>\<open>upper_bound(k)\<close>, the first entry with a greater key.\<close>

definition smap_before :: "('k \<Rightarrow> 'k \<Rightarrow> bool) \<Rightarrow> 'k \<Rightarrow> ('k, 'v) smap \<Rightarrow> ('k, 'v) smap" where
  "smap_before lt k m = takeWhile (\<lambda>(k', _). \<not> lt k k') m"

definition smap_upper :: "('k \<Rightarrow> 'k \<Rightarrow> bool) \<Rightarrow> 'k \<Rightarrow> ('k, 'v) smap \<Rightarrow> ('k, 'v) smap" where
  "smap_upper lt k m = dropWhile (\<lambda>(k', _). \<not> lt k k') m"

lemma smap_split: "smap_before lt k m @ smap_upper lt k m = m"
  by (simp add: smap_before_def smap_upper_def)

locale ordered_map =
  fixes lt :: "'k \<Rightarrow> 'k \<Rightarrow> bool"
  assumes irrefl: "\<not> lt a a"
    and trans: "lt a b \<Longrightarrow> lt b c \<Longrightarrow> lt a c"
    and weak: "\<not> lt a b \<Longrightarrow> \<not> lt b c \<Longrightarrow> \<not> lt a c"
begin

definition eqv :: "'k \<Rightarrow> 'k \<Rightarrow> bool" where
  "eqv a b \<longleftrightarrow> \<not> lt a b \<and> \<not> lt b a"

definition ascending :: "('k, 'v) smap \<Rightarrow> bool" where
  "ascending m \<longleftrightarrow> sorted_wrt (\<lambda>x y. lt (fst x) (fst y)) m"

lemma ascending_simps [simp]:
  "ascending []" "ascending (x # m) \<longleftrightarrow> (\<forall>y \<in> set m. lt (fst x) (fst y)) \<and> ascending m"
  by (simp_all add: ascending_def)

lemma eqv_refl [simp]: "eqv a a"
  by (simp add: eqv_def irrefl)

lemma eqv_sym: "eqv a b \<Longrightarrow> eqv b a"
  by (simp add: eqv_def)

lemma eqv_trans: "eqv a b \<Longrightarrow> eqv b c \<Longrightarrow> eqv a c"
  unfolding eqv_def using weak by blast

lemma lt_eqv_left: "eqv a b \<Longrightarrow> lt a c \<longleftrightarrow> lt b c"
  unfolding eqv_def using weak by blast

lemma lt_eqv_right: "eqv a b \<Longrightarrow> lt c a \<longleftrightarrow> lt c b"
  unfolding eqv_def using weak by blast

lemma lt_asym: "lt a b \<Longrightarrow> \<not> lt b a"
  using irrefl trans by blast

lemma find_eqv: "eqv k k' \<Longrightarrow> smap_find lt k m = smap_find lt k' m"
  by (induction m) (auto simp: lt_eqv_left [of k k'] lt_eqv_right [of k k'])

text \<open>On an ascending map \<^verbatim>\<open>find\<close> returns the one entry with an equivalent key.\<close>

lemma find_Some_iff:
  "ascending m \<Longrightarrow> smap_find lt k m = Some (k', v) \<longleftrightarrow> (k', v) \<in> set m \<and> eqv k' k"
proof (induction m)
  case (Cons x m)
  obtain a b where x: "x = (a, b)" by force
  consider (lt) "lt a k" | (gt) "\<not> lt a k" "lt k a" | (eq) "eqv a k"
    by (auto simp: eqv_def)
  then show ?case
  proof cases
    case lt
    with Cons x show ?thesis by (auto simp: eqv_def)
  next
    case gt
    with Cons.prems x have "\<not> eqv k' k" if "(k', v) \<in> set (x # m)"
      using that trans [of k a k'] by (auto simp: eqv_def)
    with gt x show ?thesis by auto
  next
    case eq
    with Cons.prems x have "\<not> eqv k' k" if "(k', v) \<in> set m"
      using that lt_eqv_left [of a k k'] by (force simp: eqv_def)
    with eq x show ?thesis by (auto simp: eqv_def)
  qed
qed simp

lemma find_None_iff: "ascending m \<Longrightarrow> smap_find lt k m = None \<longleftrightarrow> (\<forall>x \<in> set m. \<not> eqv (fst x) k)"
proof -
  assume s: "ascending m"
  have "smap_find lt k m = None \<longleftrightarrow> (\<forall>a b. smap_find lt k m \<noteq> Some (a, b))"
    by (cases "smap_find lt k m") auto
  also have "\<dots> \<longleftrightarrow> (\<forall>a b. (a, b) \<in> set m \<longrightarrow> \<not> eqv a k)"
    using find_Some_iff [OF s] by blast
  finally show ?thesis by auto
qed

lemma set_insert:
  "ascending m \<Longrightarrow> set (smap_insert lt k v m) =
    (if \<exists>x \<in> set m. eqv (fst x) k then set m else insert (k, v) (set m))"
proof (induction m)
  case (Cons x m)
  obtain a b where x: "x = (a, b)" by force
  have "\<not> eqv (fst y) k" if "lt k a" "y \<in> set m" for y
    using Cons.prems x that trans [of k a "fst y"] by (auto simp: eqv_def)
  with Cons x show ?case by (auto simp: eqv_def)
qed auto

lemma ascending_insert: "ascending m \<Longrightarrow> ascending (smap_insert lt k v m)"
proof (induction m)
  case (Cons x m)
  obtain a b where x: "x = (a, b)" by force
  with Cons set_insert [of m k v] trans [of k a] show ?case
    by (auto split: if_splits)
qed simp

lemma set_erase: "ascending m \<Longrightarrow> set (smap_erase lt k m) = {x \<in> set m. \<not> eqv (fst x) k}"
proof (induction m)
  case (Cons x m)
  obtain a b where x: "x = (a, b)" by force
  have "\<not> eqv (fst y) k" if "\<not> lt a k" "y \<in> set m" for y
    using Cons.prems x that weak [of a k "fst y"] by (auto simp: eqv_def)
  with Cons x show ?case by (auto simp: eqv_def)
qed simp

lemma ascending_erase: "ascending m \<Longrightarrow> ascending (smap_erase lt k m)"
proof (induction m)
  case (Cons x m)
  obtain a b where x: "x = (a, b)" by force
  with Cons set_erase [of m k] show ?case by auto
qed simp

lemma set_update:
  "ascending m \<Longrightarrow> set (smap_update lt k f m) = (\<lambda>x. if eqv (fst x) k then (fst x, f (snd x)) else x) ` set m"
proof (induction m)
  case (Cons x m)
  obtain a b where x: "x = (a, b)" by force
  have ne: "\<not> eqv (fst y) k" if "\<not> lt a k" "y \<in> set m" for y
    using Cons.prems x that weak [of a k "fst y"] by (auto simp: eqv_def)
  show ?case
  proof (cases "lt a k")
    case True
    with Cons x show ?thesis by (auto simp: eqv_def)
  next
    case False
    then have "(\<lambda>x. if eqv (fst x) k then (fst x, f (snd x)) else x) ` set m = set m"
      using ne by force
    with False x show ?thesis by (auto simp: eqv_def)
  qed
qed simp

lemma keys_update: "map fst (smap_update lt k f m) = map fst m"
  by (induction m) auto

lemma ascending_keys: "map fst m = map fst m' \<Longrightarrow> ascending m \<longleftrightarrow> ascending m'"
  by (metis ascending_def sorted_wrt_map)

lemma ascending_update: "ascending m \<Longrightarrow> ascending (smap_update lt k f m)"
  using ascending_keys keys_update by blast

lemma update_same: "smap_find lt k m = Some (a, v) \<Longrightarrow> smap_update lt k (\<lambda>_. v) m = m"
  by (induction m) (auto split: if_splits)

lemma ascending_filter: "ascending m \<Longrightarrow> ascending (filter P m)"
  by (auto simp: ascending_def intro: sorted_wrt_filter)

text \<open>The laws a client uses.\<close>

lemma find_insert_same:
  "ascending m \<Longrightarrow> smap_find lt k m = None \<Longrightarrow> eqv k k' \<Longrightarrow> smap_find lt k' (smap_insert lt k v m) = Some (k, v)"
  by (subst find_Some_iff) (auto simp: ascending_insert set_insert find_None_iff)

lemma find_insert_other:
  assumes "ascending m" "\<not> eqv k k'"
  shows "smap_find lt k' (smap_insert lt k v m) = smap_find lt k' m"
proof (cases "smap_find lt k' m")
  case None
  with assms have "smap_find lt k' (smap_insert lt k v m) = None"
    by (subst find_None_iff) (auto simp: ascending_insert set_insert find_None_iff split: if_splits)
  with None show ?thesis by simp
next
  case (Some x)
  obtain a b where x: "x = (a, b)" by force
  with Some assms have "(a, b) \<in> set m" "eqv a k'" by (auto simp: find_Some_iff)
  then have "smap_find lt k' (smap_insert lt k v m) = Some (a, b)"
    using assms by (simp add: find_Some_iff ascending_insert set_insert)
  with Some x show ?thesis by simp
qed

lemma find_erase_same:
  assumes "ascending m" "eqv k k'"
  shows "smap_find lt k' (smap_erase lt k m) = None"
proof -
  have "\<not> eqv a k'" if "\<not> eqv a k" for a
    using that assms(2) eqv_sym eqv_trans by blast
  then show ?thesis using assms(1) by (simp add: find_None_iff ascending_erase set_erase)
qed

lemma find_erase_other:
  assumes "ascending m" "\<not> eqv k k'"
  shows "smap_find lt k' (smap_erase lt k m) = smap_find lt k' m"
proof (cases "smap_find lt k' m")
  case None
  with assms have "smap_find lt k' (smap_erase lt k m) = None"
    by (subst find_None_iff) (auto simp: ascending_erase set_erase find_None_iff)
  with None show ?thesis by simp
next
  case (Some x)
  obtain a b where x: "x = (a, b)" by force
  with Some assms have "(a, b) \<in> set m" "eqv a k'" by (auto simp: find_Some_iff)
  moreover have "\<not> eqv a k" using \<open>eqv a k'\<close> assms(2) eqv_sym eqv_trans by blast
  ultimately have "smap_find lt k' (smap_erase lt k m) = Some (a, b)"
    using assms by (simp add: find_Some_iff ascending_erase set_erase)
  with Some x show ?thesis by simp
qed

lemma find_update:
  assumes "ascending m"
  shows "smap_find lt k' (smap_update lt k f m) =
    (if eqv k k' then map_option (\<lambda>(a, b). (a, f b)) (smap_find lt k' m) else smap_find lt k' m)"
  using assms
proof (induction m)
  case (Cons x m)
  obtain a b where x: "x = (a, b)" by force
  show ?case
  proof (cases "eqv k k'")
    case True
    then have "lt a k = lt a k'" "lt k a = lt k' a"
      using lt_eqv_left lt_eqv_right by blast+
    with Cons x True show ?thesis by auto
  next
    case False
    have "\<not> (eqv a k \<and> eqv a k')" using False eqv_sym eqv_trans by blast
    with Cons x False show ?thesis by (auto simp: eqv_def)
  qed
qed simp

text \<open>\<^verbatim>\<open>upper_bound\<close> splits an ascending map by the key.\<close>

lemma before_iff: "ascending m \<Longrightarrow> x \<in> set (smap_before lt k m) \<longleftrightarrow> x \<in> set m \<and> \<not> lt k (fst x)"
proof (induction m)
  case (Cons y m)
  have "lt k (fst z)" if "lt k (fst y)" "z \<in> set m" for z
    using Cons.prems that trans [of k "fst y"] by auto
  then show ?case using Cons by (cases y) (fastforce simp: smap_before_def)
qed (simp add: smap_before_def)

lemma upper_iff: "ascending m \<Longrightarrow> x \<in> set (smap_upper lt k m) \<longleftrightarrow> x \<in> set m \<and> lt k (fst x)"
proof (induction m)
  case (Cons y m)
  have "lt k (fst z)" if "lt k (fst y)" "z \<in> set m" for z
    using Cons.prems that trans [of k "fst y"] by auto
  then show ?case using Cons by (cases x; cases y) (auto simp: smap_upper_def)
qed (simp add: smap_upper_def)

lemma ascending_append: "ascending (xs @ ys) \<Longrightarrow> ascending xs \<and> ascending ys"
  by (simp add: ascending_def sorted_wrt_append)

lemma ascending_parts: "ascending m \<Longrightarrow> ascending (smap_before lt k m) \<and> ascending (smap_upper lt k m)"
  by (rule ascending_append) (simp add: smap_split)

lemma last_greatest: "ascending xs \<Longrightarrow> x \<in> set xs \<Longrightarrow> x = last xs \<or> lt (fst x) (fst (last xs))"
  by (cases xs rule: rev_cases) (auto simp: ascending_def sorted_wrt_append)

lemma hd_least: "ascending xs \<Longrightarrow> x \<in> set xs \<Longrightarrow> x = hd xs \<or> lt (fst (hd xs)) (fst x)"
  by (cases xs) (auto simp: ascending_def)

end

end
