(* ===== verification/Float32.thy ===== *)
theory Float32
  imports Complex_Main
begin

text \<open>
  The values of C++ \<^verbatim>\<open>float\<close> that the configuration uses are finite and not negative: positions
  along a screen edge and interval bounds.  They are modelled as rationals, on which
  comparison is exact; every arithmetic operation is the exact operation followed by
  \<open>round32\<close>, rounding to nearest even in IEEE binary32 (24 bits of precision, exponents from
  -126).  Locale \<open>rounding\<close> has the facts that proofs use.
\<close>

locale rounding =
  fixes fl :: "rat \<Rightarrow> rat"
  assumes fl_mono: "0 \<le> x \<Longrightarrow> x \<le> y \<Longrightarrow> y \<le> 2 \<Longrightarrow> fl x \<le> fl y"
    and fl_zero: "fl 0 = 0"
    and fl_one: "fl 1 = 1"
    and fl_idem: "0 \<le> x \<Longrightarrow> x \<le> 2 \<Longrightarrow> fl (fl x) = fl x"
    and fl_half_ulp: "0 \<le> x \<Longrightarrow> x \<le> 1 \<Longrightarrow> fl x \<le> x + 1 / 2 ^ 25"
    and fl_above_one: "fl (1 + 1 / 2 ^ 25) = 1"
begin

lemma fl_nonneg: "0 \<le> x \<Longrightarrow> x \<le> 2 \<Longrightarrow> 0 \<le> fl x"
  using fl_mono [of 0 x] fl_zero by simp

lemma fl_unit: "0 \<le> x \<Longrightarrow> x \<le> 1 \<Longrightarrow> 0 \<le> fl x \<and> fl x \<le> 1"
  using fl_nonneg [of x] fl_mono [of x 1] fl_one by simp

text \<open>
  A position scaled into an interval: the exact bounds \<open>0\<close> and \<open>1\<close> survive rounding, and the result
  does not exceed the rounded length of the interval.
\<close>

lemma fl_scale: "0 \<le> t \<Longrightarrow> t \<le> 1 \<Longrightarrow> 0 \<le> w \<Longrightarrow> w \<le> 1 \<Longrightarrow> 0 \<le> fl (t * fl w) \<and> fl (t * fl w) \<le> fl w"
proof -
  assume a: "0 \<le> t" "t \<le> 1" "0 \<le> w" "w \<le> 1"
  then have w: "0 \<le> fl w" "fl w \<le> 1" using fl_unit by blast+
  then have "t * fl w \<le> fl w" "0 \<le> t * fl w" using a mult_left_le_one_le by auto
  then show ?thesis
    using fl_mono [of "t * fl w" "fl w"] fl_nonneg [of "t * fl w"] fl_idem [of w] w a by simp
qed

lemma fl_quotient:
  assumes "0 \<le> n" "n \<le> d" "0 < d" "d \<le> 1"
  shows "0 \<le> fl (fl n / fl d) \<and> fl (fl n / fl d) \<le> 1"
proof -
  have "fl n \<le> fl d" "0 \<le> fl n" using assms fl_mono fl_nonneg by simp_all
  then have "0 \<le> fl n / fl d \<and> fl n / fl d \<le> 1"
    by (cases "fl d = 0") (auto simp: divide_le_eq)
  then show ?thesis using fl_unit by blast
qed

text \<open>
  The affine image of \<open>0 .. 1\<close> in an interval \<open>a .. b\<close>: never before the interval and never beyond
  \<open>1\<close>, although the rounded length may exceed \<open>b - a\<close>.
\<close>

lemma fl_affine:
  assumes t: "0 \<le> t" "t \<le> 1" and ab: "0 \<le> a" "a < b" "b \<le> 1"
  shows "fl a \<le> fl (fl (t * fl (b - a)) + a)" "fl (fl (t * fl (b - a)) + a) \<le> 1"
    "fl (fl (t * fl (b - a)) + a) \<le> fl (fl (b - a) + a)"
proof -
  have s: "0 \<le> fl (t * fl (b - a))" "fl (t * fl (b - a)) \<le> fl (b - a)"
    using fl_scale [of t "b - a"] t ab by auto
  have l: "fl (b - a) + a \<le> 1 + 1 / 2 ^ 25" using fl_half_ulp [of "b - a"] ab by simp
  have two: "(1 :: rat) + 1 / 2 ^ 25 \<le> 2" by simp
  show "fl a \<le> fl (fl (t * fl (b - a)) + a)" using s l two ab by (intro fl_mono) linarith+
  show "fl (fl (t * fl (b - a)) + a) \<le> fl (fl (b - a) + a)" using s l two ab by (intro fl_mono) linarith+
  also have "\<dots> \<le> fl (1 + 1 / 2 ^ 25)" using s l two ab by (intro fl_mono) linarith+
  finally show "fl (fl (t * fl (b - a)) + a) \<le> 1" by (simp only: fl_above_one)
qed

end

section \<open>Rounding to binary32\<close>

definition half_even :: "rat \<Rightarrow> int" where
  "half_even x =
     (let f = \<lfloor>x\<rfloor>; d = x - of_int f
      in if d < 1 / 2 \<or> (d = 1 / 2 \<and> even f) then f else f + 1)"

text \<open>The exponent: the largest from -126 to 127 with \<open>2 powi e \<le> \<bar>x\<bar>\<close>, or -126.\<close>

definition exponents :: "int list" where
  "exponents = [-126..127]"

definition fexp :: "rat \<Rightarrow> int" where
  "fexp x = Max (set ((-126) # filter (\<lambda>e. 2 powi e \<le> \<bar>x\<bar>) exponents))"

lemma in_exponents: "e \<in> set exponents \<longleftrightarrow> -126 \<le> e \<and> e \<le> 127"
  by (simp only: exponents_def set_upto atLeastAtMost_iff)

definition round32 :: "rat \<Rightarrow> rat" where
  "round32 x = (let q = 2 powi (fexp x - 23) in of_int (half_even (x / q)) * q)"

lemma half_even_bounds: "\<lfloor>x\<rfloor> \<le> half_even x \<and> half_even x \<le> \<lfloor>x\<rfloor> + 1"
  by (simp add: half_even_def Let_def)

lemma half_even_mono: "x \<le> y \<Longrightarrow> half_even x \<le> half_even y"
proof (cases "\<lfloor>x\<rfloor> < \<lfloor>y\<rfloor>")
  case True
  then show ?thesis using half_even_bounds [of x] half_even_bounds [of y] by linarith
next
  case False
  assume "x \<le> y"
  with False have "\<lfloor>x\<rfloor> = \<lfloor>y\<rfloor>" using floor_mono by fastforce
  with \<open>x \<le> y\<close> show ?thesis by (auto simp: half_even_def Let_def)
qed

lemma half_even_int [simp]: "half_even (of_int k) = k"
  by (simp add: half_even_def)

lemma fexp_ge: "-126 \<le> fexp x"
  by (simp add: fexp_def)

lemma fexp_mono: "\<bar>x\<bar> \<le> \<bar>y\<bar> \<Longrightarrow> fexp x \<le> fexp y"
  unfolding fexp_def by (rule Max_mono) (auto intro: order_trans)

lemma fexp_lower: "fexp x = -126 \<or> 2 powi fexp x \<le> \<bar>x\<bar>"
proof -
  have "fexp x \<in> set ((-126) # filter (\<lambda>e. 2 powi e \<le> \<bar>x\<bar>) exponents)"
    unfolding fexp_def by (rule Max_in) auto
  then show ?thesis by auto
qed

lemma fexp_upper:
  assumes "\<bar>x\<bar> < 2 powi 128"
  shows "\<bar>x\<bar> < 2 powi (fexp x + 1)"
proof (rule ccontr)
  assume n: "\<not> \<bar>x\<bar> < 2 powi (fexp x + 1)"
  have "fexp x + 1 \<le> 127"
  proof (rule ccontr)
    assume "\<not> fexp x + 1 \<le> 127"
    then have "(2 :: rat) powi 128 \<le> 2 powi (fexp x + 1)" by (intro power_int_increasing) auto
    with n assms show False by simp
  qed
  then have "fexp x + 1 \<in> set ((-126) # filter (\<lambda>e. 2 powi e \<le> \<bar>x\<bar>) exponents)"
    using n fexp_ge [of x] by (simp add: in_exponents not_less)
  then have "fexp x + 1 \<le> fexp x" unfolding fexp_def by (intro Max_ge) auto
  then show False by simp
qed

text \<open>Multiples of the unit in the last place of any exponent are not changed, up to 24 bits.\<close>

lemma round32_exact:
  assumes m: "0 \<le> m" "m \<le> 2 ^ 24" and e: "-126 \<le> e" "e \<le> 126"
  shows "round32 (of_int m * 2 powi (e - 23)) = of_int m * 2 powi (e - 23)"
proof -
  define y where "y = of_int m * (2 :: rat) powi (e - 23)"
  have y: "0 \<le> y" "\<bar>y\<bar> = y" using m by (simp_all add: y_def)
  have "y \<le> 2 ^ 24 * 2 powi (e - 23)"
    unfolding y_def using m(2) of_int_le_iff [of m "2 ^ 24", where 'a = rat] by (intro mult_right_mono) simp_all
  also have "\<dots> = 2 powi (e + 1)"
    by (simp add: add.commute flip: power_int_add power_int_numeral)
  finally have up: "y \<le> 2 powi (e + 1)" .
  have "fexp y \<le> e \<or> y = 2 powi (e + 1)"
  proof (rule disjCI)
    assume "y \<noteq> 2 powi (e + 1)"
    with up have lt: "y < 2 powi (e + 1)" by simp
    show "fexp y \<le> e"
    proof (rule ccontr)
      assume n: "\<not> fexp y \<le> e"
      then have "fexp y \<noteq> -126" using e by simp
      then have "2 powi fexp y \<le> y" using fexp_lower [of y] y by simp
      moreover have "(2 :: rat) powi (e + 1) \<le> 2 powi fexp y" using n by (intro power_int_increasing) auto
      ultimately show False using lt by simp
    qed
  qed
  moreover have "fexp y \<le> e + 1"
  proof (rule ccontr)
    assume n: "\<not> fexp y \<le> e + 1"
    then have "2 powi fexp y \<le> y" using fexp_lower [of y] y e by auto
    moreover have "(2 :: rat) powi (e + 1) < 2 powi fexp y" using n by (intro power_int_strict_increasing) auto
    ultimately show False using up by simp
  qed
  ultimately have "\<exists>k. y / 2 powi (fexp y - 23) = of_int k"
  proof (elim disjE)
    assume le: "fexp y \<le> e"
    have "y / 2 powi (fexp y - 23) = of_int m * 2 powi (e - fexp y)"
      by (simp add: y_def power_int_diff)
    also have "\<dots> = of_int (m * 2 ^ nat (e - fexp y))"
      using le by (simp add: power_int_def)
    finally show ?thesis by blast
  next
    assume eq: "y = 2 powi (e + 1)" and le: "fexp y \<le> e + 1"
    define k where "k = fexp y - 23"
    have "y / 2 powi k = 2 powi (e + 1 - k)"
      unfolding eq by (rule power_int_diff [symmetric]) simp
    then have "y / 2 powi (fexp y - 23) = 2 powi (e + 1 - (fexp y - 23))"
      by (simp only: k_def)
    also have "\<dots> = of_int (2 ^ nat (e + 1 - (fexp y - 23)))"
      using le by (simp add: power_int_def)
    finally show ?thesis by blast
  qed
  then obtain k where k: "y / 2 powi (fexp y - 23) = of_int k" ..
  then have "y = of_int k * 2 powi (fexp y - 23)" by (simp add: divide_eq_eq)
  then show ?thesis unfolding y_def [symmetric] by (simp only: round32_def Let_def k half_even_int)
qed

lemma fexp_small: "0 \<le> x \<Longrightarrow> x \<le> 2 \<Longrightarrow> fexp x \<le> 126"
proof (rule ccontr)
  assume x: "0 \<le> x" "x \<le> 2" and n: "\<not> fexp x \<le> 126"
  then have "2 powi fexp x \<le> x" using fexp_lower [of x] by auto
  moreover have "(2 :: rat) powi 2 \<le> 2 powi fexp x" using n by (intro power_int_increasing) auto
  ultimately show False using x by (simp add: power_int_numeral)
qed

text \<open>The significand and its range.\<close>

definition significand :: "rat \<Rightarrow> int" where
  "significand x = half_even (x / 2 powi (fexp x - 23))"

lemma round32_significand: "round32 x = of_int (significand x) * 2 powi (fexp x - 23)"
  by (simp add: round32_def significand_def Let_def)

lemma ulp_split: "(2 :: rat) powi e = 2 ^ 23 * 2 powi (e - 23)"
  by (simp flip: power_int_add power_int_numeral)

lemma significand_upper:
  assumes "0 \<le> x" "x \<le> 2"
  shows "significand x \<le> 2 ^ 24"
proof -
  let ?q = "(2 :: rat) powi (fexp x - 23)"
  have "x < 2 powi 128"
  proof -
    have "(2 :: rat) powi 2 \<le> 2 powi 128" by (intro power_int_increasing) auto
    then show ?thesis using assms by (simp add: power_int_numeral)
  qed
  then have "x \<le> 2 powi (fexp x + 1)" using fexp_upper [of x] assms by simp
  also have "\<dots> = of_int (2 ^ 24) * ?q"
    by (simp add: power_int_add ulp_split [of "fexp x"])
  finally have "x / ?q \<le> of_int (2 ^ 24)" by (simp add: divide_le_eq)
  then show ?thesis unfolding significand_def using half_even_mono half_even_int by metis
qed

lemma significand_nonneg: "0 \<le> x \<Longrightarrow> 0 \<le> significand x"
  unfolding significand_def using half_even_mono [of 0 "x / 2 powi (fexp x - 23)"] half_even_int [of 0] by simp

lemma significand_lower:
  assumes "0 \<le> x" "fexp x \<noteq> -126"
  shows "2 ^ 23 \<le> significand x"
proof -
  let ?q = "(2 :: rat) powi (fexp x - 23)"
  have "2 powi fexp x \<le> x" using fexp_lower [of x] assms by simp
  then have "of_int (2 ^ 23) * ?q \<le> x" by (simp add: ulp_split [of "fexp x"])
  then have "of_int (2 ^ 23) \<le> x / ?q" by (simp add: le_divide_eq)
  then show ?thesis unfolding significand_def using half_even_mono half_even_int by metis
qed

lemma round32_mono:
  assumes "0 \<le> x" "x \<le> y" "y \<le> 2"
  shows "round32 x \<le> round32 y"
proof (cases "fexp x = fexp y")
  case True
  have "significand x \<le> significand y"
    unfolding significand_def True using assms by (intro half_even_mono divide_right_mono) auto
  then show ?thesis unfolding round32_significand True by (intro mult_right_mono) auto
next
  case False
  then have lt: "fexp x < fexp y" using fexp_mono [of x y] assms by simp
  have "round32 x \<le> of_int (2 ^ 24) * 2 powi (fexp x - 23)"
    unfolding round32_significand using significand_upper [of x] assms by (intro mult_right_mono) (simp_all only: of_int_le_iff, auto)
  also have "\<dots> = 2 powi (fexp x + 1)"
    by (simp add: power_int_add ulp_split [of "fexp x"])
  also have "\<dots> \<le> 2 powi fexp y" using lt by (intro power_int_increasing) auto
  also have "\<dots> = of_int (2 ^ 23) * 2 powi (fexp y - 23)" by (simp add: ulp_split [of "fexp y"])
  also have "\<dots> \<le> round32 y"
    unfolding round32_significand using significand_lower [of y] assms lt fexp_ge [of x]
    by (intro mult_right_mono) (simp_all only: of_int_le_iff, auto)
  finally show ?thesis .
qed

lemma half_even_err: "of_int (half_even x) \<le> x + 1 / 2"
proof -
  have "of_int \<lfloor>x\<rfloor> \<le> x" by (rule of_int_floor_le)
  then have "of_int \<lfloor>x\<rfloor> \<le> x + 1 / 2" by linarith
  then show ?thesis by (auto simp: half_even_def Let_def)
qed

lemma round32_one: "round32 1 = 1"
proof -
  have "round32 (of_int (2 ^ 23) * 2 powi (0 - 23)) = of_int (2 ^ 23) * 2 powi (0 - 23)"
    by (rule round32_exact) auto
  then show ?thesis by (simp add: power_int_minus)
qed

lemma round32_half_ulp:
  assumes "0 \<le> x" "x \<le> 1"
  shows "round32 x \<le> x + 1 / 2 ^ 25"
proof (cases "x = 1")
  case True
  then show ?thesis by (simp add: round32_one)
next
  case False
  let ?q = "(2 :: rat) powi (fexp x - 23)"
  have "fexp x \<le> -1"
  proof (rule ccontr)
    assume n: "\<not> fexp x \<le> -1"
    then have "2 powi fexp x \<le> x" using fexp_lower [of x] assms by auto
    moreover have "(2 :: rat) powi 0 \<le> 2 powi fexp x" using n by (intro power_int_increasing) auto
    ultimately show False using assms False by simp
  qed
  then have "?q \<le> 2 powi (-24)" by (intro power_int_increasing) auto
  then have q: "?q \<le> 1 / 2 ^ 24" by (simp add: power_int_minus field_simps)
  have "round32 x \<le> (x / ?q + 1 / 2) * ?q"
    unfolding round32_significand significand_def by (intro mult_right_mono half_even_err) auto
  also have "\<dots> = x + ?q / 2" by (simp add: field_simps)
  finally show ?thesis using q by simp
qed

lemma round32_above_one: "round32 (1 + 1 / 2 ^ 25) = 1"
proof -
  let ?x = "1 + 1 / 2 ^ 25 :: rat"
  have "fexp ?x = 0"
  proof (rule antisym)
    have "?x < 2 powi 1" by simp
    show "fexp ?x \<le> 0"
    proof (rule ccontr)
      assume n: "\<not> fexp ?x \<le> 0"
      then have "2 powi fexp ?x \<le> ?x" using fexp_lower [of ?x] by auto
      moreover have "(2 :: rat) powi 1 \<le> 2 powi fexp ?x" using n by (intro power_int_increasing) auto
      ultimately show False by simp
    qed
    show "0 \<le> fexp ?x" unfolding fexp_def by (intro Max_ge finite_set) (simp add: in_exponents)
  qed
  then have "significand ?x = half_even (33554433 / 4)"
    by (simp add: significand_def power_int_minus field_simps)
  moreover have "\<lfloor>33554433 / 4 :: rat\<rfloor> = 2 ^ 23" by (simp add: floor_eq_iff)
  ultimately have "significand ?x = 2 ^ 23" by (simp add: half_even_def Let_def)
  with \<open>fexp ?x = 0\<close> show ?thesis unfolding round32_significand by (simp add: power_int_minus)
qed

interpretation round32: rounding round32
proof
  show "round32 0 = 0" by (simp add: round32_def half_even_def)
  show "round32 1 = 1" by (rule round32_one)
  show "round32 (round32 x) = round32 x" if "0 \<le> x" "x \<le> 2" for x
    unfolding round32_significand [of x] using that
    by (intro round32_exact significand_nonneg significand_upper fexp_ge fexp_small) auto
qed (rule round32_mono round32_half_ulp round32_above_one; assumption)+

end
