(* ===== verification/Config_Topology.thy ===== *)
theory Config_Topology
  imports Std_Map String_Util Float32
begin

text \<open>
  The screen topology of \<^verbatim>\<open>server/Config.cpp\<close>: screens and their aliases, the links between screen
  edges with their intervals, and the options.  Names are compared without case; both name maps
  are \<^verbatim>\<open>std::map\<close>s with \<^verbatim>\<open>CaselessCmp\<close>, the links of a screen a \<^verbatim>\<open>std::map\<close> ordered by side and start
  of the interval.  A failing \<^verbatim>\<open>assert\<close>, and what C++ leaves undefined, is \<open>None\<close>.
\<close>

datatype EDirection = kNoDirection | kLeft | kRight | kTop | kBottom

fun dir_num :: "EDirection \<Rightarrow> int" where
  "dir_num kNoDirection = 0"
| "dir_num kLeft = 1"
| "dir_num kRight = 2"
| "dir_num kTop = 3"
| "dir_num kBottom = 4"

lemma dir_num_inject [simp]: "dir_num a = dir_num b \<longleftrightarrow> a = b"
  by (cases a; cases b) auto

type_synonym OptionID = UInt32
type_synonym OptionValue = "32 word"

record CellEdge =
  ce_name :: string
  ce_side :: EDirection
  ce_first :: rat
  ce_second :: rat

record Cell =
  cell_neighbors :: "(CellEdge, CellEdge) smap"
  cell_options :: "(OptionID, OptionValue) smap"

record MonitorConfig =
  mc_name :: string
  mc_matchPattern :: string
  mc_defaultHost :: string

record Config =
  cfg_map :: "(string, Cell) smap"
  cfg_names :: "(string, string) smap"
  cfg_monitors :: "(string, MonitorConfig) smap"
  cfg_globalOptions :: "(OptionID, OptionValue) smap"
  cfg_dropTarget :: string
  cfg_screenDropTargets :: "(string, string) smap"

definition Config_new :: Config where
  "Config_new = \<lparr>cfg_map = [], cfg_names = [], cfg_monitors = [], cfg_globalOptions = [], cfg_dropTarget = [],
     cfg_screenDropTargets = []\<rparr>"

definition Cell_new :: Cell where
  "Cell_new = \<lparr>cell_neighbors = [], cell_options = []\<rparr>"

section \<open>Cell edges\<close>

definition CellEdge_at :: "EDirection \<Rightarrow> rat \<Rightarrow> CellEdge option" where
  "CellEdge_at side position =
     (if side = kNoDirection then None
      else Some \<lparr>ce_name = [], ce_side = side, ce_first = position, ce_second = position\<rparr>)"

definition CellEdge_make :: "string \<Rightarrow> EDirection \<Rightarrow> rat \<Rightarrow> rat \<Rightarrow> CellEdge option" where
  "CellEdge_make name side a b =
     (if 0 \<le> a \<and> b \<le> 1 \<and> a < b \<and> side \<noteq> kNoDirection
      then Some \<lparr>ce_name = name, ce_side = side, ce_first = a, ce_second = b\<rparr> else None)"

definition CellEdge_overlaps :: "CellEdge \<Rightarrow> CellEdge \<Rightarrow> bool" where
  "CellEdge_overlaps x y \<longleftrightarrow>
     ce_side x = ce_side y \<and>
     ((ce_first x \<ge> ce_first y \<and> ce_first x < ce_second y) \<or>
      (ce_second x > ce_first y \<and> ce_second x \<le> ce_second y) \<or>
      (ce_first y \<ge> ce_first x \<and> ce_first y < ce_second x) \<or>
      (ce_second y > ce_first x \<and> ce_second y \<le> ce_second x))"

definition CellEdge_isInside :: "CellEdge \<Rightarrow> rat \<Rightarrow> bool" where
  "CellEdge_isInside e x \<longleftrightarrow> x \<ge> ce_first e \<and> x < ce_second e"

definition CellEdge_transform :: "CellEdge \<Rightarrow> rat \<Rightarrow> rat" where
  "CellEdge_transform e x = round32 (round32 (x - ce_first e) / round32 (ce_second e - ce_first e))"

definition CellEdge_inverseTransform :: "CellEdge \<Rightarrow> rat \<Rightarrow> rat" where
  "CellEdge_inverseTransform e x =
     round32 (round32 (x * round32 (ce_second e - ce_first e)) + ce_first e)"

definition CellEdge_less :: "CellEdge \<Rightarrow> CellEdge \<Rightarrow> bool" where
  "CellEdge_less a b \<longleftrightarrow>
     (if dir_num (ce_side a) < dir_num (ce_side b) then True
      else if dir_num (ce_side a) > dir_num (ce_side b) then False
      else ce_first a < ce_first b)"

definition CellEdge_eq :: "CellEdge \<Rightarrow> CellEdge \<Rightarrow> bool" where
  "CellEdge_eq a b \<longleftrightarrow> ce_side a = ce_side b \<and> ce_first a = ce_first b \<and> ce_second a = ce_second b"

section \<open>Cells\<close>

definition Cell_hasEdge :: "Cell \<Rightarrow> CellEdge \<Rightarrow> bool" where
  "Cell_hasEdge c e =
     (case smap_find CellEdge_less e (cell_neighbors c) of
        None \<Rightarrow> False
      | Some (k, _) \<Rightarrow> CellEdge_eq k e)"

definition Cell_overlaps :: "Cell \<Rightarrow> CellEdge \<Rightarrow> bool" where
  "Cell_overlaps c e =
     (let m = cell_neighbors c; i = smap_upper CellEdge_less e m; b = smap_before CellEdge_less e m in
      if i \<noteq> [] \<and> CellEdge_overlaps (fst (hd i)) e then True
      else if b \<noteq> [] \<and> CellEdge_overlaps (fst (last b)) e then True
      else False)"

definition Cell_add :: "Cell \<Rightarrow> CellEdge \<Rightarrow> CellEdge \<Rightarrow> bool \<times> Cell" where
  "Cell_add c src dst =
     (if \<not> Cell_hasEdge c src \<and> Cell_overlaps c src then (False, c)
      else (True, c\<lparr>cell_neighbors := smap_insert CellEdge_less src dst
                       (smap_erase CellEdge_less src (cell_neighbors c))\<rparr>))"

definition Cell_remove_side :: "Cell \<Rightarrow> EDirection \<Rightarrow> Cell" where
  "Cell_remove_side c side = c\<lparr>cell_neighbors := filter (\<lambda>(k, _). ce_side k \<noteq> side) (cell_neighbors c)\<rparr>"

fun remove_first :: "('a \<Rightarrow> bool) \<Rightarrow> 'a list \<Rightarrow> 'a list" where
  "remove_first P [] = []"
| "remove_first P (x # xs) = (if P x then xs else x # remove_first P xs)"

definition Cell_remove_at :: "Cell \<Rightarrow> EDirection \<Rightarrow> rat \<Rightarrow> Cell" where
  "Cell_remove_at c side position =
     c\<lparr>cell_neighbors := remove_first (\<lambda>(k, _). ce_side k = side \<and> CellEdge_isInside k position) (cell_neighbors c)\<rparr>"

definition Cell_getLink :: "Cell \<Rightarrow> EDirection \<Rightarrow> rat \<Rightarrow> (CellEdge \<times> CellEdge) option option" where
  "Cell_getLink c side position =
     (case CellEdge_at side position of
        None \<Rightarrow> None
      | Some edge \<Rightarrow>
          let b = smap_before CellEdge_less edge (cell_neighbors c) in
          if b = [] then Some None
          else
            let (src, dst) = last b in
            if ce_side src = side \<and> CellEdge_isInside src position then Some (Some (src, dst))
            else Some None)"

text \<open>\<^verbatim>\<open>Cell::operator==\<close>: options and links in order; of the names only the destinations count.\<close>

definition Cell_eq :: "Cell \<Rightarrow> Cell \<Rightarrow> bool" where
  "Cell_eq c x \<longleftrightarrow>
     cell_options c = cell_options x \<and>
     list_all2 (\<lambda>(s1, d1) (s2, d2). CellEdge_eq s1 s2 \<and> CellEdge_eq d1 d2 \<and> CaselessCmp_equal (ce_name d1) (ce_name d2))
       (cell_neighbors c) (cell_neighbors x)"

section \<open>Names\<close>

definition getCanonicalName :: "Config \<Rightarrow> string \<Rightarrow> string" where
  "getCanonicalName cfg name =
     (case smap_find CaselessCmp_less name (cfg_names cfg) of None \<Rightarrow> [] | Some (_, c) \<Rightarrow> c)"

definition isScreen :: "Config \<Rightarrow> string \<Rightarrow> bool" where
  "isScreen cfg name \<longleftrightarrow> smap_find CaselessCmp_less name (cfg_names cfg) \<noteq> None"

definition isMonitor :: "Config \<Rightarrow> string \<Rightarrow> bool" where
  "isMonitor cfg name \<longleftrightarrow> smap_find CaselessCmp_less name (cfg_monitors cfg) \<noteq> None"

definition isCanonicalName :: "Config \<Rightarrow> string \<Rightarrow> bool" where
  "isCanonicalName cfg name \<longleftrightarrow> name \<noteq> [] \<and> CaselessCmp_equal (getCanonicalName cfg name) name"

text \<open>
  \<^verbatim>\<open>Config::Name\<close> holds a canonical name and a pointer to the configuration, which \<^verbatim>\<open>operator==\<close>
  consults at the time of the comparison.
\<close>

definition Name_eq :: "Config \<Rightarrow> string \<Rightarrow> string \<Rightarrow> bool" where
  "Name_eq cfg m_name name \<longleftrightarrow> CaselessCmp_equal (getCanonicalName cfg name) m_name"

definition Cell_remove_name :: "Config \<Rightarrow> string \<Rightarrow> Cell \<Rightarrow> Cell" where
  "Cell_remove_name cfg nm c =
     c\<lparr>cell_neighbors := filter (\<lambda>(_, d). \<not> Name_eq cfg nm (ce_name d)) (cell_neighbors c)\<rparr>"

definition Cell_rename :: "Config \<Rightarrow> string \<Rightarrow> string \<Rightarrow> Cell \<Rightarrow> Cell" where
  "Cell_rename cfg oldName newName c =
     c\<lparr>cell_neighbors := map (\<lambda>(k, d). (k, if Name_eq cfg oldName (ce_name d) then d\<lparr>ce_name := newName\<rparr> else d))
         (cell_neighbors c)\<rparr>"

definition isalnum :: "char \<Rightarrow> bool" where
  "isalnum c \<longleftrightarrow>
     (let n = of_char c :: nat in 48 \<le> n \<and> n \<le> 57 \<or> 65 \<le> n \<and> n \<le> 90 \<or> 97 \<le> n \<and> n \<le> 122)"

text \<open>\<^verbatim>\<open>isValidScreenName\<close>: the loop over the dot separated parts, from position \<open>b\<close>.\<close>

function isValidScreenName_loop :: "string \<Rightarrow> nat \<Rightarrow> bool" where
  "isValidScreenName_loop name b =
     (if b \<ge> length name then True
      else
        let e = (case str_find name ''.'' b of None \<Rightarrow> length name | Some p \<Rightarrow> p) in
        if e - b < 1 then False
        else if \<not> (isalnum (name ! b) \<or> name ! b = CHR ''_'') \<or>
                \<not> (isalnum (name ! (e - 1)) \<or> name ! (e - 1) = CHR ''_'') then False
        else if list_ex (\<lambda>i. \<not> isalnum (name ! i) \<and> name ! i \<noteq> CHR ''_'' \<and> name ! i \<noteq> CHR ''-'') [b..<e] then False
        else if e = length name then True
        else isValidScreenName_loop name (e + 1))"
  by pat_completeness auto
termination
  by (relation "measure (\<lambda>(name, b). length name - b)") (auto simp: Let_def)

declare isValidScreenName_loop.simps [simp del]

definition isValidScreenName :: "string \<Rightarrow> bool" where
  "isValidScreenName name \<longleftrightarrow> name \<noteq> [] \<and> isValidScreenName_loop name 0"

section \<open>Operations on the configuration\<close>

definition addScreen :: "Config \<Rightarrow> string \<Rightarrow> bool \<times> Config" where
  "addScreen cfg name =
     (if smap_find CaselessCmp_less name (cfg_names cfg) \<noteq> None then (False, cfg)
      else (True, cfg\<lparr>cfg_map := smap_insert CaselessCmp_less name Cell_new (cfg_map cfg),
                      cfg_names := smap_insert CaselessCmp_less name name (cfg_names cfg)\<rparr>))"

definition renameScreen :: "Config \<Rightarrow> string \<Rightarrow> string \<Rightarrow> bool \<times> Config" where
  "renameScreen cfg oldName newName =
     (let oldCanonical = getCanonicalName cfg oldName in
      case smap_find CaselessCmp_less oldCanonical (cfg_map cfg) of
        None \<Rightarrow> (False, cfg)
      | Some (_, tmpCell) \<Rightarrow>
          if \<not> CaselessCmp_equal oldName newName \<and> smap_find CaselessCmp_less newName (cfg_names cfg) \<noteq> None
          then (False, cfg)
          else
            let cfg1 = cfg\<lparr>cfg_map := smap_insert CaselessCmp_less newName tmpCell
                             (smap_erase CaselessCmp_less oldCanonical (cfg_map cfg)),
                           cfg_names := smap_insert CaselessCmp_less newName newName
                             (smap_erase CaselessCmp_less oldCanonical (cfg_names cfg))\<rparr>;
                oldNameObj = getCanonicalName cfg1 oldName;
                cfg2 = cfg1\<lparr>cfg_map := map (\<lambda>(n, c). (n, Cell_rename cfg1 oldNameObj newName c)) (cfg_map cfg1)\<rparr>
            in (True,
                if CaselessCmp_equal oldName oldCanonical
                then cfg2\<lparr>cfg_names := map (\<lambda>(a, t). (a, if CaselessCmp_equal t oldCanonical then newName else t))
                            (cfg_names cfg2)\<rparr>
                else cfg2))"

text \<open>
  \<^verbatim>\<open>removeScreen\<close>.  The loop over the names advances the wrong iterator when an entry is to be kept,
  an iterator that is at the end: from there on the behaviour is undefined.
\<close>

fun removeScreen_names :: "string \<Rightarrow> (string, string) smap \<Rightarrow> (string, string) smap option" where
  "removeScreen_names canonical [] = Some []"
| "removeScreen_names canonical ((a, t) # m) =
     (if t = canonical then removeScreen_names canonical m else None)"

definition removeScreen :: "Config \<Rightarrow> string \<Rightarrow> Config option" where
  "removeScreen cfg name =
     (let canonical = getCanonicalName cfg name in
      case smap_find CaselessCmp_less canonical (cfg_map cfg) of
        None \<Rightarrow> Some cfg
      | Some _ \<Rightarrow>
          let cfg1 = cfg\<lparr>cfg_map := smap_erase CaselessCmp_less canonical (cfg_map cfg)\<rparr>;
              nameObj = getCanonicalName cfg1 name;
              cfg2 = cfg1\<lparr>cfg_map := map (\<lambda>(n, c). (n, Cell_remove_name cfg1 nameObj c)) (cfg_map cfg1)\<rparr>
          in (case removeScreen_names canonical (cfg_names cfg2) of
                None \<Rightarrow> None
              | Some ns \<Rightarrow> Some (cfg2\<lparr>cfg_names := ns\<rparr>)))"

definition removeAllScreens :: "Config \<Rightarrow> Config" where
  "removeAllScreens cfg = cfg\<lparr>cfg_map := [], cfg_names := []\<rparr>"

definition addAlias :: "Config \<Rightarrow> string \<Rightarrow> string \<Rightarrow> bool \<times> Config" where
  "addAlias cfg canonical alias =
     (if smap_find CaselessCmp_less alias (cfg_names cfg) \<noteq> None then (False, cfg)
      else if smap_find CaselessCmp_less canonical (cfg_map cfg) = None then (False, cfg)
      else (True, cfg\<lparr>cfg_names := smap_insert CaselessCmp_less alias canonical (cfg_names cfg)\<rparr>))"

definition removeAlias :: "Config \<Rightarrow> string \<Rightarrow> bool \<times> Config" where
  "removeAlias cfg alias =
     (if smap_find CaselessCmp_less alias (cfg_map cfg) \<noteq> None then (False, cfg)
      else if smap_find CaselessCmp_less alias (cfg_names cfg) = None then (False, cfg)
      else (True, cfg\<lparr>cfg_names := smap_erase CaselessCmp_less alias (cfg_names cfg)\<rparr>))"

definition removeAliases :: "Config \<Rightarrow> string \<Rightarrow> bool \<times> Config" where
  "removeAliases cfg canonical =
     (if smap_find CaselessCmp_less canonical (cfg_map cfg) = None then (False, cfg)
      else (True, cfg\<lparr>cfg_names := filter (\<lambda>(a, t). \<not> (t = canonical \<and> a \<noteq> canonical)) (cfg_names cfg)\<rparr>))"

definition removeAllAliases :: "Config \<Rightarrow> Config" where
  "removeAllAliases cfg =
     cfg\<lparr>cfg_names := foldl (\<lambda>ns (n, _). smap_insert CaselessCmp_less n n ns) [] (cfg_map cfg)\<rparr>"

definition connect ::
    "Config \<Rightarrow> string \<Rightarrow> EDirection \<Rightarrow> rat \<Rightarrow> rat \<Rightarrow> string \<Rightarrow> rat \<Rightarrow> rat \<Rightarrow> (bool \<times> Config) option" where
  "connect cfg srcName srcSide srcStart srcEnd dstName dstStart dstEnd =
     (if srcSide = kNoDirection then None
      else case smap_find CaselessCmp_less (getCanonicalName cfg srcName) (cfg_map cfg) of
        None \<Rightarrow> Some (False, cfg)
      | Some (_, cell) \<Rightarrow>
          (case (CellEdge_make [] srcSide srcStart srcEnd, CellEdge_make dstName srcSide dstStart dstEnd) of
             (Some srcEdge, Some dstEdge) \<Rightarrow>
               (case Cell_add cell srcEdge dstEdge of
                  (ok, cell') \<Rightarrow>
                    Some (ok, cfg\<lparr>cfg_map := smap_update CaselessCmp_less (getCanonicalName cfg srcName)
                                    (\<lambda>_. cell') (cfg_map cfg)\<rparr>))
           | _ \<Rightarrow> None))"

definition disconnect :: "Config \<Rightarrow> string \<Rightarrow> EDirection \<Rightarrow> (bool \<times> Config) option" where
  "disconnect cfg srcName srcSide =
     (if srcSide = kNoDirection then None
      else if smap_find CaselessCmp_less srcName (cfg_map cfg) = None then Some (False, cfg)
      else Some (True, cfg\<lparr>cfg_map := smap_update CaselessCmp_less srcName (\<lambda>c. Cell_remove_side c srcSide) (cfg_map cfg)\<rparr>))"

definition disconnect_at :: "Config \<Rightarrow> string \<Rightarrow> EDirection \<Rightarrow> rat \<Rightarrow> (bool \<times> Config) option" where
  "disconnect_at cfg srcName srcSide position =
     (if srcSide = kNoDirection then None
      else if smap_find CaselessCmp_less srcName (cfg_map cfg) = None then Some (False, cfg)
      else Some (True, cfg\<lparr>cfg_map := smap_update CaselessCmp_less srcName
                             (\<lambda>c. Cell_remove_at c srcSide position) (cfg_map cfg)\<rparr>))"

text \<open>The options of a screen, or the global ones for the empty name; the update is a function on them.\<close>

definition update_options ::
    "Config \<Rightarrow> string \<Rightarrow> ((OptionID, OptionValue) smap \<Rightarrow> (OptionID, OptionValue) smap) \<Rightarrow> bool \<times> Config" where
  "update_options cfg name f =
     (if name = [] then (True, cfg\<lparr>cfg_globalOptions := f (cfg_globalOptions cfg)\<rparr>)
      else if smap_find CaselessCmp_less name (cfg_map cfg) = None then (False, cfg)
      else (True, cfg\<lparr>cfg_map := smap_update CaselessCmp_less name
                        (\<lambda>c. c\<lparr>cell_options := f (cell_options c)\<rparr>) (cfg_map cfg)\<rparr>))"

definition addOption :: "Config \<Rightarrow> string \<Rightarrow> OptionID \<Rightarrow> OptionValue \<Rightarrow> bool \<times> Config" where
  "addOption cfg name opt value = update_options cfg name (smap_insert (<) opt value)"

definition removeOption :: "Config \<Rightarrow> string \<Rightarrow> OptionID \<Rightarrow> bool \<times> Config" where
  "removeOption cfg name opt = update_options cfg name (smap_erase (<) opt)"

definition removeOptions :: "Config \<Rightarrow> string \<Rightarrow> bool \<times> Config" where
  "removeOptions cfg name = update_options cfg name (\<lambda>_. [])"

definition getOptions :: "Config \<Rightarrow> string \<Rightarrow> (OptionID, OptionValue) smap option" where
  "getOptions cfg name =
     (if name = [] then Some (cfg_globalOptions cfg)
      else map_option (\<lambda>(_, c). cell_options c) (smap_find CaselessCmp_less name (cfg_map cfg)))"

text \<open>\<^verbatim>\<open>getNeighbor\<close>: the neighbor's name (empty for none) and the position on it.\<close>

definition getNeighbor ::
    "Config \<Rightarrow> string \<Rightarrow> EDirection \<Rightarrow> rat \<Rightarrow> (string \<times> rat option) option" where
  "getNeighbor cfg srcName srcSide position =
     (if srcSide = kNoDirection then None
      else case smap_find CaselessCmp_less (getCanonicalName cfg srcName) (cfg_map cfg) of
        None \<Rightarrow> Some ([], None)
      | Some (_, cell) \<Rightarrow>
          (case Cell_getLink cell srcSide position of
             None \<Rightarrow> None
           | Some None \<Rightarrow> Some ([], None)
           | Some (Some (srcEdge, dstEdge)) \<Rightarrow>
               Some (getCanonicalName cfg (ce_name dstEdge),
                     Some (CellEdge_inverseTransform dstEdge (CellEdge_transform srcEdge position)))))"

definition hasNeighbor_in :: "Config \<Rightarrow> string \<Rightarrow> EDirection \<Rightarrow> rat \<Rightarrow> rat \<Rightarrow> bool option" where
  "hasNeighbor_in cfg srcName srcSide a b =
     (if srcSide = kNoDirection then None
      else case smap_find CaselessCmp_less (getCanonicalName cfg srcName) (cfg_map cfg) of
        None \<Rightarrow> Some False
      | Some (_, cell) \<Rightarrow>
          (case CellEdge_make [] srcSide a b of
             None \<Rightarrow> None
           | Some e \<Rightarrow> Some (Cell_overlaps cell e)))"

definition hasNeighbor :: "Config \<Rightarrow> string \<Rightarrow> EDirection \<Rightarrow> bool option" where
  "hasNeighbor cfg srcName srcSide = hasNeighbor_in cfg srcName srcSide 0 1"

definition getDropTarget :: "Config \<Rightarrow> string \<Rightarrow> string" where
  "getDropTarget cfg screenName =
     (let general = cfg_dropTarget cfg; targets = cfg_screenDropTargets cfg;
          via_canonical =
            (let canonical = getCanonicalName cfg screenName in
             if canonical \<noteq> [] \<and> canonical \<noteq> screenName then
               (case smap_find CaselessCmp_less canonical targets of
                  Some (_, t) \<Rightarrow> if t \<noteq> [] then t else general
                | None \<Rightarrow> general)
             else general)
      in if screenName = [] then general
         else case smap_find CaselessCmp_less screenName targets of
           Some (_, t) \<Rightarrow> if t \<noteq> [] then t else via_canonical
         | None \<Rightarrow> via_canonical)"

section \<open>The comparison objects are strict weak orders\<close>

interpretation names: ordered_map CaselessCmp_less
proof
  show "\<not> CaselessCmp_less a a" for a by (rule CaselessCmp_irrefl)
  show "CaselessCmp_less a c" if "CaselessCmp_less a b" "CaselessCmp_less b c" for a b c
    using that by (rule CaselessCmp_trans)
  show "\<not> CaselessCmp_less a c" if n: "\<not> CaselessCmp_less a b" "\<not> CaselessCmp_less b c" for a b c
  proof
    assume ac: "CaselessCmp_less a c"
    have lin: "CaselessCmp_less x y \<or> caseless_key x = caseless_key y \<or> CaselessCmp_less y x" for x y
      unfolding CaselessCmp_less_key
      using lexord_linear [of "{(x :: int, y). x < y}" "caseless_key x" "caseless_key y"] less_linear by auto
    then have "CaselessCmp_less c b \<or> caseless_key b = caseless_key c"
      "CaselessCmp_less b a \<or> caseless_key a = caseless_key b" using n by metis+
    with ac n show False
      using CaselessCmp_irrefl CaselessCmp_trans unfolding CaselessCmp_less_key by metis
  qed
qed

interpretation edges: ordered_map CellEdge_less
  by unfold_locales (auto simp: CellEdge_less_def split: if_splits)

interpretation opts: ordered_map "(<) :: OptionID \<Rightarrow> OptionID \<Rightarrow> bool"
  by unfold_locales auto

lemma names_eqv: "names.eqv a b \<longleftrightarrow> CaselessCmp_equal a b"
  by (auto simp: names.eqv_def CaselessCmp_equal_def)

lemma edges_eqv: "edges.eqv a b \<longleftrightarrow> ce_side a = ce_side b \<and> ce_first a = ce_first b"
  by (auto simp: edges.eqv_def CellEdge_less_def split: if_splits)

section \<open>Links of a screen never overlap\<close>

definition edge_valid :: "CellEdge \<Rightarrow> bool" where
  "edge_valid e \<longleftrightarrow> 0 \<le> ce_first e \<and> ce_first e < ce_second e \<and> ce_second e \<le> 1 \<and> ce_side e \<noteq> kNoDirection"

definition cell_wf :: "Cell \<Rightarrow> bool" where
  "cell_wf c \<longleftrightarrow> edges.ascending (cell_neighbors c) \<and>
     (\<forall>(s, d) \<in> set (cell_neighbors c). edge_valid s \<and> edge_valid d) \<and>
     (\<forall>x \<in> set (cell_neighbors c). \<forall>y \<in> set (cell_neighbors c).
        edges.eqv (fst x) (fst y) \<or> \<not> CellEdge_overlaps (fst x) (fst y))"

lemma CellEdge_make_valid: "CellEdge_make n s a b = Some e \<Longrightarrow> edge_valid e"
  by (auto simp: CellEdge_make_def edge_valid_def split: if_splits)

lemma overlaps_iff:
  "edge_valid x \<Longrightarrow> edge_valid y \<Longrightarrow> CellEdge_overlaps x y \<longleftrightarrow>
    ce_side x = ce_side y \<and> ce_first x < ce_second y \<and> ce_first y < ce_second x"
  by (auto simp: CellEdge_overlaps_def edge_valid_def)

lemma cell_wfD:
  assumes "cell_wf c"
  shows "edges.ascending (cell_neighbors c)" "x \<in> set (cell_neighbors c) \<Longrightarrow> edge_valid (fst x)"
    "x \<in> set (cell_neighbors c) \<Longrightarrow> edge_valid (snd x)"
    "x \<in> set (cell_neighbors c) \<Longrightarrow> y \<in> set (cell_neighbors c) \<Longrightarrow> CellEdge_less (fst x) (fst y) \<Longrightarrow>
      ce_side (fst x) = ce_side (fst y) \<Longrightarrow> ce_second (fst x) \<le> ce_first (fst y)"
proof -
  show "edges.ascending (cell_neighbors c)" "x \<in> set (cell_neighbors c) \<Longrightarrow> edge_valid (fst x)"
    "x \<in> set (cell_neighbors c) \<Longrightarrow> edge_valid (snd x)"
    using assms by (auto simp: cell_wf_def)
  assume xy: "x \<in> set (cell_neighbors c)" "y \<in> set (cell_neighbors c)" and lt: "CellEdge_less (fst x) (fst y)"
    and side: "ce_side (fst x) = ce_side (fst y)"
  have v: "edge_valid (fst x)" "edge_valid (fst y)" using assms xy by (auto simp: cell_wf_def)
  have "\<not> edges.eqv (fst x) (fst y)" using lt by (simp add: edges.eqv_def)
  then have "\<not> CellEdge_overlaps (fst x) (fst y)" using assms xy by (auto simp: cell_wf_def)
  then show "ce_second (fst x) \<le> ce_first (fst y)"
    using side lt v by (auto simp: overlaps_iff CellEdge_less_def edge_valid_def split: if_splits)
qed

text \<open>
  Looking only at the two neighbors of the upper bound is enough to find an overlap, because the
  links of one side do not overlap each other.
\<close>

lemma Cell_overlaps_iff:
  assumes wf: "cell_wf c" and e: "edge_valid e"
  shows "Cell_overlaps c e \<longleftrightarrow> (\<exists>x \<in> set (cell_neighbors c). CellEdge_overlaps (fst x) e)"
proof
  let ?i = "smap_upper CellEdge_less e (cell_neighbors c)"
  let ?b = "smap_before CellEdge_less e (cell_neighbors c)"
  note asc = cell_wfD(1) [OF wf] and valid = cell_wfD(2) [OF wf]
  note up = edges.upper_iff [OF asc, of _ e] and be = edges.before_iff [OF asc, of _ e]
  show "\<exists>x \<in> set (cell_neighbors c). CellEdge_overlaps (fst x) e" if "Cell_overlaps c e"
  proof -
    from that consider "?i \<noteq> []" "CellEdge_overlaps (fst (hd ?i)) e" | "?b \<noteq> []" "CellEdge_overlaps (fst (last ?b)) e"
      by (auto simp: Cell_overlaps_def Let_def split: if_splits)
    then show ?thesis using up be by cases (meson hd_in_set last_in_set)+
  qed
  assume "\<exists>x \<in> set (cell_neighbors c). CellEdge_overlaps (fst x) e"
  then obtain x where x: "x \<in> set (cell_neighbors c)" "CellEdge_overlaps (fst x) e" by blast
  then have ov: "ce_side (fst x) = ce_side e" "ce_first (fst x) < ce_second e" "ce_first e < ce_second (fst x)"
    using valid e by (simp_all add: overlaps_iff)
  show "Cell_overlaps c e"
  proof (cases "CellEdge_less e (fst x)")
    case True
    then have xi: "x \<in> set ?i" using up x by blast
    then have ne: "?i \<noteq> []" by auto
    then have hd: "hd ?i \<in> set (cell_neighbors c)" "CellEdge_less e (fst (hd ?i))"
      using up [of "hd ?i"] hd_in_set [of ?i] by blast+
    have "CellEdge_overlaps (fst (hd ?i)) e"
    proof (cases "x = hd ?i")
      case False
      then have lt: "CellEdge_less (fst (hd ?i)) (fst x)"
        using edges.hd_least [OF _ xi] edges.ascending_parts [OF asc, of e] by blast
      then show ?thesis
        using hd ov valid [OF hd(1)] e
        by (auto simp: overlaps_iff CellEdge_less_def edge_valid_def split: if_splits)
    qed (use x in simp)
    with ne show ?thesis by (simp add: Cell_overlaps_def)
  next
    case False
    then have xb: "x \<in> set ?b" using be x by blast
    then have ne: "?b \<noteq> []" by auto
    then have la: "last ?b \<in> set (cell_neighbors c)" "\<not> CellEdge_less e (fst (last ?b))"
      using be [of "last ?b"] last_in_set [of ?b] by blast+
    have "x = last ?b"
    proof (rule ccontr)
      assume "x \<noteq> last ?b"
      then have lt: "CellEdge_less (fst x) (fst (last ?b))"
        using edges.last_greatest [OF _ xb] edges.ascending_parts [OF asc, of e] by blast
      with la(2) ov(1) have "ce_side (fst x) = ce_side (fst (last ?b))" "ce_first (fst (last ?b)) \<le> ce_first e"
        by (auto simp: CellEdge_less_def split: if_splits)
      with cell_wfD(4) [OF wf x(1) la(1) lt] ov(3) show False by simp
    qed
    with x ne show ?thesis by (simp add: Cell_overlaps_def Let_def)
  qed
qed

lemma Cell_getLink_iff:
  assumes wf: "cell_wf c" and side: "side \<noteq> kNoDirection"
  shows "Cell_getLink c side pos = Some (Some (s, d)) \<longleftrightarrow>
    (s, d) \<in> set (cell_neighbors c) \<and> ce_side s = side \<and> CellEdge_isInside s pos"
    and "\<exists>r. Cell_getLink c side pos = Some r"
proof -
  let ?e = "\<lparr>ce_name = [], ce_side = side, ce_first = pos, ce_second = pos\<rparr>"
  let ?b = "smap_before CellEdge_less ?e (cell_neighbors c)"
  note asc = cell_wfD(1) [OF wf]
  note be = edges.before_iff [OF asc, of _ ?e]
  have link: "Cell_getLink c side pos = Some (if ?b \<noteq> [] \<and> ce_side (fst (last ?b)) = side \<and>
      CellEdge_isInside (fst (last ?b)) pos then Some (last ?b) else None)"
    using side by (auto simp: Cell_getLink_def CellEdge_at_def Let_def split: prod.splits)
  then show "\<exists>r. Cell_getLink c side pos = Some r" by blast
  show "Cell_getLink c side pos = Some (Some (s, d)) \<longleftrightarrow>
    (s, d) \<in> set (cell_neighbors c) \<and> ce_side s = side \<and> CellEdge_isInside s pos"
  proof
    assume "Cell_getLink c side pos = Some (Some (s, d))"
    then have "?b \<noteq> []" "last ?b = (s, d)" "ce_side s = side" "CellEdge_isInside s pos"
      using link by (auto split: if_splits)
    then show "(s, d) \<in> set (cell_neighbors c) \<and> ce_side s = side \<and> CellEdge_isInside s pos"
      using be [of "(s, d)"] last_in_set [of ?b] by simp
  next
    assume sd: "(s, d) \<in> set (cell_neighbors c) \<and> ce_side s = side \<and> CellEdge_isInside s pos"
    then have xb: "(s, d) \<in> set ?b"
      using be by (simp add: CellEdge_less_def CellEdge_isInside_def)
    then have ne: "?b \<noteq> []" by auto
    then have la: "last ?b \<in> set (cell_neighbors c)" "\<not> CellEdge_less ?e (fst (last ?b))"
      using be [of "last ?b"] last_in_set [of ?b] by blast+
    have "(s, d) = last ?b"
    proof (rule ccontr)
      assume "(s, d) \<noteq> last ?b"
      then have lt: "CellEdge_less s (fst (last ?b))"
        using edges.last_greatest [OF _ xb] edges.ascending_parts [OF asc, of ?e] by auto
      with la(2) sd have "ce_side s = ce_side (fst (last ?b))" "ce_first (fst (last ?b)) \<le> pos"
        by (auto simp: CellEdge_less_def split: if_splits)
      with cell_wfD(4) [OF wf, of "(s, d)" "last ?b"] la(1) lt sd show False
        by (simp add: CellEdge_isInside_def)
    qed
    then have "last ?b = (s, d)" by simp
    with link ne sd show "Cell_getLink c side pos = Some (Some (s, d))" by simp
  qed
qed

text \<open>Adding a link that is accepted replaces the link of the same interval or adds a disjoint one.\<close>

lemma Cell_add_accepted:
  assumes wf: "cell_wf c" and v: "edge_valid src" "edge_valid dst" and add: "Cell_add c src dst = (True, c')"
  shows "cell_wf c'" "set (cell_neighbors c') = insert (src, dst) {x \<in> set (cell_neighbors c). \<not> edges.eqv (fst x) src}"
    "x \<in> set (cell_neighbors c) \<Longrightarrow> edges.eqv (fst x) src \<Longrightarrow> CellEdge_eq (fst x) src"
    "x \<in> set (cell_neighbors c) \<Longrightarrow> \<not> edges.eqv (fst x) src \<Longrightarrow> \<not> CellEdge_overlaps (fst x) src"
proof -
  let ?m = "cell_neighbors c"
  note asc = cell_wfD(1) [OF wf]
  have asc': "edges.ascending (smap_erase CellEdge_less src ?m)" by (rule edges.ascending_erase [OF asc])
  have m': "cell_neighbors c' = smap_insert CellEdge_less src dst (smap_erase CellEdge_less src ?m)"
    and cond: "Cell_hasEdge c src \<or> \<not> Cell_overlaps c src"
    using add by (auto simp: Cell_add_def split: if_splits)
  show set': "set (cell_neighbors c') = insert (src, dst) {x \<in> set ?m. \<not> edges.eqv (fst x) src}"
    unfolding m' edges.set_insert [OF asc'] by (simp add: edges.set_erase [OF asc])
  have self: "CellEdge_overlaps x src" if "edges.eqv x src" "edge_valid x" for x
    using that v by (auto simp: overlaps_iff edges_eqv edge_valid_def)
  have old: "CellEdge_eq (fst x) src \<or> \<not> CellEdge_overlaps (fst x) src" if x: "x \<in> set ?m" for x
  proof (cases "Cell_overlaps c src")
    case True
    with cond obtain k d where k: "smap_find CellEdge_less src ?m = Some (k, d)" "CellEdge_eq k src"
      by (auto simp: Cell_hasEdge_def split: option.splits)
    then have kd: "(k, d) \<in> set ?m" "edges.eqv k src" using edges.find_Some_iff [OF asc] by auto
    have "edges.eqv (fst x) k \<or> \<not> CellEdge_overlaps (fst x) k" using wf x kd(1) by (force simp: cell_wf_def)
    moreover have "x = (k, d)" if "edges.eqv (fst x) k"
      using k(1) edges.find_Some_iff [OF asc, of src "fst x" "snd x"] that x kd(2) edges.eqv_trans by auto
    moreover have "CellEdge_overlaps (fst x) k = CellEdge_overlaps (fst x) src"
      using k(2) by (simp add: CellEdge_overlaps_def CellEdge_eq_def)
    ultimately show ?thesis using k(2) by auto
  next
    case False
    with Cell_overlaps_iff [OF wf v(1)] x show ?thesis by blast
  qed
  show "CellEdge_eq (fst x) src" if "x \<in> set ?m" "edges.eqv (fst x) src"
    using old [OF that(1)] self [OF that(2)] cell_wfD(2) [OF wf that(1)] by blast
  show ov: "\<not> CellEdge_overlaps (fst x) src" if "x \<in> set ?m" "\<not> edges.eqv (fst x) src" for x
    using old [OF that(1)] that(2) by (auto simp: CellEdge_eq_def edges_eqv)
  have sym: "CellEdge_overlaps a b = CellEdge_overlaps b a" for a b by (auto simp: CellEdge_overlaps_def)
  have "edges.ascending (cell_neighbors c')" unfolding m' by (rule edges.ascending_insert [OF asc'])
  moreover have "\<forall>(s, d) \<in> set (cell_neighbors c'). edge_valid s \<and> edge_valid d"
    unfolding set' using wf v by (auto simp: cell_wf_def)
  moreover have "edges.eqv (fst x) (fst y) \<or> \<not> CellEdge_overlaps (fst x) (fst y)"
    if "x \<in> set (cell_neighbors c')" "y \<in> set (cell_neighbors c')" for x y
  proof -
    have "x = (src, dst) \<or> x \<in> set ?m \<and> \<not> edges.eqv (fst x) src" "y = (src, dst) \<or> y \<in> set ?m \<and> \<not> edges.eqv (fst y) src"
      using that unfolding set' by auto
    moreover have "edges.eqv (fst x) (fst y) \<or> \<not> CellEdge_overlaps (fst x) (fst y)" if "x \<in> set ?m" "y \<in> set ?m"
      using that wf by (auto simp: cell_wf_def)
    ultimately show ?thesis using ov sym by (metis edges.eqv_refl fst_conv)
  qed
  ultimately show "cell_wf c'" by (simp add: cell_wf_def)
qed

lemma cell_wf_subset:
  "cell_wf c \<Longrightarrow> edges.ascending m \<Longrightarrow> set m \<subseteq> set (cell_neighbors c) \<Longrightarrow> cell_wf (c\<lparr>cell_neighbors := m\<rparr>)"
  by (auto simp: cell_wf_def)

lemma remove_first_subset: "set (remove_first P xs) \<subseteq> set xs"
  by (induction xs) auto

lemma ascending_remove_first: "edges.ascending xs \<Longrightarrow> edges.ascending (remove_first P xs)"
  using remove_first_subset by (induction xs) fastforce+

lemma cell_wf_ops:
  assumes "cell_wf c"
  shows "cell_wf (Cell_remove_side c side)" "cell_wf (Cell_remove_at c side pos)"
    "cell_wf (Cell_remove_name cfg nm c)" "cell_wf (c\<lparr>cell_options := os\<rparr>)"
proof -
  note asc = cell_wfD(1) [OF assms]
  show "cell_wf (Cell_remove_side c side)" "cell_wf (Cell_remove_name cfg nm c)"
    unfolding Cell_remove_side_def Cell_remove_name_def
    by (rule cell_wf_subset [OF assms edges.ascending_filter [OF asc]], auto)+
  show "cell_wf (Cell_remove_at c side pos)"
    unfolding Cell_remove_at_def
    by (rule cell_wf_subset [OF assms ascending_remove_first [OF asc] remove_first_subset])
  show "cell_wf (c\<lparr>cell_options := os\<rparr>)" using assms by (simp add: cell_wf_def)
qed

lemma cell_wf_rename: "cell_wf c \<Longrightarrow> cell_wf (Cell_rename cfg a b c)"
proof -
  assume wf: "cell_wf c"
  let ?f = "\<lambda>(k, d). (k, if Name_eq cfg a (ce_name d) then d\<lparr>ce_name := b\<rparr> else d)"
  have "map fst (map ?f (cell_neighbors c)) = map fst (cell_neighbors c)" by auto
  then have "edges.ascending (map ?f (cell_neighbors c))"
    using edges.ascending_keys cell_wfD(1) [OF wf] by blast
  moreover have "edge_valid (snd (?f x)) = edge_valid (snd x)" "fst (?f x) = fst x" for x
    by (auto simp: edge_valid_def split: prod.splits)
  ultimately show ?thesis
    using wf unfolding cell_wf_def Cell_rename_def by (fastforce simp: edge_valid_def split: prod.splits)
qed

lemma cell_wf_new: "cell_wf Cell_new"
  by (simp add: cell_wf_def Cell_new_def)

section \<open>Well-formed configurations\<close>

text \<open>
  Both name maps are ordered, the links of every screen are well formed, every screen is listed
  under its own name, and every name stands for a screen.
\<close>

definition config_wf :: "Config \<Rightarrow> bool" where
  "config_wf cfg \<longleftrightarrow>
     names.ascending (cfg_map cfg) \<and> names.ascending (cfg_names cfg) \<and>
     (\<forall>(n, c) \<in> set (cfg_map cfg). cell_wf c \<and> (n, n) \<in> set (cfg_names cfg)) \<and>
     (\<forall>(a, t) \<in> set (cfg_names cfg). \<exists>(n, c) \<in> set (cfg_map cfg). CaselessCmp_equal n t)"

lemma config_wfD:
  assumes "config_wf cfg"
  shows "names.ascending (cfg_map cfg)" "names.ascending (cfg_names cfg)"
    "(n, c) \<in> set (cfg_map cfg) \<Longrightarrow> cell_wf c" "(n, c) \<in> set (cfg_map cfg) \<Longrightarrow> (n, n) \<in> set (cfg_names cfg)"
    "(a, t) \<in> set (cfg_names cfg) \<Longrightarrow> \<exists>n c. (n, c) \<in> set (cfg_map cfg) \<and> names.eqv n t"
  using assms by (simp_all add: config_wf_def names_eqv) (fastforce+)

lemma config_wfI:
  assumes "names.ascending (cfg_map cfg)" "names.ascending (cfg_names cfg)"
    and "\<And>n c. (n, c) \<in> set (cfg_map cfg) \<Longrightarrow> cell_wf c \<and> (n, n) \<in> set (cfg_names cfg)"
    and "\<And>a t. (a, t) \<in> set (cfg_names cfg) \<Longrightarrow> \<exists>n c. (n, c) \<in> set (cfg_map cfg) \<and> names.eqv n t"
  shows "config_wf cfg"
  using assms by (fastforce simp: config_wf_def names_eqv)

lemma names_find_None:
  "config_wf cfg \<Longrightarrow> smap_find CaselessCmp_less n (cfg_names cfg) = None \<Longrightarrow> (k, c) \<in> set (cfg_map cfg) \<Longrightarrow>
    \<not> names.eqv k n"
  using config_wfD(4) [of cfg k c] names.find_None_iff [OF config_wfD(2)] by force

lemma config_wf_new: "config_wf Config_new"
  by (simp add: config_wf_def Config_new_def)

lemma config_wf_addScreen:
  assumes wf: "config_wf cfg"
  shows "config_wf (snd (addScreen cfg name))"
proof (cases "smap_find CaselessCmp_less name (cfg_names cfg) = None")
  case True
  let ?m = "smap_insert CaselessCmp_less name Cell_new (cfg_map cfg)"
  let ?n = "smap_insert CaselessCmp_less name name (cfg_names cfg)"
  have m: "set ?m = insert (name, Cell_new) (set (cfg_map cfg))"
    using names_find_None [OF wf True] by (auto simp: names.set_insert [OF config_wfD(1) [OF wf]])
  have n: "set ?n = insert (name, name) (set (cfg_names cfg))"
    using True by (auto simp: names.set_insert [OF config_wfD(2) [OF wf]] names.find_None_iff [OF config_wfD(2) [OF wf]])
  have "config_wf (cfg\<lparr>cfg_map := ?m, cfg_names := ?n\<rparr>)"
  proof (rule config_wfI)
    fix a t
    assume "(a, t) \<in> set (cfg_names (cfg\<lparr>cfg_map := ?m, cfg_names := ?n\<rparr>))"
    then have "(a, t) = (name, name) \<or> (a, t) \<in> set (cfg_names cfg)" by (simp add: n)
    then show "\<exists>n c. (n, c) \<in> set (cfg_map (cfg\<lparr>cfg_map := ?m, cfg_names := ?n\<rparr>)) \<and> names.eqv n t"
    proof
      assume "(a, t) = (name, name)"
      then show ?thesis by (auto simp: m)
    next
      assume "(a, t) \<in> set (cfg_names cfg)"
      from config_wfD(5) [OF wf this] show ?thesis by (auto simp: m)
    qed
  next
    fix k c
    assume "(k, c) \<in> set (cfg_map (cfg\<lparr>cfg_map := ?m, cfg_names := ?n\<rparr>))"
    then show "cell_wf c \<and> (k, k) \<in> set (cfg_names (cfg\<lparr>cfg_map := ?m, cfg_names := ?n\<rparr>))"
      using config_wfD(3,4) [OF wf] cell_wf_new by (auto simp: m n)
  qed (use config_wfD [OF wf] names.ascending_insert in auto)
  with True show ?thesis by (simp add: addScreen_def)
qed (simp add: addScreen_def wf)

text \<open>Changing the cells without touching the names keeps a configuration well formed.\<close>

lemma config_wf_cells:
  assumes wf: "config_wf cfg" and keys: "map fst m = map fst (cfg_map cfg)"
    and cells: "\<And>n c. (n, c) \<in> set m \<Longrightarrow> cell_wf c"
  shows "config_wf (cfg\<lparr>cfg_map := m\<rparr>)"
proof (rule config_wfI)
  have fst: "fst ` set m = fst ` set (cfg_map cfg)" using keys by (metis list.set_map)
  show "names.ascending (cfg_map (cfg\<lparr>cfg_map := m\<rparr>))"
    using names.ascending_keys [OF keys] config_wfD(1) [OF wf] by simp
  show "cell_wf c \<and> (n, n) \<in> set (cfg_names (cfg\<lparr>cfg_map := m\<rparr>))"
    if "(n, c) \<in> set (cfg_map (cfg\<lparr>cfg_map := m\<rparr>))" for n c
  proof -
    have "n \<in> fst ` set (cfg_map cfg)" using that fst by (force simp: image_iff)
    then show ?thesis using that cells config_wfD(4) [OF wf] by auto
  qed
  show "\<exists>n c. (n, c) \<in> set (cfg_map (cfg\<lparr>cfg_map := m\<rparr>)) \<and> names.eqv n t"
    if at: "(a, t) \<in> set (cfg_names (cfg\<lparr>cfg_map := m\<rparr>))" for a t
  proof -
    obtain n c where n: "(n, c) \<in> set (cfg_map cfg)" "names.eqv n t"
      using config_wfD(5) [OF wf, of a t] at by auto
    then have "n \<in> fst ` set m" using fst by (force simp: image_iff)
    with n show ?thesis by auto
  qed
qed (use config_wfD(2) [OF wf] in simp)

lemma config_wf_update:
  assumes wf: "config_wf cfg"
    and f: "\<And>n c. (n, c) \<in> set (cfg_map cfg) \<Longrightarrow> names.eqv n k \<Longrightarrow> cell_wf c \<Longrightarrow> cell_wf (f c)"
  shows "config_wf (cfg\<lparr>cfg_map := smap_update CaselessCmp_less k f (cfg_map cfg)\<rparr>)"
  using f config_wfD(1,3) [OF wf]
  by (intro config_wf_cells [OF wf names.keys_update])
     (force simp: names.set_update split: if_splits)

lemma config_wf_connect:
  assumes wf: "config_wf cfg" and con: "connect cfg s side a b d c' d' = Some (r, cfg')"
  shows "config_wf cfg'"
proof (cases "smap_find CaselessCmp_less (getCanonicalName cfg s) (cfg_map cfg)")
  case None
  with con wf show ?thesis by (auto simp: connect_def split: if_splits)
next
  case (Some x)
  obtain n cell where x: "x = (n, cell)" by force
  with Some con obtain src dst cell' where e: "CellEdge_make [] side a b = Some src"
    "CellEdge_make d side c' d' = Some dst" "Cell_add cell src dst = (r, cell')"
    "cfg' = cfg\<lparr>cfg_map := smap_update CaselessCmp_less (getCanonicalName cfg s) (\<lambda>_. cell') (cfg_map cfg)\<rparr>"
    by (auto simp: connect_def split: if_splits option.splits prod.splits)
  have "(n, cell) \<in> set (cfg_map cfg)"
    using Some x names.find_Some_iff [OF config_wfD(1) [OF wf]] by simp
  then have cw: "cell_wf cell" using config_wfD(3) [OF wf] by blast
  have "cell_wf cell'"
    using Cell_add_accepted(1) [OF cw CellEdge_make_valid [OF e(1)] CellEdge_make_valid [OF e(2)]] e(3) cw
    by (cases r) (auto simp: Cell_add_def split: if_splits)
  then show ?thesis unfolding e(4) by (intro config_wf_update [OF wf])
qed

lemma config_wf_disconnect:
  assumes wf: "config_wf cfg"
  shows "disconnect cfg s side = Some (r, cfg') \<Longrightarrow> config_wf cfg'"
    "disconnect_at cfg s side pos = Some (r, cfg') \<Longrightarrow> config_wf cfg'"
    "config_wf (snd (update_options cfg s f))"
proof -
  show "config_wf cfg'" if "disconnect cfg s side = Some (r, cfg')"
    using that config_wf_update [OF wf, of s "\<lambda>c. Cell_remove_side c side"] cell_wf_ops(1) wf
    by (auto simp: disconnect_def split: if_splits)
  show "config_wf cfg'" if "disconnect_at cfg s side pos = Some (r, cfg')"
    using that config_wf_update [OF wf, of s "\<lambda>c. Cell_remove_at c side pos"] cell_wf_ops(2) wf
    by (auto simp: disconnect_at_def split: if_splits)
  have "config_wf (cfg\<lparr>cfg_globalOptions := f (cfg_globalOptions cfg)\<rparr>)" using wf by (simp add: config_wf_def)
  moreover have "config_wf (cfg\<lparr>cfg_map := smap_update CaselessCmp_less s
      (\<lambda>c. c\<lparr>cell_options := f (cell_options c)\<rparr>) (cfg_map cfg)\<rparr>)"
    by (rule config_wf_update [OF wf]) (rule cell_wf_ops(4))
  ultimately show "config_wf (snd (update_options cfg s f))"
    using wf unfolding update_options_def by (simp split: if_split)
qed

text \<open>Changing the names without losing a canonical one keeps a configuration well formed.\<close>

lemma config_wf_names:
  assumes wf: "config_wf cfg" and asc: "names.ascending ns"
    and canon: "\<And>n c. (n, c) \<in> set (cfg_map cfg) \<Longrightarrow> (n, n) \<in> set ns"
    and target: "\<And>a t. (a, t) \<in> set ns \<Longrightarrow> \<exists>n c. (n, c) \<in> set (cfg_map cfg) \<and> names.eqv n t"
  shows "config_wf (cfg\<lparr>cfg_names := ns\<rparr>)"
  using config_wfD(1,3) [OF wf] asc canon target by (intro config_wfI) auto

lemma config_wf_addAlias:
  assumes wf: "config_wf cfg"
  shows "config_wf (snd (addAlias cfg canonical alias))"
proof (cases "smap_find CaselessCmp_less alias (cfg_names cfg) = None \<and>
    smap_find CaselessCmp_less canonical (cfg_map cfg) \<noteq> None")
  case True
  then obtain n c where n: "(n, c) \<in> set (cfg_map cfg)" "names.eqv n canonical"
    using names.find_Some_iff [OF config_wfD(1) [OF wf]] by auto
  let ?ns = "smap_insert CaselessCmp_less alias canonical (cfg_names cfg)"
  have s: "set ?ns = insert (alias, canonical) (set (cfg_names cfg))"
    using True names.find_None_iff [OF config_wfD(2) [OF wf]] by (simp add: names.set_insert [OF config_wfD(2) [OF wf]])
  have "config_wf (cfg\<lparr>cfg_names := ?ns\<rparr>)"
  proof (rule config_wf_names [OF wf names.ascending_insert [OF config_wfD(2) [OF wf]]])
    show "\<exists>n c. (n, c) \<in> set (cfg_map cfg) \<and> names.eqv n t" if "(a, t) \<in> set ?ns" for a t
      using that n config_wfD(5) [OF wf, of a t] by (auto simp: s)
    show "(n, n) \<in> set ?ns" if "(n, c) \<in> set (cfg_map cfg)" for n c
      using config_wfD(4) [OF wf that] by (simp add: s)
  qed
  with True show ?thesis by (auto simp: addAlias_def)
qed (auto simp: addAlias_def wf)

lemma config_wf_removeAlias:
  assumes wf: "config_wf cfg"
  shows "config_wf (snd (removeAlias cfg alias))" "config_wf (snd (removeAliases cfg alias))"
proof -
  have "config_wf (cfg\<lparr>cfg_names := smap_erase CaselessCmp_less alias (cfg_names cfg)\<rparr>)"
    if "smap_find CaselessCmp_less alias (cfg_map cfg) = None"
    using that config_wfD(4,5) [OF wf] names.find_None_iff [OF config_wfD(1) [OF wf]]
    by (intro config_wf_names [OF wf names.ascending_erase [OF config_wfD(2) [OF wf]]])
       (fastforce simp: names.set_erase [OF config_wfD(2) [OF wf]])+
  then show "config_wf (snd (removeAlias cfg alias))"
    using wf unfolding removeAlias_def by (simp split: if_split del: not_None_eq)
  have "config_wf (cfg\<lparr>cfg_names := filter (\<lambda>(a, t). \<not> (t = alias \<and> a \<noteq> alias)) (cfg_names cfg)\<rparr>)"
    using config_wfD(4,5) [OF wf]
    by (intro config_wf_names [OF wf names.ascending_filter [OF config_wfD(2) [OF wf]]]) auto
  then show "config_wf (snd (removeAliases cfg alias))" using wf by (simp add: removeAliases_def)
qed

lemma foldl_names:
  assumes "names.ascending ns" "names.ascending m"
    and "\<And>x y. x \<in> set ns \<Longrightarrow> y \<in> set m \<Longrightarrow> \<not> names.eqv (fst x) (fst y)"
  shows "names.ascending (foldl (\<lambda>ns (n, _). smap_insert CaselessCmp_less n n ns) ns m) \<and>
    set (foldl (\<lambda>ns (n, _). smap_insert CaselessCmp_less n n ns) ns m) = set ns \<union> (\<lambda>x. (fst x, fst x)) ` set m"
  using assms
proof (induction m arbitrary: ns)
  case (Cons x m)
  obtain n c where x: "x = (n, c)" by force
  note asc = names.ascending_insert [OF Cons.prems(1), of n n]
  have s: "set (smap_insert CaselessCmp_less n n ns) = insert (n, n) (set ns)"
    using Cons.prems(3) [of _ x] x by (auto simp: names.set_insert [OF Cons.prems(1), of n n])
  have "\<not> names.eqv (fst y) (fst z)" if y: "y \<in> set (smap_insert CaselessCmp_less n n ns)" and z: "z \<in> set m" for y z
  proof -
    have "\<not> names.eqv n (fst z)" using Cons.prems(2) x z by (auto simp: names.eqv_def)
    moreover have "\<not> names.eqv (fst y) (fst z)" if "y \<in> set ns" using Cons.prems(3) that z by simp
    ultimately show ?thesis using y by (auto simp: s)
  qed
  moreover have "names.ascending m" using Cons.prems(2) x by simp
  ultimately show ?case using Cons.IH [OF asc] by (simp add: s x)
qed simp

lemma config_wf_removeAllAliases:
  assumes wf: "config_wf cfg"
  shows "config_wf (removeAllAliases cfg)"
proof -
  let ?ns = "foldl (\<lambda>ns (n, _). smap_insert CaselessCmp_less n n ns) [] (cfg_map cfg)"
  have f: "names.ascending ?ns" "set ?ns = (\<lambda>x. (fst x, fst x)) ` set (cfg_map cfg)"
    using foldl_names [of "[]" "cfg_map cfg"] config_wfD(1) [OF wf] by auto
  have "config_wf (cfg\<lparr>cfg_names := ?ns\<rparr>)"
  proof (rule config_wf_names [OF wf f(1)])
    show "\<exists>n c. (n, c) \<in> set (cfg_map cfg) \<and> names.eqv n t" if "(a, t) \<in> set ?ns" for a t
      using that by (auto simp: f(2))
    show "(n, n) \<in> set ?ns" if "(n, c) \<in> set (cfg_map cfg)" for n c
      using that by (force simp: f(2))
  qed
  then show ?thesis by (simp add: removeAllAliases_def)
qed

lemma removeScreen_names_Some: "removeScreen_names c m = Some ns \<Longrightarrow> ns = [] \<and> (\<forall>(a, t) \<in> set m. t = c)"
  by (induction m) (auto split: if_splits)

lemma removeScreen_Some:
  assumes "removeScreen cfg name = Some cfg'" and wf: "config_wf cfg"
    and x: "smap_find CaselessCmp_less (getCanonicalName cfg name) (cfg_map cfg) = Some x"
  shows "cfg_names cfg' = []" "cfg_map cfg' = []"
proof -
  let ?c = "getCanonicalName cfg name"
  let ?m = "smap_erase CaselessCmp_less ?c (cfg_map cfg)"
  from assms obtain g ns where r: "removeScreen_names ?c (cfg_names cfg) = Some ns"
    "cfg' = cfg\<lparr>cfg_map := map g ?m, cfg_names := ns\<rparr>"
    by (auto simp: removeScreen_def Let_def split: option.splits)
  note ns = removeScreen_names_Some [OF r(1)]
  have "names.eqv k ?c" if "(k, c) \<in> set (cfg_map cfg)" for k c
    using config_wfD(4) [OF wf that] ns by auto
  then have "set ?m = {}" by (auto simp: names.set_erase [OF config_wfD(1) [OF wf]])
  then show "cfg_names cfg' = []" "cfg_map cfg' = []" using r ns by auto
qed

lemma config_wf_removeScreen:
  assumes wf: "config_wf cfg" and r: "removeScreen cfg name = Some cfg'"
  shows "config_wf cfg'"
proof (cases "smap_find CaselessCmp_less (getCanonicalName cfg name) (cfg_map cfg)")
  case None
  with r wf show ?thesis by (simp add: removeScreen_def Let_def)
next
  case (Some x)
  from removeScreen_Some [OF r wf this] show ?thesis by (simp add: config_wf_def)
qed

text \<open>
  \<^verbatim>\<open>renameScreen\<close> under a canonical name.  Under an alias it would leave names that stand for the
  screen's old name, which is gone.
\<close>

lemma config_wf_renamed:
  assumes wf: "config_wf cfg" and old: "CaselessCmp_equal oldName old"
    and cell: "(n, cell) \<in> set (cfg_map cfg)"
    and new: "CaselessCmp_equal oldName newName \<or> smap_find CaselessCmp_less newName (cfg_names cfg) = None"
    and g: "\<And>c. cell_wf c \<Longrightarrow> cell_wf (g c)"
  shows "config_wf (cfg\<lparr>
    cfg_map := map (\<lambda>(n, c). (n, g c)) (smap_insert CaselessCmp_less newName cell
      (smap_erase CaselessCmp_less old (cfg_map cfg))),
    cfg_names := map (\<lambda>(a, t). (a, if CaselessCmp_equal t old then newName else t))
      (smap_insert CaselessCmp_less newName newName (smap_erase CaselessCmp_less old (cfg_names cfg)))\<rparr>)"
    (is "config_wf (cfg\<lparr>cfg_map := map ?g ?m, cfg_names := map ?r ?n\<rparr>)")
proof (rule config_wfI)
  note asc = config_wfD(1,2) [OF wf]
  note asc_e = names.ascending_erase [OF asc(1), of old] names.ascending_erase [OF asc(2), of old]
  have disj: "\<not> names.eqv a newName" if "(a, t) \<in> set (cfg_names cfg)" "\<not> names.eqv a old" for a t
  proof
    assume e: "names.eqv a newName"
    from new show False
    proof
      assume "CaselessCmp_equal oldName newName"
      then have "names.eqv newName old" using old names_eqv names.eqv_sym names.eqv_trans by metis
      then show False using e that(2) names.eqv_trans by blast
    next
      assume "smap_find CaselessCmp_less newName (cfg_names cfg) = None"
      then show False using names.find_None_iff [OF asc(2)] that(1) e by force
    qed
  qed
  have m: "set ?m = insert (newName, cell) {x \<in> set (cfg_map cfg). \<not> names.eqv (fst x) old}"
    using disj config_wfD(4) [OF wf] by (force simp: names.set_insert [OF asc_e(1)] names.set_erase [OF asc(1)])
  have n: "set ?n = insert (newName, newName) {x \<in> set (cfg_names cfg). \<not> names.eqv (fst x) old}"
    using disj by (force simp: names.set_insert [OF asc_e(2)] names.set_erase [OF asc(2)])
  show "names.ascending (cfg_map (cfg\<lparr>cfg_map := map ?g ?m, cfg_names := map ?r ?n\<rparr>))"
    using names.ascending_keys [of "map ?g ?m" ?m] names.ascending_insert [OF asc_e(1)] by (auto simp: comp_def split_beta)
  show "names.ascending (cfg_names (cfg\<lparr>cfg_map := map ?g ?m, cfg_names := map ?r ?n\<rparr>))"
    using names.ascending_keys [of "map ?r ?n" ?n] names.ascending_insert [OF asc_e(2)] by (auto simp: comp_def split_beta)
  show "cell_wf c \<and> (k, k) \<in> set (cfg_names (cfg\<lparr>cfg_map := map ?g ?m, cfg_names := map ?r ?n\<rparr>))"
    if "(k, c) \<in> set (cfg_map (cfg\<lparr>cfg_map := map ?g ?m, cfg_names := map ?r ?n\<rparr>))" for k c
  proof -
    from that obtain c0 where c0: "c = g c0" "(k, c0) \<in> set ?m" by auto
    then have "(k, k) \<in> ?r ` set ?n" and "cell_wf c0"
      using config_wfD(3,4) [OF wf, of k c0] config_wfD(3) [OF wf cell]
      unfolding m n by (auto simp: names_eqv image_iff)
    with c0 g show ?thesis by simp
  qed
  show "\<exists>k c. (k, c) \<in> set (cfg_map (cfg\<lparr>cfg_map := map ?g ?m, cfg_names := map ?r ?n\<rparr>)) \<and> names.eqv k t"
    if "(a, t) \<in> set (cfg_names (cfg\<lparr>cfg_map := map ?g ?m, cfg_names := map ?r ?n\<rparr>))" for a t
  proof (cases "t = newName")
    case True
    then show ?thesis by (force simp: m)
  next
    case False
    with that have t: "(a, t) \<in> set (cfg_names cfg)" "\<not> names.eqv t old"
      unfolding names_eqv by (auto simp: n split: if_splits)
    obtain k c where k: "(k, c) \<in> set (cfg_map cfg)" "names.eqv k t" using config_wfD(5) [OF wf t(1)] by blast
    then have "\<not> names.eqv k old" using t(2) names.eqv_sym names.eqv_trans by blast
    with k have "(k, g c) \<in> ?g ` set ?m" by (force simp: m)
    then have "(k, g c) \<in> set (cfg_map (cfg\<lparr>cfg_map := map ?g ?m, cfg_names := map ?r ?n\<rparr>))" by simp
    with k(2) show ?thesis by blast
  qed
qed

lemma config_wf_renameScreen:
  assumes wf: "config_wf cfg" and canonical: "isCanonicalName cfg oldName"
  shows "config_wf (snd (renameScreen cfg oldName newName))"
proof (cases "smap_find CaselessCmp_less (getCanonicalName cfg oldName) (cfg_map cfg)")
  case None
  with wf show ?thesis by (simp add: renameScreen_def Let_def)
next
  case (Some x)
  obtain n cell where x: "x = (n, cell)" by force
  let ?old = "getCanonicalName cfg oldName"
  have old: "CaselessCmp_equal oldName ?old"
    using canonical names_eqv names.eqv_sym by (metis isCanonicalName_def)
  have cell: "(n, cell) \<in> set (cfg_map cfg)" using Some x names.find_Some_iff [OF config_wfD(1) [OF wf]] by simp
  show ?thesis
  proof (cases "CaselessCmp_equal oldName newName \<or> smap_find CaselessCmp_less newName (cfg_names cfg) = None")
    case True
    from config_wf_renamed [OF wf old cell this cell_wf_rename] show ?thesis
      using Some x old True by (auto simp: renameScreen_def Let_def)
  next
    case False
    with Some x wf show ?thesis by (simp add: renameScreen_def Let_def)
  qed
qed

section \<open>Configurations that the operations build\<close>

text \<open>
  A step of a configuration's life: any operation with any arguments for which it is defined, and
  \<^verbatim>\<open>renameScreen\<close> of a canonical name, the way the configuration dialog and the tests call it.
\<close>

inductive config_step :: "Config \<Rightarrow> Config \<Rightarrow> bool" where
  addScreen: "config_step cfg (snd (addScreen cfg name))"
| renameScreen: "isCanonicalName cfg old \<Longrightarrow> config_step cfg (snd (renameScreen cfg old new))"
| removeScreen: "removeScreen cfg name = Some cfg' \<Longrightarrow> config_step cfg cfg'"
| removeAllScreens: "config_step cfg (removeAllScreens cfg)"
| addAlias: "config_step cfg (snd (addAlias cfg canonical alias))"
| removeAlias: "config_step cfg (snd (removeAlias cfg alias))"
| removeAliases: "config_step cfg (snd (removeAliases cfg canonical))"
| removeAllAliases: "config_step cfg (removeAllAliases cfg)"
| connect: "connect cfg s side a b d c e = Some (r, cfg') \<Longrightarrow> config_step cfg cfg'"
| disconnect: "disconnect cfg s side = Some (r, cfg') \<Longrightarrow> config_step cfg cfg'"
| disconnect_at: "disconnect_at cfg s side pos = Some (r, cfg') \<Longrightarrow> config_step cfg cfg'"
| addOption: "config_step cfg (snd (addOption cfg name opt val))"
| removeOption: "config_step cfg (snd (removeOption cfg name opt))"
| removeOptions: "config_step cfg (snd (removeOptions cfg name))"

lemma config_step_wf: "config_step cfg cfg' \<Longrightarrow> config_wf cfg \<Longrightarrow> config_wf cfg'"
proof (induction rule: config_step.induct)
  case (removeAllScreens cfg)
  then show ?case by (simp add: removeAllScreens_def config_wf_def)
qed (simp_all add: config_wf_addScreen config_wf_renameScreen config_wf_addAlias config_wf_removeAlias
    config_wf_removeAllAliases config_wf_disconnect(3) addOption_def removeOption_def removeOptions_def,
    (blast intro: config_wf_removeScreen config_wf_connect config_wf_disconnect(1,2))+)

inductive config_reachable :: "Config \<Rightarrow> bool" where
  config_init: "config_reachable Config_new"
| config_next: "config_reachable cfg \<Longrightarrow> config_step cfg cfg' \<Longrightarrow> config_reachable cfg'"

lemma config_reachable_wf: "config_reachable cfg \<Longrightarrow> config_wf cfg"
  by (induction rule: config_reachable.induct) (use config_wf_new config_step_wf in blast)+

section \<open>Links and neighbors\<close>

lemma getLink_cong:
  assumes wf: "cell_wf c" "cell_wf c'" and side: "side \<noteq> kNoDirection"
    and same: "\<And>s d. ce_side s = side \<Longrightarrow> CellEdge_isInside s pos \<Longrightarrow>
      (s, d) \<in> set (cell_neighbors c) \<longleftrightarrow> (s, d) \<in> set (cell_neighbors c')"
  shows "Cell_getLink c side pos = Cell_getLink c' side pos"
proof -
  note l = Cell_getLink_iff(1) [OF wf(1) side] and l' = Cell_getLink_iff(1) [OF wf(2) side]
  obtain r r' where r: "Cell_getLink c side pos = Some r" "Cell_getLink c' side pos = Some r'"
    using Cell_getLink_iff(2) [OF wf(1) side] Cell_getLink_iff(2) [OF wf(2) side] by blast
  have "r = Some (s, d) \<longleftrightarrow> r' = Some (s, d)" for s d
  proof -
    have "r = Some (s, d) \<longleftrightarrow> Cell_getLink c side pos = Some (Some (s, d))" by (simp add: r(1))
    also have "\<dots> \<longleftrightarrow> Cell_getLink c' side pos = Some (Some (s, d))" unfolding l l' using same by blast
    also have "\<dots> \<longleftrightarrow> r' = Some (s, d)" by (simp add: r(2))
    finally show ?thesis .
  qed
  then have "r = r'" by (cases r; cases r') auto
  then show ?thesis using r by simp
qed

lemma transform_bounds:
  assumes "edge_valid s" "CellEdge_isInside s pos"
  shows "0 \<le> CellEdge_transform s pos" "CellEdge_transform s pos \<le> 1"
  using assms round32.fl_quotient [of "pos - ce_first s" "ce_second s - ce_first s"]
  by (simp_all add: edge_valid_def CellEdge_isInside_def CellEdge_transform_def)

lemma link_position_bounds:
  assumes "edge_valid s" "edge_valid d" "CellEdge_isInside s pos"
  shows "round32 (ce_first d) \<le> CellEdge_inverseTransform d (CellEdge_transform s pos)"
    "CellEdge_inverseTransform d (CellEdge_transform s pos) \<le> 1"
  using round32.fl_affine(1,2) [OF transform_bounds [OF assms(1,3)], of "ce_first d" "ce_second d"] assms(2)
  by (simp_all add: CellEdge_inverseTransform_def edge_valid_def)

text \<open>What an accepted \<^verbatim>\<open>connect\<close> has done.\<close>

lemma connect_accepted:
  assumes wf: "config_wf cfg" and con: "connect cfg s side a b d c e = Some (True, cfg')"
  obtains n cell cell' src dst where
    "smap_find CaselessCmp_less (getCanonicalName cfg s) (cfg_map cfg) = Some (n, cell)" "cell_wf cell"
    "src = \<lparr>ce_name = [], ce_side = side, ce_first = a, ce_second = b\<rparr>" "edge_valid src"
    "dst = \<lparr>ce_name = d, ce_side = side, ce_first = c, ce_second = e\<rparr>" "edge_valid dst"
    "Cell_add cell src dst = (True, cell')"
    "cfg' = cfg\<lparr>cfg_map := smap_update CaselessCmp_less (getCanonicalName cfg s) (\<lambda>_. cell') (cfg_map cfg)\<rparr>"
proof -
  from con obtain n cell src dst cell' where
    f: "smap_find CaselessCmp_less (getCanonicalName cfg s) (cfg_map cfg) = Some (n, cell)"
    and e: "CellEdge_make [] side a b = Some src" "CellEdge_make d side c e = Some dst"
    and r: "Cell_add cell src dst = (True, cell')"
      "cfg' = cfg\<lparr>cfg_map := smap_update CaselessCmp_less (getCanonicalName cfg s) (\<lambda>_. cell') (cfg_map cfg)\<rparr>"
    by (auto simp: connect_def split: if_splits option.splits prod.splits)
  have "(n, cell) \<in> set (cfg_map cfg)" using f names.find_Some_iff [OF config_wfD(1) [OF wf]] by simp
  then have "cell_wf cell" using config_wfD(3) [OF wf] by blast
  moreover have "src = \<lparr>ce_name = [], ce_side = side, ce_first = a, ce_second = b\<rparr>"
    "dst = \<lparr>ce_name = d, ce_side = side, ce_first = c, ce_second = e\<rparr>"
    using e by (auto simp: CellEdge_make_def split: if_splits)
  ultimately show ?thesis using that f e r CellEdge_make_valid by blast
qed

lemma getCanonicalName_map [simp]: "getCanonicalName (cfg\<lparr>cfg_map := m\<rparr>) = getCanonicalName cfg"
  by (simp add: getCanonicalName_def fun_eq_iff)

text \<open>\<^verbatim>\<open>getNeighbor\<close> is a function of the link that it finds.\<close>

definition neighbor_of :: "Config \<Rightarrow> rat \<Rightarrow> (CellEdge \<times> CellEdge) option \<Rightarrow> string \<times> rat option" where
  "neighbor_of cfg pos l = (case l of None \<Rightarrow> ([], None)
     | Some (s, d) \<Rightarrow> (getCanonicalName cfg (ce_name d), Some (CellEdge_inverseTransform d (CellEdge_transform s pos))))"

lemma getNeighbor_link:
  "side \<noteq> kNoDirection \<Longrightarrow> getNeighbor cfg s side pos =
    (case smap_find CaselessCmp_less (getCanonicalName cfg s) (cfg_map cfg) of None \<Rightarrow> Some ([], None)
     | Some (_, cell) \<Rightarrow> map_option (neighbor_of cfg pos) (Cell_getLink cell side pos))"
  by (auto simp: getNeighbor_def neighbor_of_def split: option.splits)

lemma neighbor_of_map [simp]: "neighbor_of (cfg\<lparr>cfg_map := m\<rparr>) = neighbor_of cfg"
  by (simp add: neighbor_of_def fun_eq_iff split: option.splits)

lemma getNeighbor_same_screen:
  assumes "CaselessCmp_equal (getCanonicalName cfg s') (getCanonicalName cfg s)"
  shows "getNeighbor cfg s' side pos = getNeighbor cfg s side pos"
  by (simp add: getNeighbor_def names.find_eqv [OF assms [folded names_eqv]])

lemma getNeighbor_connected:
  assumes wf: "config_wf cfg" and con: "connect cfg s side a b d c e = Some (True, cfg')"
    and pos: "a \<le> pos" "pos < b"
  shows "\<exists>q. getNeighbor cfg' s side pos = Some (getCanonicalName cfg d, Some q) \<and> round32 c \<le> q \<and> q \<le> 1"
proof (rule connect_accepted [OF wf con])
  fix n cell cell' src dst
  assume f: "smap_find CaselessCmp_less (getCanonicalName cfg s) (cfg_map cfg) = Some (n, cell)" and cw: "cell_wf cell"
    and src: "src = \<lparr>ce_name = [], ce_side = side, ce_first = a, ce_second = b\<rparr>" and vs: "edge_valid src"
    and dst: "dst = \<lparr>ce_name = d, ce_side = side, ce_first = c, ce_second = e\<rparr>" and vd: "edge_valid dst"
    and add: "Cell_add cell src dst = (True, cell')"
    and cfg': "cfg' = cfg\<lparr>cfg_map := smap_update CaselessCmp_less (getCanonicalName cfg s) (\<lambda>_. cell') (cfg_map cfg)\<rparr>"
  have side: "side \<noteq> kNoDirection" using vs by (simp add: edge_valid_def src)
  have ins: "CellEdge_isInside src pos" using pos by (simp add: CellEdge_isInside_def src)
  have "Cell_getLink cell' side pos = Some (Some (src, dst))"
    unfolding Cell_getLink_iff(1) [OF Cell_add_accepted(1) [OF cw vs vd add] side] Cell_add_accepted(2) [OF cw vs vd add]
    using ins by (simp add: src)
  then have "getNeighbor cfg' s side pos =
      Some (getCanonicalName cfg d, Some (CellEdge_inverseTransform dst (CellEdge_transform src pos)))"
    unfolding getNeighbor_link [OF side] cfg'
    by (simp add: names.find_update [OF config_wfD(1) [OF wf]] f neighbor_of_def) (simp add: dst)
  with link_position_bounds [OF vs vd ins] show ?thesis by (simp add: dst)
qed

lemma getNeighbor_unconnected:
  assumes wf: "config_wf cfg" and con: "connect cfg s side a b d c e = Some (True, cfg')"
    and other: "\<not> (CaselessCmp_equal (getCanonicalName cfg s') (getCanonicalName cfg s) \<and> side' = side \<and> a \<le> pos \<and> pos < b)"
  shows "getNeighbor cfg' s' side' pos = getNeighbor cfg s' side' pos"
proof (rule connect_accepted [OF wf con], cases "side' = kNoDirection")
  fix n cell cell' src dst
  assume f: "smap_find CaselessCmp_less (getCanonicalName cfg s) (cfg_map cfg) = Some (n, cell)" and cw: "cell_wf cell"
    and src: "src = \<lparr>ce_name = [], ce_side = side, ce_first = a, ce_second = b\<rparr>" and vs: "edge_valid src"
    and vd: "edge_valid dst" and add: "Cell_add cell src dst = (True, cell')" and side: "side' \<noteq> kNoDirection"
    and cfg': "cfg' = cfg\<lparr>cfg_map := smap_update CaselessCmp_less (getCanonicalName cfg s) (\<lambda>_. cell') (cfg_map cfg)\<rparr>"
  note asc = config_wfD(1) [OF wf] and ac = Cell_add_accepted [OF cw vs vd add]
  have link: "Cell_getLink cell' side' pos = Cell_getLink cell side' pos"
    if "\<not> (side' = side \<and> a \<le> pos \<and> pos < b)"
  proof (rule getLink_cong [OF ac(1) cw side])
    fix k x
    assume k: "ce_side k = side'" "CellEdge_isInside k pos"
    then have "\<not> CellEdge_eq k src" using that by (auto simp: CellEdge_eq_def CellEdge_isInside_def src)
    then show "(k, x) \<in> set (cell_neighbors cell') \<longleftrightarrow> (k, x) \<in> set (cell_neighbors cell)"
      using ac(3) [of "(k, x)"] unfolding ac(2) by (auto simp: CellEdge_eq_def)
  qed
  show ?thesis
  proof (cases "CaselessCmp_equal (getCanonicalName cfg s') (getCanonicalName cfg s)")
    case True
    then have eqv: "names.eqv (getCanonicalName cfg s) (getCanonicalName cfg s')"
      using names_eqv names.eqv_sym by blast
    have "smap_find CaselessCmp_less (getCanonicalName cfg s') (cfg_map cfg) = Some (n, cell)"
      using f by (simp add: names.find_eqv [OF eqv])
    with True other link eqv show ?thesis
      unfolding getNeighbor_link [OF side] cfg' by (simp add: names.find_update [OF asc])
  next
    case False
    then have "\<not> names.eqv (getCanonicalName cfg s) (getCanonicalName cfg s')"
      using names_eqv names.eqv_sym by blast
    then show ?thesis
      unfolding getNeighbor_link [OF side] cfg' by (simp add: names.find_update [OF asc] split: option.split)
  qed
qed (simp add: getNeighbor_def)

text \<open>
  C16.  A link that \<^verbatim>\<open>connect\<close> accepts is what \<^verbatim>\<open>getNeighbor\<close> finds from any position in the source
  interval: the destination's canonical name, with a position that is not before the destination
  interval and not beyond the edge; and no other position, side or screen gets a different neighbor
  than before.
\<close>

theorem connect_getNeighbor:
  assumes "config_reachable cfg" and "connect cfg s side a b d c e = Some (True, cfg')"
  shows "if CaselessCmp_equal (getCanonicalName cfg s') (getCanonicalName cfg s) \<and> side' = side \<and> a \<le> pos \<and> pos < b
    then \<exists>q. getNeighbor cfg' s' side' pos = Some (getCanonicalName cfg d, Some q) \<and> round32 c \<le> q \<and> q \<le> 1
    else getNeighbor cfg' s' side' pos = getNeighbor cfg s' side' pos"
proof -
  note wf = config_reachable_wf [OF assms(1)]
  from connect_accepted [OF wf assms(2)] obtain m where "cfg' = cfg\<lparr>cfg_map := m\<rparr>" by metis
  then have "CaselessCmp_equal (getCanonicalName cfg s') (getCanonicalName cfg s) \<Longrightarrow>
      getNeighbor cfg' s' side pos = getNeighbor cfg' s side pos"
    by (intro getNeighbor_same_screen) simp
  with getNeighbor_connected [OF wf assms(2)] getNeighbor_unconnected [OF wf assms(2)] show ?thesis by auto
qed

definition two_screens :: Config where
  "two_screens = snd (addScreen (snd (addScreen Config_new ''left'')) ''right'')"

lemma two_screens_reachable: "config_reachable two_screens"
  unfolding two_screens_def by (intro config_next [OF _ addScreen] config_init)

theorem connect_getNeighbor_witness:
  "\<exists>cfg' q. connect two_screens ''left'' kRight 0 1 ''RIGHT'' 0 1 = Some (True, cfg') \<and>
     getNeighbor cfg' ''LEFT'' kRight (1 / 2) = Some (''right'', Some q) \<and> round32 0 \<le> q \<and> q \<le> 1"
proof -
  have "map_option fst (connect two_screens ''left'' kRight 0 1 ''RIGHT'' 0 1) = Some True"
    by code_simp
  then obtain cfg' where c: "connect two_screens ''left'' kRight 0 1 ''RIGHT'' 0 1 = Some (True, cfg')" by auto
  have n: "getCanonicalName two_screens ''RIGHT'' = ''right''"
    "CaselessCmp_equal (getCanonicalName two_screens ''LEFT'') (getCanonicalName two_screens ''left'')"
    by code_simp+
  from connect_getNeighbor [OF two_screens_reachable c, of "''LEFT''" kRight "1 / 2"] n c show ?thesis by auto
qed



lemma Cell_hasEdge_iff:
  assumes "cell_wf c"
  shows "Cell_hasEdge c e \<longleftrightarrow> (\<exists>x \<in> set (cell_neighbors c). CellEdge_eq (fst x) e)"
proof
  note find = edges.find_Some_iff [OF cell_wfD(1) [OF assms], of e]
  show "\<exists>x \<in> set (cell_neighbors c). CellEdge_eq (fst x) e" if has: "Cell_hasEdge c e"
  proof -
    obtain k d where k: "smap_find CellEdge_less e (cell_neighbors c) = Some (k, d)" "CellEdge_eq k e"
      using has by (auto simp: Cell_hasEdge_def split: option.splits)
    show ?thesis using k(2) find [THEN iffD1, OF k(1)] by force
  qed
  assume "\<exists>x \<in> set (cell_neighbors c). CellEdge_eq (fst x) e"
  then obtain k d where k: "(k, d) \<in> set (cell_neighbors c)" "CellEdge_eq k e" by force
  then have "edges.eqv k e" by (simp add: CellEdge_eq_def edges_eqv)
  with k have "smap_find CellEdge_less e (cell_neighbors c) = Some (k, d)" by (simp add: find)
  with k show "Cell_hasEdge c e" by (simp add: Cell_hasEdge_def)
qed

lemma getCanonicalName_listed:
  assumes "config_wf cfg" "isScreen cfg n"
  shows "\<exists>a. (a, getCanonicalName cfg n) \<in> set (cfg_names cfg)"
    "\<exists>x. smap_find CaselessCmp_less (getCanonicalName cfg n) (cfg_map cfg) = Some x"
proof -
  obtain a t where f: "smap_find CaselessCmp_less n (cfg_names cfg) = Some (a, t)"
    using assms(2) by (auto simp: isScreen_def)
  then have c: "getCanonicalName cfg n = t" by (simp add: getCanonicalName_def)
  have a: "(a, t) \<in> set (cfg_names cfg)" using f names.find_Some_iff [OF config_wfD(2) [OF assms(1)]] by blast
  then show "\<exists>a. (a, getCanonicalName cfg n) \<in> set (cfg_names cfg)" unfolding c ..
  obtain m d where "(m, d) \<in> set (cfg_map cfg)" "names.eqv m t" using config_wfD(5) [OF assms(1) a] by blast
  then show "\<exists>x. smap_find CaselessCmp_less (getCanonicalName cfg n) (cfg_map cfg) = Some x"
    unfolding c using names.find_Some_iff [OF config_wfD(1) [OF assms(1)]] by blast
qed

text \<open>
  C17.  \<^verbatim>\<open>connect\<close> decides overlap correctly although \<^verbatim>\<open>Cell::overlaps\<close> only looks at two links: for a
  known screen and proper intervals it accepts exactly when the screen has a link of the same
  interval, which is replaced, or when no link of that side meets the interval; otherwise the
  configuration is unchanged.
\<close>

theorem connect_accepts:
  assumes r: "config_reachable cfg"
    and f: "smap_find CaselessCmp_less (getCanonicalName cfg s) (cfg_map cfg) = Some (n, cell)"
    and iv: "0 \<le> a" "a < b" "b \<le> 1" "0 \<le> c" "c < e" "e \<le> 1" "side \<noteq> kNoDirection"
  shows "\<exists>ok cfg'. connect cfg s side a b d c e = Some (ok, cfg') \<and> (\<not> ok \<longrightarrow> cfg' = cfg) \<and>
    (ok \<longleftrightarrow>
      (\<exists>x \<in> set (cell_neighbors cell). ce_side (fst x) = side \<and> ce_first (fst x) = a \<and> ce_second (fst x) = b) \<or>
      (\<forall>x \<in> set (cell_neighbors cell). ce_side (fst x) = side \<longrightarrow> ce_second (fst x) \<le> a \<or> b \<le> ce_first (fst x)))"
proof -
  note wf = config_reachable_wf [OF r]
  let ?src = "\<lparr>ce_name = [], ce_side = side, ce_first = a, ce_second = b\<rparr>"
  let ?dst = "\<lparr>ce_name = d, ce_side = side, ce_first = c, ce_second = e\<rparr>"
  have "(n, cell) \<in> set (cfg_map cfg)" using f names.find_Some_iff [OF config_wfD(1) [OF wf]] by simp
  then have cw: "cell_wf cell" using config_wfD(3) [OF wf] by blast
  have vs: "edge_valid ?src" using iv by (simp add: edge_valid_def)
  have con: "connect cfg s side a b d c e = Some (fst (Cell_add cell ?src ?dst), cfg\<lparr>cfg_map :=
      smap_update CaselessCmp_less (getCanonicalName cfg s) (\<lambda>_. snd (Cell_add cell ?src ?dst)) (cfg_map cfg)\<rparr>)"
    using iv f by (simp add: connect_def CellEdge_make_def split_beta)
  have eq: "Cell_hasEdge cell ?src \<longleftrightarrow>
      (\<exists>x \<in> set (cell_neighbors cell). ce_side (fst x) = side \<and> ce_first (fst x) = a \<and> ce_second (fst x) = b)"
    by (simp add: Cell_hasEdge_iff [OF cw] CellEdge_eq_def)
  have ov: "\<not> Cell_overlaps cell ?src \<longleftrightarrow>
      (\<forall>x \<in> set (cell_neighbors cell). ce_side (fst x) = side \<longrightarrow> ce_second (fst x) \<le> a \<or> b \<le> ce_first (fst x))"
    using overlaps_iff [OF cell_wfD(2) [OF cw] vs] by (auto simp: Cell_overlaps_iff [OF cw vs] not_less)
  show ?thesis
    unfolding con eq [symmetric] ov [symmetric]
    using names.update_same [OF f] by (auto simp: Cell_add_def)
qed

theorem connect_accepts_witness:
  "\<exists>ok cfg'. connect two_screens ''left'' kRight 0 1 ''right'' 0 1 = Some (ok, cfg') \<and> ok"
proof -
  have f: "smap_find CaselessCmp_less (getCanonicalName two_screens ''left'') (cfg_map two_screens) = Some (''left'', Cell_new)"
    by code_simp
  from connect_accepts [OF two_screens_reachable f, of 0 1 0 1 kRight "''right''"] show ?thesis
    by (auto simp: Cell_new_def)
qed

text \<open>
  \<^verbatim>\<open>removeScreen\<close> has no defined result as soon as the configuration has another screen: the loop
  over the names increments the iterator of the screen map, which is at its end, whenever it meets a
  name of another screen.
\<close>

theorem removeScreen_undefined:
  assumes r: "config_reachable cfg" and known: "isScreen cfg name" "isScreen cfg other"
    and other: "\<not> CaselessCmp_equal (getCanonicalName cfg other) (getCanonicalName cfg name)"
  shows "removeScreen cfg name = None"
proof (rule ccontr)
  assume "removeScreen cfg name \<noteq> None"
  then obtain cfg' where s: "removeScreen cfg name = Some cfg'" by auto
  note wf = config_reachable_wf [OF r]
  obtain x where x: "smap_find CaselessCmp_less (getCanonicalName cfg name) (cfg_map cfg) = Some x"
    using getCanonicalName_listed(2) [OF wf known(1)] by blast
  then obtain ns where "removeScreen_names (getCanonicalName cfg name) (cfg_names cfg) = Some ns"
    using s by (auto simp: removeScreen_def Let_def split: option.splits)
  from removeScreen_names_Some [OF this] have "\<forall>(a, t) \<in> set (cfg_names cfg). t = getCanonicalName cfg name" ..
  moreover note getCanonicalName_listed(1) [OF wf known(2)]
  ultimately have "getCanonicalName cfg other = getCanonicalName cfg name" by auto
  with other names.eqv_refl show False by (metis names_eqv)
qed

theorem removeScreen_undefined_witness: "removeScreen two_screens ''left'' = None"
proof -
  have "isScreen two_screens ''left''" "isScreen two_screens ''right''"
    "\<not> CaselessCmp_equal (getCanonicalName two_screens ''right'') (getCanonicalName two_screens ''left'')"
    by code_simp+
  then show ?thesis using removeScreen_undefined two_screens_reachable by blast
qed

text \<open>Renaming a screen by one of its aliases leaves the alias standing for a name that is gone.\<close>

lemma rename_by_alias_dangles:
  "\<exists>cfg. config_reachable cfg \<and> fst (renameScreen cfg ''alias'' ''new'') \<and>
     \<not> config_wf (snd (renameScreen cfg ''alias'' ''new''))"
proof (intro exI conjI)
  let ?cfg = "snd (addAlias two_screens ''left'' ''alias'')"
  show "config_reachable ?cfg" by (intro config_next [OF two_screens_reachable addAlias])
  show "fst (renameScreen ?cfg ''alias'' ''new'')" by code_simp
  have "(''alias'', ''left'') \<in> set (cfg_names (snd (renameScreen ?cfg ''alias'' ''new'')))"
    "list_all (\<lambda>(n, c). \<not> CaselessCmp_equal n ''left'') (cfg_map (snd (renameScreen ?cfg ''alias'' ''new'')))"
    by code_simp+
  then show "\<not> config_wf (snd (renameScreen ?cfg ''alias'' ''new''))"
    by (fastforce simp: config_wf_def list_all_iff)
qed

section \<open>Screen names\<close>

definition valid_label :: "string \<Rightarrow> bool" where
  "valid_label p \<longleftrightarrow> p \<noteq> [] \<and> (isalnum (hd p) \<or> hd p = CHR ''_'') \<and> (isalnum (last p) \<or> last p = CHR ''_'') \<and>
     (\<forall>c \<in> set p. isalnum c \<or> c = CHR ''_'' \<or> c = CHR ''-'')"

text \<open>The dot separated labels of a name; after a final dot there is no label.\<close>

lemma length_after_dropWhile: "s \<noteq> [] \<Longrightarrow> length (drop 1 (dropWhile P s)) < length s"
  using length_dropWhile_le [of P s] by (cases s) (simp_all del: dropWhile.simps)

function labels :: "string \<Rightarrow> string list" where
  "labels s = (if s = [] then []
     else takeWhile (\<lambda>c. c \<noteq> CHR ''.'') s # labels (drop 1 (dropWhile (\<lambda>c. c \<noteq> CHR ''.'') s)))"
  by auto
termination
  by (relation "measure length", rule wf_measure, unfold in_measure, rule length_after_dropWhile)

declare labels.simps [simp del]

lemma valid_label_at:
  assumes "b < e" "e \<le> length name"
  shows "valid_label (take (e - b) (drop b name)) \<longleftrightarrow>
    (isalnum (name ! b) \<or> name ! b = CHR ''_'') \<and> (isalnum (name ! (e - 1)) \<or> name ! (e - 1) = CHR ''_'') \<and>
    \<not> list_ex (\<lambda>i. \<not> isalnum (name ! i) \<and> name ! i \<noteq> CHR ''_'' \<and> name ! i \<noteq> CHR ''-'') [b..<e]"
proof -
  let ?p = "take (e - b) (drop b name)"
  have len: "length ?p = e - b" using assms by simp
  then have ne: "?p \<noteq> []" using assms by auto
  then have "hd ?p = name ! b" "last ?p = name ! (e - 1)"
    using assms by (simp_all add: hd_conv_nth last_conv_nth)
  moreover have "(\<forall>c \<in> set ?p. P c) \<longleftrightarrow> (\<forall>i \<in> set [b..<e]. P (name ! i))" for P
  proof -
    have "?p = map ((!) name) [b..<e]"
      using assms by (auto intro!: nth_equalityI)
    then have "set ?p = (!) name ` set [b..<e]" by simp
    then show ?thesis by auto
  qed
  ultimately show ?thesis using ne unfolding valid_label_def list_ex_iff by auto
qed

lemma str_find_dot:
  assumes "b < length name"
  defines "e \<equiv> (case str_find name ''.'' b of None \<Rightarrow> length name | Some p \<Rightarrow> p)"
  shows "b \<le> e" "e \<le> length name" "takeWhile (\<lambda>c. c \<noteq> CHR ''.'') (drop b name) = take (e - b) (drop b name)"
    "drop 1 (dropWhile (\<lambda>c. c \<noteq> CHR ''.'') (drop b name)) = drop (e + 1) name"
proof -
  let ?s = "drop b name" and ?P = "\<lambda>c. c \<noteq> CHR ''.''"
  have "b \<le> e \<and> e \<le> length name \<and> takeWhile ?P ?s = take (e - b) ?s \<and> dropWhile ?P ?s = drop (e - b) ?s"
  proof (cases "find_str ''.'' ?s")
    case None
    then have "e = length name" using assms by (simp add: str_find_def)
    moreover have "CHR ''.'' \<notin> set ?s" using find_char [of "CHR ''.''" ?s] None by simp
    then have "takeWhile ?P ?s = ?s" "dropWhile ?P ?s = []"
      unfolding takeWhile_eq_all_conv dropWhile_eq_Nil_conv by blast+
    ultimately show ?thesis using assms(1) by (simp only: le_refl less_imp_le) simp
  next
    case (Some k)
    then have "e = b + k" using assms by (simp add: str_find_def)
    moreover have k: "CHR ''.'' \<notin> set (take k ?s)" "k < length ?s"
      "drop k ?s = CHR ''.'' # drop (Suc k) ?s" using find_char [of "CHR ''.''" ?s] Some by simp_all
    moreover have "takeWhile ?P ?s = take k ?s" "dropWhile ?P ?s = drop k ?s"
    proof -
      have all: "\<And>c. c \<in> set (take k ?s) \<Longrightarrow> ?P c" using k(1) by metis
      have "?s = take k ?s @ CHR ''.'' # drop (Suc k) ?s" using k(3) by (metis append_take_drop_id)
      then show "takeWhile ?P ?s = take k ?s" "dropWhile ?P ?s = drop k ?s"
        using all takeWhile_append2 [of "take k ?s" ?P "CHR ''.'' # drop (Suc k) ?s"]
          dropWhile_append2 [of "take k ?s" ?P "CHR ''.'' # drop (Suc k) ?s"] k(3) by auto
    qed
    ultimately show ?thesis using assms by simp
  qed
  then show "b \<le> e" "e \<le> length name" "takeWhile ?P ?s = take (e - b) ?s"
    "drop 1 (dropWhile ?P ?s) = drop (e + 1) name" by simp_all
qed

lemma isValidScreenName_step:
  assumes "b < length name"
  defines "e \<equiv> (case str_find name ''.'' b of None \<Rightarrow> length name | Some p \<Rightarrow> p)"
  shows "isValidScreenName_loop name b \<longleftrightarrow>
    valid_label (take (e - b) (drop b name)) \<and> (e = length name \<or> isValidScreenName_loop name (e + 1))"
proof (cases "b < e")
  case True
  have "e \<le> length name" using str_find_dot(2) [OF assms(1)] unfolding e_def .
  from valid_label_at [OF True this] True assms(1) show ?thesis
    unfolding isValidScreenName_loop.simps [of name b] e_def [symmetric] Let_def by auto
next
  case False
  then have "\<not> valid_label (take (e - b) (drop b name))" by (simp add: valid_label_def)
  with False assms(1) show ?thesis
    unfolding isValidScreenName_loop.simps [of name b] e_def [symmetric] Let_def by simp
qed

lemma isValidScreenName_labels:
  "isValidScreenName_loop name b \<longleftrightarrow> list_all valid_label (labels (drop b name))"
proof (induction "length name - b" arbitrary: b rule: less_induct)
  case less
  show ?case
  proof (cases "b < length name")
    case False
    then show ?thesis by (subst isValidScreenName_loop.simps) (simp add: labels.simps [of "[]"])
  next
    case True
    define e where "e = (case str_find name ''.'' b of None \<Rightarrow> length name | Some p \<Rightarrow> p)"
    note f = str_find_dot [OF True, folded e_def]
    have "labels (drop b name) = take (e - b) (drop b name) # labels (drop (e + 1) name)"
      using True f(3,4) by (subst labels.simps) simp
    moreover have "list_all valid_label (labels (drop (e + 1) name))" if "e = length name"
      using that by (simp add: labels.simps [of "[]"])
    moreover have "isValidScreenName_loop name (e + 1) \<longleftrightarrow> list_all valid_label (labels (drop (e + 1) name))"
      using f(1) True by (intro less.hyps) simp
    ultimately show ?thesis using isValidScreenName_step [OF True] unfolding e_def [symmetric] by auto
  qed
qed

text \<open>
  A screen name is valid exactly when it is not empty and each of its dot separated labels is
  not empty, consists of letters, digits, underscores and dashes, and neither begins nor ends with a
  dash.  One dot at the end of the name is allowed.
\<close>

theorem isValidScreenName_grammar:
  "isValidScreenName name \<longleftrightarrow> name \<noteq> [] \<and> (\<forall>p \<in> set (labels name). valid_label p)"
  by (simp add: isValidScreenName_def isValidScreenName_labels list_all_iff)

theorem isValidScreenName_grammar_witness:
  "isValidScreenName ''a-b.c_1.'' \<and> valid_label ''a-b'' \<and> valid_label ''c_1''"
proof -
  have "labels ''a-b.c_1.'' = [''a-b'', ''c_1'']" by code_simp
  moreover have "list_all valid_label [''a-b'', ''c_1'']" by code_simp
  ultimately show ?thesis using isValidScreenName_grammar [of "''a-b.c_1.''"] by (simp add: list_all_iff)
qed

end
