(* ===== verification/Wildcard_Match.thy ===== *)
theory Wildcard_Match
  imports String_Util
begin

text \<open>
  \<^verbatim>\<open>wildcardMatch\<close> of \<^verbatim>\<open>server/Server.cpp\<close>, by which a monitor of the configuration is matched to the
  displays that the clients report: an iterative matcher that remembers only the last star.  It is
  shown to decide the recursive meaning of patterns.
\<close>

text \<open>
  The loop.  \<open>bk\<close> is the position of the last star and the position in the string where its match
  was last tried to end; \<^verbatim>\<open>std::string::npos\<close> is \<open>None\<close>.
\<close>

fun skip_stars :: "string \<Rightarrow> string" where
  "skip_stars [] = []"
| "skip_stars (q # qs) = (if q = CHR ''*'' then skip_stars qs else q # qs)"

function wildcard_loop :: "string \<Rightarrow> string \<Rightarrow> nat \<Rightarrow> nat \<Rightarrow> (nat \<times> nat) option \<Rightarrow> bool" where
  "wildcard_loop pattern str p s bk =
     (if s < length str then
        if p < length pattern \<and> (pattern ! p = CHR ''?'' \<or> tolower_char (pattern ! p) = tolower_char (str ! s))
        then wildcard_loop pattern str (p + 1) (s + 1) bk
        else if p < length pattern \<and> pattern ! p = CHR ''*''
        then wildcard_loop pattern str (p + 1) s (Some (p, s))
        else case bk of
          Some (starIdx, match) \<Rightarrow> wildcard_loop pattern str (starIdx + 1) (match + 1) (Some (starIdx, match + 1))
        | None \<Rightarrow> False
      else skip_stars (drop p pattern) = [])"
  by pat_completeness auto
termination
  by (relation "measures [
       \<lambda>(pattern, str, p, s, bk). case bk of None \<Rightarrow> Suc (length str - s)
          | Some (_, match) \<Rightarrow> max (length str - match) (length str - s),
       \<lambda>(pattern, str, p, s, bk). length str - s,
       \<lambda>(pattern, str, p, s, bk). length pattern - p]")
     (auto split: option.splits)

declare wildcard_loop.simps [simp del]

definition wildcardMatch :: "string \<Rightarrow> string \<Rightarrow> bool" where
  "wildcardMatch pattern str =
     (if pattern = [] \<or> pattern = ''*'' then True else wildcard_loop pattern str 0 0 None)"

section \<open>The meaning of a pattern\<close>

fun glob :: "string \<Rightarrow> string \<Rightarrow> bool" where
  "glob [] s \<longleftrightarrow> s = []"
| "glob (q # qs) [] \<longleftrightarrow> q = CHR ''*'' \<and> glob qs []"
| "glob (q # qs) (c # cs) \<longleftrightarrow>
     (if q = CHR ''*'' then glob qs (c # cs) \<or> glob (q # qs) cs
      else (q = CHR ''?'' \<or> tolower_char q = tolower_char c) \<and> glob qs cs)"

lemma glob_Nil: "glob qs [] \<longleftrightarrow> skip_stars qs = []"
  by (induction qs) auto

lemma glob_star: "glob (CHR ''*'' # qs) t \<longleftrightarrow> (\<exists>k \<le> length t. glob qs (drop k t))"
proof (induction t)
  case (Cons c cs)
  have "(\<exists>k \<le> length (c # cs). glob qs (drop k (c # cs))) \<longleftrightarrow>
      glob qs (c # cs) \<or> (\<exists>k \<le> length cs. glob qs (drop k cs))"
  proof (safe)
    fix k assume k: "k \<le> length (c # cs)" "glob qs (drop k (c # cs))"
      and n: "\<not> (\<exists>k \<le> length cs. glob qs (drop k cs))"
    then show "glob qs (c # cs)" by (cases k) auto
  next
    assume "glob qs (c # cs)"
    then show "\<exists>k \<le> length (c # cs). glob qs (drop k (c # cs))" by (intro exI [of _ 0]) simp
  next
    fix k assume "k \<le> length cs" "glob qs (drop k cs)"
    then show "\<exists>k \<le> length (c # cs). glob qs (drop k (c # cs))" by (intro exI [of _ "Suc k"]) simp
  qed
  with Cons show ?case by simp
qed auto

lemma glob_star_absorb: "j \<le> length t \<Longrightarrow> glob (CHR ''*'' # qs) (drop j t) \<Longrightarrow> glob (CHR ''*'' # qs) t"
  unfolding glob_star by (metis (no_types, lifting) add_le_cancel_left drop_drop le_add_diff_inverse length_drop add.commute)

text \<open>A part of a pattern without stars matches exactly as many characters as it has.\<close>

lemma glob_plain:
  "CHR ''*'' \<notin> set w \<Longrightarrow> glob (w @ qs) t \<Longrightarrow> length w \<le> length t \<and> glob qs (drop (length w) t)"
proof (induction w arbitrary: t)
  case (Cons q w)
  then show ?case by (cases t) auto
qed simp

lemma tolower_star [simp]: "tolower_char (CHR ''*'') = CHR ''*''" "tolower_char c = CHR ''*'' \<longleftrightarrow> c = CHR ''*''"
    "CHR ''*'' = tolower_char c \<longleftrightarrow> c = CHR ''*''"
proof -
  show "tolower_char (CHR ''*'') = CHR ''*''" by code_simp
  show eq: "tolower_char c = CHR ''*'' \<longleftrightarrow> c = CHR ''*''"
  proof
    assume a: "tolower_char c = CHR ''*''"
    show "c = CHR ''*''"
    proof (rule ccontr)
      assume "c \<noteq> CHR ''*''"
      with a have b: "65 \<le> (of_char c :: nat)" "(of_char c :: nat) \<le> 90" "char_of (of_char c + 32 :: nat) = CHR ''*''"
        by (auto simp: tolower_char_def split: if_splits)
      define n :: nat where "n = of_char c + 32"
      have "(of_char (char_of n) :: nat) = of_char (CHR ''*'')" unfolding n_def b(3) ..
      then show False using b(1,2) unfolding of_char_of by (simp add: n_def)
    qed
  qed (simp add: tolower_char_def)
  then show "CHR ''*'' = tolower_char c \<longleftrightarrow> c = CHR ''*''" by metis
qed

section \<open>Correctness of the loop\<close>

text \<open>
  What the loop knows about the last star: since it was met the pattern and the string have advanced
  by the same number of positions, over pattern characters that are not stars.
\<close>

definition back_ok :: "string \<Rightarrow> nat \<Rightarrow> nat \<Rightarrow> (nat \<times> nat) option \<Rightarrow> bool" where
  "back_ok pattern p s bk \<longleftrightarrow> (case bk of None \<Rightarrow> True | Some (st, m) \<Rightarrow>
     m \<le> s \<and> p = st + 1 + (s - m) \<and> p \<le> length pattern \<and> CHR ''*'' \<notin> set (take (s - m) (drop (st + 1) pattern)))"

definition retry :: "string \<Rightarrow> string \<Rightarrow> (nat \<times> nat) option \<Rightarrow> bool" where
  "retry pattern str bk \<longleftrightarrow> (case bk of None \<Rightarrow> False | Some (st, m) \<Rightarrow>
     \<exists>k > m. k \<le> length str \<and> glob (drop (st + 1) pattern) (drop k str))"

lemma retry_glob:
  assumes "back_ok pattern p s (Some (st, m))" "glob (drop (st + 1) pattern) (drop k str)" "m < k" "k \<le> length str"
  shows "s < k + (s - m)" "k + (s - m) \<le> length str" "glob (drop p pattern) (drop (k + (s - m)) str)"
proof -
  let ?w = "take (s - m) (drop (st + 1) pattern)"
  have len: "length ?w = s - m" using assms(1) by (auto simp: back_ok_def)
  have "drop (st + 1) pattern = ?w @ drop p pattern"
    using assms(1) append_take_drop_id [of "s - m" "drop (st + 1) pattern"] by (simp add: back_ok_def add.commute)
  then have "length ?w \<le> length (drop k str) \<and> glob (drop p pattern) (drop (length ?w) (drop k str))"
    using assms(1,2) by (intro glob_plain) (auto simp: back_ok_def)
  then show "s < k + (s - m)" "k + (s - m) \<le> length str" "glob (drop p pattern) (drop (k + (s - m)) str)"
    using assms(1,3,4) unfolding len by (auto simp: back_ok_def add.commute)
qed

lemma back_ok_advance:
  assumes "back_ok pattern p s bk" "p < length pattern" "pattern ! p \<noteq> CHR ''*''"
  shows "back_ok pattern (p + 1) (s + 1) bk"
proof (cases bk)
  case (Some b)
  obtain st m where b: "b = (st, m)" by force
  from assms(1) Some b have o: "m \<le> s" "p = st + 1 + (s - m)" "CHR ''*'' \<notin> set (take (s - m) (drop (st + 1) pattern))"
    by (auto simp: back_ok_def)
  have "take (Suc (s - m)) (drop (st + 1) pattern) = take (s - m) (drop (st + 1) pattern) @ [pattern ! p]"
    using o(2) assms(2) by (subst take_Suc_conv_app_nth) (auto simp: add.commute add.left_commute)
  moreover have "s + 1 - m = Suc (s - m)" using o(1) by simp
  ultimately show ?thesis using o assms(2,3) Some b by (auto simp: back_ok_def)
qed (simp add: back_ok_def)

lemma retry_star:
  assumes "s < length str" "p < length pattern" "pattern ! p = CHR ''*''"
  shows "glob (drop (p + 1) pattern) (drop s str) \<or> retry pattern str (Some (p, s)) \<longleftrightarrow> glob (drop p pattern) (drop s str)"
proof -
  have "drop p pattern = CHR ''*'' # drop (p + 1) pattern" using assms(2,3) Cons_nth_drop_Suc by fastforce
  then have g: "glob (drop p pattern) (drop s str) \<longleftrightarrow>
      (\<exists>k \<le> length str - s. glob (drop (p + 1) pattern) (drop (s + k) str))"
    by (simp add: glob_star add.commute)
  have e: "(\<exists>k \<le> length str - s. P (s + k)) \<longleftrightarrow> P s \<or> (\<exists>k > s. k \<le> length str \<and> P k)" for P
  proof (safe)
    fix k assume "k \<le> length str - s" "P (s + k)" "\<not> (\<exists>k > s. k \<le> length str \<and> P k)"
    then show "P s" using assms(1) by (cases k) auto
  next
    assume "P s"
    then show "\<exists>k \<le> length str - s. P (s + k)" by (intro exI [of _ 0]) simp
  next
    fix k assume "s < k" "k \<le> length str" "P k"
    then show "\<exists>k \<le> length str - s. P (s + k)" by (intro exI [of _ "k - s"]) simp
  qed
  show ?thesis
    unfolding g retry_def option.case prod.case
    using e [of "\<lambda>k. glob (drop (p + 1) pattern) (drop k str)"] by blast
qed

text \<open>Whatever could be retried at an older star, the newer star matches as well.\<close>

lemma retry_absorbed:
  assumes "back_ok pattern p s bk" "drop p pattern = pattern ! p # drop (p + 1) pattern" "pattern ! p = CHR ''*''"
    and "retry pattern str bk"
  shows "glob (drop p pattern) (drop s str)"
proof -
  obtain st m k where bk: "bk = Some (st, m)" and k: "m < k" "k \<le> length str" "glob (drop (st + 1) pattern) (drop k str)"
    using assms(4) by (auto simp: retry_def split: option.splits)
  let ?j = "k + (s - m)"
  note r = retry_glob [OF assms(1) [unfolded bk] k(3,1,2)]
  have "drop ?j str = drop (?j - s) (drop s str)" using r(1) by simp
  then show ?thesis using r assms(2,3) glob_star_absorb [of "?j - s" "drop s str" "drop (p + 1) pattern"] by simp
qed

lemma mismatch:
  assumes s: "s < length str" and no: "\<not> (p < length pattern \<and> (pattern ! p = CHR ''?'' \<or>
      tolower_char (pattern ! p) = tolower_char (str ! s)))" "\<not> (p < length pattern \<and> pattern ! p = CHR ''*'')"
    and bk: "back_ok pattern p s bk"
    and IH: "\<And>st m. bk = Some (st, m) \<Longrightarrow> m + 1 \<le> length str \<Longrightarrow> back_ok pattern (st + 1) (m + 1) (Some (st, m + 1)) \<Longrightarrow>
      wildcard_loop pattern str (st + 1) (m + 1) (Some (st, m + 1)) \<longleftrightarrow>
        glob (drop (st + 1) pattern) (drop (m + 1) str) \<or> retry pattern str (Some (st, m + 1))"
  shows "wildcard_loop pattern str p s bk \<longleftrightarrow> retry pattern str bk"
proof (cases bk)
  case None
  with s no show ?thesis by (subst wildcard_loop.simps) (auto simp: retry_def)
next
  case (Some b)
  obtain st m where b: "b = (st, m)" by force
  with Some bk s have o: "m + 1 \<le> length str" "st + 1 \<le> length pattern" by (auto simp: back_ok_def)
  have "wildcard_loop pattern str p s bk = wildcard_loop pattern str (st + 1) (m + 1) (Some (st, m + 1))"
    unfolding Some b using s no by (subst wildcard_loop.simps) auto
  also have "\<dots> \<longleftrightarrow> glob (drop (st + 1) pattern) (drop (m + 1) str) \<or> retry pattern str (Some (st, m + 1))"
    using Some b o by (intro IH) (auto simp: back_ok_def)
  also have "\<dots> \<longleftrightarrow> retry pattern str bk"
  proof -
    have split: "m < k \<longleftrightarrow> k = m + 1 \<or> m + 1 < k" for k by auto
    show ?thesis unfolding Some b retry_def option.case prod.case split [of _] using o(1) by blast
  qed
  finally show ?thesis .
qed

lemma wildcard_loop_glob:
  assumes "CHR ''*'' \<notin> set str" "s \<le> length str" "back_ok pattern p s bk"
  shows "wildcard_loop pattern str p s bk \<longleftrightarrow> glob (drop p pattern) (drop s str) \<or> retry pattern str bk"
  using assms
proof (induction pattern str p s bk rule: wildcard_loop.induct)
  case (1 pattern str p s bk)
  show ?case
  proof (cases "s < length str")
    case False
    have "\<not> retry pattern str bk"
      using retry_glob(2) [of pattern p s _ _ _ str] "1.prems" False
      by (fastforce simp: retry_def split: option.splits)
    moreover have "wildcard_loop pattern str p s bk \<longleftrightarrow> glob (drop p pattern) []"
      using False by (subst wildcard_loop.simps) (simp add: glob_Nil)
    ultimately show ?thesis using False by simp
  next
    case s: True
    then have str: "drop s str = str ! s # drop (s + 1) str" by (simp add: Cons_nth_drop_Suc)
    have nostar: "str ! s \<noteq> CHR ''*''" using "1.prems"(1) s by (metis nth_mem)
    show ?thesis
    proof (cases "p < length pattern")
      case p: True
      then have pat: "drop p pattern = pattern ! p # drop (p + 1) pattern" by (simp add: Cons_nth_drop_Suc)
      let ?eq = "pattern ! p = CHR ''?'' \<or> tolower_char (pattern ! p) = tolower_char (str ! s)"
      consider (eq) ?eq "pattern ! p \<noteq> CHR ''*''" | (star) "pattern ! p = CHR ''*''" "\<not> ?eq" | (diff) "\<not> ?eq" "pattern ! p \<noteq> CHR ''*''"
        using nostar tolower_star by (cases "pattern ! p = CHR ''*''") auto
      then show ?thesis
      proof cases
        case eq
        have "wildcard_loop pattern str p s bk = wildcard_loop pattern str (p + 1) (s + 1) bk"
          using s p eq by (subst wildcard_loop.simps) simp
        also have "\<dots> \<longleftrightarrow> glob (drop (p + 1) pattern) (drop (s + 1) str) \<or> retry pattern str bk"
          using s p eq "1.prems" back_ok_advance by (intro "1.IH"(1)) auto
        finally show ?thesis using eq by (simp add: str pat)
      next
        case star
        have "wildcard_loop pattern str p s bk = wildcard_loop pattern str (p + 1) s (Some (p, s))"
          using s p star by (subst wildcard_loop.simps) simp
        also have "\<dots> \<longleftrightarrow> glob (drop (p + 1) pattern) (drop s str) \<or> retry pattern str (Some (p, s))"
          using s p star "1.prems" by (intro "1.IH"(2)) (auto simp: back_ok_def)
        also have "\<dots> \<longleftrightarrow> glob (drop p pattern) (drop s str)"
          using retry_star [OF s p star(1)] .
        finally show ?thesis using retry_absorbed [OF "1.prems"(3) pat star(1)] by blast
      next
        case diff
        have "\<not> glob (drop p pattern) (drop s str)" using diff by (simp add: str pat)
        moreover have "wildcard_loop pattern str p s bk \<longleftrightarrow> retry pattern str bk"
          using s p diff "1.prems" "1.IH"(3) by (intro mismatch) auto
        ultimately show ?thesis by blast
      qed
    next
      case False
      then have "\<not> glob (drop p pattern) (drop s str)" by (simp add: str)
      moreover have "wildcard_loop pattern str p s bk \<longleftrightarrow> retry pattern str bk"
        using s False "1.prems" "1.IH"(3) by (intro mismatch) auto
      ultimately show ?thesis by blast
    qed
  qed
qed

text \<open>
  C24.  The matcher decides the meaning of patterns, in which a star stands for any text, a question mark
  for any character and letters match without case: although it remembers only the last star, no
  match is missed.  The name of the display must not contain a star itself.
\<close>

theorem wildcardMatch_glob:
  assumes "CHR ''*'' \<notin> set str"
  shows "wildcardMatch pattern str \<longleftrightarrow> pattern = [] \<or> glob pattern str"
proof (cases "pattern = [] \<or> pattern = ''*''")
  case True
  then show ?thesis by (auto simp: wildcardMatch_def glob_star intro: exI [of _ "length str"])
next
  case False
  then show ?thesis
    using wildcard_loop_glob [of str 0 pattern 0 None] assms by (simp add: wildcardMatch_def back_ok_def retry_def)
qed

theorem wildcardMatch_glob_witness: "wildcardMatch ''sync*03?1*'' ''SyncMaster:HQ0303710'' \<and> \<not> wildcardMatch ''a*b'' ''abc''"
proof -
  have "glob ''sync*03?1*'' ''SyncMaster:HQ0303710''" "\<not> glob ''a*b'' ''abc''" by code_simp+
  then show ?thesis
    using wildcardMatch_glob [of "''SyncMaster:HQ0303710''" "''sync*03?1*''"] wildcardMatch_glob [of "''abc''" "''a*b''"] by simp
qed

text \<open>A star in the name takes the place of the star in the pattern, and the match fails.\<close>

lemma wildcardMatch_literal_star: "glob ''*a'' ''*ba'' \<and> \<not> wildcardMatch ''*a'' ''*ba''"
  by code_simp

end
