(* ===== verification/Server_Geometry.thy ===== *)
theory Server_Geometry
  imports Config_Topology Wildcard_Match Clipboard_Data "HOL-Library.Monad_Syntax"
begin

text \<open>
  The server of \<^verbatim>\<open>server/Server.cpp\<close>, first part: its state, and where the cursor is and where it goes.
  Clients are pointers into a heap of client objects; using a pointer whose object is gone is
  \<open>None\<close>.  Coordinates are \<^verbatim>\<open>SInt32\<close>, whose overflow C++ leaves undefined, and are modelled as \<open>int\<close>.
  Fractions along an edge are \<^verbatim>\<open>float\<close>.
\<close>

section \<open>State\<close>

type_synonym client = nat

record DisplayInfo =
  di_id :: string
  di_name :: string
  di_x :: int
  di_y :: int
  di_w :: int
  di_h :: int
  di_isPrimary :: bool

record ActiveMonitor =
  am_logicalName :: string
  am_host :: client
  am_display :: DisplayInfo

text \<open>
  What the server sees of a client: its name, shape, displays and cursor, which the client reports,
  and the position to return to, which \<^verbatim>\<open>BaseClientProxy\<close> keeps.
\<close>

record BaseClientProxy =
  bc_name :: string
  bc_shape :: "int \<times> int \<times> int \<times> int"
  bc_displays :: "DisplayInfo list"
  bc_cursorPos :: "int \<times> int"
  bc_jumpPos :: "int \<times> int"

record ClipboardInfo =
  ci_clipboard :: Clipboard
  ci_clipboardData :: bytes
  ci_clipboardOwner :: string
  ci_clipboardSeqNum :: UInt32

text \<open>What the server tells clients, the primary screen and the event queue, in order.\<close>

datatype srv_output =
    Leave client
  | Enter client int int UInt32 UInt32 bool
  | MouseMove client int int
  | MouseRelativeMove client int int
  | MouseDown client UInt8
  | MouseUp client UInt8
  | MouseWheel client int int
  | KeyDown client UInt32 UInt32 UInt16
  | KeyUp client UInt32 UInt32 UInt16
  | KeyRepeat client UInt32 UInt32 int UInt16
  | SetClipboard client nat Clipboard
  | SetClipboardDirty client nat bool
  | GrabClipboard client nat
  | Screensaver client bool
  | ResetOptions client
  | SetOptions client "UInt32 list"
  | CloseClient client string
  | SendFile client string
  | Reconfigure UInt32
  | ScreenSwitched string
  | ScreenConnected string
  | ServerDisconnected

record Server =
  s_heap :: "client \<rightharpoonup> BaseClientProxy"
  s_primaryClient :: client
  s_clients :: "(string, client) smap"
  s_clientSet :: "client list"
  s_oldClients :: "client list"
  s_active :: client
  s_seqNum :: UInt32
  s_x :: int
  s_y :: int
  s_xDelta :: int
  s_yDelta :: int
  s_xDelta2 :: int
  s_yDelta2 :: int
  s_config :: Config
  s_clipboards :: "ClipboardInfo list"
  s_activeSaver :: "client option"
  s_xSaver :: int
  s_ySaver :: int
  s_switchDir :: EDirection
  s_switchScreen :: "client option"
  s_switchWaitDelay :: rat
  s_switchWaitTimer :: bool
  s_switchWaitX :: int
  s_switchWaitY :: int
  s_switchTwoTapDelay :: rat
  s_switchTwoTapTimer :: rat
  s_switchTwoTapEngaged :: bool
  s_switchTwoTapArmed :: bool
  s_switchTwoTapZone :: int
  s_switchNeedsShift :: bool
  s_switchNeedsControl :: bool
  s_switchNeedsAlt :: bool
  s_relativeMoves :: bool
  s_keyboardBroadcasting :: bool
  s_keyboardBroadcastingScreens :: string
  s_lockedToScreen :: bool
  s_enableClipboard :: bool
  s_sendFileThread :: bool
  s_ignoreFileTransfer :: bool
  s_waitDragInfoThread :: bool
  s_lastCopiedFile :: string
  s_copiedFileSentTo :: "client list"
  s_activeMonitors :: "(string, ActiveMonitor) smap"
  s_out :: "srv_output list"

text \<open>
  The initialisers of the constructor.  It leaves the cursor position, the saved positions and the
  start of the double tap timer open; they are arguments.  Clipboards and clients follow in the body.
\<close>

definition Server_init :: "(client \<rightharpoonup> BaseClientProxy) \<Rightarrow> Config \<Rightarrow> client \<Rightarrow> int \<Rightarrow> int \<Rightarrow> rat \<Rightarrow> Server" where
  "Server_init heap config primaryClient x0 y0 now = \<lparr>
     s_heap = heap, s_primaryClient = primaryClient, s_clients = [], s_clientSet = [], s_oldClients = [],
     s_active = primaryClient, s_seqNum = 0, s_x = x0, s_y = y0, s_xDelta = 0, s_yDelta = 0, s_xDelta2 = 0, s_yDelta2 = 0,
     s_config = config, s_clipboards = [], s_activeSaver = None, s_xSaver = x0, s_ySaver = y0,
     s_switchDir = kNoDirection, s_switchScreen = None, s_switchWaitDelay = 0, s_switchWaitTimer = False,
     s_switchWaitX = x0, s_switchWaitY = y0, s_switchTwoTapDelay = 0, s_switchTwoTapTimer = now,
     s_switchTwoTapEngaged = False, s_switchTwoTapArmed = False, s_switchTwoTapZone = 3,
     s_switchNeedsShift = False, s_switchNeedsControl = False, s_switchNeedsAlt = False, s_relativeMoves = False,
     s_keyboardBroadcasting = False, s_keyboardBroadcastingScreens = [], s_lockedToScreen = False,
     s_enableClipboard = True, s_sendFileThread = False, s_ignoreFileTransfer = False, s_waitDragInfoThread = True,
     s_lastCopiedFile = [], s_copiedFileSentTo = [], s_activeMonitors = [], s_out = []\<rparr>"

section \<open>Names and objects\<close>

text \<open>\<^verbatim>\<open>std::less<std::string>\<close>, the order of \<^verbatim>\<open>m_clients\<close> and \<^verbatim>\<open>m_activeMonitors\<close>: by bytes, with case.\<close>

fun str_less :: "string \<Rightarrow> string \<Rightarrow> bool" where
  "str_less _ [] \<longleftrightarrow> False"
| "str_less [] (_ # _) \<longleftrightarrow> True"
| "str_less (a # as) (b # bs) \<longleftrightarrow>
     (of_char a :: nat) < of_char b \<or> (of_char a :: nat) = of_char b \<and> str_less as bs"

text \<open>\<^verbatim>\<open>m[k] = v\<close>\<close>

definition smap_assign :: "string \<Rightarrow> 'v \<Rightarrow> (string, 'v) smap \<Rightarrow> (string, 'v) smap" where
  "smap_assign k v m =
     (case smap_find str_less k m of
        None \<Rightarrow> smap_insert str_less k v m
      | Some _ \<Rightarrow> smap_update str_less k (\<lambda>_. v) m)"

definition deref :: "Server \<Rightarrow> client \<Rightarrow> BaseClientProxy option" where
  "deref s c = s_heap s c"

definition Server_getName :: "Server \<Rightarrow> client \<Rightarrow> string option" where
  "Server_getName s c = do {
     obj \<leftarrow> deref s c;
     let name = getCanonicalName (s_config s) (bc_name obj);
     Some (if name = [] then bc_name obj else name)
   }"

section \<open>Fractions of an edge\<close>

text \<open>
  \<^verbatim>\<open>static_cast<float>(pos - start + 0.5F) / static_cast<float>(len)\<close>.  For an empty edge the result is
  infinite; as every link interval lies within 0 and 1, the values 2 and -1 stand for it.
\<close>

definition fraction :: "int \<Rightarrow> int \<Rightarrow> int \<Rightarrow> rat" where
  "fraction pos start len =
     (let n = round32 (round32 (of_int (pos - start)) + 1 / 2) in
      if len = 0 then (if n > 0 then 2 else -1) else round32 (n / round32 (of_int len)))"

definition along :: "EDirection \<Rightarrow> int \<Rightarrow> int \<Rightarrow> int \<Rightarrow> int \<Rightarrow> int \<Rightarrow> int \<Rightarrow> rat" where
  "along dir x y sx sy sw sh =
     (case dir of
        kLeft \<Rightarrow> fraction y sy sh
      | kRight \<Rightarrow> fraction y sy sh
      | kTop \<Rightarrow> fraction x sx sw
      | kBottom \<Rightarrow> fraction x sx sw
      | kNoDirection \<Rightarrow> 0)"

definition mapToFraction :: "Server \<Rightarrow> client \<Rightarrow> EDirection \<Rightarrow> int \<Rightarrow> int \<Rightarrow> rat option" where
  "mapToFraction s c dir x y = do {
     obj \<leftarrow> deref s c;
     let (sx, sy, sw, sh) = bc_shape obj;
     if dir = kNoDirection then None else Some (along dir x y sx sy sw sh)
   }"

text \<open>\<^verbatim>\<open>static_cast<SInt32>(f * len)\<close>\<close>

definition scale :: "rat \<Rightarrow> int \<Rightarrow> int" where
  "scale f len = (let v = round32 (f * round32 (of_int len)) in if v \<ge> 0 then \<lfloor>v\<rfloor> else \<lceil>v\<rceil>)"

definition mapToPixel :: "Server \<Rightarrow> client \<Rightarrow> EDirection \<Rightarrow> rat \<Rightarrow> int \<Rightarrow> int \<Rightarrow> (int \<times> int) option" where
  "mapToPixel s c dir f x y = do {
     obj \<leftarrow> deref s c;
     let (sx, sy, sw, sh) = bc_shape obj;
     case dir of
        kLeft \<Rightarrow> Some (x, scale f sh + sy)
      | kRight \<Rightarrow> Some (x, scale f sh + sy)
      | kTop \<Rightarrow> Some (scale f sw + sx, y)
      | kBottom \<Rightarrow> Some (scale f sw + sx, y)
      | kNoDirection \<Rightarrow> None
   }"

text \<open>The bounds \<^verbatim>\<open>if (t < 0.0F) t = 0.0F; if (t >= 1.0F) t = 0.9999F;\<close>\<close>

definition clamp_fraction :: "rat \<Rightarrow> rat" where
  "clamp_fraction t = (let t' = (if t < 0 then 0 else t) in if t' \<ge> 1 then round32 (9999 / 10000) else t')"

definition clamp_to :: "int \<Rightarrow> int \<Rightarrow> int \<Rightarrow> int" where
  "clamp_to v lo len = (if v < lo then lo else if v \<ge> lo + len then lo + len - 1 else v)"

section \<open>Displays and monitors\<close>

definition contains_point :: "DisplayInfo \<Rightarrow> int \<Rightarrow> int \<Rightarrow> bool" where
  "contains_point d x y \<longleftrightarrow> x \<ge> di_x d \<and> x < di_x d + di_w d \<and> y \<ge> di_y d \<and> y < di_y d + di_h d"

definition same_rect :: "DisplayInfo \<Rightarrow> DisplayInfo \<Rightarrow> bool" where
  "same_rect a b \<longleftrightarrow> di_x a = di_x b \<and> di_y a = di_y b \<and> di_w a = di_w b \<and> di_h a = di_h b"

definition monitor_matches :: "MonitorConfig \<Rightarrow> DisplayInfo \<Rightarrow> bool" where
  "monitor_matches cfg disp =
     (if mc_matchPattern cfg \<noteq> []
      then wildcardMatch (mc_matchPattern cfg) (di_name disp) \<or> wildcardMatch (mc_matchPattern cfg) (di_id disp)
      else wildcardMatch (mc_name cfg) (di_name disp) \<or> wildcardMatch (mc_name cfg) (di_id disp))"

text \<open>The first display of the first client, in the order of \<^verbatim>\<open>m_clientSet\<close>, that matches.\<close>

fun find_monitor :: "Server \<Rightarrow> MonitorConfig \<Rightarrow> client list \<Rightarrow> ActiveMonitor option option" where
  "find_monitor s cfg [] = Some None"
| "find_monitor s cfg (c # cs) = do {
     obj \<leftarrow> deref s c;
     case find (monitor_matches cfg) (bc_displays obj) of
        Some disp \<Rightarrow> Some (Some \<lparr>am_logicalName = mc_name cfg, am_host = c, am_display = disp\<rparr>)
      | None \<Rightarrow> find_monitor s cfg cs
   }"

fun update_monitors :: "Server \<Rightarrow> (string, MonitorConfig) smap \<Rightarrow> (string, ActiveMonitor) smap \<Rightarrow>
    (string, ActiveMonitor) smap option" where
  "update_monitors s [] m = Some m"
| "update_monitors s ((_, cfg) # cfgs) m = do {
     found \<leftarrow> find_monitor s cfg (s_clientSet s);
     update_monitors s cfgs (case found of None \<Rightarrow> m | Some a \<Rightarrow> smap_assign (mc_name cfg) a m)
   }"

definition updateActiveMonitors :: "Server \<Rightarrow> Server option" where
  "updateActiveMonitors s = do {
     m \<leftarrow> update_monitors s (cfg_monitors (s_config s)) [];
     Some (s\<lparr>s_activeMonitors := m\<rparr>)
   }"

definition resolveMonName :: "Server \<Rightarrow> client \<Rightarrow> DisplayInfo \<Rightarrow> string option" where
  "resolveMonName s c disp =
     (case find (\<lambda>(_, a). am_host a = c \<and> di_x (am_display a) = di_x disp \<and> di_y (am_display a) = di_y disp)
             (s_activeMonitors s) of
        Some (k, _) \<Rightarrow> Some k
      | None \<Rightarrow>
          (case find (\<lambda>(_, cfg). monitor_matches cfg disp) (cfg_monitors (s_config s)) of
             Some (_, cfg) \<Rightarrow> Some (mc_name cfg)
           | None \<Rightarrow> Server_getName s c))"

definition dist_sq :: "int \<Rightarrow> int \<Rightarrow> DisplayInfo \<Rightarrow> int" where
  "dist_sq x y d =
     (let cx = max (di_x d) (min x (di_x d + di_w d - 1)); cy = max (di_y d) (min y (di_y d + di_h d - 1))
      in (x - cx) * (x - cx) + (y - cy) * (y - cy))"

fun nearest_display :: "int \<Rightarrow> int \<Rightarrow> (DisplayInfo \<times> int) option \<Rightarrow> DisplayInfo list \<Rightarrow> (DisplayInfo \<times> int) option" where
  "nearest_display x y best [] = best"
| "nearest_display x y best (d # ds) =
     nearest_display x y
       (case best of
          None \<Rightarrow> Some (d, dist_sq x y d)
        | Some (_, m) \<Rightarrow> if dist_sq x y d < m then Some (d, dist_sq x y d) else best) ds"

text \<open>
  \<^verbatim>\<open>getActiveMonitorShape\<close>: whether a display was found, its rectangle and its name.
\<close>

definition getActiveMonitorShape ::
    "Server \<Rightarrow> client \<Rightarrow> int \<Rightarrow> int \<Rightarrow> (bool \<times> (int \<times> int \<times> int \<times> int) \<times> string) option" where
  "getActiveMonitorShape s c x y = do {
     obj \<leftarrow> deref s c;
     case find (\<lambda>d. contains_point d x y) (bc_displays obj) of
        Some d \<Rightarrow> do {
          name \<leftarrow> resolveMonName s c d;
          Some (True, (di_x d, di_y d, di_w d, di_h d), name)
        }
      | None \<Rightarrow>
          (case nearest_display x y None (bc_displays obj) of
             Some (d, m) \<Rightarrow>
               if m \<le> 2500 then do {
                 name \<leftarrow> resolveMonName s c d;
                 Some (True, (di_x d, di_y d, di_w d, di_h d), name)
               } else do {
                 name \<leftarrow> Server_getName s c;
                 Some (False, bc_shape obj, name)
               }
           | None \<Rightarrow> do {
               name \<leftarrow> Server_getName s c;
               Some (False, bc_shape obj, name)
             })
   }"

definition adjacent_display :: "EDirection \<Rightarrow> int \<Rightarrow> int \<Rightarrow> int \<Rightarrow> int \<Rightarrow> DisplayInfo \<Rightarrow> bool" where
  "adjacent_display dir ax ay aw ah d \<longleftrightarrow>
     (case dir of
        kLeft \<Rightarrow> \<bar>(di_x d + di_w d) - ax\<bar> \<le> 50 \<and> max ay (di_y d) < min (ay + ah) (di_y d + di_h d)
      | kRight \<Rightarrow> \<bar>di_x d - (ax + aw)\<bar> \<le> 50 \<and> max ay (di_y d) < min (ay + ah) (di_y d + di_h d)
      | kTop \<Rightarrow> \<bar>(di_y d + di_h d) - ay\<bar> \<le> 50 \<and> max ax (di_x d) < min (ax + aw) (di_x d + di_w d)
      | kBottom \<Rightarrow> \<bar>di_y d - (ay + ah)\<bar> \<le> 50 \<and> max ax (di_x d) < min (ax + aw) (di_x d + di_w d)
      | kNoDirection \<Rightarrow> False)"

text \<open>\<^verbatim>\<open>hasLocalDisplayInDirection\<close>: the name of the first such display, if there is one.\<close>

definition hasLocalDisplayInDirection ::
    "Server \<Rightarrow> client \<Rightarrow> int \<times> int \<times> int \<times> int \<Rightarrow> EDirection \<Rightarrow> string option option" where
  "hasLocalDisplayInDirection s c shape dir = do {
     obj \<leftarrow> deref s c;
     let (ax, ay, aw, ah) = shape;
     if length (bc_displays obj) \<le> 1 then Some None
     else
       case find (\<lambda>d. \<not> (di_x d = ax \<and> di_y d = ay \<and> di_w d = aw \<and> di_h d = ah) \<and>
                      adjacent_display dir ax ay aw ah d) (bc_displays obj) of
         None \<Rightarrow> Some None
       | Some d \<Rightarrow> do {
           name \<leftarrow> resolveMonName s c d;
           Some (Some name)
         }
   }"

definition hasAnyNeighbor :: "Server \<Rightarrow> client \<Rightarrow> EDirection \<Rightarrow> bool option" where
  "hasAnyNeighbor s c dir = do {
     name \<leftarrow> Server_getName s c;
     b \<leftarrow> hasNeighbor (s_config s) name dir;
     if b then Some True
     else Some (list_ex (\<lambda>(k, a). am_host a = c \<and> hasNeighbor (s_config s) k dir = Some True) (s_activeMonitors s))
   }"

section \<open>The neighbor in a direction\<close>

text \<open>The point where the cursor enters a rectangle in a direction; without a direction it stays.\<close>

definition entry_point :: "EDirection \<Rightarrow> rat \<Rightarrow> int \<times> int \<times> int \<times> int \<Rightarrow> int \<Rightarrow> int \<Rightarrow> int \<times> int" where
  "entry_point dir t rect x y =
     (let (sx, sy, sw, sh) = rect;
          (x', y') = (case dir of
             kLeft \<Rightarrow> (sx + sw - 1, sy + scale t sh)
           | kRight \<Rightarrow> (sx, sy + scale t sh)
           | kTop \<Rightarrow> (sx + scale t sw, sy + sh - 1)
           | kBottom \<Rightarrow> (sx + scale t sw, sy)
           | kNoDirection \<Rightarrow> (x, y))
      in (clamp_to x' sx sw, clamp_to y' sy sh))"

definition claimedByOther :: "Server \<Rightarrow> string \<Rightarrow> client \<Rightarrow> DisplayInfo \<Rightarrow> bool" where
  "claimedByOther s dstName c d \<longleftrightarrow>
     list_ex (\<lambda>(k, a). k \<noteq> dstName \<and> am_host a = c \<and> same_rect (am_display a) d) (s_activeMonitors s)"

definition targetDisplays :: "Server \<Rightarrow> string \<Rightarrow> client \<Rightarrow> DisplayInfo list \<Rightarrow> DisplayInfo list" where
  "targetDisplays s dstName c ds =
     (let ts = filter (\<lambda>d. \<not> claimedByOther s dstName c d) ds in if ts = [] then ds else ts)"

definition bounding_rect :: "DisplayInfo \<Rightarrow> DisplayInfo list \<Rightarrow> int \<times> int \<times> int \<times> int" where
  "bounding_rect d ds =
     (let (minX, minY, maxX, maxY) =
        foldl (\<lambda>(minX, minY, maxX, maxY) d.
            (min minX (di_x d), min minY (di_y d), max maxX (di_x d + di_w d), max maxY (di_y d + di_h d)))
          (di_x d, di_y d, di_x d + di_w d, di_y d + di_h d) ds
      in (minX, minY, maxX - minX, maxY - minY))"

definition better_edge :: "EDirection \<Rightarrow> DisplayInfo \<Rightarrow> DisplayInfo \<Rightarrow> bool" where
  "better_edge dir d best \<longleftrightarrow>
     (case dir of
        kLeft \<Rightarrow> di_x d + di_w d > di_x best + di_w best
      | kRight \<Rightarrow> di_x d < di_x best
      | kTop \<Rightarrow> di_y d + di_h d > di_y best + di_h best
      | kBottom \<Rightarrow> di_y d < di_y best
      | kNoDirection \<Rightarrow> False)"

text \<open>The display at the edge where the cursor enters; without a direction none is chosen.\<close>

definition bestEdgeDisp :: "EDirection \<Rightarrow> DisplayInfo list \<Rightarrow> DisplayInfo option" where
  "bestEdgeDisp dir ds =
     (if dir = kNoDirection then None
      else foldl (\<lambda>best d. case best of
                    None \<Rightarrow> Some d
                  | Some b \<Rightarrow> if better_edge dir d b then Some d else best) None ds)"

definition enter_displays :: "EDirection \<Rightarrow> rat \<Rightarrow> DisplayInfo list \<Rightarrow> int \<times> int \<times> int \<times> int \<Rightarrow> int \<Rightarrow> int \<Rightarrow> int \<times> int" where
  "enter_displays dir t ds shape x y =
     (let rect = (case ds of [] \<Rightarrow> shape | d # ds' \<Rightarrow> bounding_rect d ds');
          (x', y') = entry_point dir t rect x y
      in if ds \<noteq> [] \<and> \<not> list_ex (\<lambda>d. contains_point d x' y') ds then
           (case bestEdgeDisp dir ds of
              None \<Rightarrow> (x', y')
            | Some b \<Rightarrow> (clamp_to x' (di_x b) (di_w b), clamp_to y' (di_y b) (di_h b)))
         else (x', y'))"

text \<open>
  One pass of the search loop: \<open>Inl\<close> is a return, of the client found and the position on it or of the
  null pointer; \<open>Inr\<close> goes on from the skipped screen and the position on it.
\<close>

definition search_step ::
    "Server \<Rightarrow> EDirection \<Rightarrow> int \<Rightarrow> int \<Rightarrow> string \<Rightarrow> rat \<Rightarrow> ((client \<times> int \<times> int) option + string \<times> rat) option" where
  "search_step s dir x y srcName t =
     (case getNeighbor (s_config s) srcName dir t of
        None \<Rightarrow> None
      | Some (dstName, q) \<Rightarrow>
          if dstName = [] then Some (Inl None)
          else
            let tTmp = clamp_fraction (case q of None \<Rightarrow> 0 | Some q' \<Rightarrow> q') in
            case smap_find str_less dstName (s_activeMonitors s) of
              Some (_, a) \<Rightarrow>
                let d = am_display a; (x', y') = entry_point dir tTmp (di_x d, di_y d, di_w d, di_h d) x y
                in Some (Inl (Some (am_host a, x', y')))
            | None \<Rightarrow>
                (case smap_find str_less dstName (s_clients s) of
                   Some (_, c) \<Rightarrow>
                     (case deref s c of
                        None \<Rightarrow> None
                      | Some obj \<Rightarrow>
                          let (x', y') = enter_displays dir tTmp (targetDisplays s dstName c (bc_displays obj))
                                           (bc_shape obj) x y
                          in Some (Inl (Some (c, x', y'))))
                 | None \<Rightarrow> Some (Inr (dstName, tTmp))))"

text \<open>The loop, which may go round for ever: that is \<open>None\<close>.\<close>

partial_function (option) neighbor_search ::
    "Server \<Rightarrow> EDirection \<Rightarrow> int \<Rightarrow> int \<Rightarrow> string \<Rightarrow> rat \<Rightarrow> (client \<times> int \<times> int) option option" where
  "neighbor_search s dir x y srcName t =
     (case search_step s dir x y srcName t of
        None \<Rightarrow> None
      | Some (Inl r) \<Rightarrow> Some r
      | Some (Inr (dstName, t')) \<Rightarrow> neighbor_search s dir x y dstName t')"

definition Server_getNeighbor ::
    "Server \<Rightarrow> client \<Rightarrow> EDirection \<Rightarrow> int \<Rightarrow> int \<Rightarrow> (client \<times> int \<times> int) option option" where
  "Server_getNeighbor s src dir x y = do {
     name \<leftarrow> Server_getName s src;
     (found, (ax, ay, aw, ah), monName) \<leftarrow> getActiveMonitorShape s src x y;
     use \<leftarrow> (if \<not> found then Some False
             else if isMonitor (s_config s) monName then Some True
             else hasNeighbor (s_config s) monName dir);
     (srcName, t) \<leftarrow>
       (if use then Some (monName, along dir x y ax ay aw ah)
        else do { f \<leftarrow> mapToFraction s src dir x y; Some (name, f) });
     if srcName = [] then None
     else neighbor_search s dir x y srcName (clamp_fraction t)
   }"

definition opposite_side :: "EDirection \<Rightarrow> EDirection" where
  "opposite_side dir = (case dir of kLeft \<Rightarrow> kRight | kRight \<Rightarrow> kLeft | kTop \<Rightarrow> kBottom | kBottom \<Rightarrow> kTop
     | kNoDirection \<Rightarrow> kNoDirection)"

text \<open>\<^verbatim>\<open>avoidJumpZone\<close>, with the jump zone size \<open>z\<close> of the primary screen.\<close>

definition avoidJumpZone :: "Server \<Rightarrow> int \<Rightarrow> client \<Rightarrow> EDirection \<Rightarrow> int \<Rightarrow> int \<Rightarrow> (int \<times> int) option" where
  "avoidJumpZone s z dst dir x y =
     (if dst \<noteq> s_primaryClient s then Some (x, y)
      else do {
        dstName \<leftarrow> Server_getName s dst;
        (_, (dx, dy, dw, dh), monName) \<leftarrow> getActiveMonitorShape s dst x y;
        let t = (if dir = kLeft \<or> dir = kRight then fraction y dy dh else fraction x dx dw);
        (n1, _) \<leftarrow> getNeighbor (s_config s) dstName (opposite_side dir) t;
        linked \<leftarrow> (if n1 \<noteq> [] then Some True
                   else if monName \<noteq> [] then do {
                     (n2, _) \<leftarrow> getNeighbor (s_config s) monName (opposite_side dir) t;
                     Some (n2 \<noteq> [])
                   } else Some False);
        case dir of
          kLeft \<Rightarrow> Some (if linked \<and> x > dx + dw - 1 - z then (dx + dw - 1 - z, y) else (x, y))
        | kRight \<Rightarrow> Some (if linked \<and> x < dx + z then (dx + z, y) else (x, y))
        | kTop \<Rightarrow> Some (if linked \<and> y > dy + dh - 1 - z then (x, dy + dh - 1 - z) else (x, y))
        | kBottom \<Rightarrow> Some (if linked \<and> y < dy + z then (x, dy + z) else (x, y))
        | kNoDirection \<Rightarrow> None
      })"

definition mapToNeighbor ::
    "Server \<Rightarrow> int \<Rightarrow> client \<Rightarrow> EDirection \<Rightarrow> int \<Rightarrow> int \<Rightarrow> (client \<times> int \<times> int) option option" where
  "mapToNeighbor s z src dir x y = do {
     dst \<leftarrow> Server_getNeighbor s src dir x y;
     case dst of
       None \<Rightarrow> Some None
     | Some (c, x1, y1) \<Rightarrow> do {
         (x2, y2) \<leftarrow> avoidJumpZone s z c dir x1 y1;
         Some (Some (c, x2, y2))
       }
   }"

section \<open>Corners\<close>

definition kNoCornerMask :: UInt32 where "kNoCornerMask = 0"
definition kTopLeftMask :: UInt32 where "kTopLeftMask = 1"
definition kTopRightMask :: UInt32 where "kTopRightMask = 2"
definition kBottomLeftMask :: UInt32 where "kBottomLeftMask = 4"
definition kBottomRightMask :: UInt32 where "kBottomRightMask = 8"

definition corner_of :: "int \<times> int \<times> int \<times> int \<Rightarrow> int \<Rightarrow> int \<Rightarrow> int \<Rightarrow> UInt32" where
  "corner_of shape x y sz =
     (let (ax, ay, aw, ah) = shape;
          xSide = (if x \<le> ax then -1 else if x \<ge> ax + aw - 1 then 1 else (0 :: int));
          ySide = (if y \<le> ay then -1 else if y \<ge> ay + ah - 1 then 1 else (0 :: int))
      in if xSide \<noteq> 0 \<and> y < ay + sz then (if xSide < 0 then kTopLeftMask else kTopRightMask)
         else if xSide \<noteq> 0 \<and> y \<ge> ay + ah - sz then (if xSide < 0 then kBottomLeftMask else kBottomRightMask)
         else if ySide \<noteq> 0 \<and> x < ax + sz then (if ySide < 0 then kTopLeftMask else kBottomLeftMask)
         else if ySide \<noteq> 0 \<and> x \<ge> ax + aw - sz then (if ySide < 0 then kTopRightMask else kBottomRightMask)
         else kNoCornerMask)"

definition getCorner :: "Server \<Rightarrow> client \<Rightarrow> int \<Rightarrow> int \<Rightarrow> int \<Rightarrow> UInt32 option" where
  "getCorner s c x y sz = do {
     (_, shape, _) \<leftarrow> getActiveMonitorShape s c x y;
     Some (corner_of shape x y sz)
   }"

end
