(* ===== verification/Server_Search.thy ===== *)
theory Server_Search
  imports Server_Geometry
begin

text \<open>
  Properties of the neighbor search: the cursor always lands inside a display of a connected client,
  when the search returns, and that it need not return.
\<close>

section \<open>Landing inside\<close>

definition in_rect :: "int \<times> int \<times> int \<times> int \<Rightarrow> int \<Rightarrow> int \<Rightarrow> bool" where
  "in_rect rect x y \<longleftrightarrow> (case rect of (sx, sy, sw, sh) \<Rightarrow> sx \<le> x \<and> x < sx + sw \<and> sy \<le> y \<and> y < sy + sh)"

definition display_ok :: "DisplayInfo \<Rightarrow> bool" where
  "display_ok d \<longleftrightarrow> 0 < di_w d \<and> 0 < di_h d"

definition client_ok :: "BaseClientProxy \<Rightarrow> bool" where
  "client_ok obj \<longleftrightarrow> (case bc_shape obj of (_, _, w, h) \<Rightarrow> 0 < w \<and> 0 < h) \<and> list_all display_ok (bc_displays obj)"

text \<open>Where the cursor may be on a client: in one of its displays, or in its shape if it reports none.\<close>

definition on_client :: "BaseClientProxy \<Rightarrow> int \<Rightarrow> int \<Rightarrow> bool" where
  "on_client obj x y \<longleftrightarrow>
     (if bc_displays obj = [] then in_rect (bc_shape obj) x y else list_ex (\<lambda>d. contains_point d x y) (bc_displays obj))"

text \<open>Every active monitor is a display of its host, every connected client is alive, all sizes are positive.\<close>

definition geometry_ok :: "Server \<Rightarrow> bool" where
  "geometry_ok s \<longleftrightarrow>
     (\<forall>(_, c) \<in> set (s_clients s). \<exists>obj. deref s c = Some obj \<and> client_ok obj) \<and>
     (\<forall>(_, a) \<in> set (s_activeMonitors s). am_host a \<in> snd ` set (s_clients s) \<and>
        (\<exists>obj. deref s (am_host a) = Some obj \<and> am_display a \<in> set (bc_displays obj)))"

lemma clamp_to_in: "0 < len \<Longrightarrow> lo \<le> clamp_to v lo len \<and> clamp_to v lo len < lo + len"
  by (simp add: clamp_to_def)

lemma entry_point_in:
  assumes "0 < sw" "0 < sh" "entry_point dir t (sx, sy, sw, sh) x y = (x', y')"
  shows "in_rect (sx, sy, sw, sh) x' y'"
  using clamp_to_in [OF assms(1)] clamp_to_in [OF assms(2)] assms(3)
  by (auto simp: entry_point_def in_rect_def split: prod.splits)

lemma contains_point_rect: "contains_point d x y \<longleftrightarrow> in_rect (di_x d, di_y d, di_w d, di_h d) x y"
  by (auto simp: contains_point_def in_rect_def)

lemma bestEdge_fold:
  "foldl (\<lambda>best d. case best of None \<Rightarrow> Some d | Some b \<Rightarrow> if better_edge dir d b then Some d else best) best ds = Some b
    \<Longrightarrow> b \<in> set ds \<or> best = Some b"
proof (induction ds arbitrary: best)
  case (Cons d ds)
  then show ?case by (fastforce split: option.splits if_splits)
qed simp

lemma bestEdge_fold_Some:
  "best \<noteq> None \<or> ds \<noteq> [] \<Longrightarrow>
    foldl (\<lambda>best d. case best of None \<Rightarrow> Some d | Some b \<Rightarrow> if better_edge dir d b then Some d else best) best ds \<noteq> None"
proof (induction ds arbitrary: best)
  case (Cons d ds)
  have "(case best of None \<Rightarrow> Some d | Some b \<Rightarrow> if better_edge dir d b then Some d else best) \<noteq> None"
    by (cases best) auto
  from Cons.IH [OF disjI1, OF this] show ?case by simp
qed simp

lemma bestEdgeDisp_in:
  assumes "dir \<noteq> kNoDirection" "ds \<noteq> []"
  obtains b where "bestEdgeDisp dir ds = Some b" "b \<in> set ds"
  using bestEdge_fold_Some [of None ds dir] bestEdge_fold [of dir None ds] assms
  by (auto simp: bestEdgeDisp_def)

lemma enter_displays_in:
  assumes dir: "dir \<noteq> kNoDirection" and ok: "\<And>d. d \<in> set ds \<Longrightarrow> display_ok d" and ne: "ds \<noteq> []"
    and e: "enter_displays dir t ds shape x y = (x', y')"
  shows "\<exists>d \<in> set ds. contains_point d x' y'"
proof -
  obtain b where b: "bestEdgeDisp dir ds = Some b" "b \<in> set ds" by (rule bestEdgeDisp_in [OF dir ne])
  have "contains_point b (clamp_to u (di_x b) (di_w b)) (clamp_to v (di_y b) (di_h b))" for u v
    using ok [OF b(2)] clamp_to_in by (auto simp: contains_point_def display_ok_def)
  with b e ne show ?thesis
    by (auto simp: enter_displays_def Let_def list_ex_iff split: prod.splits if_splits)
qed

lemma targetDisplays_subset: "set (targetDisplays s n c ds) \<subseteq> set ds" "ds \<noteq> [] \<Longrightarrow> targetDisplays s n c ds \<noteq> []"
  by (auto simp: targetDisplays_def Let_def)

lemma enter_client_on:
  assumes "dir \<noteq> kNoDirection" "client_ok obj"
    and e: "enter_displays dir t (targetDisplays s n c (bc_displays obj)) (bc_shape obj) x y = (x', y')"
  shows "on_client obj x' y'"
proof (cases "bc_displays obj = []")
  case True
  then have "entry_point dir t (bc_shape obj) x y = (x', y')"
    using e by (simp add: targetDisplays_def enter_displays_def Let_def split: prod.splits)
  moreover obtain sx sy sw sh where shape: "bc_shape obj = (sx, sy, sw, sh)" by (cases "bc_shape obj")
  moreover have "0 < sw" "0 < sh" using assms(2) shape by (auto simp: client_ok_def)
  ultimately show ?thesis using entry_point_in [of sw sh dir t sx sy x y x' y'] True by (simp add: on_client_def)
next
  case False
  have "\<exists>d \<in> set (targetDisplays s n c (bc_displays obj)). contains_point d x' y'"
    using assms targetDisplays_subset(1) [of s n c "bc_displays obj"] targetDisplays_subset(2) [OF False]
    by (intro enter_displays_in [OF assms(1) _ _ e]) (auto simp: client_ok_def list_all_iff)
  then show ?thesis
    using targetDisplays_subset(1) [of s n c "bc_displays obj"] False by (auto simp: on_client_def list_ex_iff)
qed

lemma neighbor_search_induct [consumes 1, case_names return skip]:
  assumes "neighbor_search s dir x y n t = Some r"
    and ret: "\<And>n t r. search_step s dir x y n t = Some (Inl r) \<Longrightarrow> P n t r"
    and skip: "\<And>n t n' t' r. search_step s dir x y n t = Some (Inr (n', t')) \<Longrightarrow> P n' t' r \<Longrightarrow> P n t r"
  shows "P n t r"
proof -
  let ?Q = "\<lambda>s' d' x' y' n t r. s' = s \<longrightarrow> d' = dir \<longrightarrow> x' = x \<longrightarrow> y' = y \<longrightarrow> P n t r"
  have "?Q s dir x y n t r"
  proof (rule neighbor_search.raw_induct [of ?Q "((((( s, dir), x), y), n), t)" r, unfolded prod.case])
    fix f s' d' x' y' n t r
    assume IH: "\<And>s d x y n t r. f s d x y n t = Some r \<Longrightarrow> ?Q s d x y n t r"
      and body: "(case search_step s' d' x' y' n t of None \<Rightarrow> None | Some (Inl r) \<Rightarrow> Some r
        | Some (Inr (n', t')) \<Rightarrow> f s' d' x' y' n' t') = Some r"
    show "?Q s' d' x' y' n t r"
      using body ret skip IH by (fastforce split: option.splits sum.splits prod.splits)
  qed (rule assms(1))
  then show ?thesis by blast
qed

lemma geometry_okD:
  assumes "geometry_ok s"
  shows "(k, c) \<in> set (s_clients s) \<Longrightarrow> \<exists>obj. deref s c = Some obj \<and> client_ok obj"
    "(k, a) \<in> set (s_activeMonitors s) \<Longrightarrow> am_host a \<in> snd ` set (s_clients s)"
    "(k, a) \<in> set (s_activeMonitors s) \<Longrightarrow> \<exists>obj. deref s (am_host a) = Some obj \<and> am_display a \<in> set (bc_displays obj)"
  using assms by (fastforce simp: geometry_ok_def)+

lemma smap_find_in: "smap_find lt k m = Some (k', v) \<Longrightarrow> (k', v) \<in> set m"
  by (induction m) (auto split: if_splits)

lemma search_step_in:
  assumes ok: "geometry_ok s" and found: "search_step s dir x y n t = Some (Inl (Some (c, x', y')))"
  shows "c \<in> snd ` set (s_clients s)" "\<exists>obj. deref s c = Some obj \<and> on_client obj x' y'"
proof -
  have dir: "dir \<noteq> kNoDirection" using found by (auto simp: search_step_def getNeighbor_def)
  from found obtain dst q where "getNeighbor (s_config s) n dir t = Some (dst, q)" by (auto simp: search_step_def split: option.splits)
  let ?t = "clamp_fraction (case q of None \<Rightarrow> 0 | Some q' \<Rightarrow> q')"
  from found consider k a where "smap_find str_less dst (s_activeMonitors s) = Some (k, a)" "c = am_host a"
      "entry_point dir ?t (di_x (am_display a), di_y (am_display a), di_w (am_display a), di_h (am_display a)) x y = (x', y')"
    | k obj where "smap_find str_less dst (s_clients s) = Some (k, c)" "deref s c = Some obj"
      "enter_displays dir ?t (targetDisplays s dst c (bc_displays obj)) (bc_shape obj) x y = (x', y')"
    using \<open>getNeighbor (s_config s) n dir t = Some (dst, q)\<close>
    by (auto simp: search_step_def Let_def split: option.splits prod.splits if_splits)
  then have "c \<in> snd ` set (s_clients s) \<and> (\<exists>obj. deref s c = Some obj \<and> on_client obj x' y')"
  proof cases
    case 1
    note a = smap_find_in [OF 1(1)]
    obtain obj where obj: "deref s c = Some obj" "am_display a \<in> set (bc_displays obj)"
      using geometry_okD(3) [OF ok a] 1(2) by blast
    have h: "c \<in> snd ` set (s_clients s)" using geometry_okD(2) [OF ok a] 1(2) by simp
    then have "display_ok (am_display a)"
      using geometry_okD(1) [OF ok] obj by (fastforce simp: client_ok_def list_all_iff)
    then have "contains_point (am_display a) x' y'"
      unfolding contains_point_rect display_ok_def using 1(3) by (intro entry_point_in) auto
    then have "on_client obj x' y'" using obj(2) by (auto simp: on_client_def list_ex_iff)
    with h obj show ?thesis by blast
  next
    case 2
    note k = smap_find_in [OF 2(1)]
    have "client_ok obj" using geometry_okD(1) [OF ok k] 2(2) by auto
    then have "on_client obj x' y'" by (rule enter_client_on [OF dir _ 2(3)])
    with k 2(2) show ?thesis by force
  qed
  then show "c \<in> snd ` set (s_clients s)" "\<exists>obj. deref s c = Some obj \<and> on_client obj x' y'" by blast+
qed

lemma clamp_fraction_range: "0 \<le> clamp_fraction t" "clamp_fraction t < 1"
proof -
  have "round32 (9999 / 10000) \<le> 9999 / 10000 + 1 / 2 ^ 25" "0 \<le> round32 (9999 / 10000)"
    using round32.fl_half_ulp [of "9999 / 10000"] round32.fl_unit [of "9999 / 10000"] by simp_all
  then show "0 \<le> clamp_fraction t" "clamp_fraction t < 1" by (auto simp: clamp_fraction_def Let_def)
qed

section \<open>An example\<close>

text \<open>A server on the screen \<^verbatim>\<open>left\<close>, with \<^verbatim>\<open>right\<close> to its right, which is its own right neighbor.\<close>

definition ring_config :: Config where
  "ring_config =
     (case connect two_screens ''left'' kRight 0 1 ''right'' 0 1 of
        Some (_, c1) \<Rightarrow> (case connect c1 ''right'' kRight 0 1 ''right'' 0 1 of Some (_, c2) \<Rightarrow> c2 | None \<Rightarrow> c1)
      | None \<Rightarrow> two_screens)"

definition example_client :: "string \<Rightarrow> BaseClientProxy" where
  "example_client name = \<lparr>bc_name = name, bc_shape = (0, 0, 1920, 1080), bc_displays = [], bc_cursorPos = (0, 0), bc_jumpPos = (0, 0)\<rparr>"

definition example_server :: "(string \<times> client) list \<Rightarrow> Server" where
  "example_server cs = (Server_init (map_of (map (\<lambda>(n, c). (c, example_client n)) cs)) ring_config 10 0 0 0)
     \<lparr>s_clients := cs, s_clientSet := map snd cs\<rparr>"


definition ring_cell :: Cell where
  "ring_cell = \<lparr>cell_neighbors = [(\<lparr>ce_name = [], ce_side = kRight, ce_first = 0, ce_second = 1\<rparr>,
     \<lparr>ce_name = ''right'', ce_side = kRight, ce_first = 0, ce_second = 1\<rparr>)], cell_options = []\<rparr>"

lemma ring_neighbor:
  assumes "n = ''left'' \<or> n = ''right''" "0 \<le> t" "t < 1"
  shows "\<exists>q. getNeighbor ring_config n kRight t = Some (''right'', Some q)"
proof -
  have l: "Cell_getLink ring_cell kRight t = Some (Some (hd (cell_neighbors ring_cell)))"
    using assms(2,3)
    by (simp add: Cell_getLink_def CellEdge_at_def smap_before_def CellEdge_less_def CellEdge_isInside_def ring_cell_def)
  have "getCanonicalName ring_config ''right'' = ''right''"
    "smap_find CaselessCmp_less (getCanonicalName ring_config ''left'') (cfg_map ring_config) = Some (''left'', ring_cell)"
    "smap_find CaselessCmp_less (getCanonicalName ring_config ''right'') (cfg_map ring_config) = Some (''right'', ring_cell)"
    by code_simp+
  with assms(1) l show ?thesis by (auto simp: getNeighbor_def) (simp_all add: ring_cell_def)
qed

lemma example_step:
  assumes "s_config s = ring_config" "s_activeMonitors s = []" "n = ''left'' \<or> n = ''right''" "0 \<le> t" "t < 1"
  obtains u where "search_step s kRight x y n t =
    (case smap_find str_less ''right'' (s_clients s) of
       Some (_, c) \<Rightarrow> (case deref s c of None \<Rightarrow> None | Some obj \<Rightarrow>
         Some (Inl (Some (c, enter_displays kRight u (targetDisplays s ''right'' c (bc_displays obj)) (bc_shape obj) x y))))
     | None \<Rightarrow> Some (Inr (''right'', u)))"
  using ring_neighbor [OF assms(3-5)] assms(1,2) that
  by (fastforce simp: search_step_def split: option.splits prod.splits)

lemma example_getNeighbor:
  assumes "s = example_server cs" "smap_find str_less ''left'' cs = Some (''left'', 10)" "deref s 10 = Some (example_client ''left'')"
  obtains t where "0 \<le> t" "t < 1" "Server_getNeighbor s 10 kRight x y = neighbor_search s kRight x y ''left'' t"
proof -
  have "getCanonicalName ring_config ''left'' = ''left''" by code_simp
  then have n: "Server_getName s 10 = Some ''left''"
    using assms(1,3) by (simp add: Server_getName_def example_server_def Server_init_def example_client_def)
  have "Server_getNeighbor s 10 kRight x y = neighbor_search s kRight x y ''left'' (clamp_fraction (fraction y 0 1080))"
    using n assms(3) [unfolded example_client_def]
    by (simp add: Server_getNeighbor_def getActiveMonitorShape_def mapToFraction_def along_def)
  with clamp_fraction_range that show ?thesis by blast
qed



section \<open>Whether the search returns\<close>

text \<open>
  The search returns when the links over screens that are not connected do not go round: if
  skipping is well-founded, every search ends with a client or with none, unless an object it needs
  is gone or the direction is not one.
\<close>

theorem neighbor_search_returns:
  assumes wf: "wf {(n', n). \<exists>t t'. search_step s dir x y n t = Some (Inr (n', t'))}"
    and def: "\<And>n t. search_step s dir x y n t \<noteq> None"
  shows "\<exists>r. neighbor_search s dir x y n t = Some r"
proof (induction n arbitrary: t rule: wf_induct_rule [OF wf])
  case (1 n)
  show ?case
  proof (cases "search_step s dir x y n t")
    case None
    then show ?thesis using def by blast
  next
    case (Some z)
    show ?thesis
    proof (cases z)
      case (Inl r)
      with Some show ?thesis by (subst neighbor_search.simps) simp
    next
      case (Inr nt)
      obtain n' t' where nt: "nt = (n', t')" by force
      then have "(n', n) \<in> {(n', n). \<exists>t t'. search_step s dir x y n t = Some (Inr (n', t'))}" using Some Inr by blast
      from 1 [OF this, of t'] show ?thesis by (subst neighbor_search.simps) (simp add: Some Inr nt)
    qed
  qed
qed

theorem neighbor_search_returns_witness:
  "\<exists>r. neighbor_search (example_server [(''left'', 10), (''right'', 20)]) kLeft 0 500 ''right'' (1 / 2) = Some r"
proof -
  let ?s = "example_server [(''left'', 10), (''right'', 20)]"
  have no: "getNeighbor ring_config n kLeft t = Some ([], None)" for n t
  proof -
    have "list_all (\<lambda>(_, cell). cell = ring_cell) (cfg_map ring_config)" by code_simp
    then have "cell = ring_cell" if "smap_find CaselessCmp_less k (cfg_map ring_config) = Some (m, cell)" for k m cell
      using smap_find_in [OF that] by (auto simp: list_all_iff)
    then obtain m where "smap_find CaselessCmp_less (getCanonicalName ring_config n) (cfg_map ring_config) = None \<or>
        smap_find CaselessCmp_less (getCanonicalName ring_config n) (cfg_map ring_config) = Some (m, ring_cell)"
      by (metis not_None_eq surj_pair)
    moreover have "Cell_getLink ring_cell kLeft t = Some None"
      by (simp add: Cell_getLink_def CellEdge_at_def smap_before_def CellEdge_less_def ring_cell_def)
    ultimately show ?thesis by (auto simp: getNeighbor_def)
  qed
  have "search_step ?s kLeft 0 500 n t = Some (Inl None)" for n t
    by (simp add: search_step_def example_server_def Server_init_def no)
  then show ?thesis using neighbor_search_returns [of ?s kLeft 0 500] by simp
qed

text \<open>
  The search does not return when it comes to a screen that is not connected and is its own
  neighbor in that direction; the stop that the comment in the loop describes is not implemented.
\<close>

theorem neighbor_search_self_linked:
  assumes link: "\<And>t. 0 \<le> t \<Longrightarrow> t < 1 \<Longrightarrow> \<exists>q. getNeighbor (s_config s) n dir t = Some (n, Some q)" and ne: "n \<noteq> []"
    and off: "smap_find str_less n (s_activeMonitors s) = None" "smap_find str_less n (s_clients s) = None"
  shows "neighbor_search s dir x y n (clamp_fraction t) = None"
proof (rule ccontr)
  assume "neighbor_search s dir x y n (clamp_fraction t) \<noteq> None"
  then obtain r where "neighbor_search s dir x y n (clamp_fraction t) = Some r" by auto
  moreover have step: "\<exists>u. search_step s dir x y n t = Some (Inr (n, clamp_fraction u))" if "0 \<le> t" "t < 1" for t
    using link [OF that] ne off by (auto simp: search_step_def)
  have "\<not> (m = n \<and> 0 \<le> t \<and> t < 1)" if "neighbor_search s dir x y m t = Some r" for m t r
    using that
  proof (induction rule: neighbor_search_induct)
    case (return m t r)
    then show ?case using step [of t] by auto
  next
    case (skip m t m' t' r)
    then show ?case using step [of t] clamp_fraction_range by fastforce
  qed
  ultimately show False using clamp_fraction_range by blast
qed

theorem neighbor_search_self_linked_witness:
  "neighbor_search (example_server [(''left'', 10)]) kRight 1919 500 ''right'' (clamp_fraction (1 / 2)) = None"
proof -
  have "smap_find str_less ''right'' (s_activeMonitors (example_server [(''left'', 10)])) = None"
    "smap_find str_less ''right'' (s_clients (example_server [(''left'', 10)])) = None"
    "s_config (example_server [(''left'', 10)]) = ring_config"
    by (simp_all add: example_server_def Server_init_def)
  with neighbor_search_self_linked [of "example_server [(''left'', 10)]" "''right''" kRight] ring_neighbor show ?thesis by simp
qed

end
