(* ===== verification/Server_Switch.thy ===== *)
theory Server_Switch
  imports Server_Geometry
begin

text \<open>
  The server of \<^verbatim>\<open>server/Server.cpp\<close>, second part: switching screens.  What the server asks of the
  primary screen, the clock and the file system during one event is the argument \<open>env\<close>; what it
  tells the clients is appended to \<open>s_out\<close>.  Every message to a client uses its object, so a
  message to a client that is gone has no result.  The coordinate check of \<^verbatim>\<open>switchScreen\<close> that is only
  compiled into debug builds, logging and the drag-and-drop threads are left out.
\<close>

record Env =
  e_now :: rat
  e_leave :: "client \<Rightarrow> bool"
  e_mask :: UInt32
  e_locked :: bool
  e_zone :: int
  e_center :: "int \<times> int"
  e_clipboard :: "client \<Rightarrow> nat \<Rightarrow> Clipboard"
  e_localFile :: "bytes \<Rightarrow> string"
  e_lastReceived :: string

definition kClipboardCount :: nat where
  "kClipboardCount = 2"

definition emit :: "srv_output \<Rightarrow> Server \<Rightarrow> Server" where
  "emit out s = s\<lparr>s_out := s_out s @ [out]\<rparr>"

text \<open>A call of a method of client \<open>c\<close>.\<close>

definition tell :: "client \<Rightarrow> srv_output \<Rightarrow> Server \<Rightarrow> Server option" where
  "tell c out s = do { _ \<leftarrow> deref s c; Some (emit out s) }"

fun tell_all :: "(client \<Rightarrow> srv_output option) \<Rightarrow> (string, client) smap \<Rightarrow> Server \<Rightarrow> Server option" where
  "tell_all f [] s = Some s"
| "tell_all f ((_, c) # cs) s =
     (case f c of None \<Rightarrow> tell_all f cs s | Some out \<Rightarrow> do { s' \<leftarrow> tell c out s; tell_all f cs s' })"

definition of_clip :: "clip_err + 'a \<Rightarrow> 'a option" where
  "of_clip r = (case r of Inl _ \<Rightarrow> None | Inr a \<Rightarrow> Some a)"

section \<open>Delayed and double tap switching\<close>

definition isLockedToScreenServer :: "Server \<Rightarrow> bool" where
  "isLockedToScreenServer s = s_lockedToScreen s"

definition isLockedToScreen :: "Env \<Rightarrow> Server \<Rightarrow> bool" where
  "isLockedToScreen env s \<longleftrightarrow> isLockedToScreenServer s \<or> e_locked env"

definition getJumpZoneSize :: "Env \<Rightarrow> Server \<Rightarrow> client \<Rightarrow> int" where
  "getJumpZoneSize env s c = (if c = s_primaryClient s then e_zone env else 0)"

definition startSwitchTwoTap :: "Env \<Rightarrow> Server \<Rightarrow> Server" where
  "startSwitchTwoTap env s =
     s\<lparr>s_switchTwoTapEngaged := True, s_switchTwoTapArmed := False, s_switchTwoTapTimer := e_now env\<rparr>"

definition stopSwitchTwoTap :: "Server \<Rightarrow> Server" where
  "stopSwitchTwoTap s = s\<lparr>s_switchTwoTapEngaged := False, s_switchTwoTapArmed := False\<rparr>"

definition stopSwitchWait :: "Server \<Rightarrow> Server" where
  "stopSwitchWait s = s\<lparr>s_switchWaitTimer := False\<rparr>"

definition startSwitchWait :: "int \<Rightarrow> int \<Rightarrow> Server \<Rightarrow> Server" where
  "startSwitchWait x y s = (stopSwitchWait s)\<lparr>s_switchWaitX := x, s_switchWaitY := y, s_switchWaitTimer := True\<rparr>"

definition stopSwitch :: "Server \<Rightarrow> Server" where
  "stopSwitch s =
     (if s_switchScreen s \<noteq> None
      then stopSwitchWait (stopSwitchTwoTap (s\<lparr>s_switchScreen := None, s_switchDir := kNoDirection\<rparr>)) else s)"

definition twoTapTime :: "Env \<Rightarrow> Server \<Rightarrow> rat" where
  "twoTapTime env s = e_now env - s_switchTwoTapTimer s"

definition shouldSwitchTwoTap :: "Env \<Rightarrow> Server \<Rightarrow> bool" where
  "shouldSwitchTwoTap env s \<longleftrightarrow> s_switchTwoTapArmed s \<and> twoTapTime env s \<le> s_switchTwoTapDelay s"

definition armSwitchTwoTap :: "Env \<Rightarrow> int \<Rightarrow> int \<Rightarrow> Server \<Rightarrow> Server option" where
  "armSwitchTwoTap env x y s =
     (if \<not> s_switchTwoTapEngaged s then Some s
      else if twoTapTime env s > s_switchTwoTapDelay s then Some (stopSwitchTwoTap s)
      else if s_switchTwoTapArmed s then Some s
      else do {
        obj \<leftarrow> deref s (s_active s);
        let (ax, ay, aw, ah) = bc_shape obj;
        let tapZone = (if e_zone env < s_switchTwoTapZone s then s_switchTwoTapZone s else e_zone env);
        if x \<ge> ax + tapZone \<and> x < ax + aw - tapZone \<and> y \<ge> ay + tapZone \<and> y < ay + ah - tapZone then
          Some (case s_switchDir s of
             kLeft \<Rightarrow> s\<lparr>s_switchTwoTapArmed := s_xDelta s > 0 \<and> s_xDelta2 s > 0\<rparr>
           | kRight \<Rightarrow> s\<lparr>s_switchTwoTapArmed := s_xDelta s < 0 \<and> s_xDelta2 s < 0\<rparr>
           | kTop \<Rightarrow> s\<lparr>s_switchTwoTapArmed := s_yDelta s > 0 \<and> s_yDelta2 s > 0\<rparr>
           | kBottom \<Rightarrow> s\<lparr>s_switchTwoTapArmed := s_yDelta s < 0 \<and> s_yDelta2 s < 0\<rparr>
           | kNoDirection \<Rightarrow> s)
        else Some s
      })"

definition noSwitch :: "Env \<Rightarrow> int \<Rightarrow> int \<Rightarrow> Server \<Rightarrow> Server option" where
  "noSwitch env x y s = do { s' \<leftarrow> armSwitchTwoTap env x y s; Some (stopSwitchWait s') }"

definition option_code :: "char \<Rightarrow> char \<Rightarrow> char \<Rightarrow> char \<Rightarrow> OptionID" where
  "option_code a b c d = readUInt32 (of_char a) (of_char b) (of_char c) (of_char d)"

definition kOptionScreenSwitchCorners :: OptionID where
  "kOptionScreenSwitchCorners = option_code (CHR ''S'') (CHR ''S'') (CHR ''C'') (CHR ''M'')"
definition kOptionScreenSwitchCornerSize :: OptionID where
  "kOptionScreenSwitchCornerSize = option_code (CHR ''S'') (CHR ''S'') (CHR ''C'') (CHR ''S'')"
definition kOptionScreenSwitchDelay :: OptionID where
  "kOptionScreenSwitchDelay = option_code (CHR ''S'') (CHR ''S'') (CHR ''W'') (CHR ''T'')"
definition kOptionScreenSwitchTwoTap :: OptionID where
  "kOptionScreenSwitchTwoTap = option_code (CHR ''S'') (CHR ''S'') (CHR ''T'') (CHR ''T'')"
definition kOptionScreenSwitchNeedsShift :: OptionID where
  "kOptionScreenSwitchNeedsShift = option_code (CHR ''S'') (CHR ''S'') (CHR ''N'') (CHR ''S'')"
definition kOptionScreenSwitchNeedsControl :: OptionID where
  "kOptionScreenSwitchNeedsControl = option_code (CHR ''S'') (CHR ''S'') (CHR ''N'') (CHR ''C'')"
definition kOptionScreenSwitchNeedsAlt :: OptionID where
  "kOptionScreenSwitchNeedsAlt = option_code (CHR ''S'') (CHR ''S'') (CHR ''N'') (CHR ''A'')"
definition kOptionRelativeMouseMoves :: OptionID where
  "kOptionRelativeMouseMoves = option_code (CHR ''M'') (CHR ''D'') (CHR ''L'') (CHR ''T'')"
definition kOptionClipboardSharing :: OptionID where
  "kOptionClipboardSharing = option_code (CHR ''C'') (CHR ''L'') (CHR ''P'') (CHR ''S'')"

definition find_option :: "OptionID \<Rightarrow> (OptionID, OptionValue) smap \<Rightarrow> OptionValue option" where
  "find_option opt m = map_option snd (smap_find (<) opt m)"

text \<open>The corner options of a screen, or else the global ones, when they are set.\<close>

definition corner_options :: "Config \<Rightarrow> string \<Rightarrow> (UInt32 \<times> int) option" where
  "corner_options cfg name =
     (let own = getOptions cfg name;
          opts = (case own of
             None \<Rightarrow> getOptions cfg []
           | Some m \<Rightarrow> if find_option kOptionScreenSwitchCorners m = None then getOptions cfg [] else own)
      in case opts of
           None \<Rightarrow> None
         | Some m \<Rightarrow>
             (case find_option kOptionScreenSwitchCorners m of
                None \<Rightarrow> None
              | Some corners \<Rightarrow>
                  Some (corners, case find_option kOptionScreenSwitchCornerSize m of None \<Rightarrow> 0 | Some v \<Rightarrow> sint v)))"

definition KeyModifierShift :: UInt32 where "KeyModifierShift = 1"
definition KeyModifierControl :: UInt32 where "KeyModifierControl = 2"
definition KeyModifierAlt :: UInt32 where "KeyModifierAlt = 4"
definition KeyModifierScrollLock :: UInt32 where "KeyModifierScrollLock = 0x4000"

definition missing_modifiers :: "Env \<Rightarrow> Server \<Rightarrow> bool" where
  "missing_modifiers env s \<longleftrightarrow>
     s_switchNeedsShift s \<and> (e_mask env AND KeyModifierShift) \<noteq> KeyModifierShift \<or>
     s_switchNeedsControl s \<and> (e_mask env AND KeyModifierControl) \<noteq> KeyModifierControl \<or>
     s_switchNeedsAlt s \<and> (e_mask env AND KeyModifierAlt) \<noteq> KeyModifierAlt"

text \<open>\<^verbatim>\<open>isSwitchOkay\<close>: the double tap and the delay, which yield \<open>preventSwitch\<close> and the new state.\<close>

definition switch_taps :: "Env \<Rightarrow> client \<Rightarrow> EDirection \<Rightarrow> int \<Rightarrow> int \<Rightarrow> Server \<Rightarrow> bool \<times> Server" where
  "switch_taps env newScreen dir x y s =
     (let isNewDirection = (dir \<noteq> s_switchDir s);
          s1 = (if isNewDirection \<or> s_switchScreen s = None
                then s\<lparr>s_switchDir := dir, s_switchScreen := Some newScreen\<rparr> else s);
          (allowSwitch, preventSwitch, s2) =
            (if s_switchTwoTapDelay s1 > 0 then
               (if isNewDirection \<or> \<not> s_switchTwoTapEngaged s1 \<or> \<not> shouldSwitchTwoTap env s1
                then (False, True, startSwitchTwoTap env s1) else (True, False, s1))
             else (False, False, s1))
      in if \<not> allowSwitch \<and> s_switchWaitDelay s2 > 0 then
           (True, if isNewDirection \<or> \<not> s_switchWaitTimer s2 then startSwitchWait x y s2 else s2)
         else (preventSwitch, s2))"

definition isSwitchOkay ::
    "Env \<Rightarrow> client option \<Rightarrow> EDirection \<Rightarrow> int \<Rightarrow> int \<Rightarrow> int \<Rightarrow> int \<Rightarrow> Server \<Rightarrow> (bool \<times> Server) option" where
  "isSwitchOkay env newScreen dir x y xActive yActive s = do {
     activeName \<leftarrow> Server_getName s (s_active s);
     case newScreen of
       None \<Rightarrow> Some (False, stopSwitch s)
     | Some new \<Rightarrow> do {
         let (prevent1, s1) = switch_taps env new dir x y s;
         inCorner \<leftarrow> (case corner_options (s_config s1) activeName of
            None \<Rightarrow> Some False
          | Some (corners, sz) \<Rightarrow> do {
              corner \<leftarrow> getCorner s1 (s_active s1) xActive yActive sz;
              Some ((corner AND corners) \<noteq> 0)
            });
         let (prevent2, s2) = (if inCorner then (True, stopSwitch s1) else (prevent1, s1));
         let (prevent3, s3) = (if \<not> prevent2 \<and> isLockedToScreen env s2 then (True, stopSwitch s2) else (prevent2, s2));
         let (prevent4, s4) = (if \<not> prevent3 \<and> missing_modifiers env s3 then (True, stopSwitch s3) else (prevent3, s3));
         Some (\<not> prevent4, s4)
       }
   }"

section \<open>Clipboards\<close>

definition kText :: nat where
  "kText = 0"

definition sendFileToScreen :: "client \<Rightarrow> string \<Rightarrow> Server \<Rightarrow> Server option" where
  "sendFileToScreen c filename s =
     (if filename = [] then Some s
      else do { s' \<leftarrow> tell c (SendFile c filename) s; Some (s'\<lparr>s_sendFileThread := True\<rparr>) })"

text \<open>The end of \<^verbatim>\<open>onClipboardChanged\<close>: a local file whose address was copied is offered to the clients.\<close>

definition offer_copied_file :: "Env \<Rightarrow> client \<Rightarrow> nat \<Rightarrow> Server \<Rightarrow> Server option" where
  "offer_copied_file env sender cid s = do {
     let info = s_clipboards s ! cid;
     (opened, cb) \<leftarrow> of_clip (Clipboard_open 0 (ci_clipboard info));
     if \<not> opened then Some s
     else do {
       hasText \<leftarrow> of_clip (Clipboard_has kText cb);
       text \<leftarrow> (if hasText then of_clip (Clipboard_get kText cb) else Some []);
       cb' \<leftarrow> of_clip (Clipboard_close cb);
       let s1 = s\<lparr>s_clipboards := (s_clipboards s)[cid := info\<lparr>ci_clipboard := cb'\<rparr>]\<rparr>;
       if \<not> hasText then Some s1
       else do {
         let localFile = e_localFile env text;
         if localFile \<noteq> [] \<and> localFile \<noteq> e_lastReceived env then do {
           let s2 = s1\<lparr>s_lastCopiedFile := localFile, s_copiedFileSentTo := []\<rparr>;
           if sender = s_primaryClient s2 \<and> s_active s2 \<noteq> s_primaryClient s2 then do {
             s3 \<leftarrow> sendFileToScreen (s_active s2) localFile s2;
             Some (s3\<lparr>s_copiedFileSentTo := List.insert (s_active s3) (s_copiedFileSentTo s3)\<rparr>)
           } else Some s2
         } else if localFile = [] then Some (s1\<lparr>s_lastCopiedFile := [], s_copiedFileSentTo := []\<rparr>)
         else Some s1
       }
     }
   }"

definition onClipboardChanged :: "Env \<Rightarrow> client \<Rightarrow> nat \<Rightarrow> UInt32 \<Rightarrow> Server \<Rightarrow> Server option" where
  "onClipboardChanged env sender cid seqNum s =
     (if cid \<ge> length (s_clipboards s) then None
      else do {
        name \<leftarrow> Server_getName s sender;
        let info = s_clipboards s ! cid;
        let info1 = info\<lparr>ci_clipboardSeqNum := (if seqNum > ci_clipboardSeqNum info then seqNum else ci_clipboardSeqNum info),
                         ci_clipboardOwner := name, ci_clipboard := e_clipboard env sender cid\<rparr>;
        (data, cb) \<leftarrow> of_clip (Clipboard_marshall (ci_clipboard info1));
        let info2 = info1\<lparr>ci_clipboard := cb\<rparr>;
        if data = ci_clipboardData info2 then Some (s\<lparr>s_clipboards := (s_clipboards s)[cid := info2]\<rparr>)
        else do {
          let s1 = s\<lparr>s_clipboards := (s_clipboards s)[cid := info2\<lparr>ci_clipboardData := data\<rparr>]\<rparr>;
          s2 \<leftarrow> tell_all (\<lambda>c. Some (SetClipboardDirty c cid (c \<noteq> sender))) (s_clients s1) s1;
          s3 \<leftarrow> tell_all (\<lambda>c. if c \<noteq> sender then Some (SetClipboard c cid cb) else None) (s_clients s2) s2;
          offer_copied_file env sender cid s3
        }
      })"

definition handleClipboardChanged :: "Env \<Rightarrow> client \<Rightarrow> nat \<Rightarrow> UInt32 \<Rightarrow> Server \<Rightarrow> Server option" where
  "handleClipboardChanged env sender cid seqNum s =
     (if sender \<notin> set (s_clientSet s) then Some s else onClipboardChanged env sender cid seqNum s)"

definition handleClipboardGrabbed :: "client \<Rightarrow> nat \<Rightarrow> UInt32 \<Rightarrow> Server \<Rightarrow> Server option" where
  "handleClipboardGrabbed grabber cid seqNum s =
     (if \<not> s_enableClipboard s then Some s
      else if grabber \<notin> set (s_clientSet s) then Some s
      else if cid \<ge> length (s_clipboards s) then None
      else do {
        name \<leftarrow> Server_getName s grabber;
        let info = s_clipboards s ! cid;
        (opened, cb1) \<leftarrow> of_clip (Clipboard_open 0 (ci_clipboard info));
        cb3 \<leftarrow> (if opened then do {
                   (_, cb2) \<leftarrow> of_clip (Clipboard_empty cb1);
                   of_clip (Clipboard_close cb2)
                 } else Some cb1);
        (data, cb4) \<leftarrow> of_clip (Clipboard_marshall cb3);
        let info' = info\<lparr>ci_clipboardSeqNum := (if seqNum > ci_clipboardSeqNum info then seqNum else ci_clipboardSeqNum info),
                         ci_clipboardOwner := name, ci_clipboard := cb4, ci_clipboardData := data\<rparr>;
        let s1 = s\<lparr>s_clipboards := (s_clipboards s)[cid := info']\<rparr>;
        tell_all (\<lambda>c. Some (if c = grabber then SetClipboardDirty c cid False else GrabClipboard c cid)) (s_clients s1) s1
      })"

section \<open>Switching to a screen\<close>

text \<open>When the cursor leaves the primary screen the clipboards that it owns are fetched.\<close>

fun fetch_clipboards :: "Env \<Rightarrow> nat list \<Rightarrow> Server \<Rightarrow> Server option" where
  "fetch_clipboards env [] s = Some s"
| "fetch_clipboards env (cid # cids) s = do {
     name \<leftarrow> Server_getName s (s_primaryClient s);
     let info = s_clipboards s ! cid;
     s' \<leftarrow> (if cid < length (s_clipboards s) \<and> ci_clipboardOwner info = name
            then onClipboardChanged env (s_primaryClient s) cid (ci_clipboardSeqNum info) s
            else if cid < length (s_clipboards s) then Some s else None);
     fetch_clipboards env cids s'
   }"

fun send_clipboards :: "nat list \<Rightarrow> Server \<Rightarrow> Server option" where
  "send_clipboards [] s = Some s"
| "send_clipboards (cid # cids) s =
     (if cid \<ge> length (s_clipboards s) then None
      else do {
        s' \<leftarrow> tell (s_active s) (SetClipboard (s_active s) cid (ci_clipboard (s_clipboards s ! cid))) s;
        send_clipboards cids s'
      })"

definition send_pending_file :: "Server \<Rightarrow> Server option" where
  "send_pending_file s =
     (if s_lastCopiedFile s \<noteq> [] \<and> s_active s \<noteq> s_primaryClient s \<and> s_active s \<notin> set (s_copiedFileSentTo s)
      then do {
        s' \<leftarrow> sendFileToScreen (s_active s) (s_lastCopiedFile s) s;
        Some (s'\<lparr>s_copiedFileSentTo := List.insert (s_active s') (s_copiedFileSentTo s')\<rparr>)
      } else Some s)"

definition set_position :: "int \<Rightarrow> int \<Rightarrow> Server \<Rightarrow> Server" where
  "set_position x y s =
     s\<lparr>s_x := x, s_y := y, s_xDelta := 0, s_yDelta := 0, s_xDelta2 := 0, s_yDelta2 := 0\<rparr>"

definition enter_screen :: "Env \<Rightarrow> client \<Rightarrow> int \<Rightarrow> int \<Rightarrow> bool \<Rightarrow> Server \<Rightarrow> Server option" where
  "enter_screen env dst x y forScreensaver s = do {
     let s1 = s\<lparr>s_active := dst, s_seqNum := s_seqNum s + 1\<rparr>;
     s2 \<leftarrow> tell dst (Enter dst x y (s_seqNum s1) (e_mask env) forScreensaver) s1;
     s4 \<leftarrow> (if s_enableClipboard s2
            then do { s3 \<leftarrow> send_clipboards [0..<kClipboardCount] s2; send_pending_file s3 }
            else Some s2);
     obj \<leftarrow> deref s4 dst;
     Some (emit (ScreenSwitched (bc_name obj)) s4)
   }"

definition switchScreen :: "Env \<Rightarrow> client \<Rightarrow> int \<Rightarrow> int \<Rightarrow> bool \<Rightarrow> Server \<Rightarrow> Server option" where
  "switchScreen env dst x y forScreensaver s = do {
     _ \<leftarrow> deref s (s_active s);
     _ \<leftarrow> deref s dst;
     let s1 = set_position x y (stopSwitch s);
     if s_active s1 \<noteq> dst then do {
       s2 \<leftarrow> tell (s_active s1) (Leave (s_active s1)) s1;
       if \<not> e_leave env (s_active s1) then Some s2
       else do {
         s3 \<leftarrow> (if s_active s2 = s_primaryClient s2 \<and> s_enableClipboard s2
                then fetch_clipboards env [0..<kClipboardCount] s2 else Some s2);
         enter_screen env dst x y forScreensaver s3
       }
     } else tell dst (MouseMove dst x y) s1
   }"

definition setJumpCursorPos :: "client \<Rightarrow> int \<Rightarrow> int \<Rightarrow> Server \<Rightarrow> Server option" where
  "setJumpCursorPos c x y s = do {
     obj \<leftarrow> deref s c;
     Some (s\<lparr>s_heap := (s_heap s)(c \<mapsto> obj\<lparr>bc_jumpPos := (x, y)\<rparr>)\<rparr>)
   }"

definition claimed :: "Server \<Rightarrow> client \<Rightarrow> DisplayInfo \<Rightarrow> bool" where
  "claimed s c d \<longleftrightarrow> list_ex (\<lambda>(_, a). am_host a = c \<and> same_rect (am_display a) d) (s_activeMonitors s)"

definition hostDisplays :: "Server \<Rightarrow> client \<Rightarrow> DisplayInfo list \<Rightarrow> DisplayInfo list" where
  "hostDisplays s c ds = filter (\<lambda>d. \<not> claimed s c d) ds"

text \<open>The middle of the primary display among some displays, or of the first one; C++ division truncates.\<close>

definition half :: "int \<Rightarrow> int" where
  "half w = sgn w * (\<bar>w\<bar> div 2)"

definition display_center :: "DisplayInfo list \<Rightarrow> int \<times> int" where
  "display_center ds =
     (let d = (case find di_isPrimary ds of Some p \<Rightarrow> p | None \<Rightarrow> hd ds)
      in (di_x d + half (di_w d), di_y d + half (di_h d)))"

definition jumpToScreen :: "Env \<Rightarrow> client \<Rightarrow> Server \<Rightarrow> Server option" where
  "jumpToScreen env newScreen s = do {
     s1 \<leftarrow> setJumpCursorPos (s_active s) (s_x s) (s_y s) s;
     obj \<leftarrow> deref s1 newScreen;
     let (x, y) = bc_jumpPos obj;
     let hds = hostDisplays s1 newScreen (bc_displays obj);
     let insideHost = list_ex (\<lambda>d. contains_point d x y) hds;
     let (x', y') = (if \<not> insideHost \<and> hds \<noteq> [] then display_center hds else (x, y));
     switchScreen env newScreen x' y' False s1
   }"

definition jumpToScreen_at :: "Env \<Rightarrow> client \<Rightarrow> int \<Rightarrow> int \<Rightarrow> Server \<Rightarrow> Server option" where
  "jumpToScreen_at env newScreen x y s = do {
     s1 \<leftarrow> setJumpCursorPos (s_active s) (s_x s) (s_y s) s;
     switchScreen env newScreen x y False s1
   }"

definition stopRelativeMoves :: "Server \<Rightarrow> Server option" where
  "stopRelativeMoves s =
     (if s_relativeMoves s \<and> s_active s \<noteq> s_primaryClient s then do {
        obj \<leftarrow> deref s (s_active s);
        let (ax, ay, aw, ah) = bc_shape obj;
        let s1 = set_position (ax + aw div 2) (ay + ah div 2) s;
        tell (s_active s1) (MouseMove (s_active s1) (s_x s1) (s_y s1)) s1
      } else Some s)"

section \<open>Mouse motion\<close>

text \<open>Whether the active screen, or the monitor the cursor is on, is linked in a direction.\<close>

definition has_link :: "Server \<Rightarrow> int \<times> int \<times> int \<times> int \<Rightarrow> string \<Rightarrow> EDirection \<Rightarrow> bool option" where
  "has_link s shape monName dir = do {
     monLink \<leftarrow> hasNeighbor (s_config s) monName dir;
     if isMonitor (s_config s) monName \<and> monLink then Some True
     else do {
       local \<leftarrow> hasLocalDisplayInDirection s (s_active s) shape dir;
       case local of
         Some nextLocalMon \<Rightarrow> Some (isMonitor (s_config s) nextLocalMon \<and> monLink)
       | None \<Rightarrow> do {
           name \<leftarrow> Server_getName s (s_active s);
           hasNeighbor (s_config s) name dir
         }
     }
   }"

fun primary_directions ::
    "Env \<Rightarrow> int \<times> int \<times> int \<times> int \<Rightarrow> string \<Rightarrow> int \<Rightarrow> int \<Rightarrow> EDirection list \<Rightarrow> Server \<Rightarrow> (bool \<times> Server) option" where
  "primary_directions env shape monName xc yc [] s = Some (False, s)"
| "primary_directions env shape monName xc yc (dir # dirs) s =
     (if dir = kNoDirection then primary_directions env shape monName xc yc dirs s
      else do {
        linked \<leftarrow> has_link s shape monName dir;
        if \<not> linked then primary_directions env shape monName xc yc dirs s
        else do {
          new \<leftarrow> mapToNeighbor s (e_zone env) (s_active s) dir xc yc;
          case new of
            None \<Rightarrow> primary_directions env shape monName xc yc dirs s
          | Some (c, tx, ty) \<Rightarrow> do {
              (ok, s1) \<leftarrow> isSwitchOkay env (Some c) dir tx ty xc yc s;
              if ok then do {
                s2 \<leftarrow> switchScreen env c tx ty False s1;
                Some (True, s2\<lparr>s_waitDragInfoThread := True\<rparr>)
              } else primary_directions env shape monName xc yc dirs s1
            }
        }
      })"

definition onMouseMovePrimary :: "Env \<Rightarrow> int \<Rightarrow> int \<Rightarrow> Server \<Rightarrow> (bool \<times> Server) option" where
  "onMouseMovePrimary env x y s =
     (if s_active s \<noteq> s_primaryClient s then Some (False, s)
      else do {
        let s1 = s\<lparr>s_xDelta2 := s_xDelta s, s_yDelta2 := s_yDelta s, s_xDelta := x - s_x s, s_yDelta := y - s_y s,
                   s_x := x, s_y := y\<rparr>;
        (_, shape, monName) \<leftarrow> getActiveMonitorShape s1 (s_active s1) x y;
        let (ax, ay, aw, ah) = shape;
        let zone = getJumpZoneSize env s1 (s_active s1);
        let xc = (if x < ax + zone then ax else if x \<ge> ax + aw - zone then ax + aw - 1 else x);
        let yc = (if y < ay + zone then ay else if y \<ge> ay + ah - zone then ay + ah - 1 else y);
        let dirh = (if x < ax + zone then kLeft else if x \<ge> ax + aw - zone then kRight else kNoDirection);
        let dirv = (if y < ay + zone then kTop else if y \<ge> ay + ah - zone then kBottom else kNoDirection);
        if dirh = kNoDirection \<and> dirv = kNoDirection
        then do { s2 \<leftarrow> noSwitch env x y s1; Some (False, s2) }
        else primary_directions env shape monName xc yc [dirh, dirv] s1
      })"

definition crossed :: "int \<times> int \<times> int \<times> int \<Rightarrow> int \<Rightarrow> int \<Rightarrow> EDirection" where
  "crossed shape x y =
     (case shape of (ax, ay, aw, ah) \<Rightarrow>
        if x < ax then kLeft else if x > ax + aw - 1 then kRight
        else if y < ay then kTop else if y > ay + ah - 1 then kBottom else kNoDirection)"

definition clear_wait :: "Env \<Rightarrow> int \<times> int \<times> int \<times> int \<Rightarrow> Server \<Rightarrow> bool" where
  "clear_wait env shape s =
     (case shape of (ax, ay, aw, ah) \<Rightarrow>
        (case s_switchDir s of
           kLeft \<Rightarrow> s_x s \<ge> ax + e_zone env
         | kRight \<Rightarrow> s_x s \<le> ax + aw - 1 - e_zone env
         | kTop \<Rightarrow> s_y s \<ge> ay + e_zone env
         | kBottom \<Rightarrow> s_y s \<le> ay + ah - 1 - e_zone env
         | kNoDirection \<Rightarrow> False))"

text \<open>
  The part of \<^verbatim>\<open>onMouseMoveSecondary\<close> that decides where the cursor goes: the client to jump to, if
  any, and the new position.
\<close>

definition secondary_target ::
    "Env \<Rightarrow> int \<times> int \<times> int \<times> int \<Rightarrow> string \<Rightarrow> Server \<Rightarrow> (client option \<times> Server) option" where
  "secondary_target env shape monName s = do {
     let (ax, ay, aw, ah) = shape;
     let xc = clamp_to (s_x s) ax aw;
     let yc = clamp_to (s_y s) ay ah;
     let dir = crossed shape (s_x s) (s_y s);
     if dir \<noteq> kNoDirection then do {
       linked \<leftarrow> has_link s shape monName dir;
       if linked then do {
         new \<leftarrow> mapToNeighbor s (e_zone env) (s_active s) dir xc yc;
         case new of
           None \<Rightarrow> Some (None, s\<lparr>s_x := xc, s_y := yc\<rparr>)
         | Some (c, tx, ty) \<Rightarrow> do {
             (ok, s1) \<leftarrow> isSwitchOkay env (Some c) dir tx ty xc yc s;
             if ok then Some (Some c, s1\<lparr>s_x := tx, s_y := ty\<rparr>)
             else Some (None, s1\<lparr>s_x := xc, s_y := yc\<rparr>)
           }
       } else do {
         (found, (nax, nay, naw, nah), nextMon) \<leftarrow> getActiveMonitorShape s (s_active s) (s_x s) (s_y s);
         if found \<and> (nax \<noteq> ax \<or> nay \<noteq> ay \<or> nextMon \<noteq> monName) then Some (None, s)
         else Some (None, s\<lparr>s_x := xc, s_y := yc\<rparr>)
       }
     } else if s_switchScreen s \<noteq> None \<and> clear_wait env shape s then do {
       s1 \<leftarrow> noSwitch env (s_x s) (s_y s) s;
       Some (None, s1)
     } else Some (None, s)
   }"

definition onMouseMoveSecondary :: "Env \<Rightarrow> int \<Rightarrow> int \<Rightarrow> Server \<Rightarrow> Server option" where
  "onMouseMoveSecondary env dx dy s =
     (if s_active s = s_primaryClient s then Some s
      else if s_relativeMoves s \<and> isLockedToScreenServer s
      then tell (s_active s) (MouseRelativeMove (s_active s) dx dy) s
      else do {
        let (xOld, yOld) = (s_x s, s_y s);
        let s1 = s\<lparr>s_xDelta2 := s_xDelta s, s_yDelta2 := s_yDelta s, s_xDelta := dx, s_yDelta := dy,
                   s_x := s_x s + dx, s_y := s_y s + dy\<rparr>;
        (_, shape, monName) \<leftarrow> getActiveMonitorShape s1 (s_active s1) xOld yOld;
        (jump, s2) \<leftarrow> secondary_target env shape monName s1;
        case jump of
          Some new \<Rightarrow> switchScreen env new (s_x s2) (s_y s2) False (s2\<lparr>s_sendFileThread := False\<rparr>)
        | None \<Rightarrow>
            if s_x s2 \<noteq> xOld \<or> s_y s2 \<noteq> yOld
            then tell (s_active s2) (MouseMove (s_active s2) (s_x s2) (s_y s2)) s2 else Some s2
      })"

section \<open>Keys and buttons\<close>

text \<open>\<^verbatim>\<open>IKeyState::KeyInfo\<close>: a list of screen names, or all of them; the null pointer is \<open>None\<close>.\<close>

definition KeyInfo_isDefault :: "string option \<Rightarrow> bool" where
  "KeyInfo_isDefault screens \<longleftrightarrow> screens = None \<or> screens = Some []"

definition KeyInfo_contains :: "string option \<Rightarrow> string \<Rightarrow> bool" where
  "KeyInfo_contains screens name =
     (case screens of
        None \<Rightarrow> False
      | Some str \<Rightarrow>
          if str = [] then False
          else if hd str = CHR ''*'' then True
          else find_str (CHR '':'' # name @ '':'') str \<noteq> None)"

definition KeyInfo_join :: "string list \<Rightarrow> string" where
  "KeyInfo_join destinations =
     (if ''*'' \<in> set destinations then ''*''
      else if destinations = [] then []
      else CHR '':'' # concat (map (\<lambda>d. d @ '':'') destinations))"

definition relay_key :: "(client \<Rightarrow> srv_output) \<Rightarrow> string option \<Rightarrow> Server \<Rightarrow> Server option" where
  "relay_key msg screens s =
     (if \<not> s_keyboardBroadcasting s \<and> KeyInfo_isDefault screens then tell (s_active s) (msg (s_active s)) s
      else
        let screens' = (if screens = None \<and> s_keyboardBroadcasting s
                        then Some (if s_keyboardBroadcastingScreens s = [] then ''*'' else s_keyboardBroadcastingScreens s)
                        else screens)
        in foldl (\<lambda>r (name, c). do {
               s' \<leftarrow> r;
               if KeyInfo_contains screens' name then tell c (msg c) s' else Some s'
             }) (Some s) (s_clients s))"

definition onKeyDown :: "UInt32 \<Rightarrow> UInt32 \<Rightarrow> UInt16 \<Rightarrow> string option \<Rightarrow> Server \<Rightarrow> Server option" where
  "onKeyDown key mods button screens s = relay_key (\<lambda>c. KeyDown c key mods button) screens s"

definition onKeyUp :: "UInt32 \<Rightarrow> UInt32 \<Rightarrow> UInt16 \<Rightarrow> string option \<Rightarrow> Server \<Rightarrow> Server option" where
  "onKeyUp key mods button screens s = relay_key (\<lambda>c. KeyUp c key mods button) screens s"

definition onKeyRepeat :: "UInt32 \<Rightarrow> UInt32 \<Rightarrow> int \<Rightarrow> UInt16 \<Rightarrow> Server \<Rightarrow> Server option" where
  "onKeyRepeat key mods count button s = tell (s_active s) (KeyRepeat (s_active s) key mods count button) s"

definition onMouseDown :: "UInt8 \<Rightarrow> Server \<Rightarrow> Server option" where
  "onMouseDown button s = do {
     s' \<leftarrow> tell (s_active s) (MouseDown (s_active s) button) s;
     Some (s'\<lparr>s_waitDragInfoThread := True\<rparr>)
   }"

definition onMouseUp :: "UInt8 \<Rightarrow> Server \<Rightarrow> Server option" where
  "onMouseUp button s = do {
     s' \<leftarrow> tell (s_active s) (MouseUp (s_active s) button) s;
     Some (if s_ignoreFileTransfer s' then s'\<lparr>s_ignoreFileTransfer := False\<rparr> else s')
   }"

definition onMouseWheel :: "int \<Rightarrow> int \<Rightarrow> Server \<Rightarrow> Server option" where
  "onMouseWheel xDelta yDelta s = tell (s_active s) (MouseWheel (s_active s) xDelta yDelta) s"

end
