(* ===== verification/Server_Clients.thy ===== *)
theory Server_Clients
  imports Server_Switch
begin

text \<open>
  The server of \<^verbatim>\<open>server/Server.cpp\<close>, third part: connecting and losing clients, options, the event
  handlers and the constructor.  Adding and removing event handlers is left out; a client object that is
  deleted leaves the heap.
\<close>

section \<open>Options and the sides with neighbors\<close>

definition side_mask :: "EDirection \<Rightarrow> UInt32" where
  "side_mask dir = (case dir of kNoDirection \<Rightarrow> 0 | kLeft \<Rightarrow> 2 | kRight \<Rightarrow> 4 | kTop \<Rightarrow> 8 | kBottom \<Rightarrow> 16)"

definition getActivePrimarySides :: "Server \<Rightarrow> UInt32 option" where
  "getActivePrimarySides s =
     (if isLockedToScreenServer s then Some 0
      else do {
        l \<leftarrow> hasAnyNeighbor s (s_primaryClient s) kLeft;
        r \<leftarrow> hasAnyNeighbor s (s_primaryClient s) kRight;
        t \<leftarrow> hasAnyNeighbor s (s_primaryClient s) kTop;
        b \<leftarrow> hasAnyNeighbor s (s_primaryClient s) kBottom;
        Some ((if l then side_mask kLeft else 0) OR (if r then side_mask kRight else 0) OR
              (if t then side_mask kTop else 0) OR (if b then side_mask kBottom else 0))
      })"

definition reconfigure :: "Server \<Rightarrow> Server option" where
  "reconfigure s = do {
     sides \<leftarrow> getActivePrimarySides s;
     tell (s_primaryClient s) (Reconfigure sides) s
   }"

definition flat_options :: "(OptionID, OptionValue) smap option \<Rightarrow> UInt32 list" where
  "flat_options opts = (case opts of None \<Rightarrow> [] | Some m \<Rightarrow> concat (map (\<lambda>(k, v). [k, v]) m))"

definition sendOptions :: "client \<Rightarrow> Server \<Rightarrow> Server option" where
  "sendOptions c s = do {
     name \<leftarrow> Server_getName s c;
     let optionsList = flat_options (getOptions (s_config s) name) @ flat_options (getOptions (s_config s) []);
     s1 \<leftarrow> tell c (ResetOptions c) s;
     tell c (SetOptions c optionsList) s1
   }"

text \<open>One option; the flag is \<^verbatim>\<open>newRelativeMoves\<close>.\<close>

definition process_option :: "bool \<times> Server \<Rightarrow> OptionID \<times> OptionValue \<Rightarrow> bool \<times> Server" where
  "process_option rs opt =
     (let (rel, s) = rs; (k, v) = opt; delay = max 0 (of_int (sint v) / 1000 :: rat) in
      if k = kOptionScreenSwitchDelay then (rel, stopSwitchWait (s\<lparr>s_switchWaitDelay := delay\<rparr>))
      else if k = kOptionScreenSwitchTwoTap then (rel, stopSwitchTwoTap (s\<lparr>s_switchTwoTapDelay := delay\<rparr>))
      else if k = kOptionScreenSwitchNeedsControl then (rel, s\<lparr>s_switchNeedsControl := (v \<noteq> 0)\<rparr>)
      else if k = kOptionScreenSwitchNeedsShift then (rel, s\<lparr>s_switchNeedsShift := (v \<noteq> 0)\<rparr>)
      else if k = kOptionScreenSwitchNeedsAlt then (rel, s\<lparr>s_switchNeedsAlt := (v \<noteq> 0)\<rparr>)
      else if k = kOptionRelativeMouseMoves then (v \<noteq> 0, s)
      else if k = kOptionClipboardSharing then (rel, s\<lparr>s_enableClipboard := (v \<noteq> 0)\<rparr>)
      else (rel, s))"

definition processOptions :: "Server \<Rightarrow> Server option" where
  "processOptions s =
     (case getOptions (s_config s) [] of
        None \<Rightarrow> Some s
      | Some m \<Rightarrow> do {
          let s1 = s\<lparr>s_switchNeedsShift := False, s_switchNeedsControl := False, s_switchNeedsAlt := False\<rparr>;
          let (newRelativeMoves, s2) = foldl process_option (s_relativeMoves s1, s1) m;
          s3 \<leftarrow> (if s_relativeMoves s2 \<and> \<not> newRelativeMoves then stopRelativeMoves s2 else Some s2);
          Some (s3\<lparr>s_relativeMoves := newRelativeMoves\<rparr>)
        })"

section \<open>The list of clients\<close>

definition addClient :: "client \<Rightarrow> Server \<Rightarrow> (bool \<times> Server) option" where
  "addClient c s = do {
     name \<leftarrow> Server_getName s c;
     if smap_find str_less name (s_clients s) \<noteq> None then Some (False, s)
     else do {
       let s1 = s\<lparr>s_clientSet := (if c \<in> set (s_clientSet s) then s_clientSet s else insort c (s_clientSet s)),
                  s_clients := smap_insert str_less name c (s_clients s)\<rparr>;
       obj \<leftarrow> deref s1 c;
       s2 \<leftarrow> setJumpCursorPos c (fst (bc_cursorPos obj)) (snd (bc_cursorPos obj)) s1;
       s3 \<leftarrow> reconfigure s2;
       s4 \<leftarrow> updateActiveMonitors s3;
       Some (True, s4)
     }
   }"

definition removeClient :: "client \<Rightarrow> Server \<Rightarrow> (bool \<times> Server) option" where
  "removeClient c s =
     (if c \<notin> set (s_clientSet s) then Some (False, s)
      else do {
        name \<leftarrow> Server_getName s c;
        s1 \<leftarrow> updateActiveMonitors (s\<lparr>s_clients := smap_erase str_less name (s_clients s),
                                      s_clientSet := remove1 c (s_clientSet s)\<rparr>);
        Some (True, s1)
      })"

definition forceLeaveClient :: "Env \<Rightarrow> client \<Rightarrow> Server \<Rightarrow> Server option" where
  "forceLeaveClient env c s = do {
     let active = (case s_activeSaver s of Some a \<Rightarrow> a | None \<Rightarrow> s_active s);
     s1 \<leftarrow> (if active = c then do {
              let s1 = s\<lparr>s_x := fst (e_center env), s_y := snd (e_center env)\<rparr>;
              let s2 = (if s_switchScreen s1 = Some active then stopSwitch s1 else s1);
              _ \<leftarrow> deref s2 active;
              let s3 = s2\<lparr>s_active := s_primaryClient s2\<rparr>;
              s4 \<leftarrow> (if s_activeSaver s3 = None
                     then tell (s_primaryClient s3)
                            (Enter (s_primaryClient s3) (s_x s3) (s_y s3) (s_seqNum s3) (e_mask env) False) s3
                     else Some s3);
              obj \<leftarrow> deref s4 (s_active s4);
              Some (emit (ScreenSwitched (bc_name obj)) s4)
            } else Some s);
     reconfigure (if s_activeSaver s1 = Some c then s1\<lparr>s_activeSaver := None\<rparr> else s1)
   }"

definition closeClient :: "Env \<Rightarrow> client \<Rightarrow> string \<Rightarrow> Server \<Rightarrow> Server option" where
  "closeClient env c msg s =
     (if c = s_primaryClient s then None
      else do {
        s1 \<leftarrow> tell c (CloseClient c msg) s;
        (_, s2) \<leftarrow> removeClient c s1;
        forceLeaveClient env c (s2\<lparr>s_oldClients := List.insert c (s_oldClients s2)\<rparr>)
      })"

fun close_each :: "Env \<Rightarrow> client list \<Rightarrow> Server \<Rightarrow> Server option" where
  "close_each env [] s = Some s"
| "close_each env (c # cs) s = do { s' \<leftarrow> closeClient env c ''CBYE'' s; close_each env cs s' }"

definition closeClients :: "Env \<Rightarrow> Config \<Rightarrow> Server \<Rightarrow> Server option" where
  "closeClients env config s =
     close_each env
       (removeAll (s_primaryClient s)
         (sort (remdups (map snd (filter (\<lambda>(name, _). \<not> isCanonicalName config name) (s_clients s)))))) s"

definition check_disconnected :: "Server \<Rightarrow> Server" where
  "check_disconnected s =
     (if length (s_clients s) = 1 \<and> s_oldClients s = [] then emit ServerDisconnected s else s)"

definition removeActiveClient :: "Env \<Rightarrow> client \<Rightarrow> Server \<Rightarrow> Server option" where
  "removeActiveClient env c s = do {
     (removed, s1) \<leftarrow> removeClient c s;
     if removed then do { s2 \<leftarrow> forceLeaveClient env c s1; Some (check_disconnected s2) } else Some s1
   }"

definition removeOldClient :: "client \<Rightarrow> Server \<Rightarrow> Server" where
  "removeOldClient c s =
     (if c \<in> set (s_oldClients s) then check_disconnected (s\<lparr>s_oldClients := removeAll c (s_oldClients s)\<rparr>) else s)"

definition adoptClient :: "Env \<Rightarrow> client \<Rightarrow> Server \<Rightarrow> Server option" where
  "adoptClient env c s = do {
     obj \<leftarrow> deref s c;
     if \<not> isScreen (s_config s) (bc_name obj) then closeClient env c ''EUNK'' s
     else do {
       (added, s1) \<leftarrow> addClient c s;
       if \<not> added then closeClient env c ''EBSY'' s1
       else do {
         s2 \<leftarrow> sendOptions c s1;
         s3 \<leftarrow> (if s_activeSaver s2 \<noteq> None then tell c (Screensaver c True) s2 else Some s2);
         name \<leftarrow> Server_getName s3 c;
         Some (emit (ScreenConnected name) s3)
       }
     }
   }"

definition Server_disconnect :: "Env \<Rightarrow> Server \<Rightarrow> Server option" where
  "Server_disconnect env s =
     (if length (s_clients s) > 1 \<or> s_oldClients s \<noteq> [] then closeClients env Config_new s
      else Some (emit ServerDisconnected s))"

fun send_all_options :: "(string, client) smap \<Rightarrow> Server \<Rightarrow> Server option" where
  "send_all_options [] s = Some s"
| "send_all_options ((_, c) # cs) s = do { s' \<leftarrow> sendOptions c s; send_all_options cs s' }"

definition setConfig :: "Env \<Rightarrow> Config \<Rightarrow> Server \<Rightarrow> (bool \<times> Server) option" where
  "setConfig env config s = do {
     obj \<leftarrow> deref s (s_primaryClient s);
     if \<not> isScreen config (bc_name obj) then Some (False, s)
     else do {
       s1 \<leftarrow> closeClients env config s;
       s2 \<leftarrow> processOptions s1;
       s3 \<leftarrow> reconfigure s2;
       s4 \<leftarrow> send_all_options (s_clients s3) s3;
       Some (True, s4)
     }
   }"

section \<open>Event handlers\<close>

definition handleShapeChanged :: "Env \<Rightarrow> client \<Rightarrow> Server \<Rightarrow> Server option" where
  "handleShapeChanged env c s =
     (if c \<notin> set (s_clientSet s) then Some s
      else do {
        s1 \<leftarrow> updateActiveMonitors s;
        obj \<leftarrow> deref s1 c;
        let (x, y) = bc_cursorPos obj;
        s2 \<leftarrow> setJumpCursorPos c x y s1;
        let s3 = (if c = s_active s2 then s2\<lparr>s_x := x, s_y := y\<rparr> else s2);
        if c = s_primaryClient s3 then
          (if c = s_active s3 then do { (_, s4) \<leftarrow> onMouseMovePrimary env (s_x s3) (s_y s3) s3; Some s4 }
           else onMouseMoveSecondary env 0 0 s3)
        else Some s3
      })"

text \<open>The end of the screen saver: back to the screen that was active when it started.\<close>

definition leave_screensaver :: "Env \<Rightarrow> Server \<Rightarrow> Server option" where
  "leave_screensaver env s =
     (case s_activeSaver s of
        None \<Rightarrow> Some s
      | Some screen \<Rightarrow>
          if screen = s_primaryClient s then Some s
          else do {
            obj \<leftarrow> deref s screen;
            let (x, y, w, h) = bc_shape obj;
            let zone = getJumpZoneSize env s screen;
            let xs = (if s_xSaver s < x + zone then x + zone
                      else if s_xSaver s \<ge> x + w - zone then x + w - zone - 1 else s_xSaver s);
            let ys = (if s_ySaver s < y + zone then y + zone
                      else if s_ySaver s \<ge> y + h - zone then y + h - zone - 1 else s_ySaver s);
            switchScreen env screen xs ys False (s\<lparr>s_xSaver := xs, s_ySaver := ys\<rparr>)
          })"

definition onScreensaver :: "Env \<Rightarrow> bool \<Rightarrow> Server \<Rightarrow> Server option" where
  "onScreensaver env activated s = do {
     s2 \<leftarrow> (if activated then do {
              let s1 = s\<lparr>s_activeSaver := Some (s_active s), s_xSaver := s_x s, s_ySaver := s_y s\<rparr>;
              if s_active s1 \<noteq> s_primaryClient s1 then switchScreen env (s_primaryClient s1) 0 0 True s1 else Some s1
            } else do {
              s1 \<leftarrow> leave_screensaver env s;
              Some (s1\<lparr>s_activeSaver := None\<rparr>)
            });
     tell_all (\<lambda>c. Some (Screensaver c activated)) (s_clients s2) s2
   }"

definition handleSwitchWaitTimeout :: "Env \<Rightarrow> Server \<Rightarrow> Server option" where
  "handleSwitchWaitTimeout env s =
     (if isLockedToScreen env s then Some (stopSwitch s)
      else case s_switchScreen s of
        None \<Rightarrow> None
      | Some c \<Rightarrow> switchScreen env c (s_switchWaitX s) (s_switchWaitY s) False s)"

definition delete_client :: "client \<Rightarrow> Server \<Rightarrow> Server" where
  "delete_client c s = s\<lparr>s_heap := (s_heap s)(c := None)\<rparr>"

definition handleClientDisconnected :: "Env \<Rightarrow> client \<Rightarrow> Server \<Rightarrow> Server option" where
  "handleClientDisconnected env c s = do {
     s1 \<leftarrow> removeActiveClient env c s;
     Some (delete_client c (removeOldClient c s1))
   }"

definition handleClientCloseTimeout :: "client \<Rightarrow> Server \<Rightarrow> Server option" where
  "handleClientCloseTimeout c s = do {
     _ \<leftarrow> deref s c;
     Some (delete_client c (removeOldClient c s))
   }"

definition find_screen :: "Server \<Rightarrow> string \<Rightarrow> client option" where
  "find_screen s name =
     (case smap_find str_less name (s_clients s) of
        Some (_, c) \<Rightarrow> Some c
      | None \<Rightarrow>
          let canon = getCanonicalName (s_config s) name in
          if canon = [] then None else map_option snd (smap_find str_less canon (s_clients s)))"

definition handleSwitchToScreenEvent :: "Env \<Rightarrow> string \<Rightarrow> Server \<Rightarrow> Server option" where
  "handleSwitchToScreenEvent env screenName s =
     (case smap_find str_less screenName (s_activeMonitors s) of
        Some (_, a) \<Rightarrow>
          let d = am_display a in jumpToScreen_at env (am_host a) (di_x d + half (di_w d)) (di_y d + half (di_h d)) s
      | None \<Rightarrow>
          (case find_screen s screenName of
             None \<Rightarrow> Some s
           | Some c \<Rightarrow> do {
               obj \<leftarrow> deref s c;
               let hds = hostDisplays s c (bc_displays obj);
               if hds \<noteq> [] then jumpToScreen_at env c (fst (display_center hds)) (snd (display_center hds)) s
               else jumpToScreen env c s
             }))"

text \<open>The client after a name in the list, going round.\<close>

definition next_client :: "string \<Rightarrow> (string, client) smap \<Rightarrow> client option" where
  "next_client name m =
     (if smap_find str_less name m = None then None
      else case smap_upper str_less name m of
        [] \<Rightarrow> Some (snd (hd m))
      | (_, c) # _ \<Rightarrow> Some c)"

definition handleToggleScreenEvent :: "Env \<Rightarrow> Server \<Rightarrow> Server option" where
  "handleToggleScreenEvent env s = do {
     current \<leftarrow> Server_getName s (s_active s);
     case next_client current (s_clients s) of
       None \<Rightarrow> Some s
     | Some c \<Rightarrow> jumpToScreen env c s
   }"

definition handleSwitchInDirectionEvent :: "Env \<Rightarrow> EDirection \<Rightarrow> Server \<Rightarrow> Server option" where
  "handleSwitchInDirectionEvent env dir s = do {
     new \<leftarrow> Server_getNeighbor s (s_active s) dir (s_x s) (s_y s);
     case new of
       None \<Rightarrow> Some s
     | Some (c, x, y) \<Rightarrow> jumpToScreen_at env c x y s
   }"

datatype toggle = kOff | kOn | kToggle

definition new_state :: "toggle \<Rightarrow> bool \<Rightarrow> bool" where
  "new_state t old = (case t of kOff \<Rightarrow> False | kOn \<Rightarrow> True | kToggle \<Rightarrow> \<not> old)"

definition handleKeyboardBroadcastEvent :: "toggle \<Rightarrow> string \<Rightarrow> Server \<Rightarrow> Server" where
  "handleKeyboardBroadcastEvent t screens s =
     (let newState = new_state t (s_keyboardBroadcasting s) in
      if newState \<noteq> s_keyboardBroadcasting s \<or> screens \<noteq> s_keyboardBroadcastingScreens s
      then s\<lparr>s_keyboardBroadcasting := newState, s_keyboardBroadcastingScreens := screens\<rparr> else s)"

definition handleLockCursorToScreenEvent :: "toggle \<Rightarrow> Server \<Rightarrow> Server option" where
  "handleLockCursorToScreenEvent t s =
     (let newState = new_state t (s_lockedToScreen s) in
      if newState \<noteq> s_lockedToScreen s then do {
        s1 \<leftarrow> reconfigure (s\<lparr>s_lockedToScreen := newState\<rparr>);
        if \<not> isLockedToScreenServer s1 then stopRelativeMoves s1 else Some s1
      } else Some s)"

section \<open>The constructor\<close>

definition empty_clipboard_info :: "string \<Rightarrow> UInt32 \<Rightarrow> ClipboardInfo option" where
  "empty_clipboard_info owner seqNum = do {
     (opened, cb1) \<leftarrow> of_clip (Clipboard_open 0 Clipboard_new);
     cb3 \<leftarrow> (if opened then do { (_, cb2) \<leftarrow> of_clip (Clipboard_empty cb1); of_clip (Clipboard_close cb2) } else Some cb1);
     (data, cb4) \<leftarrow> of_clip (Clipboard_marshall cb3);
     Some \<lparr>ci_clipboard = cb4, ci_clipboardData = data, ci_clipboardOwner = owner, ci_clipboardSeqNum = seqNum\<rparr>
   }"

definition Server_new ::
    "Env \<Rightarrow> (client \<rightharpoonup> BaseClientProxy) \<Rightarrow> Config \<Rightarrow> client \<Rightarrow> int \<Rightarrow> int \<Rightarrow> Server option" where
  "Server_new env heap config primaryClient x0 y0 = do {
     let s0 = Server_init heap config primaryClient x0 y0 (e_now env);
     obj \<leftarrow> deref s0 primaryClient;
     if \<not> isScreen config (bc_name obj) then None
     else do {
       primaryName \<leftarrow> Server_getName s0 primaryClient;
       info \<leftarrow> empty_clipboard_info primaryName (s_seqNum s0);
       (_, s1) \<leftarrow> addClient primaryClient (s0\<lparr>s_clipboards := replicate kClipboardCount info\<rparr>);
       (_, s2) \<leftarrow> setConfig env config s1;
       Some (if e_mask env AND KeyModifierScrollLock \<noteq> 0 then s2\<lparr>s_lockedToScreen := True\<rparr> else s2)
     }
   }"

end
