(* ===== verification/Server_Invariant.thy ===== *)
theory Server_Invariant
  imports Server_Clients
begin

text \<open>
  The server never uses a client that is gone, as long as two defects are not hit, which are shown
  at the end: the invariant of the server's tables, that every handler keeps it and has a result.
\<close>

section \<open>The order of the client list\<close>

lemma str_less_lexord:
  "str_less a b \<longleftrightarrow> (map (of_char :: char \<Rightarrow> nat) a, map of_char b) \<in> lexord {(x, y). x < y}"
  by (induction a b rule: str_less.induct) auto

interpretation strs: ordered_map str_less
proof
  show "\<not> str_less a a" for a
    unfolding str_less_lexord by (rule lexord_irreflexive) auto
  show "str_less a c" if "str_less a b" "str_less b c" for a b c
    using that unfolding str_less_lexord by (rule lexord_trans) (auto intro: transI)
  have lin: "str_less a b \<or> a = b \<or> str_less b a" for a b
    unfolding str_less_lexord
    using lexord_linear [of "{(x :: nat, y). x < y}" "map of_char a" "map of_char b"] less_linear
    by (auto simp: inj_map_eq_map inj_def)
  show "\<not> str_less a c" if "\<not> str_less a b" "\<not> str_less b c" for a b c
    using that lin [of a b] lin [of b c] \<open>\<And>a. \<not> str_less a a\<close> \<open>\<And>a b c. str_less a b \<Longrightarrow> str_less b c \<Longrightarrow> str_less a c\<close>
    by metis
qed

lemma strs_eqv [simp]: "strs.eqv a b \<longleftrightarrow> a = b"
proof
  assume "strs.eqv a b"
  then show "a = b"
    unfolding strs.eqv_def str_less_lexord
    using lexord_linear [of "{(x :: nat, y). x < y}" "map of_char a" "map of_char b"] less_linear
    by (auto simp: inj_map_eq_map inj_def)
qed simp

section \<open>The invariant\<close>

definition clip_closed :: "ClipboardInfo \<Rightarrow> bool" where
  "clip_closed info \<longleftrightarrow> \<not> cb_open (ci_clipboard info) \<and> cb_wf (ci_clipboard info)"

text \<open>
  Every client in the list is alive and listed under its name, once; the set of clients is the same;
  closing clients are alive and no longer listed; the primary client, the client with the cursor, the
  one that had it when the screen saver started and the hosts of monitors are listed; the
  clipboards are closed.
\<close>

definition server_inv :: "Server \<Rightarrow> bool" where
  "server_inv s \<longleftrightarrow>
     strs.ascending (s_clients s) \<and> distinct (s_clientSet s) \<and> sorted (s_clientSet s) \<and>
     set (s_clientSet s) = snd ` set (s_clients s) \<and>
     (\<forall>(n, c) \<in> set (s_clients s). Server_getName s c = Some n) \<and>
     (\<forall>c \<in> set (s_oldClients s). s_heap s c \<noteq> None \<and> c \<notin> set (s_clientSet s)) \<and>
     s_primaryClient s \<in> set (s_clientSet s) \<and> s_active s \<in> set (s_clientSet s) \<and>
     (\<forall>c. s_activeSaver s = Some c \<longrightarrow> c \<in> set (s_clientSet s)) \<and>
     (\<forall>(_, a) \<in> set (s_activeMonitors s). am_host a \<in> set (s_clientSet s)) \<and>
     length (s_clipboards s) = kClipboardCount \<and> (\<forall>info \<in> set (s_clipboards s). clip_closed info)"

lemma server_invD:
  assumes "server_inv s"
  shows "strs.ascending (s_clients s)" "distinct (s_clientSet s)" "set (s_clientSet s) = snd ` set (s_clients s)"
    "(n, c) \<in> set (s_clients s) \<Longrightarrow> Server_getName s c = Some n"
    "c \<in> set (s_oldClients s) \<Longrightarrow> s_heap s c \<noteq> None" "c \<in> set (s_oldClients s) \<Longrightarrow> c \<notin> set (s_clientSet s)"
    "s_primaryClient s \<in> set (s_clientSet s)" "s_active s \<in> set (s_clientSet s)"
    "s_activeSaver s = Some c \<Longrightarrow> c \<in> set (s_clientSet s)"
    "(k, a) \<in> set (s_activeMonitors s) \<Longrightarrow> am_host a \<in> set (s_clientSet s)"
    "length (s_clipboards s) = kClipboardCount" "info \<in> set (s_clipboards s) \<Longrightarrow> clip_closed info"
    "sorted (s_clientSet s)"
  using assms unfolding server_inv_def by fast+

lemma client_alive:
  assumes "server_inv s" "c \<in> set (s_clientSet s)"
  obtains obj n where "deref s c = Some obj" "Server_getName s c = Some n" "(n, c) \<in> set (s_clients s)"
proof -
  obtain n where n: "(n, c) \<in> set (s_clients s)" using server_invD(3) [OF assms(1)] assms(2) by force
  have "Server_getName s c = Some n" using server_invD(4) [OF assms(1) n] .
  moreover from this obtain obj where "deref s c = Some obj" by (auto simp: Server_getName_def split: bind_splits)
  ultimately show ?thesis using that n by blast
qed

text \<open>Fields that the invariant does not mention.\<close>

lemma server_inv_frame [simp]:
  "server_inv (s\<lparr>s_out := v1\<rparr>) = server_inv s" "server_inv (s\<lparr>s_x := v2\<rparr>) = server_inv s"
  "server_inv (s\<lparr>s_y := v2\<rparr>) = server_inv s" "server_inv (s\<lparr>s_xDelta := v2\<rparr>) = server_inv s"
  "server_inv (s\<lparr>s_yDelta := v2\<rparr>) = server_inv s" "server_inv (s\<lparr>s_xDelta2 := v2\<rparr>) = server_inv s"
  "server_inv (s\<lparr>s_yDelta2 := v2\<rparr>) = server_inv s" "server_inv (s\<lparr>s_xSaver := v2\<rparr>) = server_inv s"
  "server_inv (s\<lparr>s_ySaver := v2\<rparr>) = server_inv s" "server_inv (s\<lparr>s_seqNum := v3\<rparr>) = server_inv s"
  "server_inv (s\<lparr>s_switchDir := v4\<rparr>) = server_inv s" "server_inv (s\<lparr>s_switchScreen := v5\<rparr>) = server_inv s"
  "server_inv (s\<lparr>s_switchWaitDelay := v6\<rparr>) = server_inv s" "server_inv (s\<lparr>s_switchWaitTimer := v7\<rparr>) = server_inv s"
  "server_inv (s\<lparr>s_switchWaitX := v2\<rparr>) = server_inv s" "server_inv (s\<lparr>s_switchWaitY := v2\<rparr>) = server_inv s"
  "server_inv (s\<lparr>s_switchTwoTapDelay := v6\<rparr>) = server_inv s" "server_inv (s\<lparr>s_switchTwoTapTimer := v6\<rparr>) = server_inv s"
  "server_inv (s\<lparr>s_switchTwoTapEngaged := v7\<rparr>) = server_inv s" "server_inv (s\<lparr>s_switchTwoTapArmed := v7\<rparr>) = server_inv s"
  "server_inv (s\<lparr>s_switchNeedsShift := v7\<rparr>) = server_inv s" "server_inv (s\<lparr>s_switchNeedsControl := v7\<rparr>) = server_inv s"
  "server_inv (s\<lparr>s_switchNeedsAlt := v7\<rparr>) = server_inv s" "server_inv (s\<lparr>s_relativeMoves := v7\<rparr>) = server_inv s"
  "server_inv (s\<lparr>s_lockedToScreen := v7\<rparr>) = server_inv s" "server_inv (s\<lparr>s_enableClipboard := v7\<rparr>) = server_inv s"
  "server_inv (s\<lparr>s_sendFileThread := v7\<rparr>) = server_inv s" "server_inv (s\<lparr>s_ignoreFileTransfer := v7\<rparr>) = server_inv s"
  "server_inv (s\<lparr>s_waitDragInfoThread := v7\<rparr>) = server_inv s" "server_inv (s\<lparr>s_lastCopiedFile := v8\<rparr>) = server_inv s"
  "server_inv (s\<lparr>s_copiedFileSentTo := v9\<rparr>) = server_inv s" "server_inv (s\<lparr>s_keyboardBroadcasting := v7\<rparr>) = server_inv s"
  "server_inv (s\<lparr>s_keyboardBroadcastingScreens := v8\<rparr>) = server_inv s"
  by (simp_all add: server_inv_def Server_getName_def deref_def)

section \<open>Steps that have a result and keep the invariant\<close>

definition same_clients :: "Server \<Rightarrow> Server \<Rightarrow> bool" where
  "same_clients s s' \<longleftrightarrow>
     s_clients s' = s_clients s \<and> s_clientSet s' = s_clientSet s \<and> s_oldClients s' = s_oldClients s \<and>
     s_primaryClient s' = s_primaryClient s \<and> s_config s' = s_config s \<and>
     (\<forall>c. map_option bc_name (s_heap s' c) = map_option bc_name (s_heap s c))"

lemma same_clients_refl [simp]: "same_clients s s"
  by (simp add: same_clients_def)

lemma same_clients_trans: "same_clients s s1 \<Longrightarrow> same_clients s1 s2 \<Longrightarrow> same_clients s s2"
  by (simp add: same_clients_def)

lemma same_clientsD:
  assumes "same_clients s s'"
  shows "s_clients s' = s_clients s" "s_clientSet s' = s_clientSet s" "s_primaryClient s' = s_primaryClient s"
    "s_oldClients s' = s_oldClients s" "s_config s' = s_config s"
  using assms by (simp_all add: same_clients_def)

lemma same_clients_name:
  assumes "\<And>c. map_option bc_name (s_heap s' c) = map_option bc_name (s_heap s c)" "s_config s' = s_config s"
  shows "Server_getName s' c = Server_getName s c"
  using assms(1) [of c] assms(2) by (cases "s_heap s c"; cases "s_heap s' c") (auto simp: Server_getName_def deref_def Let_def)

text \<open>
  \<open>kept\<close>: whatever the step yields keeps the invariant and the clients; \<open>runs\<close>: it yields something.
\<close>

definition kept :: "Server \<Rightarrow> Server option \<Rightarrow> bool" where
  "kept s m \<longleftrightarrow> (\<forall>s'. m = Some s' \<longrightarrow> server_inv s' \<and> same_clients s s')"

definition runs :: "Server \<Rightarrow> Server option \<Rightarrow> bool" where
  "runs s m \<longleftrightarrow> (\<exists>s'. m = Some s' \<and> server_inv s' \<and> same_clients s s')"

lemma runs_kept: "runs s m \<Longrightarrow> kept s m"
  by (auto simp: runs_def kept_def)

lemma runs_Some [simp]: "runs s (Some s') \<longleftrightarrow> server_inv s' \<and> same_clients s s'"
  by (simp add: runs_def)

lemma kept_None [simp]: "kept s None"
  by (simp add: kept_def)

lemma kept_Some [simp]: "kept s (Some s') \<longleftrightarrow> server_inv s' \<and> same_clients s s'"
  by (simp add: kept_def)

lemma runs_bind:
  assumes "runs s m" "\<And>s'. server_inv s' \<Longrightarrow> same_clients s s' \<Longrightarrow> runs s' (f s')"
  shows "runs s (m \<bind> f)"
proof -
  from assms(1) obtain s' where "m = Some s'" "server_inv s'" "same_clients s s'" by (auto simp: runs_def)
  with assms(2) [of s'] show ?thesis by (auto simp: runs_def intro: same_clients_trans)
qed

lemma kept_bind:
  assumes "kept s m" "\<And>s'. server_inv s' \<Longrightarrow> same_clients s s' \<Longrightarrow> kept s' (f s')"
  shows "kept s (m \<bind> f)"
  using assms by (auto simp: kept_def bind_eq_Some_conv intro: same_clients_trans)

lemma runs_from: "same_clients s s1 \<Longrightarrow> runs s1 m \<Longrightarrow> runs s m"
  by (auto simp: runs_def intro: same_clients_trans)

lemma kept_from: "same_clients s s1 \<Longrightarrow> kept s1 m \<Longrightarrow> kept s m"
  by (auto simp: kept_def intro: same_clients_trans)

text \<open>Fields that leave the clients alone.\<close>

lemma same_clients_frame [simp]:
  "same_clients s (s'\<lparr>s_out := v1\<rparr>) = same_clients s s'" "same_clients s (s'\<lparr>s_x := v2\<rparr>) = same_clients s s'"
  "same_clients s (s'\<lparr>s_y := v2\<rparr>) = same_clients s s'" "same_clients s (s'\<lparr>s_xDelta := v2\<rparr>) = same_clients s s'"
  "same_clients s (s'\<lparr>s_yDelta := v2\<rparr>) = same_clients s s'" "same_clients s (s'\<lparr>s_xDelta2 := v2\<rparr>) = same_clients s s'"
  "same_clients s (s'\<lparr>s_yDelta2 := v2\<rparr>) = same_clients s s'" "same_clients s (s'\<lparr>s_xSaver := v2\<rparr>) = same_clients s s'"
  "same_clients s (s'\<lparr>s_ySaver := v2\<rparr>) = same_clients s s'" "same_clients s (s'\<lparr>s_seqNum := v3\<rparr>) = same_clients s s'"
  "same_clients s (s'\<lparr>s_switchDir := v4\<rparr>) = same_clients s s'" "same_clients s (s'\<lparr>s_switchScreen := v5\<rparr>) = same_clients s s'"
  "same_clients s (s'\<lparr>s_switchWaitDelay := v6\<rparr>) = same_clients s s'" "same_clients s (s'\<lparr>s_switchWaitTimer := v7\<rparr>) = same_clients s s'"
  "same_clients s (s'\<lparr>s_switchWaitX := v2\<rparr>) = same_clients s s'" "same_clients s (s'\<lparr>s_switchWaitY := v2\<rparr>) = same_clients s s'"
  "same_clients s (s'\<lparr>s_switchTwoTapDelay := v6\<rparr>) = same_clients s s'" "same_clients s (s'\<lparr>s_switchTwoTapTimer := v6\<rparr>) = same_clients s s'"
  "same_clients s (s'\<lparr>s_switchTwoTapEngaged := v7\<rparr>) = same_clients s s'" "same_clients s (s'\<lparr>s_switchTwoTapArmed := v7\<rparr>) = same_clients s s'"
  "same_clients s (s'\<lparr>s_switchNeedsShift := v7\<rparr>) = same_clients s s'" "same_clients s (s'\<lparr>s_switchNeedsControl := v7\<rparr>) = same_clients s s'"
  "same_clients s (s'\<lparr>s_switchNeedsAlt := v7\<rparr>) = same_clients s s'" "same_clients s (s'\<lparr>s_relativeMoves := v7\<rparr>) = same_clients s s'"
  "same_clients s (s'\<lparr>s_lockedToScreen := v7\<rparr>) = same_clients s s'" "same_clients s (s'\<lparr>s_enableClipboard := v7\<rparr>) = same_clients s s'"
  "same_clients s (s'\<lparr>s_sendFileThread := v7\<rparr>) = same_clients s s'" "same_clients s (s'\<lparr>s_ignoreFileTransfer := v7\<rparr>) = same_clients s s'"
  "same_clients s (s'\<lparr>s_waitDragInfoThread := v7\<rparr>) = same_clients s s'" "same_clients s (s'\<lparr>s_lastCopiedFile := v8\<rparr>) = same_clients s s'"
  "same_clients s (s'\<lparr>s_copiedFileSentTo := v9\<rparr>) = same_clients s s'" "same_clients s (s'\<lparr>s_active := v10\<rparr>) = same_clients s s'"
  "same_clients s (s'\<lparr>s_activeSaver := v11\<rparr>) = same_clients s s'" "same_clients s (s'\<lparr>s_clipboards := v12\<rparr>) = same_clients s s'"
  "same_clients s (s'\<lparr>s_activeMonitors := v13\<rparr>) = same_clients s s'" "same_clients s (s'\<lparr>s_keyboardBroadcasting := v7\<rparr>) = same_clients s s'"
  "same_clients s (s'\<lparr>s_keyboardBroadcastingScreens := v8\<rparr>) = same_clients s s'"
  by (simp_all add: same_clients_def)

section \<open>Messages and clipboards\<close>

lemma emit_inv [simp]: "server_inv (emit out s) = server_inv s" "same_clients s' (emit out s) = same_clients s' s"
  by (simp_all add: emit_def)

lemma tell_runs: "server_inv s \<Longrightarrow> c \<in> set (s_clientSet s) \<Longrightarrow> runs s (tell c out s)"
  by (rule client_alive [of s c]) (simp_all add: tell_def)

lemma tell_all_runs:
  "server_inv s \<Longrightarrow> snd ` set cs \<subseteq> set (s_clientSet s) \<Longrightarrow> runs s (tell_all f cs s)"
proof (induction cs arbitrary: s)
  case (Cons x cs)
  obtain n c where x: "x = (n, c)" by force
  have "runs s' (tell_all f cs s')" if "server_inv s'" "same_clients s s'" for s'
    using that Cons same_clientsD(2) [OF that(2)] by simp
  then have "runs s (tell c out s \<bind> tell_all f cs)" for out
    using Cons.prems x by (intro runs_bind tell_runs) auto
  then show ?case using Cons x by (simp split: option.split)
qed simp

lemma clients_subset: "server_inv s \<Longrightarrow> snd ` set (s_clients s) \<subseteq> set (s_clientSet s)"
  by (simp add: server_invD(3))

definition env_ok :: "Env \<Rightarrow> bool" where
  "env_ok env \<longleftrightarrow> (\<forall>c cid. \<not> cb_open (e_clipboard env c cid) \<and> cb_wf (e_clipboard env c cid))"

lemma marshall_closed:
  assumes "\<not> cb_open cb" "cb_wf cb"
  obtains data cb' where "of_clip (Clipboard_marshall cb) = Some (data, cb')" "\<not> cb_open cb'" "cb_wf cb'"
proof -
  obtain cb' where "IClipboard_marshall Clipboard_vt cb = Inr (marshalled (cb_content cb), cb')" "\<not> cb_open cb'"
    using cb.marshall_content [OF assms(2,1)] by blast
  moreover from this have "cb_wf cb'"
    using assms
    by (auto simp: IClipboard_marshall_def Clipboard_vt_def Clipboard_ops_defs bind_sum_def cb_wf_def
        split: sum.splits prod.splits if_splits)
  ultimately show ?thesis using that by (simp add: Clipboard_marshall_def of_clip_def)
qed

lemma server_inv_clipboards:
  "server_inv s \<Longrightarrow> clip_closed info \<Longrightarrow> server_inv (s\<lparr>s_clipboards := (s_clipboards s)[cid := info]\<rparr>)"
  using set_update_subset_insert [of "s_clipboards s" cid info]
  by (auto simp: server_inv_def Server_getName_def deref_def)

lemma sendFileToScreen_runs:
  "server_inv s \<Longrightarrow> c \<in> set (s_clientSet s) \<Longrightarrow> runs s (sendFileToScreen c f s)"
  by (auto simp: sendFileToScreen_def intro!: runs_bind tell_runs)

lemma clipboard_at:
  assumes "server_inv s" "cid < kClipboardCount"
  shows "cid < length (s_clipboards s)" "clip_closed (s_clipboards s ! cid)"
  using server_invD(11,12) [OF assms(1)] assms(2) by auto

lemma offer_copied_file_runs:
  assumes inv: "server_inv s" and cid: "cid < kClipboardCount"
  shows "runs s (offer_copied_file env sender cid s)"
proof -
  define cb where "cb = ci_clipboard (s_clipboards s ! cid)"
  have c: "\<not> cb_open cb" "cb_wf cb" using clipboard_at(2) [OF assms] by (auto simp: clip_closed_def cb_def)
  have ops: "of_clip (Clipboard_open 0 cb) = Some (True, cb\<lparr>cb_open := True, cb_time := 0\<rparr>)"
    "of_clip (Clipboard_has kText (cb\<lparr>cb_open := True, cb_time := 0\<rparr>)) = Some (cb_added cb ! kText)"
    "of_clip (Clipboard_get kText (cb\<lparr>cb_open := True, cb_time := 0\<rparr>)) = Some (cb_data cb ! kText)"
    "of_clip (Clipboard_close (cb\<lparr>cb_open := True, cb_time := 0\<rparr>)) = Some (cb\<lparr>cb_open := False, cb_time := 0\<rparr>)"
    using c by (simp_all add: of_clip_def Clipboard_ops_defs kText_def kNumFormats_def)
  let ?s1 = "s\<lparr>s_clipboards := (s_clipboards s)[cid := (s_clipboards s ! cid)\<lparr>ci_clipboard := cb\<lparr>cb_open := False, cb_time := 0\<rparr>\<rparr>]\<rparr>"
  have s1: "server_inv ?s1" using inv c by (intro server_inv_clipboards) (auto simp: clip_closed_def cb_wf_def)
  have send: "runs s' (sendFileToScreen (s_active s') f s' \<bind> (\<lambda>s3. Some (s3\<lparr>s_copiedFileSentTo := g s3\<rparr>)))"
    if "server_inv s'" for s' f g
    using that server_invD(8) by (intro runs_bind sendFileToScreen_runs) auto
  have "runs ?s1 (sendFileToScreen (s_active s) f (?s1\<lparr>s_lastCopiedFile := f, s_copiedFileSentTo := []\<rparr>)
      \<bind> (\<lambda>s3. Some (s3\<lparr>s_copiedFileSentTo := List.insert (s_active s3) (s_copiedFileSentTo s3)\<rparr>)))" for f
    using runs_from [OF _ send [of "?s1\<lparr>s_lastCopiedFile := f, s_copiedFileSentTo := []\<rparr>" f], of ?s1] s1 by simp
  then have "runs s (sendFileToScreen (s_active s) f (?s1\<lparr>s_lastCopiedFile := f, s_copiedFileSentTo := []\<rparr>)
      \<bind> (\<lambda>s3. Some (s3\<lparr>s_copiedFileSentTo := List.insert (s_active s3) (s_copiedFileSentTo s3)\<rparr>)))" for f
    by (rule runs_from [rotated]) simp
  then show ?thesis
    unfolding offer_copied_file_def cb_def [symmetric] Let_def ops
    using s1 by (simp add: ops Let_def)
qed

lemma onClipboardChanged_runs:
  assumes inv: "server_inv s" and env: "env_ok env" and sender: "sender \<in> set (s_clientSet s)" and cid: "cid < kClipboardCount"
  shows "runs s (onClipboardChanged env sender cid q s)"
proof -
  obtain name where name: "Server_getName s sender = Some name" by (rule client_alive [OF inv sender])
  obtain data cb where cb: "of_clip (Clipboard_marshall (e_clipboard env sender cid)) = Some (data, cb)" "\<not> cb_open cb" "cb_wf cb"
    by (rule marshall_closed) (use env in \<open>auto simp: env_ok_def\<close>)
  have len: "\<not> length (s_clipboards s) \<le> cid" using clipboard_at(1) [OF inv cid] by simp
  have upd: "server_inv (s\<lparr>s_clipboards := (s_clipboards s)[cid := info]\<rparr>)" if "ci_clipboard info = cb" for info
    using that cb inv by (intro server_inv_clipboards) (auto simp: clip_closed_def)
  have tail: "runs s' (tell_all f cs s' \<bind> (\<lambda>s2. tell_all g (s_clients s2) s2 \<bind> offer_copied_file env sender cid))"
    if "server_inv s'" "cs = s_clients s'" for s' f g cs
    unfolding that(2) using that(1) cid by (intro runs_bind tell_all_runs offer_copied_file_runs clients_subset) auto
  show ?thesis
    unfolding onClipboardChanged_def
    using upd len by (auto simp: name cb Let_def intro!: runs_from [OF _ tail])
qed

lemma handleClipboardChanged_runs:
  "server_inv s \<Longrightarrow> env_ok env \<Longrightarrow> cid < kClipboardCount \<Longrightarrow> runs s (handleClipboardChanged env sender cid q s)"
  by (simp add: handleClipboardChanged_def onClipboardChanged_runs)

lemma handleClipboardGrabbed_runs:
  assumes inv: "server_inv s" and cid: "cid < kClipboardCount"
  shows "runs s (handleClipboardGrabbed grabber cid q s)"
proof (cases "s_enableClipboard s \<and> grabber \<in> set (s_clientSet s)")
  case True
  obtain name where name: "Server_getName s grabber = Some name" by (rule client_alive [OF inv, of grabber]) (use True in simp_all)
  define cb where "cb = ci_clipboard (s_clipboards s ! cid)"
  let ?e = "cb\<lparr>cb_open := False, cb_time := 0, cb_owner := True, cb_timeOwned := 0,
    cb_data := replicate kNumFormats [], cb_added := replicate kNumFormats False\<rparr>"
  have c: "\<not> cb_open cb" "cb_wf cb" using clipboard_at(2) [OF assms] by (auto simp: clip_closed_def cb_def)
  have e: "\<exists>cb2. of_clip (Clipboard_empty (cb\<lparr>cb_open := True, cb_time := 0\<rparr>)) = Some (True, cb2) \<and>
      (\<exists>cb3. of_clip (Clipboard_close cb2) = Some cb3 \<and> \<not> cb_open cb3 \<and> cb_wf cb3)"
    by (simp add: of_clip_def Clipboard_ops_defs cb_wf_def)
  then obtain cb2 cb3 where cb3: "of_clip (Clipboard_empty (cb\<lparr>cb_open := True, cb_time := 0\<rparr>)) = Some (True, cb2)"
    "of_clip (Clipboard_close cb2) = Some cb3" "\<not> cb_open cb3" "cb_wf cb3" by blast
  obtain data cb4 where cb4: "of_clip (Clipboard_marshall cb3) = Some (data, cb4)" "\<not> cb_open cb4" "cb_wf cb4"
    by (rule marshall_closed [OF cb3(3,4)])
  have o: "of_clip (Clipboard_open 0 cb) = Some (True, cb\<lparr>cb_open := True, cb_time := 0\<rparr>)"
    using c by (simp add: of_clip_def Clipboard_ops_defs)
  have upd: "server_inv (s\<lparr>s_clipboards := (s_clipboards s)[cid := info]\<rparr>)" if "ci_clipboard info = cb4" for info
    using that cb4 inv by (intro server_inv_clipboards) (auto simp: clip_closed_def)
  have tail: "runs s' (tell_all f cs s')" if "server_inv s'" "cs = s_clients s'" for s' f cs
    unfolding that(2) using that(1) by (intro tell_all_runs clients_subset)
  show ?thesis
    unfolding handleClipboardGrabbed_def Let_def cb_def [symmetric]
    using True clipboard_at(1) [OF inv cid] upd
    by (auto simp: name o cb3 cb4 Let_def intro!: runs_from [OF _ tail])
qed (use inv in \<open>auto simp: handleClipboardGrabbed_def\<close>)

section \<open>Switching\<close>

lemma switch_state_inv [simp]:
  "server_inv (stopSwitch s) = server_inv s" "server_inv (stopSwitchWait s) = server_inv s"
  "server_inv (stopSwitchTwoTap s) = server_inv s" "server_inv (startSwitchTwoTap env s) = server_inv s"
  "server_inv (startSwitchWait x y s) = server_inv s" "server_inv (set_position x y s) = server_inv s"
  "same_clients s' (stopSwitch s) = same_clients s' s" "same_clients s' (stopSwitchWait s) = same_clients s' s"
  "same_clients s' (stopSwitchTwoTap s) = same_clients s' s" "same_clients s' (startSwitchTwoTap env s) = same_clients s' s"
  "same_clients s' (startSwitchWait x y s) = same_clients s' s" "same_clients s' (set_position x y s) = same_clients s' s"
  by (simp_all add: stopSwitch_def stopSwitchWait_def stopSwitchTwoTap_def startSwitchTwoTap_def startSwitchWait_def set_position_def)

lemma switch_state_active [simp]:
  "s_active (stopSwitch s) = s_active s" "s_active (set_position x y s) = s_active s" "s_active (emit out s) = s_active s"
  "s_primaryClient (stopSwitch s) = s_primaryClient s" "s_primaryClient (set_position x y s) = s_primaryClient s"
  "s_primaryClient (emit out s) = s_primaryClient s"
  by (simp_all add: stopSwitch_def stopSwitchWait_def stopSwitchTwoTap_def set_position_def emit_def)

lemma server_inv_active: "server_inv s \<Longrightarrow> c \<in> set (s_clientSet s) \<Longrightarrow> server_inv (s\<lparr>s_active := c\<rparr>)"
  by (auto simp: server_inv_def Server_getName_def deref_def)

lemma server_inv_saver:
  "server_inv s \<Longrightarrow> (\<And>c. v = Some c \<Longrightarrow> c \<in> set (s_clientSet s)) \<Longrightarrow> server_inv (s\<lparr>s_activeSaver := v\<rparr>)"
  by (auto simp: server_inv_def Server_getName_def deref_def)

lemma noSwitch_runs: "server_inv s \<Longrightarrow> runs s (noSwitch env x y s)"
proof -
  assume inv: "server_inv s"
  obtain obj where "deref s (s_active s) = Some obj" by (rule client_alive [OF inv server_invD(8) [OF inv]])
  then have "runs s (armSwitchTwoTap env x y s)"
    using inv by (auto simp: armSwitchTwoTap_def Let_def split: EDirection.split prod.split)
  then show ?thesis unfolding noSwitch_def by (rule runs_bind) simp
qed

lemma fetch_clipboards_runs:
  "server_inv s \<Longrightarrow> env_ok env \<Longrightarrow> \<forall>cid \<in> set cids. cid < kClipboardCount \<Longrightarrow> runs s (fetch_clipboards env cids s)"
proof (induction cids arbitrary: s)
  case (Cons cid cids)
  obtain name where n: "Server_getName s (s_primaryClient s) = Some name"
    by (rule client_alive [OF Cons.prems(1) server_invD(7) [OF Cons.prems(1)]])
  have "runs s (onClipboardChanged env (s_primaryClient s) cid q s)" for q
    using Cons.prems by (intro onClipboardChanged_runs server_invD(7)) auto
  with Cons n clipboard_at(1) [OF Cons.prems(1), of cid] show ?case
    by (auto simp: Let_def intro!: runs_bind)
qed simp

lemma send_clipboards_runs:
  "server_inv s \<Longrightarrow> \<forall>cid \<in> set cids. cid < kClipboardCount \<Longrightarrow> runs s (send_clipboards cids s)"
proof (induction cids arbitrary: s)
  case (Cons cid cids)
  then show ?case
    using clipboard_at(1) [OF Cons.prems(1)]
    by (auto simp: not_le [symmetric] intro!: runs_bind tell_runs server_invD(8))
qed simp

lemma send_pending_file_runs: "server_inv s \<Longrightarrow> runs s (send_pending_file s)"
  by (auto simp: send_pending_file_def intro!: runs_bind sendFileToScreen_runs server_invD(8))

lemma enter_screen_runs:
  assumes "server_inv s" "dst \<in> set (s_clientSet s)"
  shows "runs s (enter_screen env dst x y b s)"
proof -
  let ?s1 = "s\<lparr>s_active := dst, s_seqNum := s_seqNum s + 1\<rparr>"
  have s1: "server_inv ?s1" "dst \<in> set (s_clientSet ?s1)" using assms server_inv_active [of s dst] by auto
  have last: "runs s' (deref s' dst \<bind> (\<lambda>obj. Some (emit (ScreenSwitched (bc_name obj)) s')))"
    if "server_inv s'" "same_clients ?s1 s'" for s'
  proof -
    have "dst \<in> set (s_clientSet s')" using that same_clientsD(2) [OF that(2)] assms(2) by simp
    from client_alive [OF that(1) this] show ?thesis using that by fastforce
  qed
  have clips: "runs s' (if s_enableClipboard s' then send_clipboards [0..<kClipboardCount] s' \<bind> send_pending_file else Some s')"
    if "server_inv s'" for s'
    using that by (auto intro!: runs_bind send_clipboards_runs send_pending_file_runs)
  have "runs ?s1 (tell dst out ?s1 \<bind> (\<lambda>s2. (if s_enableClipboard s2 then send_clipboards [0..<kClipboardCount] s2 \<bind> send_pending_file
      else Some s2) \<bind> (\<lambda>s4. deref s4 dst \<bind> (\<lambda>obj. Some (emit (ScreenSwitched (bc_name obj)) s4)))))" for out
    using s1 by (intro runs_bind tell_runs clips last) (auto intro: same_clients_trans)
  then have "runs s (tell dst out ?s1 \<bind> (\<lambda>s2. (if s_enableClipboard s2 then send_clipboards [0..<kClipboardCount] s2 \<bind> send_pending_file
      else Some s2) \<bind> (\<lambda>s4. deref s4 dst \<bind> (\<lambda>obj. Some (emit (ScreenSwitched (bc_name obj)) s4)))))" for out
    by (rule runs_from [rotated]) simp
  then show ?thesis unfolding enter_screen_def Let_def by simp
qed

lemma switchScreen_runs:
  assumes inv: "server_inv s" and env: "env_ok env" and dst: "dst \<in> set (s_clientSet s)"
  shows "runs s (switchScreen env dst x y b s)"
proof -
  obtain obj where a: "deref s (s_active s) = Some obj" by (rule client_alive [OF inv server_invD(8) [OF inv]])
  obtain obj' where d: "deref s dst = Some obj'" by (rule client_alive [OF inv dst])
  let ?s1 = "set_position x y (stopSwitch s)"
  have s1: "server_inv ?s1" "same_clients s ?s1" "s_active ?s1 \<in> set (s_clientSet ?s1)" "dst \<in> set (s_clientSet ?s1)"
    using inv dst same_clientsD(2) [of s ?s1] server_invD(8) [of ?s1] by auto
  have rest: "runs s' ((if s_active s' = s_primaryClient s' \<and> s_enableClipboard s'
      then fetch_clipboards env [0..<kClipboardCount] s' else Some s') \<bind> enter_screen env dst x y b)"
    if "server_inv s'" "same_clients ?s1 s'" for s'
  proof (rule runs_bind)
    show "runs s' (if s_active s' = s_primaryClient s' \<and> s_enableClipboard s'
        then fetch_clipboards env [0..<kClipboardCount] s' else Some s')"
      using that env fetch_clipboards_runs [of s' env "[0..<kClipboardCount]"] by simp
    show "runs s'' (enter_screen env dst x y b s'')" if "server_inv s''" "same_clients s' s''" for s''
      using that s1(4) same_clientsD(2) [OF that(2)] same_clientsD(2) [OF \<open>same_clients ?s1 s'\<close>]
      by (intro enter_screen_runs) auto
  qed
  have leave: "runs ?s1 (tell (s_active ?s1) (Leave (s_active ?s1)) ?s1 \<bind> (\<lambda>s2. if \<not> e_leave env (s_active ?s1) then Some s2
      else (if s_active s2 = s_primaryClient s2 \<and> s_enableClipboard s2
        then fetch_clipboards env [0..<kClipboardCount] s2 else Some s2) \<bind> enter_screen env dst x y b))"
    using s1 rest by (intro runs_bind tell_runs) auto
  have move: "runs ?s1 (tell dst (MouseMove dst x y) ?s1)" using s1 by (intro tell_runs)
  show ?thesis
    unfolding switchScreen_def Let_def
    using a d runs_from [OF s1(2) leave] runs_from [OF s1(2) move] by auto
qed

end
