(* ===== verification/Server_Handlers.thy ===== *)
theory Server_Handlers
  imports Server_Invariant Server_Search
begin

text \<open>
  The event handlers of the server keep its tables consistent: the remaining handlers have a result
  from every consistent state, and the result is consistent; a handler that asks for a neighbor may
  search forever, and keeps the state consistent when it returns.
\<close>

section \<open>Jumping and relative motion\<close>

lemma server_inv_heap:
  assumes "server_inv s" "\<And>c. map_option bc_name (h c) = map_option bc_name (s_heap s c)"
  shows "server_inv (s\<lparr>s_heap := h\<rparr>)"
proof -
  have "Server_getName (s\<lparr>s_heap := h\<rparr>) c = Server_getName s c" for c
    using assms(2) by (intro same_clients_name) auto
  moreover have "h c \<noteq> None" if "s_heap s c \<noteq> None" for c
    using assms(2) [of c] that by (auto split: option.splits)
  ultimately show ?thesis using assms(1) by (auto simp: server_inv_def)
qed

lemma setJumpCursorPos_runs:
  assumes inv: "server_inv s" and c: "c \<in> set (s_clientSet s)"
  shows "runs s (setJumpCursorPos c x y s)"
proof -
  obtain obj where obj: "deref s c = Some obj" by (rule client_alive [OF inv c])
  then have "server_inv (s\<lparr>s_heap := (s_heap s)(c \<mapsto> obj\<lparr>bc_jumpPos := (x, y)\<rparr>)\<rparr>)"
    by (intro server_inv_heap inv) (auto simp: deref_def)
  with obj show ?thesis by (simp add: setJumpCursorPos_def same_clients_def deref_def)
qed

lemma jumpToScreen_at_runs:
  assumes "server_inv s" "env_ok env" "c \<in> set (s_clientSet s)"
  shows "runs s (jumpToScreen_at env c x y s)"
  unfolding jumpToScreen_at_def
  using assms by (intro runs_bind setJumpCursorPos_runs switchScreen_runs server_invD(8)) (auto dest: same_clientsD(2))

lemma jumpToScreen_runs:
  assumes "server_inv s" "env_ok env" "c \<in> set (s_clientSet s)"
  shows "runs s (jumpToScreen env c s)"
  unfolding jumpToScreen_def
proof (rule runs_bind)
  show "runs s (setJumpCursorPos (s_active s) (s_x s) (s_y s) s)"
    using assms by (intro setJumpCursorPos_runs server_invD(8))
  fix s1 assume s1: "server_inv s1" "same_clients s s1"
  then have c: "c \<in> set (s_clientSet s1)" using assms(3) by (simp add: same_clientsD(2))
  obtain obj where "deref s1 c = Some obj" by (rule client_alive [OF s1(1) c])
  then show "runs s1 (deref s1 c \<bind> (\<lambda>obj. let (x, y) = bc_jumpPos obj; hds = hostDisplays s1 c (bc_displays obj);
      insideHost = list_ex (\<lambda>d. contains_point d x y) hds;
      (x', y') = if \<not> insideHost \<and> hds \<noteq> [] then display_center hds else (x, y) in switchScreen env c x' y' False s1))"
    using switchScreen_runs [OF s1(1) assms(2) c] by (auto simp: Let_def split: prod.splits)
qed

lemma stopRelativeMoves_runs:
  assumes inv: "server_inv s"
  shows "runs s (stopRelativeMoves s)"
proof -
  obtain obj where obj: "deref s (s_active s) = Some obj" by (rule client_alive [OF inv server_invD(8) [OF inv]])
  have "runs s' (tell (s_active s') out s')" if "server_inv s'" for s' out
    using that by (intro tell_runs server_invD(8))
  from runs_from [OF _ this] inv have "runs s (tell (s_active s) out (set_position x y s))" for out x y
    by (metis switch_state_inv(6,12) switch_state_active(2) same_clients_refl)
  with obj inv show ?thesis by (auto simp: stopRelativeMoves_def Let_def split: prod.split)
qed

section \<open>Monitors and options\<close>

lemma find_monitor_alive:
  assumes "\<And>c. c \<in> set cs \<Longrightarrow> s_heap s c \<noteq> None"
  obtains r where "find_monitor s cfg cs = Some r" "\<And>a. r = Some a \<Longrightarrow> am_host a \<in> set cs"
  using assms
proof (induction cs arbitrary: thesis)
  case (Cons c cs)
  obtain obj where obj: "s_heap s c = Some obj" using Cons.prems(2) [of c] by auto
  show ?case
  proof (cases "find (monitor_matches cfg) (bc_displays obj)")
    case None
    have "\<And>a. a \<in> set cs \<Longrightarrow> s_heap s a \<noteq> None" using Cons.prems(2) by simp
    then obtain r where "find_monitor s cfg cs = Some r" "\<And>a. r = Some a \<Longrightarrow> am_host a \<in> set cs"
      using Cons.IH by blast
    with obj None show ?thesis by (intro Cons.prems(1)) (auto simp: deref_def)
  next
    case (Some disp)
    with obj show ?thesis by (intro Cons.prems(1)) (auto simp: deref_def)
  qed
qed simp

lemma smap_assign_set: "x \<in> set (smap_assign k v m) \<Longrightarrow> x \<in> set m \<or> snd x = v"
proof -
  have "x \<in> set (smap_insert str_less k v m) \<Longrightarrow> x \<in> set m \<or> snd x = v"
    by (induction m) (auto split: if_splits)
  moreover have "x \<in> set (smap_update str_less k (\<lambda>_. v) m) \<Longrightarrow> x \<in> set m \<or> snd x = v"
    by (induction m) (auto split: if_splits)
  ultimately show "x \<in> set (smap_assign k v m) \<Longrightarrow> x \<in> set m \<or> snd x = v"
    by (auto simp: smap_assign_def split: option.splits)
qed

lemma update_monitors_alive:
  assumes "\<And>c. c \<in> set (s_clientSet s) \<Longrightarrow> s_heap s c \<noteq> None" "\<forall>(_, a) \<in> set m. am_host a \<in> set (s_clientSet s)"
  obtains m' where "update_monitors s cfgs m = Some m'" "\<forall>(_, a) \<in> set m'. am_host a \<in> set (s_clientSet s)"
  using assms
proof (induction cfgs arbitrary: m thesis)
  case (Cons x cfgs)
  obtain k cfg where x: "x = (k, cfg)" by force
  obtain r where r: "find_monitor s cfg (s_clientSet s) = Some r" "\<And>a. r = Some a \<Longrightarrow> am_host a \<in> set (s_clientSet s)"
    by (rule find_monitor_alive [of "s_clientSet s" s cfg]) (use Cons.prems(2) in auto)
  have "\<forall>(_, a) \<in> set (case r of None \<Rightarrow> m | Some a \<Rightarrow> smap_assign (mc_name cfg) a m). am_host a \<in> set (s_clientSet s)"
    using Cons.prems(3) r(2) by (auto split: option.splits dest: smap_assign_set)
  from Cons.IH [OF _ Cons.prems(2) this] obtain m' where
    "update_monitors s cfgs (case r of None \<Rightarrow> m | Some a \<Rightarrow> smap_assign (mc_name cfg) a m) = Some m'"
    "\<forall>(_, a) \<in> set m'. am_host a \<in> set (s_clientSet s)" by metis
  with x r show ?case by (intro Cons.prems(1)) auto
qed simp

lemma server_inv_monitors:
  "server_inv s \<Longrightarrow> \<forall>(_, a) \<in> set m. am_host a \<in> set (s_clientSet s) \<Longrightarrow> server_inv (s\<lparr>s_activeMonitors := m\<rparr>)"
  by (auto simp: server_inv_def Server_getName_def deref_def)

lemma client_heap: "server_inv s \<Longrightarrow> c \<in> set (s_clientSet s) \<Longrightarrow> s_heap s c \<noteq> None"
  by (rule client_alive [of s c]) (auto simp: deref_def)

lemma updateActiveMonitors_runs:
  assumes "server_inv s"
  shows "runs s (updateActiveMonitors s)"
proof -
  obtain m where "update_monitors s (cfg_monitors (s_config s)) [] = Some m"
    "\<forall>(_, a) \<in> set m. am_host a \<in> set (s_clientSet s)"
    by (rule update_monitors_alive [of s "[]"]) (use client_heap [OF assms] in auto)
  with assms show ?thesis by (simp add: updateActiveMonitors_def server_inv_monitors)
qed

lemma hasNeighbor_total: "dir \<noteq> kNoDirection \<Longrightarrow> \<exists>b. hasNeighbor cfg name dir = Some b"
  by (auto simp: hasNeighbor_def hasNeighbor_in_def CellEdge_make_def split: option.split)

lemma reconfigure_runs:
  assumes inv: "server_inv s"
  shows "runs s (reconfigure s)"
proof -
  obtain name where name: "Server_getName s (s_primaryClient s) = Some name"
    by (rule client_alive [OF inv server_invD(7) [OF inv]])
  have "\<exists>b. hasAnyNeighbor s (s_primaryClient s) dir = Some b" if "dir \<noteq> kNoDirection" for dir
    using hasNeighbor_total [OF that, of "s_config s" name] by (auto simp: hasAnyNeighbor_def name)
  then obtain sides where "getActivePrimarySides s = Some sides"
    unfolding getActivePrimarySides_def
    by (metis (no_types, lifting) EDirection.distinct(2,4,6,8) bind.bind_lunit)
  then show ?thesis using tell_runs [OF inv server_invD(7) [OF inv]] by (simp add: reconfigure_def)
qed

lemma sendOptions_runs: "server_inv s \<Longrightarrow> c \<in> set (s_clientSet s) \<Longrightarrow> runs s (sendOptions c s)"
  by (rule client_alive [of s c])
    (auto simp: sendOptions_def Let_def intro!: runs_bind tell_runs dest: same_clientsD(2))

lemma process_option_inv:
  assumes "process_option (rel, s) opt = (rel', s')"
  shows "server_inv s' = server_inv s" "same_clients t s' = same_clients t s"
  using assms by (auto simp: process_option_def Let_def split: prod.splits if_splits)

lemma process_options_inv:
  "foldl process_option (rel, s) m = (rel', s') \<Longrightarrow> server_inv s' = server_inv s \<and> same_clients t s' = same_clients t s"
proof (induction m arbitrary: rel s)
  case (Cons opt m)
  obtain rel1 s1 where "process_option (rel, s) opt = (rel1, s1)" by force
  with Cons process_option_inv [OF this] show ?case by simp
qed auto

lemma processOptions_runs:
  assumes inv: "server_inv s"
  shows "runs s (processOptions s)"
proof (cases "getOptions (s_config s) []")
  case (Some m)
  let ?s1 = "s\<lparr>s_switchNeedsShift := False, s_switchNeedsControl := False, s_switchNeedsAlt := False\<rparr>"
  obtain rel s2 where f: "foldl process_option (s_relativeMoves ?s1, ?s1) m = (rel, s2)" by force
  have s2: "server_inv s2" "same_clients s s2" using process_options_inv [OF f, of s] inv by simp_all
  have "runs s2 ((if s_relativeMoves s2 \<and> \<not> rel then stopRelativeMoves s2 else Some s2)
      \<bind> (\<lambda>s3. Some (s3\<lparr>s_relativeMoves := rel\<rparr>)))"
    using s2 stopRelativeMoves_runs by (intro runs_bind) auto
  from runs_from [OF s2(2) this] f show ?thesis by (simp add: processOptions_def Some Let_def)
qed (use inv in \<open>simp add: processOptions_def\<close>)

section \<open>Clients come and go\<close>

definition works :: "Server option \<Rightarrow> bool" where
  "works m \<longleftrightarrow> (\<exists>s'. m = Some s' \<and> server_inv s')"

lemma runs_works: "runs s m \<Longrightarrow> works m"
  by (auto simp: runs_def works_def)

lemma server_inv_add:
  assumes inv: "server_inv s" and name: "Server_getName s c = Some name"
    and new: "smap_find str_less name (s_clients s) = None" "c \<notin> set (s_clientSet s)" "c \<notin> set (s_oldClients s)"
  shows "server_inv (s\<lparr>s_clientSet := insort c (s_clientSet s), s_clients := smap_insert str_less name c (s_clients s)\<rparr>)"
proof -
  have "set (smap_insert str_less name c (s_clients s)) = insert (name, c) (set (s_clients s))"
    using strs.set_insert [OF server_invD(1) [OF inv], of name c]
      strs.find_None_iff [OF server_invD(1) [OF inv], of name] new(1) by auto
  moreover have "strs.ascending (smap_insert str_less name c (s_clients s))"
    by (rule strs.ascending_insert [OF server_invD(1) [OF inv]])
  ultimately show ?thesis
    using inv name new(2,3)
    by (auto simp: server_inv_def Server_getName_def deref_def set_insort_key distinct_insort sorted_insort)
qed

text \<open>The end of \<^verbatim>\<open>addClient\<close>, from the moment the client is listed.\<close>

lemma announce_runs:
  assumes inv: "server_inv s" and c: "c \<in> set (s_clientSet s)"
  shows "runs s (deref s c \<bind> (\<lambda>obj. setJumpCursorPos c (fst (bc_cursorPos obj)) (snd (bc_cursorPos obj)) s
    \<bind> (\<lambda>s2. reconfigure s2 \<bind> updateActiveMonitors)))"
proof -
  obtain obj where obj: "deref s c = Some obj" by (rule client_alive [OF assms])
  have "runs s (setJumpCursorPos c x y s \<bind> (\<lambda>s2. reconfigure s2 \<bind> updateActiveMonitors))" for x y
    using assms by (intro runs_bind setJumpCursorPos_runs reconfigure_runs updateActiveMonitors_runs)
  with obj show ?thesis by simp
qed

lemma addClient_works:
  assumes inv: "server_inv s" and c: "s_heap s c \<noteq> None" "c \<notin> set (s_clientSet s)" "c \<notin> set (s_oldClients s)"
  obtains (listed) s' where "addClient c s = Some (True, s')" "server_inv s'" "c \<in> set (s_clientSet s')"
    "s_activeSaver s' = s_activeSaver s"
  | (refused) "addClient c s = Some (False, s)"
proof -
  obtain name where name: "Server_getName s c = Some name" using c(1) by (auto simp: Server_getName_def deref_def Let_def)
  show ?thesis
  proof (cases "smap_find str_less name (s_clients s)")
    case None
    let ?s1 = "s\<lparr>s_clientSet := insort c (s_clientSet s), s_clients := smap_insert str_less name c (s_clients s)\<rparr>"
    have s1: "server_inv ?s1" by (rule server_inv_add [OF inv name None c(2,3)])
    obtain obj s2 s3 s' where run: "deref ?s1 c = Some obj"
        "setJumpCursorPos c (fst (bc_cursorPos obj)) (snd (bc_cursorPos obj)) ?s1 = Some s2"
        "reconfigure s2 = Some s3" "updateActiveMonitors s3 = Some s'" "server_inv s'" "same_clients ?s1 s'"
      using announce_runs [OF s1, of c] by (auto simp: runs_def bind_eq_Some_conv set_insort_key)
    moreover have "s_activeSaver s' = s_activeSaver s"
      using run(2-4) by (auto simp: setJumpCursorPos_def reconfigure_def updateActiveMonitors_def tell_def emit_def bind_eq_Some_conv)
    ultimately show ?thesis
      using name None c(2) same_clientsD(2) [OF run(6)] by (intro listed [of s']) (auto simp: addClient_def Let_def set_insort_key)
  qed (use name in \<open>auto simp: addClient_def intro: refused\<close>)
qed

text \<open>
  While a client leaves, the cursor may still be on it: the state is consistent once the cursor is
  on the primary screen and the screen saver forgotten.
\<close>

definition parked :: "Server \<Rightarrow> Server" where
  "parked s = s\<lparr>s_active := s_primaryClient s, s_activeSaver := None\<rparr>"

lemma parked_simps [simp]:
  "s_heap (parked s) = s_heap s" "s_clientSet (parked s) = s_clientSet s" "s_primaryClient (parked s) = s_primaryClient s"
  "s_oldClients (parked s) = s_oldClients s" "s_clients (parked s) = s_clients s"
  by (simp_all add: parked_def)

lemma server_inv_parked: "server_inv s \<Longrightarrow> server_inv (parked s)"
  by (auto simp: parked_def server_inv_def Server_getName_def deref_def)

lemma unparked:
  assumes "server_inv (parked s)" "s_active s \<in> set (s_clientSet s)" "\<And>c. s_activeSaver s = Some c \<Longrightarrow> c \<in> set (s_clientSet s)"
  shows "server_inv s"
  using assms by (auto simp: parked_def server_inv_def Server_getName_def deref_def)

lemma remove_listed:
  assumes inv: "server_inv s" and c: "c \<in> set (s_clientSet s)" "Server_getName s c = Some name"
  shows "set (smap_erase str_less name (s_clients s)) = {x \<in> set (s_clients s). snd x \<noteq> c}"
proof -
  obtain n where n: "(n, c) \<in> set (s_clients s)" using server_invD(3) [OF inv] c(1) by force
  have find: "smap_find str_less name (s_clients s) = Some (name, d)" if "(name, d) \<in> set (s_clients s)" for d
    using that strs.find_Some_iff [OF server_invD(1) [OF inv], of name name d] by simp
  have "m = name \<longleftrightarrow> d = c" if d: "(m, d) \<in> set (s_clients s)" for m d
    using server_invD(4) [OF inv d] server_invD(4) [OF inv n] c(2) d n find [of d] find [of c] by auto
  then have "fst x = name \<longleftrightarrow> snd x = c" if "x \<in> set (s_clients s)" for x
    using that by (cases x) simp
  then show ?thesis using strs.set_erase [OF server_invD(1) [OF inv], of name] by (simp cong: conj_cong)
qed

lemma removeClient_works:
  assumes inv: "server_inv s" and c: "c \<in> set (s_clientSet s)" "c \<noteq> s_primaryClient s"
  obtains s' where "removeClient c s = Some (True, s')" "server_inv (parked s')" "s_clientSet s' = remove1 c (s_clientSet s)"
    "s_active s' = s_active s" "s_activeSaver s' = s_activeSaver s" "s_heap s' = s_heap s" "s_oldClients s' = s_oldClients s"
    "s_primaryClient s' = s_primaryClient s" "s_config s' = s_config s"
proof -
  obtain name where name: "Server_getName s c = Some name" by (rule client_alive [OF inv c(1)])
  let ?s1 = "s\<lparr>s_clients := smap_erase str_less name (s_clients s), s_clientSet := remove1 c (s_clientSet s)\<rparr>"
  have cs: "set (remove1 c (s_clientSet s)) = set (s_clientSet s) - {c}" by (rule set_remove1_eq [OF server_invD(2) [OF inv]])
  obtain m where m: "update_monitors ?s1 (cfg_monitors (s_config s)) [] = Some m"
    "\<forall>(_, a) \<in> set m. am_host a \<in> set (s_clientSet ?s1)"
    by (rule update_monitors_alive [of ?s1 "[]" "cfg_monitors (s_config s)"]) (use client_heap [OF inv] cs in auto)
  have "snd ` {x \<in> set (s_clients s). snd x \<noteq> c} = set (s_clientSet s) - {c}"
    using server_invD(3) [OF inv] by auto
  moreover have "strs.ascending (smap_erase str_less name (s_clients s))"
    by (rule strs.ascending_erase [OF server_invD(1) [OF inv]])
  ultimately have "server_inv (parked (?s1\<lparr>s_activeMonitors := m\<rparr>))"
    using inv c m(2) cs remove_listed [OF inv c(1) name]
    by (auto simp: server_inv_def parked_def Server_getName_def deref_def sorted_remove1)
  with c name m(1) show ?thesis
    by (intro that [of "?s1\<lparr>s_activeMonitors := m\<rparr>"]) (simp_all add: removeClient_def updateActiveMonitors_def)
qed

text \<open>
  A client leaves: the cursor goes back to the primary screen.  While the screen saver runs, the
  code looks only at the client that had the cursor when it started.
\<close>

definition saver_ok :: "Server \<Rightarrow> bool" where
  "saver_ok s \<longleftrightarrow> s_activeSaver s = None \<or> s_activeSaver s = Some (s_active s) \<or> s_active s = s_primaryClient s"

lemma reconfigure_saver:
  "reconfigure s = Some s' \<Longrightarrow> saver_ok s' = saver_ok s \<and> s_active s' = s_active s"
  by (auto simp: reconfigure_def tell_def emit_def saver_ok_def bind_eq_Some_conv)

text \<open>The state in which the cursor has left client \<open>c\<close>.\<close>

definition left_screen :: "Env \<Rightarrow> client \<Rightarrow> string \<Rightarrow> Server \<Rightarrow> Server" where
  "left_screen env c name s =
     (let s1 = s\<lparr>s_x := fst (e_center env), s_y := snd (e_center env)\<rparr>;
          s2 = (if s_switchScreen s = Some c then stopSwitch s1 else s1)\<lparr>s_active := s_primaryClient s\<rparr>;
          s3 = (if s_activeSaver s = None
                then emit (Enter (s_primaryClient s) (s_x s2) (s_y s2) (s_seqNum s2) (e_mask env) False) s2 else s2);
          s4 = emit (ScreenSwitched name) s3
      in if s_activeSaver s = Some c then s4\<lparr>s_activeSaver := None\<rparr> else s4)"

lemma left_screen_fields:
  assumes "(case s_activeSaver s of Some a \<Rightarrow> a | None \<Rightarrow> s_active s) = c"
  shows "s_active (left_screen env c name s) = s_primaryClient s" "s_activeSaver (left_screen env c name s) = None"
    "s_heap (left_screen env c name s) = s_heap s" "s_config (left_screen env c name s) = s_config s"
    "s_clients (left_screen env c name s) = s_clients s" "s_clientSet (left_screen env c name s) = s_clientSet s"
    "s_oldClients (left_screen env c name s) = s_oldClients s" "s_clipboards (left_screen env c name s) = s_clipboards s"
    "s_primaryClient (left_screen env c name s) = s_primaryClient s"
    "s_activeMonitors (left_screen env c name s) = s_activeMonitors s"
  using assms
  by (auto simp: left_screen_def Let_def emit_def stopSwitch_def stopSwitchWait_def stopSwitchTwoTap_def split: option.splits)

lemma left_screen_inv:
  assumes "server_inv (parked s)" "(case s_activeSaver s of Some a \<Rightarrow> a | None \<Rightarrow> s_active s) = c"
  shows "server_inv (left_screen env c name s)" "same_clients s (left_screen env c name s)" "saver_ok (left_screen env c name s)"
  using assms
  by (auto simp: left_screen_fields [OF assms(2)] server_inv_def parked_def Server_getName_def deref_def same_clients_def saver_ok_def)

lemma forceLeaveClient_eq:
  assumes "s_heap s (s_primaryClient s) = Some obj" "s_heap s c \<noteq> None"
  shows "forceLeaveClient env c s =
    reconfigure (if (case s_activeSaver s of Some a \<Rightarrow> a | None \<Rightarrow> s_active s) = c then left_screen env c (bc_name obj) s else s)"
  using assms
  by (auto simp: forceLeaveClient_def left_screen_def Let_def tell_def emit_def deref_def stopSwitch_def stopSwitchWait_def
      stopSwitchTwoTap_def split: option.split)

lemma forceLeaveClient_runs:
  assumes inv: "server_inv (parked s)" and heap: "s_heap s c \<noteq> None" and gone: "c \<notin> set (s_clientSet s)"
    and ok: "saver_ok s" "s_active s \<in> insert c (set (s_clientSet s))"
      "\<And>a. s_activeSaver s = Some a \<Longrightarrow> a \<in> insert c (set (s_clientSet s))"
  obtains s' where "forceLeaveClient env c s = Some s'" "server_inv s'" "same_clients s s'" "saver_ok s'"
proof -
  define leaving where "leaving = ((case s_activeSaver s of Some a \<Rightarrow> a | None \<Rightarrow> s_active s) = c)"
  have p: "s_primaryClient s \<in> set (s_clientSet s)" using server_invD(7) [OF inv] by simp
  obtain obj where obj: "s_heap s (s_primaryClient s) = Some obj"
    using client_heap [OF inv, of "s_primaryClient s"] p by auto
  define t where "t = (if leaving then left_screen env c (bc_name obj) s else s)"
  have "server_inv t \<and> same_clients s t \<and> saver_ok t"
  proof (cases leaving)
    case False
    then have "s_active s \<in> set (s_clientSet s)" "\<And>a. s_activeSaver s = Some a \<Longrightarrow> a \<in> set (s_clientSet s)"
      using ok p gone by (auto simp: leaving_def saver_ok_def split: option.splits)
    with unparked [OF inv] False ok show ?thesis by (simp add: t_def)
  qed (use left_screen_inv [OF inv] in \<open>auto simp: t_def leaving_def\<close>)
  moreover obtain s' where "reconfigure t = Some s'" "server_inv s'" "same_clients t s'"
    using reconfigure_runs [of t] calculation by (auto simp: runs_def)
  moreover have "forceLeaveClient env c s = reconfigure t"
    by (simp only: forceLeaveClient_eq [OF obj heap] t_def leaving_def)
  ultimately show ?thesis
    using that [of s'] same_clients_trans reconfigure_saver by metis
qed

lemma server_inv_old:
  "server_inv s \<Longrightarrow> s_heap s c \<noteq> None \<Longrightarrow> c \<notin> set (s_clientSet s) \<Longrightarrow> server_inv (s\<lparr>s_oldClients := List.insert c (s_oldClients s)\<rparr>)"
  by (auto simp: server_inv_def Server_getName_def deref_def)

lemma parked_old: "parked (s\<lparr>s_oldClients := cs\<rparr>) = (parked s)\<lparr>s_oldClients := cs\<rparr>"
  by (simp add: parked_def)

lemma closeClient_works:
  assumes inv: "server_inv s" and ok: "saver_ok s" and c: "s_heap s c \<noteq> None" "c \<noteq> s_primaryClient s"
  obtains s' where "closeClient env c msg s = Some s'" "server_inv s'" "saver_ok s'"
    "s_clientSet s' = remove1 c (s_clientSet s)" "s_primaryClient s' = s_primaryClient s" "s_config s' = s_config s"
proof -
  let ?s1 = "emit (CloseClient c msg) s"
  have told: "tell c (CloseClient c msg) s = Some ?s1" using c(1) by (auto simp: tell_def deref_def)
  have e: "s_heap ?s1 = s_heap s" "s_clientSet ?s1 = s_clientSet s" "s_activeSaver ?s1 = s_activeSaver s"
    "s_oldClients ?s1 = s_oldClients s" "s_config ?s1 = s_config s" by (simp_all add: emit_def)
  obtain b s2 where s2: "removeClient c ?s1 = Some (b, s2)" "server_inv (parked s2)"
      "s_clientSet s2 = remove1 c (s_clientSet s)" "s_active s2 = s_active s" "s_activeSaver s2 = s_activeSaver s"
      "s_heap s2 = s_heap s" "s_primaryClient s2 = s_primaryClient s" "s_config s2 = s_config s"
  proof (cases "c \<in> set (s_clientSet s)")
    case True
    then show ?thesis using removeClient_works [of ?s1 c] inv c(2) that by (simp add: e) metis
  next
    case False
    then show ?thesis
      using that [of False ?s1] inv server_inv_parked [of ?s1] by (simp add: e removeClient_def remove1_idem)
  qed
  let ?s3 = "s2\<lparr>s_oldClients := List.insert c (s_oldClients s2)\<rparr>"
  have set2: "set (s_clientSet s2) = set (s_clientSet s) - {c}"
    using s2(3) server_invD(2) [OF inv] by simp
  have "server_inv (parked ?s3)"
    unfolding parked_old using server_inv_old [OF s2(2), of c] s2(6) set2 c(1) by simp
  moreover have "saver_ok ?s3" using ok s2 by (simp add: saver_ok_def)
  ultimately obtain s' where "forceLeaveClient env c ?s3 = Some s'" "server_inv s'" "same_clients ?s3 s'" "saver_ok s'"
    using forceLeaveClient_runs [of ?s3 c env] s2 set2 c(1) server_invD(8,9) [OF inv] by auto
  moreover from this(3) s2 have "s_clientSet s' = remove1 c (s_clientSet s)" "s_primaryClient s' = s_primaryClient s"
    "s_config s' = s_config s" by (simp_all add: same_clients_def)
  ultimately show ?thesis using that [of s'] told s2(1) c(2) by (simp add: closeClient_def)
qed

lemma close_each_works:
  assumes "server_inv s" "saver_ok s" "distinct cs" "set cs \<subseteq> set (s_clientSet s) - {s_primaryClient s}"
  obtains s' where "close_each env cs s = Some s'" "server_inv s'" "saver_ok s'" "s_config s' = s_config s"
  using assms
proof (induction cs arbitrary: s thesis)
  case (Cons c cs)
  obtain s1 where s1: "closeClient env c ''CBYE'' s = Some s1" "server_inv s1" "saver_ok s1"
      "s_clientSet s1 = remove1 c (s_clientSet s)" "s_primaryClient s1 = s_primaryClient s" "s_config s1 = s_config s"
    by (rule closeClient_works [of s c env "''CBYE''"]) (use Cons.prems client_heap in auto)
  have "set cs \<subseteq> set (s_clientSet s1) - {s_primaryClient s1}"
    using Cons.prems s1(4,5) server_invD(2) [OF Cons.prems(2)] by auto
  with Cons.IH [of s1] s1(2,3) Cons.prems(4) obtain s' where
    "close_each env cs s1 = Some s'" "server_inv s'" "saver_ok s'" "s_config s' = s_config s1" by auto
  with s1 Cons.prems(1) [of s'] show ?case by simp
qed simp

lemma closeClients_works:
  assumes inv: "server_inv s" and "saver_ok s"
  obtains s' where "closeClients env config s = Some s'" "server_inv s'" "saver_ok s'" "s_config s' = s_config s"
proof -
  let ?cs = "removeAll (s_primaryClient s)
    (sort (remdups (map snd (filter (\<lambda>(name, _). \<not> isCanonicalName config name) (s_clients s)))))"
  have "set ?cs \<subseteq> set (s_clientSet s) - {s_primaryClient s}" using server_invD(3) [OF inv] by auto
  from close_each_works [OF assms _ this, of env] show ?thesis
    using that by (auto simp: closeClients_def distinct_removeAll)
qed

lemma send_all_options_runs:
  "server_inv s \<Longrightarrow> snd ` set cs \<subseteq> set (s_clientSet s) \<Longrightarrow> runs s (send_all_options cs s)"
proof (induction cs arbitrary: s)
  case (Cons x cs)
  then show ?case
    by (cases x) (auto intro!: runs_bind sendOptions_runs dest: same_clientsD(2))
qed simp

lemma setConfig_works:
  assumes inv: "server_inv s" "saver_ok s"
  obtains b s' where "setConfig env config s = Some (b, s')" "server_inv s'"
proof -
  obtain obj where obj: "deref s (s_primaryClient s) = Some obj"
    by (rule client_alive [OF inv(1) server_invD(7) [OF inv(1)]])
  obtain s1 where s1: "closeClients env config s = Some s1" "server_inv s1" by (rule closeClients_works [OF inv])
  have "runs s1 (processOptions s1 \<bind> (\<lambda>s2. reconfigure s2 \<bind> (\<lambda>s3. send_all_options (s_clients s3) s3)))"
    using s1(2) by (intro runs_bind processOptions_runs reconfigure_runs send_all_options_runs clients_subset)
  then obtain s2 s3 s4 where "processOptions s1 = Some s2" "reconfigure s2 = Some s3"
    "send_all_options (s_clients s3) s3 = Some s4" "server_inv s4" by (auto simp: runs_def bind_eq_Some_conv)
  then have "setConfig env config s = Some (if isScreen config (bc_name obj) then (True, s4) else (False, s))"
    using obj s1(1) by (simp add: setConfig_def)
  with that inv(1) \<open>server_inv s4\<close> show ?thesis by (cases "isScreen config (bc_name obj)") auto
qed

lemma adoptClient_works:
  assumes inv: "server_inv s" and ok: "saver_ok s" and c: "s_heap s c \<noteq> None" "c \<notin> set (s_clientSet s)" "c \<notin> set (s_oldClients s)"
  shows "works (adoptClient env c s)"
proof -
  obtain obj where obj: "deref s c = Some obj" using c(1) by (auto simp: deref_def)
  have "c \<noteq> s_primaryClient s" using c(2) server_invD(7) [OF inv] by auto
  then have close: "works (closeClient env c msg s)" for msg
    using closeClient_works [OF inv ok c(1), of env msg] by (auto simp: works_def)
  consider (listed) s1 where "addClient c s = Some (True, s1)" "server_inv s1" "c \<in> set (s_clientSet s1)"
    | (refused) "addClient c s = Some (False, s)"
    by (rule addClient_works [OF inv c])
  then show ?thesis
  proof cases
    case listed
    have "runs s1 (sendOptions c s1 \<bind> (\<lambda>s2. (if s_activeSaver s2 \<noteq> None then tell c (Screensaver c True) s2 else Some s2)
        \<bind> (\<lambda>s3. Server_getName s3 c \<bind> (\<lambda>name. Some (emit (ScreenConnected name) s3)))))"
    proof (intro runs_bind sendOptions_runs listed)
      fix s2 assume s2: "server_inv s2" "same_clients s1 s2"
      then have c2: "c \<in> set (s_clientSet s2)" using listed(3) by (simp add: same_clientsD(2))
      show "runs s2 (if s_activeSaver s2 \<noteq> None then tell c (Screensaver c True) s2 else Some s2)"
        using s2 tell_runs [OF s2(1) c2] by simp
      fix s3 assume s3: "server_inv s3" "same_clients s2 s3"
      then have "c \<in> set (s_clientSet s3)" using c2 by (simp add: same_clientsD(2))
      from client_alive [OF s3(1) this] show "runs s3 (Server_getName s3 c \<bind> (\<lambda>name. Some (emit (ScreenConnected name) s3)))"
        using s3(1) by fastforce
    qed
    from runs_works [OF this] obj close listed(1) show ?thesis by (simp add: adoptClient_def)
  next
    case refused
    with obj close show ?thesis by (simp add: adoptClient_def)
  qed
qed

lemma check_disconnected_inv [simp]: "server_inv (check_disconnected s) = server_inv s"
  "s_clientSet (check_disconnected s) = s_clientSet s" "s_oldClients (check_disconnected s) = s_oldClients s"
  "s_primaryClient (check_disconnected s) = s_primaryClient s"
  by (simp_all add: check_disconnected_def emit_def)

lemma removeOldClient_inv:
  assumes "server_inv s"
  shows "server_inv (removeOldClient c s)" "c \<notin> set (s_oldClients (removeOldClient c s))"
    "s_clientSet (removeOldClient c s) = s_clientSet s"
proof -
  have "server_inv (s\<lparr>s_oldClients := removeAll c (s_oldClients s)\<rparr>)"
    using assms by (auto simp: server_inv_def Server_getName_def deref_def)
  then show "server_inv (removeOldClient c s)" "c \<notin> set (s_oldClients (removeOldClient c s))"
    "s_clientSet (removeOldClient c s) = s_clientSet s"
    using assms by (simp_all add: removeOldClient_def)
qed

lemma delete_client_inv:
  assumes inv: "server_inv s" and c: "c \<notin> set (s_clientSet s)" "c \<notin> set (s_oldClients s)"
  shows "server_inv (delete_client c s)"
proof -
  have "d \<noteq> c" if "(n, d) \<in> set (s_clients s)" for n d
    using c(1) that server_invD(3) [OF inv] by force
  then show ?thesis
    using inv c by (auto simp: server_inv_def delete_client_def Server_getName_def deref_def)
qed

lemma handleClientDisconnected_works:
  assumes inv: "server_inv s" and ok: "saver_ok s" and c: "c \<noteq> s_primaryClient s"
  shows "works (handleClientDisconnected env c s)"
proof -
  obtain s1 where s1: "removeActiveClient env c s = Some s1" "server_inv s1" "c \<notin> set (s_clientSet s1)"
  proof (cases "c \<in> set (s_clientSet s)")
    case True
    obtain s2 where s2: "removeClient c s = Some (True, s2)" "server_inv (parked s2)" "s_clientSet s2 = remove1 c (s_clientSet s)"
        "s_active s2 = s_active s" "s_activeSaver s2 = s_activeSaver s" "s_heap s2 = s_heap s"
        "s_primaryClient s2 = s_primaryClient s"
      by (rule removeClient_works [OF inv True c])
    have "set (s_clientSet s2) = set (s_clientSet s) - {c}" using s2(3) server_invD(2) [OF inv] by simp
    moreover have "saver_ok s2" using ok s2 by (simp add: saver_ok_def)
    ultimately obtain s3 where "forceLeaveClient env c s2 = Some s3" "server_inv s3" "same_clients s2 s3"
      using forceLeaveClient_runs [OF s2(2), of c env] client_heap [OF inv True] server_invD(8,9) [OF inv] s2
      by (metis Diff_iff insert_Diff insert_iff True)
    with s2 \<open>set (s_clientSet s2) = _\<close> show ?thesis
      by (intro that [of "check_disconnected s3"]) (auto simp: removeActiveClient_def same_clientsD(2))
  next
    case False
    then show ?thesis using inv that [of s] by (simp add: removeActiveClient_def removeClient_def)
  qed
  have "server_inv (delete_client c (removeOldClient c s1))"
    using removeOldClient_inv [OF s1(2), of c] s1(3) by (intro delete_client_inv) auto
  with s1(1) show ?thesis by (simp add: handleClientDisconnected_def works_def)
qed

lemma handleClientCloseTimeout_works:
  assumes inv: "server_inv s" and c: "c \<in> set (s_oldClients s)"
  shows "works (handleClientCloseTimeout c s)"
proof -
  have "server_inv (delete_client c (removeOldClient c s))"
    using removeOldClient_inv [OF inv, of c] server_invD(6) [OF inv c] by (intro delete_client_inv) auto
  with server_invD(5) [OF inv c] show ?thesis by (auto simp: handleClientCloseTimeout_def works_def deref_def)
qed

lemma Server_disconnect_works:
  assumes "server_inv s" "saver_ok s"
  shows "works (Server_disconnect env s)"
  using closeClients_works [OF assms, of env Config_new] assms(1) by (auto simp: Server_disconnect_def works_def)

section \<open>Motion\<close>

lemma neighbor_listed:
  assumes inv: "server_inv s" and found: "Server_getNeighbor s src dir x y = Some (Some (c, x', y'))"
  shows "c \<in> set (s_clientSet s)"
proof -
  from found obtain n t where "neighbor_search s dir x y n t = Some (Some (c, x', y'))"
    by (auto simp: Server_getNeighbor_def bind_eq_Some_conv split: prod.splits if_splits)
  then show ?thesis
  proof (induction n t "Some (c, x', y')" rule: neighbor_search_induct)
    case (return n t)
    then show ?case
      using server_invD(3,10) [OF inv]
      by (force simp: search_step_def Let_def split: option.splits prod.splits if_splits dest: smap_find_in)
  qed
qed

lemma mapToNeighbor_listed:
  "server_inv s \<Longrightarrow> mapToNeighbor s z src dir x y = Some (Some (c, x', y')) \<Longrightarrow> c \<in> set (s_clientSet s)"
  by (auto simp: mapToNeighbor_def bind_eq_Some_conv split: option.splits dest: neighbor_listed)

lemma switch_taps_inv:
  assumes "switch_taps env c dir x y s = (b, s')"
  shows "server_inv s' = server_inv s" "same_clients t s' = same_clients t s"
  using assms by (auto simp: switch_taps_def Let_def split: if_splits)

lemma isSwitchOkay_kept:
  assumes inv: "server_inv s" and ok: "isSwitchOkay env new dir x y xa ya s = Some (ok, s')"
  shows "server_inv s'" "same_clients s s'"
proof -
  have "server_inv s' \<and> same_clients s s'"
  proof (cases new)
    case (Some c)
    obtain b s1 where s1: "switch_taps env c dir x y s = (b, s1)" by force
    from ok have "s' = s1 \<or> s' = stopSwitch s1 \<or> s' = stopSwitch (stopSwitch s1)"
      by (auto simp: isSwitchOkay_def Some s1 Let_def bind_eq_Some_conv split: option.splits prod.splits if_splits)
    then show ?thesis using switch_taps_inv [OF s1] inv by auto
  qed (use inv ok in \<open>auto simp: isSwitchOkay_def bind_eq_Some_conv\<close>)
  then show "server_inv s'" "same_clients s s'" by simp_all
qed

lemma primary_directions_kept:
  assumes "env_ok env"
  shows "server_inv s \<Longrightarrow> primary_directions env shape mon xc yc dirs s = Some (b, s') \<Longrightarrow> server_inv s' \<and> same_clients s s'"
proof (induction dirs arbitrary: s)
  case (Cons dir dirs)
  have rest: "server_inv s' \<and> same_clients s s'"
    if "server_inv s1" "same_clients s s1" "primary_directions env shape mon xc yc dirs s1 = Some (b, s')" for s1
    using Cons.IH [OF that(1,3)] that(2) by (blast intro: same_clients_trans)
  show ?case
  proof (cases "dir \<noteq> kNoDirection \<and> has_link s shape mon dir = Some True")
    case False
    then show ?thesis using Cons.prems rest [of s] by (auto simp: bind_eq_Some_conv split: if_splits)
  next
    case True
    with Cons.prems obtain new where new: "mapToNeighbor s (e_zone env) (s_active s) dir xc yc = Some new"
      by (auto simp: bind_eq_Some_conv)
    show ?thesis
    proof (cases new)
      case None
      then show ?thesis using Cons.prems True new rest [of s] by simp
    next
      case (Some r)
      obtain c tx ty where r: "r = (c, tx, ty)" by (cases r)
      with True new Some Cons.prems obtain ok s1 where s1: "isSwitchOkay env (Some c) dir tx ty xc yc s = Some (ok, s1)"
        by (auto simp: bind_eq_Some_conv)
      note k = isSwitchOkay_kept [OF Cons.prems(1) s1]
      have c: "c \<in> set (s_clientSet s1)"
        using mapToNeighbor_listed [OF Cons.prems(1)] new Some r same_clientsD(2) [OF k(2)] by simp
      show ?thesis
      proof (cases ok)
        case True': True
        obtain s2 where "switchScreen env c tx ty False s1 = Some s2" "server_inv s2" "same_clients s1 s2"
          using switchScreen_runs [OF k(1) assms c, of tx ty False] by (auto simp: runs_def)
        with True True' Cons.prems new Some r s1 k(2) show ?thesis by (auto intro: same_clients_trans)
      qed (use True Cons.prems new Some r s1 rest [OF k] in simp)
    qed
  qed
qed auto

text \<open>What holds of the result of a step, if it has one.\<close>

definition yields :: "('a \<Rightarrow> bool) \<Rightarrow> 'a option \<Rightarrow> bool" where
  "yields P m \<longleftrightarrow> (\<forall>v. m = Some v \<longrightarrow> P v)"

lemma yieldsI: "(\<And>v. m = Some v \<Longrightarrow> P v) \<Longrightarrow> yields P m"
  by (simp add: yields_def)

lemma yields_bind: "(\<And>v. m = Some v \<Longrightarrow> yields P (f v)) \<Longrightarrow> yields P (m \<bind> f)"
  by (auto simp: yields_def bind_eq_Some_conv)

lemma yields_if: "(c \<Longrightarrow> yields P a) \<Longrightarrow> (\<not> c \<Longrightarrow> yields P b) \<Longrightarrow> yields P (if c then a else b)"
  by simp

lemma yields_let: "(\<And>v. v = e \<Longrightarrow> yields P (f v)) \<Longrightarrow> yields P (Let e f)"
  by simp

lemma yields_prod: "(\<And>a b. p = (a, b) \<Longrightarrow> yields P (f a b)) \<Longrightarrow> yields P (case p of (a, b) \<Rightarrow> f a b)"
  by (cases p) simp

lemma yields_option:
  "(p = None \<Longrightarrow> yields P a) \<Longrightarrow> (\<And>v. p = Some v \<Longrightarrow> yields P (f v)) \<Longrightarrow> yields P (case p of None \<Rightarrow> a | Some v \<Rightarrow> f v)"
  by (cases p) simp_all

lemma yields_Some [simp]: "yields P (Some v) \<longleftrightarrow> P v"
  by (simp add: yields_def)

lemma yields_None [simp]: "yields P None"
  by (simp add: yields_def)

lemmas yields_rules = yields_bind yields_if yields_let yields_prod yields_option

lemma kept_yields: "kept s m \<longleftrightarrow> yields (\<lambda>s'. server_inv s' \<and> same_clients s s') m"
  by (simp add: kept_def yields_def)

lemma onMouseMovePrimary_kept:
  assumes inv: "server_inv s" and env: "env_ok env"
  shows "yields (\<lambda>(b, s'). server_inv s' \<and> same_clients s s') (onMouseMovePrimary env x y s)"
proof -
  have no: "server_inv s2 \<and> same_clients s s2"
    if "noSwitch env x y s1 = Some s2" "server_inv s1" "same_clients s s1" for s1 s2
    using runs_from [OF that(3) noSwitch_runs [OF that(2), of env x y]] that(1) by simp
  have pd: "yields (\<lambda>(b, s'). server_inv s' \<and> same_clients s s') (primary_directions env shape mon xc yc dirs s1)"
    if "server_inv s1" "same_clients s s1" for s1 shape mon xc yc dirs
  proof (rule yieldsI)
    fix r assume "primary_directions env shape mon xc yc dirs s1 = Some r"
    then show "case r of (b, s') \<Rightarrow> server_inv s' \<and> same_clients s s'"
      using primary_directions_kept [OF env that(1)] same_clients_trans [OF that(2)] by (cases r) simp
  qed
  show ?thesis
    unfolding onMouseMovePrimary_def
    by (intro yields_rules pd) (use inv in \<open>auto dest!: no\<close>)
qed

lemma secondary_target_kept:
  assumes inv: "server_inv s"
  shows "yields (\<lambda>(jump, s'). server_inv s' \<and> same_clients s s' \<and> (\<forall>c. jump = Some c \<longrightarrow> c \<in> set (s_clientSet s')))
    (secondary_target env shape mon s)"
proof -
  have no: "server_inv s2 \<and> same_clients s s2" if "noSwitch env x y s = Some s2" for s2 x y
    using noSwitch_runs [OF inv, of env x y] that by simp
  have ok: "server_inv s2 \<and> same_clients s s2 \<and> c \<in> set (s_clientSet s2)"
    if "mapToNeighbor s z src dir xc yc = Some (Some (c, tx, ty))" "isSwitchOkay env (Some c) dir tx ty xc yc s = Some (b, s2)"
    for z src dir xc yc c tx ty b s2
    using mapToNeighbor_listed [OF inv that(1)] isSwitchOkay_kept [OF inv that(2)] by (simp add: same_clientsD(2))
  show ?thesis
    unfolding secondary_target_def
    by (intro yields_rules) (use inv in \<open>simp_all\<close>, auto dest: ok no)
qed

lemma onMouseMoveSecondary_kept:
  assumes inv: "server_inv s" and env: "env_ok env"
  shows "kept s (onMouseMoveSecondary env dx dy s)"
proof -
  have told: "yields (\<lambda>s'. server_inv s' \<and> same_clients s s') (tell (s_active s2) out s2)"
    if "server_inv s2" "same_clients s s2" for s2 out
    using kept_from [OF that(2) runs_kept [OF tell_runs [OF that(1) server_invD(8) [OF that(1)]]]] by (simp add: kept_yields)
  have sw: "yields (\<lambda>s'. server_inv s' \<and> same_clients s s') (switchScreen env c x y False s2)"
    if "server_inv s2" "same_clients s s2" "c \<in> set (s_clientSet s2)" for c s2 x y
    using kept_from [OF that(2) runs_kept [OF switchScreen_runs [OF that(1) env that(3)]]] by (simp add: kept_yields)
  have target: "server_inv s2 \<and> same_clients s s2 \<and> (\<forall>c. jump = Some c \<longrightarrow> c \<in> set (s_clientSet s2))"
    if "secondary_target env shape mon s1 = Some (jump, s2)" "server_inv s1" "same_clients s s1" for shape mon jump s1 s2
    using secondary_target_kept [OF that(2), of env shape mon] that(1) same_clients_trans [OF that(3)] by (auto simp: yields_def)
  show ?thesis
    unfolding onMouseMoveSecondary_def kept_yields
    by (intro yields_rules told sw) (use inv in \<open>auto dest!: target\<close>)
qed

lemma handleShapeChanged_kept:
  assumes inv: "server_inv s" and env: "env_ok env"
  shows "kept s (handleShapeChanged env c s)"
proof (cases "c \<in> set (s_clientSet s)")
  case True
  have move: "kept s' (if c = s_primaryClient s' then
      (if c = s_active s' then do { (_, s4) \<leftarrow> onMouseMovePrimary env (s_x s') (s_y s') s'; Some s4 }
       else onMouseMoveSecondary env 0 0 s') else Some s')" if "server_inv s'" for s'
    using that onMouseMovePrimary_kept [OF that env] onMouseMoveSecondary_kept [OF that env]
    by (fastforce simp: kept_def yields_def bind_eq_Some_conv)
  have last: "kept s' (let s3 = (if c = s_active s' then s'\<lparr>s_x := x, s_y := y\<rparr> else s') in
      if c = s_primaryClient s3 then
        (if c = s_active s3 then do { (_, s4) \<leftarrow> onMouseMovePrimary env (s_x s3) (s_y s3) s3; Some s4 }
         else onMouseMoveSecondary env 0 0 s3) else Some s3)" if "server_inv s'" for s' x y
    unfolding Let_def by (rule kept_from [OF _ move]) (use that in simp_all)
  show ?thesis
    using True unfolding handleShapeChanged_def
  proof (simp, intro kept_bind)
    show "kept s (updateActiveMonitors s)" using inv by (intro runs_kept updateActiveMonitors_runs)
    fix s1 assume s1: "server_inv s1" "same_clients s s1"
    then have c: "c \<in> set (s_clientSet s1)" using True by (simp add: same_clientsD(2))
    obtain obj where obj: "deref s1 c = Some obj" by (rule client_alive [OF s1(1) c])
    have "kept s1 (setJumpCursorPos c x y s1 \<bind> (\<lambda>s2. let s3 = (if c = s_active s2 then s2\<lparr>s_x := x, s_y := y\<rparr> else s2) in
      if c = s_primaryClient s3 then
        (if c = s_active s3 then do { (_, s4) \<leftarrow> onMouseMovePrimary env (s_x s3) (s_y s3) s3; Some s4 }
         else onMouseMoveSecondary env 0 0 s3) else Some s3))" for x y
      using s1 c by (intro kept_bind runs_kept [OF setJumpCursorPos_runs] last)
    with obj show "kept s1 (deref s1 c \<bind> (\<lambda>obj. case bc_cursorPos obj of (x, y) \<Rightarrow>
      setJumpCursorPos c x y s1 \<bind> (\<lambda>s2. let s3 = (if c = s_active s2 then s2\<lparr>s_x := x, s_y := y\<rparr> else s2) in
      if c = s_primaryClient s3 then
        (if c = s_active s3 then do { (_, s4) \<leftarrow> onMouseMovePrimary env (s_x s3) (s_y s3) s3; Some s4 }
         else onMouseMoveSecondary env 0 0 s3) else Some s3)))"
      by (simp split: prod.split)
  qed
qed (use inv in \<open>simp add: handleShapeChanged_def\<close>)

lemma handleSwitchInDirectionEvent_kept:
  assumes inv: "server_inv s" and env: "env_ok env"
  shows "kept s (handleSwitchInDirectionEvent env dir s)"
proof -
  have "kept s (jumpToScreen_at env c x y s)"
    if "Server_getNeighbor s (s_active s) dir (s_x s) (s_y s) = Some (Some (c, x, y))" for c x y
    using neighbor_listed [OF inv that] by (intro runs_kept jumpToScreen_at_runs inv env)
  then show ?thesis
    using inv by (auto simp: handleSwitchInDirectionEvent_def bind_eq_Some_conv kept_def split: option.splits)
qed

section \<open>Keys, hot keys and the screen saver\<close>

lemma relay_fold_runs:
  assumes "snd ` set cs \<subseteq> set (s_clientSet s)"
  shows "runs s m \<Longrightarrow> runs s (foldl (\<lambda>r (name, c). r \<bind> (\<lambda>s'. if P name then tell c (msg c) s' else Some s')) m cs)"
  using assms
proof (induction cs arbitrary: m)
  case (Cons x cs)
  obtain name c where x: "x = (name, c)" by force
  have "runs s (m \<bind> (\<lambda>s'. if P name then tell c (msg c) s' else Some s'))"
    using Cons.prems x by (intro runs_bind) (auto intro: tell_runs simp: same_clientsD(2))
  with Cons x show ?case by simp
qed simp

lemma relay_key_runs: "server_inv s \<Longrightarrow> runs s (relay_key msg screens s)"
  using relay_fold_runs [of "s_clients s" s "Some s"] clients_subset [of s] tell_runs [of s "s_active s"] server_invD(8) [of s]
  by (simp add: relay_key_def Let_def)

lemma onMouseDown_runs: "server_inv s \<Longrightarrow> runs s (onMouseDown button s)"
  by (auto simp: onMouseDown_def intro!: runs_bind tell_runs server_invD(8))

lemma onMouseUp_runs: "server_inv s \<Longrightarrow> runs s (onMouseUp button s)"
  by (auto simp: onMouseUp_def intro!: runs_bind tell_runs server_invD(8))

lemma find_screen_listed: "server_inv s \<Longrightarrow> find_screen s name = Some c \<Longrightarrow> c \<in> set (s_clientSet s)"
  using server_invD(3) [of s]
  by (force simp: find_screen_def Let_def split: option.splits if_splits dest: smap_find_in)

lemma handleSwitchToScreenEvent_runs:
  assumes inv: "server_inv s" and env: "env_ok env"
  shows "runs s (handleSwitchToScreenEvent env name s)"
proof -
  have mon: "runs s (jumpToScreen_at env (am_host a) x y s)"
    if "smap_find str_less name (s_activeMonitors s) = Some (k, a)" for k a x y
    using server_invD(10) [OF inv smap_find_in [OF that]] by (rule jumpToScreen_at_runs [OF inv env])
  have scr: "runs s (do { obj \<leftarrow> deref s c; let hds = hostDisplays s c (bc_displays obj);
      if hds \<noteq> [] then jumpToScreen_at env c (fst (display_center hds)) (snd (display_center hds)) s else jumpToScreen env c s })"
    if "find_screen s name = Some c" for c
  proof -
    have c: "c \<in> set (s_clientSet s)" by (rule find_screen_listed [OF inv that])
    obtain obj where "deref s c = Some obj" by (rule client_alive [OF inv c])
    then show ?thesis using jumpToScreen_at_runs [OF inv env c] jumpToScreen_runs [OF inv env c] by (simp add: Let_def)
  qed
  show ?thesis
    using mon scr inv by (auto simp: handleSwitchToScreenEvent_def Let_def split: option.split)
qed

lemma next_client_listed:
  assumes inv: "server_inv s" and c: "next_client name (s_clients s) = Some c"
  shows "c \<in> set (s_clientSet s)"
proof -
  have up: "x \<in> set (s_clients s)" if "x \<in> set (smap_upper str_less name (s_clients s))" for x
    using that unfolding smap_upper_def by (rule set_dropWhileD)
  have "s_clients s \<noteq> []" using c by (auto simp: next_client_def)
  then have "hd (s_clients s) \<in> set (s_clients s)" by simp
  then have "c \<in> snd ` set (s_clients s)"
    using c up by (force simp: next_client_def split: if_splits list.splits)
  then show ?thesis by (simp add: server_invD(3) [OF inv])
qed

lemma handleToggleScreenEvent_runs:
  assumes inv: "server_inv s" and env: "env_ok env"
  shows "runs s (handleToggleScreenEvent env s)"
proof -
  obtain name where "Server_getName s (s_active s) = Some name" by (rule client_alive [OF inv server_invD(8) [OF inv]])
  then show ?thesis
    using jumpToScreen_runs [OF inv env next_client_listed [OF inv]] inv
    by (auto simp: handleToggleScreenEvent_def split: option.split)
qed

lemma handleLockCursorToScreenEvent_runs:
  assumes inv: "server_inv s"
  shows "runs s (handleLockCursorToScreenEvent t s)"
proof -
  have "runs s' (reconfigure s' \<bind> (\<lambda>s1. if \<not> isLockedToScreenServer s1 then stopRelativeMoves s1 else Some s1))"
    if "server_inv s'" for s'
    using that stopRelativeMoves_runs by (intro runs_bind reconfigure_runs) auto
  from runs_from [OF _ this] inv show ?thesis by (simp add: handleLockCursorToScreenEvent_def Let_def)
qed

lemma handleSwitchWaitTimeout_runs:
  assumes "server_inv s" "env_ok env" "s_switchScreen s = Some c" "c \<in> set (s_clientSet s)"
  shows "runs s (handleSwitchWaitTimeout env s)"
  using assms switchScreen_runs by (simp add: handleSwitchWaitTimeout_def)

lemma onScreensaver_runs:
  assumes inv: "server_inv s" and env: "env_ok env"
  shows "runs s (onScreensaver env activated s)"
proof -
  have tail: "runs s' (tell_all f (s_clients s') s')" if "server_inv s'" for s' f
    using that by (intro tell_all_runs clients_subset)
  have sw: "runs s (switchScreen env c x y b s')" if "server_inv s'" "same_clients s s'" "c \<in> set (s_clientSet s)" for s' c x y b
    using that by (intro runs_from [OF that(2) switchScreen_runs] env) (auto simp: same_clientsD(2))
  show ?thesis
  proof (cases activated)
    case True
    let ?s1 = "s\<lparr>s_activeSaver := Some (s_active s), s_xSaver := s_x s, s_ySaver := s_y s\<rparr>"
    have "server_inv ?s1" using server_inv_saver [OF inv, of "Some (s_active s)"] server_invD(8) [OF inv] by simp
    then have "runs s (if s_active ?s1 \<noteq> s_primaryClient ?s1 then switchScreen env (s_primaryClient ?s1) 0 0 True ?s1 else Some ?s1)"
      using sw [of ?s1 "s_primaryClient s" 0 0 True] server_invD(7) [OF inv] by auto
    then show ?thesis using True by (simp add: onScreensaver_def Let_def runs_bind tail)
  next
    case False
    have "runs s (leave_screensaver env s)"
    proof (cases "\<exists>c. s_activeSaver s = Some c \<and> c \<noteq> s_primaryClient s")
      case True
      then obtain c where c: "s_activeSaver s = Some c" "c \<noteq> s_primaryClient s" by blast
      have set: "c \<in> set (s_clientSet s)" by (rule server_invD(9) [OF inv c(1)])
      obtain obj where obj: "deref s c = Some obj" by (rule client_alive [OF inv set])
      have "runs s (switchScreen env c x y False (s\<lparr>s_xSaver := x, s_ySaver := y\<rparr>))" for x y
        using sw set inv by simp
      with c obj show ?thesis by (simp add: leave_screensaver_def Let_def split: prod.split del: if_split)
    qed (use inv in \<open>auto simp: leave_screensaver_def split: option.split\<close>)
    then have "runs s (leave_screensaver env s \<bind> (\<lambda>s1. Some (s1\<lparr>s_activeSaver := None\<rparr>)))"
      by (rule runs_bind) (use server_inv_saver [of _ None] in auto)
    from runs_bind [OF this tail [of _ "\<lambda>c. Some (Screensaver c activated)"]] False show ?thesis
      by (simp add: onScreensaver_def)
  qed
qed

section \<open>The constructor\<close>

lemma empty_clipboard_info_closed:
  obtains info where "empty_clipboard_info owner q = Some info" "clip_closed info"
proof -
  obtain cb1 cb2 cb3 where cb: "of_clip (Clipboard_open 0 Clipboard_new) = Some (True, cb1)"
      "of_clip (Clipboard_empty cb1) = Some (True, cb2)" "of_clip (Clipboard_close cb2) = Some cb3" "\<not> cb_open cb3" "cb_wf cb3"
    by (simp add: of_clip_def Clipboard_ops_defs Clipboard_new_def cb_wf_def)
  obtain data cb4 where "of_clip (Clipboard_marshall cb3) = Some (data, cb4)" "\<not> cb_open cb4" "cb_wf cb4"
    by (rule marshall_closed [OF cb(4,5)])
  with cb that show ?thesis by (simp add: empty_clipboard_info_def clip_closed_def)
qed

lemma Server_new_works:
  assumes p: "heap p = Some obj" and scr: "isScreen cfg (bc_name obj)"
  shows "works (Server_new env heap cfg p x0 y0)"
proof -
  let ?s0 = "Server_init heap cfg p x0 y0 (e_now env)"
  obtain name where name: "Server_getName ?s0 p = Some name"
    using p by (auto simp: Server_getName_def deref_def Server_init_def Let_def)
  obtain info where info: "empty_clipboard_info name (s_seqNum ?s0) = Some info" "clip_closed info"
    by (rule empty_clipboard_info_closed)
  let ?s1 = "?s0\<lparr>s_clipboards := replicate kClipboardCount info, s_clientSet := [p], s_clients := [(name, p)]\<rparr>"
  have "server_inv ?s1"
    using name info(2) by (simp add: server_inv_def Server_init_def Server_getName_def deref_def)
  from announce_runs [OF this, of p] obtain s2 where "deref ?s1 p \<bind> (\<lambda>obj. setJumpCursorPos p (fst (bc_cursorPos obj))
      (snd (bc_cursorPos obj)) ?s1 \<bind> (\<lambda>s2. reconfigure s2 \<bind> updateActiveMonitors)) = Some s2" "server_inv s2"
    by (auto simp: runs_def)
  note s2 = this
  have "s_activeSaver s2 = None"
    using s2(1) by (auto simp: setJumpCursorPos_def reconfigure_def updateActiveMonitors_def tell_def emit_def Server_init_def
        bind_eq_Some_conv)
  then obtain b s3 where "setConfig env cfg s2 = Some (b, s3)" "server_inv s3"
    using setConfig_works [OF s2(2), of env cfg] by (auto simp: saver_ok_def)
  moreover have "addClient p (?s0\<lparr>s_clipboards := replicate kClipboardCount info\<rparr>) = Some (True, s2)"
  proof -
    have "s_clients ?s0 = []" "s_clientSet ?s0 = []" by (simp_all add: Server_init_def)
    moreover have "Server_getName (?s0\<lparr>s_clipboards := replicate kClipboardCount info\<rparr>) p = Some name"
      using name by (simp add: Server_getName_def deref_def)
    ultimately show ?thesis using s2(1) by (auto simp: addClient_def Let_def bind_eq_Some_conv)
  qed
  ultimately show ?thesis
    using p scr name info(1) by (simp add: Server_new_def works_def deref_def Server_init_def)
qed

end
