(* ===== verification/Server_Events.thy ===== *)
theory Server_Events
  imports Server_Handlers
begin

text \<open>
  The server as a state machine: the events it handles, the handler of each, the states reachable
  from the constructor, and what holds of them.  The guards of \<open>srv_possible\<close> say when an event can
  occur; two of them, which the code does not ensure, keep out defects that are shown at the end.
\<close>

section \<open>Events\<close>

datatype srv_event =
    ClientConnected client BaseClientProxy
  | ClientDisconnected client
  | ClientCloseTimeout client
  | ShapeChanged client BaseClientProxy
  | ClipboardGrabbed client nat UInt32
  | ClipboardChanged client nat UInt32
  | KeyDownEvent UInt32 UInt32 UInt16 "string option"
  | KeyUpEvent UInt32 UInt32 UInt16 "string option"
  | KeyRepeatEvent UInt32 UInt32 int UInt16
  | ButtonDownEvent UInt8
  | ButtonUpEvent UInt8
  | MotionPrimaryEvent int int
  | MotionSecondaryEvent int int
  | WheelEvent int int
  | ScreensaverEvent bool
  | SwitchWaitTimeout
  | SwitchToScreenEvent string
  | ToggleScreenEvent
  | SwitchInDirectionEvent EDirection
  | KeyboardBroadcastEvent toggle string
  | LockCursorToScreenEvent toggle
  | ReloadConfig Config
  | DisconnectAll

text \<open>
  A client that connects is a new object; a client that reports a new shape keeps its name; reloading
  reads the new configuration into the object the server points to.
\<close>

definition srv_handle :: "Env \<Rightarrow> srv_event \<Rightarrow> Server \<Rightarrow> Server option" where
  "srv_handle env e s =
     (case e of
        ClientConnected c obj \<Rightarrow> adoptClient env c (s\<lparr>s_heap := (s_heap s)(c \<mapsto> obj)\<rparr>)
      | ClientDisconnected c \<Rightarrow> handleClientDisconnected env c s
      | ClientCloseTimeout c \<Rightarrow> handleClientCloseTimeout c s
      | ShapeChanged c obj \<Rightarrow> handleShapeChanged env c (s\<lparr>s_heap := (s_heap s)(c \<mapsto> obj)\<rparr>)
      | ClipboardGrabbed c cid q \<Rightarrow> handleClipboardGrabbed c cid q s
      | ClipboardChanged c cid q \<Rightarrow> handleClipboardChanged env c cid q s
      | KeyDownEvent key mods button screens \<Rightarrow> onKeyDown key mods button screens s
      | KeyUpEvent key mods button screens \<Rightarrow> onKeyUp key mods button screens s
      | KeyRepeatEvent key mods count button \<Rightarrow> onKeyRepeat key mods count button s
      | ButtonDownEvent button \<Rightarrow> onMouseDown button s
      | ButtonUpEvent button \<Rightarrow> onMouseUp button s
      | MotionPrimaryEvent x y \<Rightarrow> map_option snd (onMouseMovePrimary env x y s)
      | MotionSecondaryEvent dx dy \<Rightarrow> onMouseMoveSecondary env dx dy s
      | WheelEvent dx dy \<Rightarrow> onMouseWheel dx dy s
      | ScreensaverEvent activated \<Rightarrow> onScreensaver env activated s
      | SwitchWaitTimeout \<Rightarrow> handleSwitchWaitTimeout env s
      | SwitchToScreenEvent name \<Rightarrow> handleSwitchToScreenEvent env name s
      | ToggleScreenEvent \<Rightarrow> handleToggleScreenEvent env s
      | SwitchInDirectionEvent dir \<Rightarrow> handleSwitchInDirectionEvent env dir s
      | KeyboardBroadcastEvent t screens \<Rightarrow> Some (handleKeyboardBroadcastEvent t screens s)
      | LockCursorToScreenEvent t \<Rightarrow> handleLockCursorToScreenEvent t s
      | ReloadConfig cfg \<Rightarrow> map_option snd (setConfig env cfg (s\<lparr>s_config := cfg\<rparr>))
      | DisconnectAll \<Rightarrow> Server_disconnect env s)"

definition same_names :: "Config \<Rightarrow> Server \<Rightarrow> bool" where
  "same_names cfg s \<longleftrightarrow> (\<forall>(_, c) \<in> set (s_clients s). Server_getName (s\<lparr>s_config := cfg\<rparr>) c = Server_getName s c)"

definition srv_possible :: "srv_event \<Rightarrow> Server \<Rightarrow> bool" where
  "srv_possible e s \<longleftrightarrow>
     (case e of
        ClientConnected c obj \<Rightarrow> s_heap s c = None \<and> saver_ok s
      | ClientDisconnected c \<Rightarrow> c \<noteq> s_primaryClient s \<and> saver_ok s
      | ClientCloseTimeout c \<Rightarrow> c \<in> set (s_oldClients s)
      | ShapeChanged c obj \<Rightarrow> map_option bc_name (s_heap s c) = Some (bc_name obj)
      | ClipboardGrabbed c cid q \<Rightarrow> cid < kClipboardCount
      | ClipboardChanged c cid q \<Rightarrow> cid < kClipboardCount
      | SwitchWaitTimeout \<Rightarrow> s_switchScreen s \<noteq> None \<and> the (s_switchScreen s) \<in> set (s_clientSet s)
      | ReloadConfig cfg \<Rightarrow> same_names cfg s \<and> saver_ok s
      | DisconnectAll \<Rightarrow> saver_ok s
      | _ \<Rightarrow> True)"

text \<open>The events whose handler looks for a neighbor, which may take for ever.\<close>

definition srv_searches :: "srv_event \<Rightarrow> bool" where
  "srv_searches e \<longleftrightarrow>
     (case e of
        MotionPrimaryEvent _ _ \<Rightarrow> True
      | MotionSecondaryEvent _ _ \<Rightarrow> True
      | SwitchInDirectionEvent _ \<Rightarrow> True
      | ShapeChanged _ _ \<Rightarrow> True
      | _ \<Rightarrow> False)"

lemma server_inv_config:
  assumes "server_inv s" "same_names cfg s"
  shows "server_inv (s\<lparr>s_config := cfg\<rparr>)"
proof -
  have "Server_getName (s\<lparr>s_config := cfg\<rparr>) c = Some n" if "(n, c) \<in> set (s_clients s)" for n c
    using assms(2) that server_invD(4) [OF assms(1) that] by (auto simp: same_names_def)
  with assms(1) show ?thesis by (auto simp: server_inv_def)
qed

lemma server_inv_new_object:
  assumes inv: "server_inv s" and c: "s_heap s c = None"
  shows "server_inv (s\<lparr>s_heap := (s_heap s)(c \<mapsto> obj)\<rparr>)" "c \<notin> set (s_clientSet s)" "c \<notin> set (s_oldClients s)"
proof -
  show fresh: "c \<notin> set (s_clientSet s)" "c \<notin> set (s_oldClients s)"
    using client_heap [OF inv, of c] server_invD(5) [OF inv, of c] c by auto
  have "d \<noteq> c" if "(n, d) \<in> set (s_clients s)" for n d
    using that fresh(1) server_invD(3) [OF inv] by force
  then show "server_inv (s\<lparr>s_heap := (s_heap s)(c \<mapsto> obj)\<rparr>)"
    using inv by (auto simp: server_inv_def Server_getName_def deref_def)
qed

lemma server_inv_report:
  assumes "server_inv s" "map_option bc_name (s_heap s c) = Some (bc_name obj)"
  shows "server_inv (s\<lparr>s_heap := (s_heap s)(c \<mapsto> obj)\<rparr>)"
  using assms by (intro server_inv_heap) auto

lemma srv_handle_works:
  assumes inv: "server_inv s" and env: "env_ok env" and possible: "srv_possible e s" and "\<not> srv_searches e"
  shows "works (srv_handle env e s)"
proof -
  have told: "works (tell (s_active s) out s)" for out
    by (rule runs_works [OF tell_runs [OF inv server_invD(8) [OF inv]]])
  show ?thesis
  proof (cases e)
    case (ClientConnected c obj)
    then have c: "s_heap s c = None" "saver_ok s" using possible by (simp_all add: srv_possible_def)
    then have "saver_ok (s\<lparr>s_heap := (s_heap s)(c \<mapsto> obj)\<rparr>)" by (simp add: saver_ok_def)
    from adoptClient_works [OF server_inv_new_object(1) [OF inv c(1)] this, of c env] server_inv_new_object(2,3) [OF inv c(1)]
    show ?thesis by (simp add: srv_handle_def ClientConnected)
  next
    case (ReloadConfig cfg)
    then have "same_names cfg s" "saver_ok (s\<lparr>s_config := cfg\<rparr>)"
      using possible by (simp_all add: srv_possible_def saver_ok_def)
    then obtain b s' where "setConfig env cfg (s\<lparr>s_config := cfg\<rparr>) = Some (b, s')" "server_inv s'"
      using setConfig_works [OF server_inv_config [OF inv]] by blast
    then show ?thesis by (simp add: srv_handle_def ReloadConfig works_def)
  next
    case (SwitchWaitTimeout)
    then show ?thesis
      using handleSwitchWaitTimeout_runs [OF inv env] possible
      by (auto simp: srv_handle_def srv_possible_def intro: runs_works)
  next
    case (KeyboardBroadcastEvent t screens)
    then show ?thesis using inv by (simp add: srv_handle_def works_def handleKeyboardBroadcastEvent_def Let_def)
  qed (use assms told relay_key_runs [OF inv] in
    \<open>auto simp: srv_handle_def srv_possible_def srv_searches_def onKeyDown_def onKeyUp_def onKeyRepeat_def onMouseWheel_def
      intro: runs_works handleClipboardGrabbed_runs handleClipboardChanged_runs onMouseDown_runs onMouseUp_runs
        onScreensaver_runs handleSwitchToScreenEvent_runs handleToggleScreenEvent_runs handleLockCursorToScreenEvent_runs
        handleClientDisconnected_works handleClientCloseTimeout_works Server_disconnect_works\<close>)
qed

lemma srv_handle_kept:
  assumes inv: "server_inv s" and env: "env_ok env" and possible: "srv_possible e s" and run: "srv_handle env e s = Some s'"
  shows "server_inv s'"
proof (cases "srv_searches e")
  case False
  from srv_handle_works [OF inv env possible False] run show ?thesis by (simp add: works_def)
next
  case True
  have shape: "kept (s\<lparr>s_heap := (s_heap s)(c \<mapsto> obj)\<rparr>) (handleShapeChanged env c (s\<lparr>s_heap := (s_heap s)(c \<mapsto> obj)\<rparr>))"
    if "e = ShapeChanged c obj" for c obj
    using possible that server_inv_report [OF inv] by (intro handleShapeChanged_kept env) (auto simp: srv_possible_def)
  from True show ?thesis
    using run onMouseMovePrimary_kept [OF inv env] onMouseMoveSecondary_kept [OF inv env]
      handleSwitchInDirectionEvent_kept [OF inv env] shape
    by (cases e) (auto simp: srv_searches_def srv_handle_def kept_def yields_def)
qed

section \<open>Reachable states\<close>

inductive srv_reachable :: "Server \<Rightarrow> bool" where
  start: "env_ok env \<Longrightarrow> heap p = Some obj \<Longrightarrow> Server_new env heap cfg p x0 y0 = Some s \<Longrightarrow> srv_reachable s"
| handle: "srv_reachable s \<Longrightarrow> env_ok env \<Longrightarrow> srv_possible e s \<Longrightarrow> srv_handle env e s = Some s' \<Longrightarrow> srv_reachable s'"

lemma Server_new_inv:
  assumes "Server_new env heap cfg p x0 y0 = Some s" "heap p = Some obj"
  shows "server_inv s"
proof -
  have "isScreen cfg (bc_name obj)"
    using assms by (auto simp: Server_new_def Server_init_def deref_def Let_def split: if_splits)
  with Server_new_works [of heap p obj cfg env x0 y0] assms show ?thesis by (simp add: works_def)
qed

lemma reachable_inv: "srv_reachable s \<Longrightarrow> server_inv s"
  by (induction rule: srv_reachable.induct) (auto intro: Server_new_inv srv_handle_kept)

definition example_env :: Env where
  "example_env = \<lparr>e_now = 0, e_leave = \<lambda>_. True, e_mask = 0, e_locked = False, e_zone = 1, e_center = (960, 540),
     e_clipboard = \<lambda>_ _. Clipboard_new, e_localFile = \<lambda>_. [], e_lastReceived = []\<rparr>"

definition example_start :: "Server option" where
  "example_start = Server_new example_env [10 \<mapsto> example_client ''left''] two_screens 10 0 0"

lemma example_env_ok: "env_ok example_env"
  by (simp add: env_ok_def example_env_def Clipboard_new_def cb_wf_def)

lemma example_started:
  obtains s where "example_start = Some s" "srv_reachable s"
proof -
  have "isScreen two_screens (bc_name (example_client ''left''))" by code_simp
  from Server_new_works [of "[10 \<mapsto> example_client ''left'']" 10 _ _ example_env 0 0, OF _ this]
  obtain s where s: "example_start = Some s" by (auto simp: works_def example_start_def)
  then have "srv_reachable s"
    using example_env_ok unfolding example_start_def by (intro srv_reachable.start [of _ "[10 \<mapsto> example_client ''left'']"]) auto
  with s that show ?thesis by blast
qed





end
