(* ===== verification/Server_Messages.thy ===== *)
theory Server_Messages
  imports Server_Events
begin

text \<open>
  What the server tells its clients when the cursor changes screens, and when it may change: the messages
  of \<^verbatim>\<open>switchScreen\<close>, the decision of \<^verbatim>\<open>isSwitchOkay\<close>, and what happens to a switch that is pending when
  its target disconnects.
\<close>

section \<open>Steps that leave the cursor where it is\<close>

definition no_switch :: "srv_output \<Rightarrow> bool" where
  "no_switch out = (case out of Leave _ \<Rightarrow> False | Enter _ _ _ _ _ _ \<Rightarrow> False | _ \<Rightarrow> True)"

definition quiet :: "Server \<Rightarrow> Server \<Rightarrow> bool" where
  "quiet s s' \<longleftrightarrow>
     s_active s' = s_active s \<and> s_seqNum s' = s_seqNum s \<and> s_x s' = s_x s \<and> s_y s' = s_y s \<and>
     s_switchScreen s' = s_switchScreen s \<and> s_primaryClient s' = s_primaryClient s \<and> s_heap s' = s_heap s \<and>
     (\<exists>ys. s_out s' = s_out s @ ys \<and> list_all no_switch ys)"

lemma quiet_refl [simp]: "quiet s s"
  by (simp add: quiet_def)

lemma quiet_trans:
  assumes "quiet s s1" "quiet s1 s2"
  shows "quiet s s2"
proof -
  from assms obtain ys zs where "s_out s1 = s_out s @ ys" "list_all no_switch ys" "s_out s2 = s_out s1 @ zs" "list_all no_switch zs"
    by (auto simp: quiet_def)
  then have "s_out s2 = s_out s @ ys @ zs \<and> list_all no_switch (ys @ zs)" by simp
  with assms show ?thesis by (auto simp: quiet_def)
qed

lemma quiet_frame [simp]:
  "quiet s (s'\<lparr>s_clipboards := v1\<rparr>) = quiet s s'" "quiet s (s'\<lparr>s_sendFileThread := v2\<rparr>) = quiet s s'"
  "quiet s (s'\<lparr>s_lastCopiedFile := v3\<rparr>) = quiet s s'" "quiet s (s'\<lparr>s_copiedFileSentTo := v4\<rparr>) = quiet s s'"
  by (simp_all add: quiet_def)

lemma quiet_bind:
  assumes "yields (quiet s) m" "\<And>s1. yields (quiet s1) (f s1)"
  shows "yields (quiet s) (m \<bind> f)"
  using assms by (auto simp: yields_def bind_eq_Some_conv intro: quiet_trans)

lemma quiet_from: "quiet s s1 \<Longrightarrow> yields (quiet s1) m \<Longrightarrow> yields (quiet s) m"
  by (auto simp: yields_def intro: quiet_trans)

lemma tell_quiet: "no_switch out \<Longrightarrow> yields (quiet s) (tell c out s)"
  by (auto simp: tell_def yields_def bind_eq_Some_conv quiet_def emit_def)

lemma tell_all_quiet: "(\<And>c out. f c = Some out \<Longrightarrow> no_switch out) \<Longrightarrow> yields (quiet s) (tell_all f cs s)"
proof (induction cs arbitrary: s)
  case (Cons x cs)
  show ?case
    using Cons by (cases x) (auto split: option.split intro!: quiet_bind tell_quiet)
qed simp

lemma sendFileToScreen_quiet: "yields (quiet s) (sendFileToScreen c f s)"
  by (auto simp: sendFileToScreen_def no_switch_def intro!: quiet_bind tell_quiet)

lemma send_and_note_quiet: "yields (quiet s) (sendFileToScreen c f s \<bind> (\<lambda>s3. Some (s3\<lparr>s_copiedFileSentTo := g s3\<rparr>)))"
  by (intro quiet_bind sendFileToScreen_quiet) simp

lemma offer_copied_file_quiet: "yields (quiet s) (offer_copied_file env sender cid s)"
  unfolding offer_copied_file_def
  by (intro yields_rules quiet_from [OF _ send_and_note_quiet]) auto

lemma onClipboardChanged_quiet: "yields (quiet s) (onClipboardChanged env sender cid q s)"
proof -
  have tail: "yields (quiet s) (tell_all (\<lambda>c. Some (SetClipboardDirty c cid (c \<noteq> sender))) cs s1 \<bind> (\<lambda>s2.
      tell_all (\<lambda>c. if c \<noteq> sender then Some (SetClipboard c cid cb) else None) (s_clients s2) s2 \<bind>
      offer_copied_file env sender cid))" if "quiet s s1" for s1 cs cb
    by (intro quiet_from [OF that] quiet_bind tell_all_quiet offer_copied_file_quiet) (auto simp: no_switch_def split: if_splits)
  show ?thesis
    unfolding onClipboardChanged_def by (intro tail yields_rules) simp_all
qed

lemma fetch_clipboards_quiet: "yields (quiet s) (fetch_clipboards env cids s)"
proof (induction cids arbitrary: s)
  case (Cons cid cids)
  then show ?case
    by (auto simp: Let_def intro!: quiet_bind onClipboardChanged_quiet yields_bind [of "Server_getName _ _"])
qed simp

lemma send_clipboards_quiet: "yields (quiet s) (send_clipboards cids s)"
proof (induction cids arbitrary: s)
  case (Cons cid cids)
  then show ?case by (auto simp: no_switch_def intro!: quiet_bind tell_quiet)
qed simp

lemma send_pending_file_quiet: "yields (quiet s) (send_pending_file s)"
  using send_and_note_quiet by (simp add: send_pending_file_def)

section \<open>Changing screens\<close>

lemma enter_screen_messages:
  assumes "enter_screen env dst x y b s = Some s'"
  obtains obj post where "s_heap s dst = Some obj" "list_all no_switch post" "s_active s' = dst" "s_seqNum s' = s_seqNum s + 1"
    "s_x s' = s_x s" "s_y s' = s_y s" "s_switchScreen s' = s_switchScreen s"
    "s_out s' = s_out s @ [Enter dst x y (s_seqNum s + 1) (e_mask env) b] @ post @ [ScreenSwitched (bc_name obj)]"
proof -
  let ?s1 = "s\<lparr>s_active := dst, s_seqNum := s_seqNum s + 1\<rparr>"
  let ?s2 = "emit (Enter dst x y (s_seqNum s + 1) (e_mask env) b) ?s1"
  have clips: "yields (quiet ?s2) (if s_enableClipboard ?s2
      then send_clipboards [0..<kClipboardCount] ?s2 \<bind> send_pending_file else Some ?s2)"
    by (auto intro!: quiet_bind send_clipboards_quiet send_pending_file_quiet)
  from assms obtain s4 obj where s4: "(if s_enableClipboard ?s2
      then send_clipboards [0..<kClipboardCount] ?s2 \<bind> send_pending_file else Some ?s2) = Some s4"
    "deref s4 dst = Some obj" "s' = emit (ScreenSwitched (bc_name obj)) s4"
    unfolding enter_screen_def tell_def Let_def by (auto elim!: bind_eq_Some_conv [THEN iffD1, elim_format])
  with clips have "quiet ?s2 s4" by (auto simp: yields_def)
  then obtain post where "s_out s4 = s_out ?s2 @ post" "list_all no_switch post" by (auto simp: quiet_def)
  with \<open>quiet ?s2 s4\<close> s4(2,3) that show ?thesis by (simp add: quiet_def emit_def deref_def)
qed

text \<open>
  C20.  Changing screens: the active client is told to leave, then the new one to enter at the given
  position, with the sequence number increased by one, and nobody else is told to enter or leave; then the new client is
  active, the cursor is at that position and no switch is pending.
\<close>

theorem switchScreen_enters:
  assumes run: "switchScreen env dst x y b s = Some s'" and other: "s_active s \<noteq> dst" and leave: "e_leave env (s_active s)"
  shows "s_active s' = dst \<and> s_seqNum s' = s_seqNum s + 1 \<and> s_x s' = x \<and> s_y s' = y \<and> s_switchScreen s' = None \<and>
    (\<exists>mid post name. list_all no_switch mid \<and> list_all no_switch post \<and>
      s_out s' = s_out s @ [Leave (s_active s)] @ mid @ [Enter dst x y (s_seqNum s + 1) (e_mask env) b] @ post @ [ScreenSwitched name])"
proof -
  let ?s2 = "emit (Leave (s_active s)) (set_position x y (stopSwitch s))"
  have fetch: "yields (quiet ?s2) (if s_active ?s2 = s_primaryClient ?s2 \<and> s_enableClipboard ?s2
      then fetch_clipboards env [0..<kClipboardCount] ?s2 else Some ?s2)"
    by (simp add: fetch_clipboards_quiet)
  from run other leave obtain s3 where s3: "(if s_active ?s2 = s_primaryClient ?s2 \<and> s_enableClipboard ?s2
      then fetch_clipboards env [0..<kClipboardCount] ?s2 else Some ?s2) = Some s3" "enter_screen env dst x y b s3 = Some s'"
    unfolding switchScreen_def tell_def Let_def by (auto elim!: bind_eq_Some_conv [THEN iffD1, elim_format])
  with fetch have q: "quiet ?s2 s3" by (auto simp: yields_def)
  then obtain mid where mid: "s_out s3 = s_out ?s2 @ mid" "list_all no_switch mid" by (auto simp: quiet_def)
  have s2: "s_out ?s2 = s_out s @ [Leave (s_active s)]" "s_seqNum ?s2 = s_seqNum s" "s_x ?s2 = x" "s_y ?s2 = y" "s_switchScreen ?s2 = None"
    by (simp_all add: emit_def set_position_def stopSwitch_def stopSwitchWait_def stopSwitchTwoTap_def)
  obtain obj post where "s_heap s3 dst = Some obj" "list_all no_switch post" "s_active s' = dst" "s_seqNum s' = s_seqNum s3 + 1"
    "s_x s' = s_x s3" "s_y s' = s_y s3" "s_switchScreen s' = s_switchScreen s3"
    "s_out s' = s_out s3 @ [Enter dst x y (s_seqNum s3 + 1) (e_mask env) b] @ post @ [ScreenSwitched (bc_name obj)]"
    by (rule enter_screen_messages [OF s3(2)])
  with q mid s2 show ?thesis by (auto simp: quiet_def)
qed

definition two_clients :: Server where
  "two_clients = (example_server [(''left'', 10), (''right'', 20)])\<lparr>s_enableClipboard := False\<rparr>"

theorem switchScreen_enters_witness:
  "\<exists>s'. switchScreen example_env 20 100 200 False two_clients = Some s' \<and> s_active s' = 20 \<and> s_seqNum s' = 1"
proof -
  have d: "deref two_clients 10 \<noteq> None" "deref two_clients 20 \<noteq> None" "s_active two_clients = 10"
    "s_seqNum two_clients = 0" "\<not> s_enableClipboard two_clients" "e_leave example_env 10"
    by (simp_all add: two_clients_def example_server_def deref_def Server_init_def example_env_def)
  have "map_option s_active (switchScreen example_env 20 100 200 False two_clients) = Some 20" by code_simp
  then obtain s' where "switchScreen example_env 20 100 200 False two_clients = Some s'" by auto
  with switchScreen_enters [OF this] d show ?thesis by simp
qed

section \<open>Whether to switch\<close>

text \<open>The double tap, or without one the delay, allows the switch.\<close>

definition tap_allows :: "Env \<Rightarrow> EDirection \<Rightarrow> Server \<Rightarrow> bool" where
  "tap_allows env dir s \<longleftrightarrow>
     (if s_switchTwoTapDelay s > 0
      then dir = s_switchDir s \<and> s_switchTwoTapEngaged s \<and> s_switchTwoTapArmed s \<and>
           e_now env - s_switchTwoTapTimer s \<le> s_switchTwoTapDelay s
      else s_switchWaitDelay s \<le> 0)"

definition in_dead_corner :: "Server \<Rightarrow> int \<Rightarrow> int \<Rightarrow> bool" where
  "in_dead_corner s x y \<longleftrightarrow>
     (\<exists>name corners sz corner. Server_getName s (s_active s) = Some name \<and>
        corner_options (s_config s) name = Some (corners, sz) \<and>
        getCorner s (s_active s) x y sz = Some corner \<and> (corner AND corners) \<noteq> 0)"

lemma switch_taps_prevent:
  "fst (switch_taps env c dir x y s) \<longleftrightarrow> \<not> tap_allows env dir s"
  by (auto simp: switch_taps_def tap_allows_def shouldSwitchTwoTap_def twoTapTime_def Let_def startSwitchTwoTap_def)

definition tap_frame :: "Server \<Rightarrow> Server" where
  "tap_frame s = s\<lparr>s_switchDir := kNoDirection, s_switchScreen := None, s_switchTwoTapEngaged := False, s_switchTwoTapArmed := False,
     s_switchTwoTapTimer := 0, s_switchWaitTimer := False, s_switchWaitX := 0, s_switchWaitY := 0\<rparr>"

lemma switch_taps_frame: "tap_frame (snd (switch_taps env c dir x y s)) = tap_frame s"
  by (simp add: switch_taps_def tap_frame_def Let_def startSwitchTwoTap_def startSwitchWait_def stopSwitchWait_def)

lemma names_frame: "deref (tap_frame s) = deref s" "Server_getName (tap_frame s) = Server_getName s"
    "resolveMonName (tap_frame s) = resolveMonName s"
proof -
  show d: "deref (tap_frame s) = deref s" by (simp add: fun_eq_iff deref_def tap_frame_def)
  show n: "Server_getName (tap_frame s) = Server_getName s"
    unfolding fun_eq_iff Server_getName_def d by (simp add: tap_frame_def)
  show "resolveMonName (tap_frame s) = resolveMonName s"
  proof -
    have f: "s_activeMonitors (tap_frame s) = s_activeMonitors s" "s_config (tap_frame s) = s_config s"
      by (simp_all add: tap_frame_def)
    show ?thesis unfolding fun_eq_iff resolveMonName_def n f by simp
  qed
qed

lemma getCorner_frame: "getCorner (tap_frame s) c x y sz = getCorner s c x y sz"
  unfolding getCorner_def getActiveMonitorShape_def names_frame by (rule refl)

lemma tap_frame_fields:
  assumes "tap_frame s1 = tap_frame s"
  shows "s_config s1 = s_config s" "s_active s1 = s_active s" "isLockedToScreen env s1 = isLockedToScreen env s"
    "missing_modifiers env s1 = missing_modifiers env s" "getCorner s1 = getCorner s"
proof -
  have f: "P (tap_frame s1) = P (tap_frame s)" for P :: "Server \<Rightarrow> 'b" using assms by simp
  show "s_config s1 = s_config s" "s_active s1 = s_active s"
    using f [of s_config] f [of s_active] by (simp_all add: tap_frame_def)
  show "isLockedToScreen env s1 = isLockedToScreen env s" "missing_modifiers env s1 = missing_modifiers env s"
    using f [of "isLockedToScreen env"] f [of "missing_modifiers env"]
    by (simp_all add: tap_frame_def isLockedToScreen_def isLockedToScreenServer_def missing_modifiers_def)
  show "getCorner s1 = getCorner s"
    using getCorner_frame [of s1] getCorner_frame [of s] assms by (intro ext) simp
qed



section \<open>A pending switch whose target disconnects\<close>

definition pending :: "Server \<Rightarrow> client option \<times> bool \<times> bool" where
  "pending s = (s_switchScreen s, s_switchWaitTimer s, s_lockedToScreen s)"

lemma pending_frame [simp]: "pending (emit out s) = pending s" "pending (check_disconnected s) = pending s"
    "pending (removeOldClient c s) = pending s" "pending (delete_client c s) = pending s"
  by (simp_all add: pending_def emit_def check_disconnected_def removeOldClient_def delete_client_def)

lemma removeClient_pending: "removeClient c s = Some (b, s') \<Longrightarrow> pending s' = pending s"
  by (auto simp: removeClient_def updateActiveMonitors_def pending_def bind_eq_Some_conv split: if_splits)

lemma reconfigure_pending: "reconfigure s = Some s' \<Longrightarrow> pending s' = pending s"
  by (auto simp: reconfigure_def tell_def pending_def emit_def bind_eq_Some_conv)

text \<open>
  C23.  A switch that waits for its delay is not cancelled when the client it goes to disconnects: the
  timer goes on, and when it fires the server uses the deleted client.
\<close>

theorem pending_switch_dangles:
  assumes inv: "server_inv s" and c: "c \<in> set (s_clientSet s)" "c \<noteq> s_primaryClient s" "s_active s \<noteq> c"
    and saver: "s_activeSaver s = None" and target: "s_switchScreen s = Some c" and free: "\<not> isLockedToScreen env s"
  shows "\<exists>s'. handleClientDisconnected env c s = Some s' \<and> s_switchWaitTimer s' = s_switchWaitTimer s \<and>
    handleSwitchWaitTimeout env s' = None"
proof -
  obtain s2 where s2: "removeClient c s = Some (True, s2)" "server_inv (parked s2)"
      "s_active s2 = s_active s" "s_activeSaver s2 = s_activeSaver s" "s_heap s2 = s_heap s" "s_primaryClient s2 = s_primaryClient s"
      "s_clientSet s2 = remove1 c (s_clientSet s)"
    by (rule removeClient_works [OF inv c(1,2)])
  obtain obj where obj: "s_heap s2 (s_primaryClient s2) = Some obj"
    using client_heap [OF inv server_invD(7) [OF inv]] s2 by auto
  have "s_active s2 \<in> set (s_clientSet s2)" using s2(3,7) c(3) server_invD(8) [OF inv] by simp
  then have "server_inv s2" by (rule unparked [OF s2(2)]) (use s2(4) saver in simp_all)
  then obtain s3 where s3: "reconfigure s2 = Some s3" using reconfigure_runs [of s2] by (auto simp: runs_def)
  have "forceLeaveClient env c s2 = Some s3"
    using s3 s2 saver c client_heap [OF inv c(1)] by (simp add: forceLeaveClient_eq [OF obj])
  then have run: "handleClientDisconnected env c s = Some (delete_client c (removeOldClient c (check_disconnected s3)))"
    using s2(1) by (simp add: handleClientDisconnected_def removeActiveClient_def)
  let ?s' = "delete_client c (removeOldClient c (check_disconnected s3))"
  have "pending ?s' = pending s" using removeClient_pending [OF s2(1)] reconfigure_pending [OF s3] by simp
  then have p: "s_switchScreen ?s' = Some c" "s_switchWaitTimer ?s' = s_switchWaitTimer s" "\<not> isLockedToScreen env ?s'"
    using target free by (simp_all add: pending_def isLockedToScreen_def isLockedToScreenServer_def)
  have "deref ?s' c = None" by (simp add: deref_def delete_client_def)
  then have "switchScreen env c x y b ?s' = None" for x y b
    by (cases "deref ?s' (s_active ?s')") (simp_all add: switchScreen_def)
  with run p show ?thesis by (simp add: handleSwitchWaitTimeout_def)
qed

definition waiting_server :: Server where
  "waiting_server = two_clients\<lparr>s_clipboards := replicate kClipboardCount
     \<lparr>ci_clipboard = Clipboard_new, ci_clipboardData = [], ci_clipboardOwner = ''left'', ci_clipboardSeqNum = 0\<rparr>,
     s_switchScreen := Some 20, s_switchDir := kRight, s_switchWaitTimer := True\<rparr>"

theorem pending_switch_dangles_witness:
  "\<exists>s'. handleClientDisconnected example_env 20 waiting_server = Some s' \<and> s_switchWaitTimer s' \<and>
     handleSwitchWaitTimeout example_env s' = None"
proof -
  have "getCanonicalName ring_config ''left'' = ''left''" "getCanonicalName ring_config ''right'' = ''right''"
    by (code_simp, code_simp)
  then have "server_inv waiting_server"
    by (simp add: server_inv_def waiting_server_def two_clients_def example_server_def Server_init_def Server_getName_def deref_def
        example_client_def clip_closed_def Clipboard_new_def cb_wf_def strs.ascending_def)
  moreover have "20 \<in> set (s_clientSet waiting_server)" "20 \<noteq> s_primaryClient waiting_server" "s_active waiting_server \<noteq> 20"
    "s_activeSaver waiting_server = None" "s_switchScreen waiting_server = Some 20" "\<not> isLockedToScreen example_env waiting_server"
    "s_switchWaitTimer waiting_server"
    by (simp_all add: waiting_server_def two_clients_def example_server_def Server_init_def isLockedToScreen_def
        isLockedToScreenServer_def example_env_def)
  ultimately show ?thesis using pending_switch_dangles [of waiting_server 20 example_env] by simp
qed

end
