(* ===== verification/Display_List.thy ===== *)
theory Display_List
  imports Server_Geometry
begin

text \<open>
  The list of displays a client declares, as text: \<^verbatim>\<open>DisplayInfo::serializeList\<close> and
  \<^verbatim>\<open>DisplayInfo::deserializeList\<close> of \<^verbatim>\<open>barrier/protocol_types.h\<close>, with what they use of the C++ streams:
  \<^verbatim>\<open>std::getline\<close> and the extraction of an \<^verbatim>\<open>int\<close>.
\<close>

section \<open>Streams of characters\<close>

text \<open>\<^verbatim>\<open>stream << v\<close> for an integer.\<close>

definition print_int :: "int \<Rightarrow> string" where
  "print_int v = (if v < 0 then CHR ''-'' # decimal (nat (- v)) else decimal (nat v))"

text \<open>\<^verbatim>\<open>std::getline(stream, line, delim)\<close>: it fails when the stream is at its end.\<close>

definition getline :: "char \<Rightarrow> string \<Rightarrow> (string \<times> string) option" where
  "getline delim s =
     (if s = [] then None
      else Some (takeWhile (\<lambda>c. c \<noteq> delim) s, drop 1 (dropWhile (\<lambda>c. c \<noteq> delim) s)))"

text \<open>\<^verbatim>\<open>stream >> v\<close> for a 32 bit integer: it fails without a digit and out of range.\<close>

definition scan_int :: "string \<Rightarrow> (int \<times> string) option" where
  "scan_int s =
     (let s1 = dropWhile isspace s;
          sign = takeWhile (\<lambda>c. c = CHR ''+'' \<or> c = CHR ''-'') (take 1 s1);
          s2 = drop (length sign) s1; ds = takeWhile isdigit s2;
          v = (if sign = ''-'' then - int (decimal_val ds) else int (decimal_val ds))
      in if ds = [] \<or> v < - (2 ^ 31) \<or> v \<ge> 2 ^ 31 then None else Some (v, dropWhile isdigit s2))"

section \<open>Lists of displays\<close>

definition serialize_display :: "DisplayInfo \<Rightarrow> string" where
  "serialize_display d =
     di_id d @ CHR 0x09 # di_name d @ CHR 0x09 # print_int (di_x d) @ CHR 0x09 # print_int (di_y d) @ CHR 0x09 #
     print_int (di_w d) @ CHR 0x09 # print_int (di_h d) @ CHR 0x09 # (if di_isPrimary d then ''1'' else ''0'')"

definition serializeList :: "DisplayInfo list \<Rightarrow> string" where
  "serializeList ds = concat (map (\<lambda>d. serialize_display d @ [CHR 0x0A]) ds)"

text \<open>One line; \<open>None\<close> when a part of it is missing.\<close>

definition deserialize_line :: "string \<Rightarrow> DisplayInfo option" where
  "deserialize_line line = do {
     (id', s1) \<leftarrow> getline (CHR 0x09) line;
     (name, s2) \<leftarrow> getline (CHR 0x09) s1;
     (x, s3) \<leftarrow> scan_int s2;
     (y, s4) \<leftarrow> scan_int s3;
     (w, s5) \<leftarrow> scan_int s4;
     (h, s6) \<leftarrow> scan_int s5;
     (isPrim, _) \<leftarrow> scan_int s6;
     Some \<lparr>di_id = id', di_name = name, di_x = x, di_y = y, di_w = w, di_h = h, di_isPrimary = (isPrim \<noteq> 0)\<rparr>
   }"

function deserializeList :: "string \<Rightarrow> DisplayInfo list" where
  "deserializeList s =
     (case getline (CHR 0x0A) s of
        None \<Rightarrow> []
      | Some (line, rest) \<Rightarrow>
          (case (if line = [] then None else deserialize_line line) of
             None \<Rightarrow> deserializeList rest
           | Some d \<Rightarrow> d # deserializeList rest))"
  by pat_completeness auto
termination
proof (relation "measure length")
  have "length (drop 1 (dropWhile P s)) < length s" if "s \<noteq> []" for P and s :: string
    using that length_dropWhile_le [of P s] by (cases s) (auto simp: less_Suc_eq_le le_trans diff_le_self)
  then show "getline (CHR 0x0A) s = Some x2 \<Longrightarrow> (line, rest) = x2 \<Longrightarrow>
      (if line = [] then None else deserialize_line line) = None \<Longrightarrow> (rest, s) \<in> measure length"
    "getline (CHR 0x0A) s = Some x2 \<Longrightarrow> (line, rest) = x2 \<Longrightarrow>
      (if line = [] then None else deserialize_line line) = Some d \<Longrightarrow> (rest, s) \<in> measure length" for s x2 line rest d
    by (auto simp: getline_def split: if_splits)
qed simp

declare deserializeList.simps [simp del]

section \<open>Round trip\<close>

lemma getline_field: "delim \<notin> set f \<Longrightarrow> getline delim (f @ delim # r) = Some (f, r)"
proof -
  assume "delim \<notin> set f"
  then have "takeWhile (\<lambda>c. c \<noteq> delim) (f @ delim # r) = f" "dropWhile (\<lambda>c. c \<noteq> delim) (f @ delim # r) = delim # r"
    by (induction f) auto
  then show ?thesis by (simp add: getline_def)
qed

lemma decimal_chars:
  assumes "c \<in> set (decimal n)"
  shows "isdigit c" "\<not> isspace c" "c \<noteq> CHR ''+''" "c \<noteq> CHR ''-''"
  using subsetD [OF decimal_digits assms] digit_char_simps by (metis imageE lessThan_iff)+

definition stops :: "string \<Rightarrow> bool" where
  "stops r \<longleftrightarrow> r = [] \<or> \<not> isdigit (hd r)"

lemma digits_stop:
  assumes "stops r"
  shows "takeWhile isdigit (decimal n @ r) = decimal n" "dropWhile isdigit (decimal n @ r) = r"
  using assms decimal_chars(1) [of _ n]
  by (auto simp: stops_def takeWhile_append dropWhile_append takeWhile_eq_Nil_iff dropWhile_eq_self_iff)

lemma scan_int_blank: "isspace c \<Longrightarrow> scan_int (c # s) = scan_int s"
  by (simp add: scan_int_def)

lemma scan_int_print:
  assumes v: "- (2 ^ 31) \<le> v" "v < 2 ^ 31" and r: "stops r"
  shows "scan_int (print_int v @ r) = Some (v, r)"
proof (cases "v < 0")
  case True
  define n where "n = nat (- v)"
  have "dropWhile isspace (CHR ''-'' # decimal n @ r) = CHR ''-'' # decimal n @ r" by (simp add: isspace_def)
  with True v show ?thesis
    by (simp add: scan_int_def print_int_def n_def [symmetric] digits_stop [OF r] decimal_val_decimal Let_def) (simp add: n_def)
next
  case False
  define n where "n = nat v"
  obtain c cs where d: "decimal n = c # cs" by (meson decimal_not_Nil list.exhaust)
  have "\<not> isspace c" "c \<noteq> CHR ''+''" "c \<noteq> CHR ''-''" using decimal_chars(2-4) [of c n] d by simp_all
  then have "dropWhile isspace (decimal n @ r) = decimal n @ r"
    "takeWhile (\<lambda>c. c = CHR ''+'' \<or> c = CHR ''-'') (take 1 (decimal n @ r)) = []"
    unfolding d by simp_all
  with False v show ?thesis
    by (simp add: scan_int_def print_int_def n_def [symmetric] digits_stop [OF r] decimal_val_decimal Let_def) (simp add: n_def)
qed

definition display_text :: "DisplayInfo \<Rightarrow> bool" where
  "display_text d \<longleftrightarrow>
     set (di_id d) \<inter> {CHR 0x09, CHR 0x0A} = {} \<and> set (di_name d) \<inter> {CHR 0x09, CHR 0x0A} = {} \<and>
     (\<forall>v \<in> {di_x d, di_y d, di_w d, di_h d}. - (2 ^ 31) \<le> v \<and> v < 2 ^ 31)"

lemma stops_tab: "stops (CHR 0x09 # s)" "stops []"
  by (simp_all add: stops_def isdigit_def)

lemma deserialize_line_serialize:
  assumes "display_text d"
  shows "deserialize_line (serialize_display d) = Some d"
proof -
  have "scan_int ''1'' = Some (1, [])" by code_simp
  moreover have "scan_int ''0'' = Some (0, [])" by code_simp
  ultimately have flag: "scan_int (if b then ''1'' else ''0'') = Some (of_bool b, [])" for b by simp
  have blank: "isspace (CHR 0x09)" by (simp add: isspace_def)
  show ?thesis
    using assms
    by (simp add: deserialize_line_def serialize_display_def display_text_def getline_field scan_int_print
        stops_tab scan_int_blank [OF blank] flag)
qed

lemma print_int_chars: "c \<in> set (print_int v) \<Longrightarrow> c \<noteq> CHR 0x0A"
  using decimal_chars(2) by (auto simp: print_int_def isspace_def split: if_splits)

text \<open>
  The displays that a client declares arrive unchanged, if their names hold no tab or
  newline and their numbers fit in 32 bits.
\<close>

theorem displays_roundtrip:
  assumes "list_all display_text ds"
  shows "deserializeList (serializeList ds) = ds"
  using assms
proof (induction ds)
  case Nil
  show ?case by (simp add: serializeList_def deserializeList.simps getline_def)
next
  case (Cons d ds)
  have "CHR 0x0A \<notin> set (serialize_display d)"
    using Cons.prems print_int_chars by (auto simp: serialize_display_def display_text_def)
  then have "getline (CHR 0x0A) (serializeList (d # ds)) = Some (serialize_display d, serializeList ds)"
    by (simp add: serializeList_def getline_field)
  moreover have "serialize_display d \<noteq> []" by (simp add: serialize_display_def)
  ultimately show ?case
    using Cons deserialize_line_serialize [of d] by (simp add: deserializeList.simps [of "serializeList (d # ds)"])
qed

theorem displays_roundtrip_witness:
  "deserializeList (serializeList [\<lparr>di_id = ''eDP-1'', di_name = [], di_x = - 5, di_y = 0, di_w = 1920, di_h = 1080, di_isPrimary = True\<rparr>]) =
    [\<lparr>di_id = ''eDP-1'', di_name = [], di_x = - 5, di_y = 0, di_w = 1920, di_h = 1080, di_isPrimary = True\<rparr>]"
  by (rule displays_roundtrip) (simp add: display_text_def)

end
