(* ===== verification/Server_Proxy.thy ===== *)
theory Server_Proxy
  imports Display_List Server_Switch Stream_Chunks
begin

text \<open>
  The client's end of the connection, \<^verbatim>\<open>client/ServerProxy.cpp\<close>: it reads messages from the server and
  calls the client.  The stream below it is any pair of \<^verbatim>\<open>read\<close> and \<^verbatim>\<open>isReady\<close>.  What is written to
  the stream and what the client is told are recorded in order.  Most handlers use the variables that \<^verbatim>\<open>readf\<close>
  fills without looking at its result; using one that it did not fill is the error \<open>Uninitialised\<close>.
  Timers are represented by their delay.
\<close>

section \<open>State\<close>

datatype client_call =
    CEnter int int UInt32 UInt32 bool
  | CLeave
  | CMouseMove int int
  | CMouseRelativeMove int int
  | CMouseWheel int int
  | CMouseDown UInt8
  | CMouseUp UInt8
  | CKeyDown UInt32 UInt32 UInt16
  | CKeyRepeat UInt32 UInt32 int UInt16
  | CKeyUp UInt32 UInt32 UInt16
  | CSetClipboard UInt8 Clipboard
  | CGrabClipboard UInt8
  | CScreensaver bool
  | CResetOptions
  | CSetOptions "UInt32 list"
  | CHandshakeComplete
  | CDisconnect "string option"
  | CFileReceived
  | CDragInfo UInt32 bytes
  | CServerAddresses bytes

datatype proxy_err = Uninitialised | BadIndex | ClipboardFailed | Thrown perr

datatype EResult = kOkay | kUnknown | kDisconnect

record ServerProxy =
  sp_seqNum :: UInt32
  sp_compressMouse :: bool
  sp_compressMouseRelative :: bool
  sp_xMouse :: int
  sp_yMouse :: int
  sp_dxMouse :: int
  sp_dyMouse :: int
  sp_ignoreMouse :: bool
  sp_modifierTranslationTable :: "UInt32 list"
  sp_keepAliveAlarm :: rat
  sp_keepAliveAlarmTimer :: "rat option"
  sp_handshake :: bool
  sp_clip :: clip_rx
  sp_file :: file_rx
  sp_sent :: "bytes list"
  sp_calls :: "client_call list"

text \<open>What the proxy asks the client: its shape, the cursor and the displays.\<close>

record ClientView =
  cv_shape :: "int \<times> int \<times> int \<times> int"
  cv_cursor :: "int \<times> int"
  cv_displays :: "DisplayInfo list"

text \<open>The operations of the stream, and the values that uninitialised sizes start with.\<close>

record 's stream_ops =
  so_read :: "'s \<Rightarrow> nat \<Rightarrow> (bytes \<times> 's) option"
  so_isReady :: "'s \<Rightarrow> bool"
  so_junk :: size_t

definition kKeepAliveRate :: rat where "kKeepAliveRate = 3"
definition kKeepAlivesUntilDeath :: rat where "kKeepAlivesUntilDeath = 3"

definition kKeyModifierIDLast :: nat where "kKeyModifierIDLast = 7"

definition identity_table :: "UInt32 list" where
  "identity_table = map word_of_nat [0..<kKeyModifierIDLast]"

definition sp_call :: "client_call \<Rightarrow> ServerProxy \<Rightarrow> ServerProxy" where
  "sp_call c p = p\<lparr>sp_calls := sp_calls p @ [c]\<rparr>"

text \<open>\<^verbatim>\<open>ProtocolUtil::writef(m_stream, ...)\<close>\<close>

definition sp_write :: "string \<Rightarrow> warg list \<Rightarrow> ServerProxy \<Rightarrow> ServerProxy" where
  "sp_write fmt args p = (case writef fmt args of Inr (Some b) \<Rightarrow> p\<lparr>sp_sent := sp_sent p @ [b]\<rparr> | _ \<Rightarrow> p)"

definition resetKeepAliveAlarm :: "ServerProxy \<Rightarrow> ServerProxy" where
  "resetKeepAliveAlarm p =
     p\<lparr>sp_keepAliveAlarmTimer := (if sp_keepAliveAlarm p > 0 then Some (sp_keepAliveAlarm p) else None)\<rparr>"

definition setKeepAliveRate :: "rat \<Rightarrow> ServerProxy \<Rightarrow> ServerProxy" where
  "setKeepAliveRate rate p = resetKeepAliveAlarm (p\<lparr>sp_keepAliveAlarm := rate * kKeepAlivesUntilDeath\<rparr>)"

definition ServerProxy_new :: "clip_rx \<Rightarrow> file_rx \<Rightarrow> ServerProxy" where
  "ServerProxy_new cr fr = setKeepAliveRate kKeepAliveRate
     \<lparr>sp_seqNum = 0, sp_compressMouse = False, sp_compressMouseRelative = False, sp_xMouse = 0, sp_yMouse = 0,
      sp_dxMouse = 0, sp_dyMouse = 0, sp_ignoreMouse = False, sp_modifierTranslationTable = identity_table,
      sp_keepAliveAlarm = 0, sp_keepAliveAlarmTimer = None, sp_handshake = True, sp_clip = cr, sp_file = fr,
      sp_sent = [], sp_calls = []\<rparr>"

definition handleKeepAliveAlarm :: "ServerProxy \<Rightarrow> ServerProxy" where
  "handleKeepAliveAlarm p = sp_call (CDisconnect (Some ''server is not responding'')) p"

section \<open>Mouse compression and key translation\<close>

definition flushCompressedMouse :: "ServerProxy \<Rightarrow> ServerProxy" where
  "flushCompressedMouse p =
     (let p1 = (if sp_compressMouse p
                then sp_call (CMouseMove (sp_xMouse p) (sp_yMouse p)) (p\<lparr>sp_compressMouse := False\<rparr>) else p)
      in if sp_compressMouseRelative p1
         then (sp_call (CMouseRelativeMove (sp_dxMouse p1) (sp_dyMouse p1)) (p1\<lparr>sp_compressMouseRelative := False\<rparr>))
                \<lparr>sp_dxMouse := 0, sp_dyMouse := 0\<rparr>
         else p1)"

definition kKeyNone :: UInt32 where "kKeyNone = 0x0000"
definition kKeyAltGr :: UInt32 where "kKeyAltGr = 0xEF7E"
definition kKeyShift_L :: UInt32 where "kKeyShift_L = 0xEFE1"
definition kKeyShift_R :: UInt32 where "kKeyShift_R = 0xEFE2"
definition kKeyControl_L :: UInt32 where "kKeyControl_L = 0xEFE3"
definition kKeyControl_R :: UInt32 where "kKeyControl_R = 0xEFE4"
definition kKeyMeta_L :: UInt32 where "kKeyMeta_L = 0xEFE7"
definition kKeyMeta_R :: UInt32 where "kKeyMeta_R = 0xEFE8"
definition kKeyAlt_L :: UInt32 where "kKeyAlt_L = 0xEFE9"
definition kKeyAlt_R :: UInt32 where "kKeyAlt_R = 0xEFEA"
definition kKeySuper_L :: UInt32 where "kKeySuper_L = 0xEFEB"
definition kKeySuper_R :: UInt32 where "kKeySuper_R = 0xEFEC"

definition s_translationTable :: "(UInt32 \<times> UInt32) list" where
  "s_translationTable =
     [(kKeyNone, kKeyNone), (kKeyShift_L, kKeyShift_R), (kKeyControl_L, kKeyControl_R), (kKeyAlt_L, kKeyAlt_R),
      (kKeyMeta_L, kKeyMeta_R), (kKeySuper_L, kKeySuper_R), (kKeyAltGr, kKeyAltGr)]"

text \<open>The modifier a key stands for and its side: \<open>False\<close> is left.\<close>

definition modifier_key :: "UInt32 \<Rightarrow> (nat \<times> bool) option" where
  "modifier_key key =
     map_of [(kKeyShift_L, (1, False)), (kKeyShift_R, (1, True)), (kKeyControl_L, (2, False)), (kKeyControl_R, (2, True)),
       (kKeyAlt_L, (3, False)), (kKeyAlt_R, (3, True)), (kKeyAltGr, (6, True)), (kKeyMeta_L, (4, False)),
       (kKeyMeta_R, (4, True)), (kKeySuper_L, (5, False)), (kKeySuper_R, (5, True))] key"

definition table_entry :: "ServerProxy \<Rightarrow> nat \<Rightarrow> 'a list \<Rightarrow> 'a option" where
  "table_entry p i xs = (let t = unat (sp_modifierTranslationTable p ! i) in if t < length xs then Some (xs ! t) else None)"

definition translateKey :: "ServerProxy \<Rightarrow> UInt32 \<Rightarrow> UInt32 option" where
  "translateKey p key =
     (case modifier_key key of
        None \<Rightarrow> Some key
      | Some (i, right) \<Rightarrow> map_option (\<lambda>(l, r). if right then r else l) (table_entry p i s_translationTable))"

definition KeyModifierMeta :: UInt32 where "KeyModifierMeta = 8"
definition KeyModifierSuper :: UInt32 where "KeyModifierSuper = 0x10"
definition KeyModifierAltGr :: UInt32 where "KeyModifierAltGr = 0x20"

definition s_masks :: "UInt32 list" where
  "s_masks = [0, KeyModifierShift, KeyModifierControl, KeyModifierAlt, KeyModifierMeta, KeyModifierSuper, KeyModifierAltGr]"

fun translate_bits :: "ServerProxy \<Rightarrow> UInt32 \<Rightarrow> (UInt32 \<times> nat) list \<Rightarrow> UInt32 \<Rightarrow> UInt32 option" where
  "translate_bits p bits [] new = Some new"
| "translate_bits p bits ((m, i) # ms) new =
     (if bits AND m \<noteq> 0
      then (case table_entry p i s_masks of None \<Rightarrow> None | Some m' \<Rightarrow> translate_bits p bits ms (new OR m'))
      else translate_bits p bits ms new)"

definition translateModifierMask :: "ServerProxy \<Rightarrow> UInt32 \<Rightarrow> UInt32 option" where
  "translateModifierMask p bits =
     translate_bits p bits
       [(KeyModifierShift, 1), (KeyModifierControl, 2), (KeyModifierAlt, 3), (KeyModifierAltGr, 6), (KeyModifierMeta, 4),
        (KeyModifierSuper, 5)]
       (bits AND NOT (KeyModifierShift OR KeyModifierControl OR KeyModifierAlt OR KeyModifierMeta OR KeyModifierSuper OR
          KeyModifierAltGr))"

section \<open>Messages from the server\<close>

text \<open>
  A handler leaves the proxy and the stream.  \<open>recv\<close> is a call of \<^verbatim>\<open>readf\<close> whose result is dropped: the
  handler goes on only with values that have been filled.
\<close>

type_synonym ('a, 's) run = "(proxy_err + 'a) \<times> ServerProxy \<times> 's"

definition done_with :: "ServerProxy \<Rightarrow> 's \<Rightarrow> (unit, 's) run" where
  "done_with p s = (Inr (), p, s)"

definition recv ::
    "'s stream_ops \<Rightarrow> string \<Rightarrow> (rarg list \<Rightarrow> ServerProxy \<Rightarrow> (proxy_err + unit) \<times> ServerProxy) \<Rightarrow> ServerProxy \<Rightarrow> 's \<Rightarrow> (unit, 's) run" where
  "recv ops fmt k p s =
     (case readf (so_read ops) fmt s of
        (outs, Inl e, s') \<Rightarrow> (Inl (Thrown e), p, s')
      | (outs, Inr False, s') \<Rightarrow> (Inl Uninitialised, p, s')
      | (outs, Inr True, s') \<Rightarrow> (case k outs p of (r, p') \<Rightarrow> (r, p', s')))"

definition told :: "client_call \<Rightarrow> ServerProxy \<Rightarrow> (proxy_err + unit) \<times> ServerProxy" where
  "told c p = (Inr (), sp_call c p)"

definition bad_format :: "ServerProxy \<Rightarrow> (proxy_err + unit) \<times> ServerProxy" where
  "bad_format p = (Inl (Thrown BadArg), p)"

definition sp_enter :: "'s stream_ops \<Rightarrow> ServerProxy \<Rightarrow> 's \<Rightarrow> (unit, 's) run" where
  "sp_enter ops = recv ops (drop 4 kMsgCEnter) (\<lambda>outs p.
     case outs of
       [R16 x, R16 y, R32 seqNum, R16 m] \<Rightarrow>
         told (CEnter (sint x) (sint y) seqNum (ucast m) False)
           (p\<lparr>sp_compressMouse := False, sp_compressMouseRelative := False, sp_dxMouse := 0, sp_dyMouse := 0,
              sp_seqNum := seqNum\<rparr>)
     | _ \<Rightarrow> bad_format p)"

definition sp_leave :: "ServerProxy \<Rightarrow> ServerProxy" where
  "sp_leave p = sp_call CLeave (flushCompressedMouse p)"

definition sp_setClipboard :: "'s stream_ops \<Rightarrow> ServerProxy \<Rightarrow> 's \<Rightarrow> (unit, 's) run" where
  "sp_setClipboard ops p s =
     (case ClipboardChunk_assemble (so_junk ops) (so_read ops) (sp_clip p) s of
        (r, cr, s') \<Rightarrow>
          let p' = p\<lparr>sp_clip := cr\<rparr> in
          (case r of
             Inl e \<Rightarrow> (Inl (Thrown e), p', s')
           | Inr kFinish \<Rightarrow>
               (case Clipboard_unmarshall Clipboard_new (rx_cached cr) 0 of
                  Inl _ \<Rightarrow> (Inl ClipboardFailed, p', s')
                | Inr c \<Rightarrow> done_with (sp_call (CSetClipboard (rx_id cr) c) p') s')
           | Inr _ \<Rightarrow> done_with p' s'))"

definition sp_grabClipboard :: "'s stream_ops \<Rightarrow> ServerProxy \<Rightarrow> 's \<Rightarrow> (unit, 's) run" where
  "sp_grabClipboard ops = recv ops (drop 4 kMsgCClipboard) (\<lambda>outs p.
     case outs of
       [R8 i, R32 seqNum] \<Rightarrow> if i \<ge> kClipboardEnd then (Inr (), p) else told (CGrabClipboard i) p
     | _ \<Rightarrow> bad_format p)"

text \<open>The end of the three key handlers: translate and forward.\<close>

definition translated :: "UInt16 \<Rightarrow> UInt16 \<Rightarrow> (UInt32 \<Rightarrow> UInt32 \<Rightarrow> client_call) \<Rightarrow> ServerProxy \<Rightarrow> (proxy_err + unit) \<times> ServerProxy" where
  "translated key m call p =
     (case (translateKey p (ucast key), translateModifierMask p (ucast m)) of
        (Some key2, Some m2) \<Rightarrow> told (call key2 m2) p
      | _ \<Rightarrow> (Inl BadIndex, p))"

definition sp_keyDown :: "'s stream_ops \<Rightarrow> ServerProxy \<Rightarrow> 's \<Rightarrow> (unit, 's) run" where
  "sp_keyDown ops p = recv ops (drop 4 kMsgDKeyDown) (\<lambda>outs p.
     case outs of
       [R16 key, R16 m, R16 button] \<Rightarrow> translated key m (\<lambda>key2 m2. CKeyDown key2 m2 button) p
     | _ \<Rightarrow> bad_format p) (flushCompressedMouse p)"

definition sp_keyRepeat :: "'s stream_ops \<Rightarrow> ServerProxy \<Rightarrow> 's \<Rightarrow> (unit, 's) run" where
  "sp_keyRepeat ops p = recv ops (drop 4 kMsgDKeyRepeat) (\<lambda>outs p.
     case outs of
       [R16 key, R16 m, R16 count, R16 button] \<Rightarrow>
         translated key m (\<lambda>key2 m2. CKeyRepeat key2 m2 (uint count) button) p
     | _ \<Rightarrow> bad_format p) (flushCompressedMouse p)"

definition sp_keyUp :: "'s stream_ops \<Rightarrow> ServerProxy \<Rightarrow> 's \<Rightarrow> (unit, 's) run" where
  "sp_keyUp ops p = recv ops (drop 4 kMsgDKeyUp) (\<lambda>outs p.
     case outs of
       [R16 key, R16 m, R16 button] \<Rightarrow> translated key m (\<lambda>key2 m2. CKeyUp key2 m2 button) p
     | _ \<Rightarrow> bad_format p) (flushCompressedMouse p)"

definition sp_mouseDown :: "'s stream_ops \<Rightarrow> ServerProxy \<Rightarrow> 's \<Rightarrow> (unit, 's) run" where
  "sp_mouseDown ops p = recv ops (drop 4 kMsgDMouseDown) (\<lambda>outs p.
     case outs of [R8 i] \<Rightarrow> told (CMouseDown i) p | _ \<Rightarrow> bad_format p) (flushCompressedMouse p)"

definition sp_mouseUp :: "'s stream_ops \<Rightarrow> ServerProxy \<Rightarrow> 's \<Rightarrow> (unit, 's) run" where
  "sp_mouseUp ops p = recv ops (drop 4 kMsgDMouseUp) (\<lambda>outs p.
     case outs of [R8 i] \<Rightarrow> told (CMouseUp i) p | _ \<Rightarrow> bad_format p) (flushCompressedMouse p)"

text \<open>The motion handlers after their \<^verbatim>\<open>readf\<close>; \<open>ready\<close> is \<^verbatim>\<open>m_stream->isReady()\<close>.\<close>

definition mouse_moved :: "bool \<Rightarrow> int \<Rightarrow> int \<Rightarrow> ServerProxy \<Rightarrow> ServerProxy" where
  "mouse_moved ready x y p =
     (let p1 = (if \<not> sp_ignoreMouse p \<and> \<not> sp_compressMouse p \<and> ready then p\<lparr>sp_compressMouse := True\<rparr> else p)
      in if sp_compressMouse p1
         then p1\<lparr>sp_compressMouseRelative := False, sp_xMouse := x, sp_yMouse := y, sp_dxMouse := 0, sp_dyMouse := 0\<rparr>
         else if \<not> sp_ignoreMouse p then sp_call (CMouseMove x y) p1
         else p1)"

definition mouse_moved_relative :: "bool \<Rightarrow> int \<Rightarrow> int \<Rightarrow> ServerProxy \<Rightarrow> ServerProxy" where
  "mouse_moved_relative ready dx dy p =
     (let p1 = (if \<not> sp_ignoreMouse p \<and> \<not> sp_compressMouseRelative p \<and> ready
                then p\<lparr>sp_compressMouseRelative := True\<rparr> else p)
      in if sp_compressMouseRelative p1
         then p1\<lparr>sp_dxMouse := sp_dxMouse p1 + dx, sp_dyMouse := sp_dyMouse p1 + dy\<rparr>
         else if \<not> sp_ignoreMouse p then sp_call (CMouseRelativeMove dx dy) p1
         else p1)"

text \<open>\<^verbatim>\<open>isReady\<close> is asked after the message has been read.\<close>

definition recv_motion ::
    "'s stream_ops \<Rightarrow> string \<Rightarrow> (bool \<Rightarrow> int \<Rightarrow> int \<Rightarrow> ServerProxy \<Rightarrow> ServerProxy) \<Rightarrow> ServerProxy \<Rightarrow> 's \<Rightarrow> (unit, 's) run" where
  "recv_motion ops fmt moved p s =
     (case readf (so_read ops) fmt s of
        (outs, Inl e, s') \<Rightarrow> (Inl (Thrown e), p, s')
      | (outs, Inr False, s') \<Rightarrow> (Inl Uninitialised, p, s')
      | (outs, Inr True, s') \<Rightarrow>
          (case outs of
             [R16 x, R16 y] \<Rightarrow> done_with (moved (so_isReady ops s') (sint x) (sint y) p) s'
           | _ \<Rightarrow> (Inl (Thrown BadArg), p, s')))"

definition sp_mouseMove :: "'s stream_ops \<Rightarrow> ServerProxy \<Rightarrow> 's \<Rightarrow> (unit, 's) run" where
  "sp_mouseMove ops = recv_motion ops (drop 4 kMsgDMouseMove) mouse_moved"

definition sp_mouseRelativeMove :: "'s stream_ops \<Rightarrow> ServerProxy \<Rightarrow> 's \<Rightarrow> (unit, 's) run" where
  "sp_mouseRelativeMove ops = recv_motion ops (drop 4 kMsgDMouseRelMove) mouse_moved_relative"

definition sp_mouseWheel :: "'s stream_ops \<Rightarrow> ServerProxy \<Rightarrow> 's \<Rightarrow> (unit, 's) run" where
  "sp_mouseWheel ops p = recv ops (drop 4 kMsgDMouseWheel) (\<lambda>outs p.
     case outs of [R16 dx, R16 dy] \<Rightarrow> told (CMouseWheel (sint dx) (sint dy)) p | _ \<Rightarrow> bad_format p)
     (flushCompressedMouse p)"

definition sp_screensaver :: "'s stream_ops \<Rightarrow> ServerProxy \<Rightarrow> 's \<Rightarrow> (unit, 's) run" where
  "sp_screensaver ops = recv ops (drop 4 kMsgCScreenSaver) (\<lambda>outs p.
     case outs of [R8 on] \<Rightarrow> told (CScreensaver (on \<noteq> 0)) p | _ \<Rightarrow> bad_format p)"

section \<open>Options\<close>

definition sp_resetOptions :: "ServerProxy \<Rightarrow> ServerProxy" where
  "sp_resetOptions p =
     (setKeepAliveRate kKeepAliveRate (sp_call CResetOptions p))\<lparr>sp_modifierTranslationTable := identity_table\<rparr>"

definition kOptionModifierMapForShift :: OptionID where
  "kOptionModifierMapForShift = option_code (CHR ''M'') (CHR ''M'') (CHR ''F'') (CHR ''S'')"
definition kOptionModifierMapForControl :: OptionID where
  "kOptionModifierMapForControl = option_code (CHR ''M'') (CHR ''M'') (CHR ''F'') (CHR ''C'')"
definition kOptionModifierMapForAlt :: OptionID where
  "kOptionModifierMapForAlt = option_code (CHR ''M'') (CHR ''M'') (CHR ''F'') (CHR ''A'')"
definition kOptionModifierMapForAltGr :: OptionID where
  "kOptionModifierMapForAltGr = option_code (CHR ''M'') (CHR ''M'') (CHR ''F'') (CHR ''G'')"
definition kOptionModifierMapForMeta :: OptionID where
  "kOptionModifierMapForMeta = option_code (CHR ''M'') (CHR ''M'') (CHR ''F'') (CHR ''M'')"
definition kOptionModifierMapForSuper :: OptionID where
  "kOptionModifierMapForSuper = option_code (CHR ''M'') (CHR ''M'') (CHR ''F'') (CHR ''R'')"
definition kOptionHeartbeat :: OptionID where
  "kOptionHeartbeat = option_code (CHR ''H'') (CHR ''A'') (CHR ''R'') (CHR ''T'')"

definition option_modifier :: "OptionID \<Rightarrow> nat option" where
  "option_modifier opt =
     map_of [(kOptionModifierMapForShift, 1), (kOptionModifierMapForControl, 2), (kOptionModifierMapForAlt, 3),
       (kOptionModifierMapForAltGr, 6), (kOptionModifierMapForMeta, 4), (kOptionModifierMapForSuper, 5)] opt"

text \<open>
  The loop over pairs of option and value.  A list of odd length makes \<^verbatim>\<open>options[i + 1]\<close> of its last round
  out of range, which matters when that option is one of those looked for.
\<close>

fun apply_options :: "UInt32 list \<Rightarrow> ServerProxy \<Rightarrow> (proxy_err + unit) \<times> ServerProxy" where
  "apply_options [] p = (Inr (), p)"
| "apply_options [opt] p = (if option_modifier opt \<noteq> None \<or> opt = kOptionHeartbeat then Inl BadIndex else Inr (), p)"
| "apply_options (opt # v # opts) p =
     apply_options opts
       (case option_modifier opt of
          Some i \<Rightarrow> p\<lparr>sp_modifierTranslationTable := (sp_modifierTranslationTable p)[i := v]\<rparr>
        | None \<Rightarrow> if opt = kOptionHeartbeat then setKeepAliveRate (of_int (uint v) / 1000) p else p)"

text \<open>The vector keeps what was read before a failure.\<close>

definition sp_setOptions :: "'s stream_ops \<Rightarrow> ServerProxy \<Rightarrow> 's \<Rightarrow> (unit, 's) run" where
  "sp_setOptions ops p s =
     (case readf (so_read ops) (drop 4 kMsgDSetOptions) s of
        (outs, Inl e, s') \<Rightarrow> (Inl (Thrown e), p, s')
      | (outs, Inr _, s') \<Rightarrow>
          let options = (case outs of RVec32 v # _ \<Rightarrow> v | _ \<Rightarrow> []) in
          (case apply_options options (sp_call (CSetOptions options) p) of (r, p') \<Rightarrow> (r, p', s')))"

section \<open>Information, files and drags\<close>

definition sendInfo :: "int \<times> int \<times> int \<times> int \<Rightarrow> int \<times> int \<Rightarrow> DisplayInfo list \<Rightarrow> ServerProxy \<Rightarrow> ServerProxy" where
  "sendInfo shape cursor displays p =
     (case (shape, cursor) of
        ((x, y, w, h), (mx, my)) \<Rightarrow>
          sp_write kMsgDDisplays [WStr (Some (bytes_of (serializeList displays)))]
            (sp_write kMsgDInfo [WInt (word_of_int x), WInt (word_of_int y), WInt (word_of_int w), WInt (word_of_int h),
               WInt 0, WInt (word_of_int mx), WInt (word_of_int my)] p))"

definition queryInfo :: "ClientView \<Rightarrow> ServerProxy \<Rightarrow> ServerProxy" where
  "queryInfo cv p = sendInfo (cv_shape cv) (cv_cursor cv) (cv_displays cv) p"

definition infoAcknowledgment :: "ServerProxy \<Rightarrow> ServerProxy" where
  "infoAcknowledgment p = p\<lparr>sp_ignoreMouse := False\<rparr>"

definition onInfoChanged :: "ClientView \<Rightarrow> ServerProxy \<Rightarrow> ServerProxy" where
  "onInfoChanged cv p = queryInfo cv (p\<lparr>sp_ignoreMouse := True\<rparr>)"

definition onGrabClipboard :: "UInt8 \<Rightarrow> ServerProxy \<Rightarrow> bool \<times> ServerProxy" where
  "onGrabClipboard i p = (True, sp_write kMsgCClipboard [WInt (ucast i), WInt (sp_seqNum p)] p)"

text \<open>The chunks are queued as events; \<^verbatim>\<open>handleClipboardSendingEvent\<close> later writes each of them.\<close>

definition sp_onClipboardChanged :: "UInt8 \<Rightarrow> Clipboard \<Rightarrow> ServerProxy \<Rightarrow> proxy_err + chunk_event list" where
  "sp_onClipboardChanged i c p =
     (case Clipboard_marshall c of
        Inl _ \<Rightarrow> Inl ClipboardFailed
      | Inr (data, _) \<Rightarrow>
          (case sendClipboard data (length data) i (sp_seqNum p) of Inl _ \<Rightarrow> Inl ClipboardFailed | Inr es \<Rightarrow> Inr es))"

definition sp_send :: "perr + bytes option \<Rightarrow> ServerProxy \<Rightarrow> ServerProxy" where
  "sp_send r p = (case r of Inr (Some b) \<Rightarrow> p\<lparr>sp_sent := sp_sent p @ [b]\<rparr> | _ \<Rightarrow> p)"

definition handleClipboardSendingEvent :: "Chunk \<Rightarrow> ServerProxy \<Rightarrow> ServerProxy" where
  "handleClipboardSendingEvent c p = sp_send (ClipboardChunk_send c) p"

definition fileChunkSending :: "UInt8 \<Rightarrow> bytes \<Rightarrow> nat \<Rightarrow> ServerProxy \<Rightarrow> ServerProxy" where
  "fileChunkSending mark data dataSize p = sp_send (FileChunk_send mark data dataSize) p"

definition sendDragInfo :: "UInt32 \<Rightarrow> bytes \<Rightarrow> nat \<Rightarrow> ServerProxy \<Rightarrow> ServerProxy" where
  "sendDragInfo fileCount info sz p = sp_write kMsgDDragInfo [WInt fileCount, WStr (Some (take sz info))] p"

definition fileChunkReceived :: "'s stream_ops \<Rightarrow> ServerProxy \<Rightarrow> 's \<Rightarrow> (unit, 's) run" where
  "fileChunkReceived ops p s =
     (case FileChunk_assemble (so_junk ops) (so_read ops) (sp_file p) s of
        (r, fr, s') \<Rightarrow>
          let p' = p\<lparr>sp_file := fr\<rparr> in
          (case r of
             Inl e \<Rightarrow> (Inl (Thrown e), p', s')
           | Inr kFinish \<Rightarrow> done_with (sp_call CFileReceived p') s'
           | Inr _ \<Rightarrow> done_with p' s'))"

text \<open>
  Both variables have an initial value, so a failed read leaves them usable.  \<^verbatim>\<open>%2i\<close> stores into the low half
  of the \<^verbatim>\<open>UInt32\<close> (little-endian hosts).
\<close>

definition dragInfoReceived :: "'s stream_ops \<Rightarrow> ServerProxy \<Rightarrow> 's \<Rightarrow> (unit, 's) run" where
  "dragInfoReceived ops p s =
     (case readf (so_read ops) (drop 4 kMsgDDragInfo) s of
        (outs, Inl e, s') \<Rightarrow> (Inl (Thrown e), p, s')
      | (outs, Inr _, s') \<Rightarrow>
          done_with (sp_call (case outs of
               R16 n # RStr content # _ \<Rightarrow> CDragInfo (ucast n) content
             | R16 n # _ \<Rightarrow> CDragInfo (ucast n) []
             | _ \<Rightarrow> CDragInfo 0 []) p) s')"

definition serverAddressesReceived :: "'s stream_ops \<Rightarrow> ServerProxy \<Rightarrow> 's \<Rightarrow> (unit, 's) run" where
  "serverAddressesReceived ops p s =
     (case readf (so_read ops) (drop 4 kMsgDServerAddresses) s of
        (outs, Inl e, s') \<Rightarrow> (Inl (Thrown e), p, s')
      | (outs, Inr _, s') \<Rightarrow>
          done_with (sp_call (CServerAddresses (case outs of RStr a # _ \<Rightarrow> a | _ \<Rightarrow> [])) p) s')"

section \<open>Parsers\<close>

text \<open>\<^verbatim>\<open>memcmp(code, kMsg, 4) == 0\<close>\<close>

definition is_code :: "bytes \<Rightarrow> string \<Rightarrow> bool" where
  "is_code code fmt \<longleftrightarrow> take 4 code = bytes_of (take 4 fmt)"

definition keep_alive :: "ServerProxy \<Rightarrow> ServerProxy" where
  "keep_alive p = resetKeepAliveAlarm (sp_write kMsgCKeepAlive [] p)"

definition sp_disconnect :: "string option \<Rightarrow> ServerProxy \<Rightarrow> 's \<Rightarrow> (EResult, 's) run" where
  "sp_disconnect msg p s = (Inr kDisconnect, sp_call (CDisconnect msg) p, s)"

definition handshake_done :: "ServerProxy \<Rightarrow> ServerProxy" where
  "handshake_done p = sp_call CHandshakeComplete (p\<lparr>sp_handshake := False\<rparr>)"

definition incompatible_version :: "'s stream_ops \<Rightarrow> ServerProxy \<Rightarrow> 's \<Rightarrow> (EResult, 's) run" where
  "incompatible_version ops p s =
     (case readf (so_read ops) (drop 4 kMsgEIncompatible) s of
        (_, Inl e, s') \<Rightarrow> (Inl (Thrown e), p, s')
      | (_, Inr _, s') \<Rightarrow> sp_disconnect (Some ''server has incompatible version'') p s')"

definition parseHandshakeMessage :: "'s stream_ops \<Rightarrow> ClientView \<Rightarrow> bytes \<Rightarrow> ServerProxy \<Rightarrow> 's \<Rightarrow> (EResult, 's) run" where
  "parseHandshakeMessage ops cv code p s =
     (if is_code code kMsgQInfo then (Inr kOkay, queryInfo cv p, s)
      else if is_code code kMsgCInfoAck then (Inr kOkay, infoAcknowledgment p, s)
      else if is_code code kMsgDSetOptions then
        (case sp_setOptions ops p s of
           (Inl e, p', s') \<Rightarrow> (Inl e, p', s')
         | (Inr _, p', s') \<Rightarrow> (Inr kOkay, handshake_done p', s'))
      else if is_code code kMsgCResetOptions then (Inr kOkay, sp_resetOptions p, s)
      else if is_code code kMsgCKeepAlive then (Inr kOkay, keep_alive p, s)
      else if is_code code kMsgCNoop then (Inr kOkay, p, s)
      else if is_code code kMsgCClose then sp_disconnect None p s
      else if is_code code kMsgEIncompatible then incompatible_version ops p s
      else if is_code code kMsgEBusy then sp_disconnect (Some ''server already has a connected client with our name'') p s
      else if is_code code kMsgEUnknown then sp_disconnect (Some ''server refused client with our name'') p s
      else if is_code code kMsgEBad then sp_disconnect (Some ''server reported a protocol error'') p s
      else (Inr kUnknown, p, s))"

text \<open>The handlers of \<^verbatim>\<open>parseMessage\<close> after which the no-op reply is sent; \<open>None\<close> when none matches.\<close>

definition message_handler :: "'s stream_ops \<Rightarrow> ClientView \<Rightarrow> bytes \<Rightarrow> (ServerProxy \<Rightarrow> 's \<Rightarrow> (unit, 's) run) option" where
  "message_handler ops cv code =
     (if is_code code kMsgDMouseMove then Some (sp_mouseMove ops)
      else if is_code code kMsgDMouseRelMove then Some (sp_mouseRelativeMove ops)
      else if is_code code kMsgDMouseWheel then Some (sp_mouseWheel ops)
      else if is_code code kMsgDKeyDown then Some (sp_keyDown ops)
      else if is_code code kMsgDKeyUp then Some (sp_keyUp ops)
      else if is_code code kMsgDMouseDown then Some (sp_mouseDown ops)
      else if is_code code kMsgDMouseUp then Some (sp_mouseUp ops)
      else if is_code code kMsgDKeyRepeat then Some (sp_keyRepeat ops)
      else if is_code code kMsgCKeepAlive then Some (\<lambda>p. done_with (keep_alive p))
      else if is_code code kMsgCNoop then Some done_with
      else if is_code code kMsgCEnter then Some (sp_enter ops)
      else if is_code code kMsgCLeave then Some (\<lambda>p. done_with (sp_leave p))
      else if is_code code kMsgCClipboard then Some (sp_grabClipboard ops)
      else if is_code code kMsgCScreenSaver then Some (sp_screensaver ops)
      else if is_code code kMsgQInfo then Some (\<lambda>p. done_with (queryInfo cv p))
      else if is_code code kMsgCInfoAck then Some (\<lambda>p. done_with (infoAcknowledgment p))
      else if is_code code kMsgDClipboard then Some (sp_setClipboard ops)
      else if is_code code kMsgCResetOptions then Some (\<lambda>p. done_with (sp_resetOptions p))
      else if is_code code kMsgDSetOptions then Some (sp_setOptions ops)
      else if is_code code kMsgDFileTransfer then Some (fileChunkReceived ops)
      else if is_code code kMsgDDragInfo then Some (dragInfoReceived ops)
      else if is_code code kMsgDServerAddresses then Some (serverAddressesReceived ops)
      else None)"

definition parseMessage :: "'s stream_ops \<Rightarrow> ClientView \<Rightarrow> bytes \<Rightarrow> ServerProxy \<Rightarrow> 's \<Rightarrow> (EResult, 's) run" where
  "parseMessage ops cv code p s =
     (case message_handler ops cv code of
        Some h \<Rightarrow>
          (case h p s of
             (Inl e, p', s') \<Rightarrow> (Inl e, p', s')
           | (Inr _, p', s') \<Rightarrow> (Inr kOkay, sp_write kMsgCNoop [] p', s'))
      | None \<Rightarrow>
          if is_code code kMsgCClose then sp_disconnect None p s
          else if is_code code kMsgEBad then sp_disconnect (Some ''server reported a protocol error'') p s
          else (Inr kUnknown, p, s))"

definition sp_parser :: "'s stream_ops \<Rightarrow> ClientView \<Rightarrow> bytes \<Rightarrow> ServerProxy \<Rightarrow> 's \<Rightarrow> (EResult, 's) run" where
  "sp_parser ops cv code p = (if sp_handshake p then parseHandshakeMessage ops cv code p else parseMessage ops cv code p)"

text \<open>
  The loop of \<^verbatim>\<open>handleData\<close>.  Only \<^verbatim>\<open>XBadClient\<close> is caught; anything else is the result of the handler.  Not
  returning is the value \<open>None\<close>.
\<close>

definition protocol_error :: "ServerProxy \<Rightarrow> ServerProxy" where
  "protocol_error p = sp_call (CDisconnect (Some ''invalid message from server'')) (sp_write kMsgEBad [] p)"

partial_function (option) handleData :: "'s stream_ops \<Rightarrow> ClientView \<Rightarrow> ServerProxy \<Rightarrow> 's \<Rightarrow> (unit, 's) run option" where
  "handleData ops cv p s =
     (case so_read ops s 4 of
        None \<Rightarrow> Some (Inl (Thrown AssertFail), p, s)
      | Some (code, s1) \<Rightarrow>
          if code = [] then Some (done_with (flushCompressedMouse p) s1)
          else if length code \<noteq> 4 then
            Some (done_with (sp_call (CDisconnect (Some ''incomplete message from server'')) p) s1)
          else (case sp_parser ops cv code p s1 of
              (Inr kOkay, p', s') \<Rightarrow> handleData ops cv p' s'
            | (Inr kUnknown, p', s') \<Rightarrow>
                Some (done_with (sp_call (CDisconnect (Some ''invalid message from server'')) p') s')
            | (Inr kDisconnect, p', s') \<Rightarrow> Some (done_with p' s')
            | (Inl (Thrown XBadClient), p', s') \<Rightarrow> Some (done_with (protocol_error p') s')
            | (Inl e, p', s') \<Rightarrow> Some (Inl e, p', s')))"

end
