(* ===== verification/Proxy_Run.thy ===== *)
theory Proxy_Run
  imports Server_Proxy
begin

text \<open>
  The loop of \<^verbatim>\<open>ServerProxy::handleData\<close> on any stream that keeps the laws of \<open>byte_source\<close>: every round consumes
  a message code, so the loop returns; a well-formedness invariant of the proxy holds throughout.
\<close>

section \<open>Reading only consumes\<close>

lemma read_elems_length: "read_elems bytes_read w dec n b = (xs, e, r) \<Longrightarrow> length r \<le> length b"
proof (induction n arbitrary: b xs e r)
  case (Suc n)
  then show ?case
    by (cases "read_elems bytes_read w dec n (drop w b)")
       (fastforce simp: pu_read_bytes split: if_splits)
qed simp

lemma vreadf_conv_length: "vreadf_conv bytes_read len k b = (xs, e, r) \<Longrightarrow> length r \<le> length b"
  by (auto simp: vreadf_conv_def pu_read_bytes Let_def split: if_splits prod.splits dest!: read_elems_length)

lemma vreadf_loop_length: "vreadf_loop bytes_read ts b = (xs, e, r) \<Longrightarrow> length r \<le> length b"
proof (induction ts arbitrary: b xs e r)
  case (Cons t ts)
  show ?case
  proof (cases t)
    case (Lit c)
    with Cons.prems Cons.IH [of "drop 1 b" xs e r] show ?thesis by (auto simp: pu_read_bytes split: if_splits)
  next
    case (Conv len k)
    obtain v1 e1 r1 where c: "vreadf_conv bytes_read len k b = (v1, e1, r1)" by (metis prod_cases3)
    obtain v2 e2 r2 where l: "vreadf_loop bytes_read ts r1 = (v2, e2, r2)" by (metis prod_cases3)
    from Cons.prems Conv c l vreadf_conv_length [OF c] Cons.IH [OF l] show ?thesis
      by (auto split: option.splits)
  qed
qed simp

lemma readf_length: "readf bytes_read fmt b = (xs, q, r) \<Longrightarrow> length r \<le> length b"
  by (auto simp: readf_def vreadf_def split: prod.splits option.splits dest: vreadf_loop_length)

text \<open>The kind of a value that \<^verbatim>\<open>readf\<close> stores is that of its conversion.\<close>

fun rarg_kind :: "rarg \<Rightarrow> UInt32 \<times> char" where
  "rarg_kind (R8 _) = (1, CHR ''i'')"
| "rarg_kind (R16 _) = (2, CHR ''i'')"
| "rarg_kind (R32 _) = (4, CHR ''i'')"
| "rarg_kind (RVec8 _) = (1, CHR ''I'')"
| "rarg_kind (RVec16 _) = (2, CHR ''I'')"
| "rarg_kind (RVec32 _) = (4, CHR ''I'')"
| "rarg_kind (RStr _) = (0, CHR ''s'')"

fun conversions :: "fmt_token list \<Rightarrow> (UInt32 \<times> char) list" where
  "conversions [] = []"
| "conversions (Lit _ # ts) = conversions ts"
| "conversions (Conv len k # ts) = (len, k) # conversions ts"

lemma rarg_kind_iff:
  "rarg_kind v = (1, CHR ''i'') \<longleftrightarrow> (\<exists>x. v = R8 x)" "rarg_kind v = (2, CHR ''i'') \<longleftrightarrow> (\<exists>x. v = R16 x)"
  "rarg_kind v = (4, CHR ''i'') \<longleftrightarrow> (\<exists>x. v = R32 x)" "rarg_kind v = (4, CHR ''I'') \<longleftrightarrow> (\<exists>x. v = RVec32 x)"
  "rarg_kind v = (0, CHR ''s'') \<longleftrightarrow> (\<exists>x. v = RStr x)"
  by (cases v; simp)+

lemma vreadf_conv_kind:
  assumes "vreadf_conv bytes_read len k b = (vs, None, r)" and "symmetric_token (Conv len k)"
  shows "map rarg_kind vs = [(len, k)]"
  using assms by (auto simp: vreadf_conv_def len_ok_def Let_def split: if_splits prod.splits sum.splits)

lemma vreadf_loop_kind:
  "vreadf_loop bytes_read ts b = (vs, None, r) \<Longrightarrow> list_all symmetric_token ts \<Longrightarrow> map rarg_kind vs = conversions ts"
proof (induction ts arbitrary: b vs)
  case (Cons t ts)
  show ?case
  proof (cases t)
    case (Lit c)
    with Cons show ?thesis by (auto simp: pu_read_bytes split: if_splits)
  next
    case (Conv len k)
    with Cons.prems obtain v1 r1 v2 where "vreadf_conv bytes_read len k b = (v1, None, r1)"
      "vreadf_loop bytes_read ts r1 = (v2, None, r)" "vs = v1 @ v2"
      by (auto split: prod.splits option.splits)
    with Cons vreadf_conv_kind [of len k b v1 r1] Conv show ?thesis by simp
  qed
qed simp

section \<open>Handlers keep the proxy well-formed\<close>

text \<open>
  The modifier table has one entry per modifier, the keep-alive timer runs for the current alarm time
  exactly when that is positive, and a relative motion is pending only while it is being compressed.
\<close>

definition sp_wf :: "ServerProxy \<Rightarrow> bool" where
  "sp_wf p \<longleftrightarrow> length (sp_modifierTranslationTable p) = kKeyModifierIDLast \<and>
     sp_keepAliveAlarmTimer p = (if sp_keepAliveAlarm p > 0 then Some (sp_keepAliveAlarm p) else None) \<and>
     (\<not> sp_compressMouseRelative p \<longrightarrow> sp_dxMouse p = 0 \<and> sp_dyMouse p = 0)"

text \<open>How a handler may fail: never by an assertion or an argument of the wrong type.\<close>

definition proxy_failure :: "proxy_err \<Rightarrow> bool" where
  "proxy_failure e \<longleftrightarrow> e \<in> {Uninitialised, BadIndex, ClipboardFailed, Thrown XBadClient}"

definition sound :: "proxy_err + 'a \<Rightarrow> ServerProxy \<Rightarrow> bool" where
  "sound r p \<longleftrightarrow> sp_wf p \<and> (\<forall>e. r = Inl e \<longrightarrow> proxy_failure e)"

lemma sp_wf_call [simp]: "sp_wf (sp_call c p) = sp_wf p"
  by (simp add: sp_wf_def sp_call_def)

lemma sp_wf_write [simp]: "sp_wf (sp_write fmt args p) = sp_wf p"
  by (simp add: sp_wf_def sp_write_def split: sum.split option.split)

lemma sp_wf_updates [simp]:
  "sp_wf (p\<lparr>sp_seqNum := q\<rparr>) = sp_wf p" "sp_wf (p\<lparr>sp_compressMouse := b\<rparr>) = sp_wf p"
  "sp_wf (p\<lparr>sp_ignoreMouse := b\<rparr>) = sp_wf p" "sp_wf (p\<lparr>sp_handshake := b\<rparr>) = sp_wf p"
  "sp_wf (p\<lparr>sp_clip := cr\<rparr>) = sp_wf p" "sp_wf (p\<lparr>sp_file := fr\<rparr>) = sp_wf p"
  by (simp_all add: sp_wf_def)

lemma sp_wf_flush [simp]: "sp_wf p \<Longrightarrow> sp_wf (flushCompressedMouse p)"
  by (auto simp: sp_wf_def flushCompressedMouse_def sp_call_def Let_def)

lemma sp_wf_alarm [simp]: "sp_wf p \<Longrightarrow> sp_wf (resetKeepAliveAlarm p)" "sp_wf p \<Longrightarrow> sp_wf (setKeepAliveRate v p)"
  by (auto simp: sp_wf_def setKeepAliveRate_def resetKeepAliveAlarm_def)

lemma sp_wf_table:
  "sp_wf p \<Longrightarrow> length t = kKeyModifierIDLast \<Longrightarrow> sp_wf (p\<lparr>sp_modifierTranslationTable := t\<rparr>)"
  by (simp add: sp_wf_def)

lemma sp_wf_moved:
  "sp_wf p \<Longrightarrow> sp_wf (mouse_moved ready x y p)" "sp_wf p \<Longrightarrow> sp_wf (mouse_moved_relative ready x y p)"
  by (auto simp: sp_wf_def mouse_moved_def mouse_moved_relative_def sp_call_def Let_def)

lemma sp_wf_options:
  "sp_wf p \<Longrightarrow> apply_options opts p = (r, p') \<Longrightarrow> sound r p'"
proof (induction opts p rule: apply_options.induct)
  case (3 opt v opts p)
  let ?p = "case option_modifier opt of
      Some i \<Rightarrow> p\<lparr>sp_modifierTranslationTable := (sp_modifierTranslationTable p)[i := v]\<rparr>
    | None \<Rightarrow> if opt = kOptionHeartbeat then setKeepAliveRate (of_int (uint v) / 1000) p else p"
  have "length (sp_modifierTranslationTable p) = kKeyModifierIDLast" using "3.prems"(1) by (simp add: sp_wf_def)
  then have "sp_wf ?p" using "3.prems"(1) by (auto simp: sp_wf_table split: option.split)
  with 3 show ?case by simp
qed (auto simp: sound_def proxy_failure_def split: if_splits)

lemma sp_wf_new: "sp_wf (ServerProxy_new cr fr)"
  by (simp add: sp_wf_def ServerProxy_new_def setKeepAliveRate_def resetKeepAliveAlarm_def identity_table_def)

lemma sp_wf_no_motion [simp]:
  "sp_wf p \<Longrightarrow> sp_wf (p\<lparr>sp_compressMouse := b, sp_compressMouseRelative := False, sp_dxMouse := 0, sp_dyMouse := 0\<rparr>)"
  by (simp add: sp_wf_def)

lemma sound_simps [simp]: "sound (Inr x) p = sp_wf p" "sound (Inl e) p \<longleftrightarrow> sp_wf p \<and> proxy_failure e"
  by (auto simp: sound_def)

text \<open>The formats without their codes.\<close>

lemma message_tails:
  "list_all (\<lambda>m. list_all symmetric_token (fmt_tokens (drop 4 m))) protocol_messages"
  by (simp add: protocol_messages_def kMsg_defs eatLength_def digit_of_def len_ok_def)

lemma tail_kinds:
  "conversions (fmt_tokens (drop 4 kMsgCEnter)) = [(2, CHR ''i''), (2, CHR ''i''), (4, CHR ''i''), (2, CHR ''i'')]"
  "conversions (fmt_tokens (drop 4 kMsgCClipboard)) = [(1, CHR ''i''), (4, CHR ''i'')]"
  "conversions (fmt_tokens (drop 4 kMsgDKeyDown)) = [(2, CHR ''i''), (2, CHR ''i''), (2, CHR ''i'')]"
  "conversions (fmt_tokens (drop 4 kMsgDKeyUp)) = [(2, CHR ''i''), (2, CHR ''i''), (2, CHR ''i'')]"
  "conversions (fmt_tokens (drop 4 kMsgDKeyRepeat)) = [(2, CHR ''i''), (2, CHR ''i''), (2, CHR ''i''), (2, CHR ''i'')]"
  "conversions (fmt_tokens (drop 4 kMsgDMouseDown)) = [(1, CHR ''i'')]"
  "conversions (fmt_tokens (drop 4 kMsgDMouseUp)) = [(1, CHR ''i'')]"
  "conversions (fmt_tokens (drop 4 kMsgDMouseMove)) = [(2, CHR ''i''), (2, CHR ''i'')]"
  "conversions (fmt_tokens (drop 4 kMsgDMouseRelMove)) = [(2, CHR ''i''), (2, CHR ''i'')]"
  "conversions (fmt_tokens (drop 4 kMsgDMouseWheel)) = [(2, CHR ''i''), (2, CHR ''i'')]"
  "conversions (fmt_tokens (drop 4 kMsgCScreenSaver)) = [(1, CHR ''i'')]"
  "conversions (fmt_tokens (drop 4 kMsgDClipboard)) = [(1, CHR ''i''), (4, CHR ''i''), (1, CHR ''i''), (0, CHR ''s'')]"
  "conversions (fmt_tokens (drop 4 kMsgDFileTransfer)) = [(1, CHR ''i''), (0, CHR ''s'')]"
  by (simp_all add: kMsg_defs eatLength_def digit_of_def)

section \<open>The proxy on a stream\<close>

locale proxy_stream = byte_source "so_read ops" avail ok
  for ops :: "'s stream_ops" and avail :: "'s \<Rightarrow> bytes" and ok :: "'s \<Rightarrow> bool"
begin

text \<open>A handler keeps the proxy well-formed and the stream usable, and never gives bytes back.\<close>

definition steady :: "'s \<Rightarrow> ('a, 's) run \<Rightarrow> bool" where
  "steady s out \<longleftrightarrow> (case out of (r, p', s') \<Rightarrow> sound r p' \<and> ok s' \<and> length (avail s') \<le> length (avail s))"

lemma steadyI [intro?]:
  "sound r p' \<Longrightarrow> ok s' \<Longrightarrow> length (avail s') \<le> length (avail s) \<Longrightarrow> steady s (r, p', s')"
  by (simp add: steady_def)

lemma steady_done [simp]: "ok s \<Longrightarrow> sp_wf p \<Longrightarrow> steady s (Inr x, p, s)" "ok s \<Longrightarrow> sp_wf p \<Longrightarrow> steady s (done_with p s)"
  by (auto simp: steady_def sound_def done_with_def)

lemma readf_outcome:
  assumes "ok s" and "m \<in> set protocol_messages" and r: "readf (so_read ops) (drop 4 m) s = (outs, q, s')"
  obtains (bad) "q = Inl XBadClient" "ok s'" "length (avail s') \<le> length (avail s)"
  | (short) "q = Inr False" "ok s'" "length (avail s') \<le> length (avail s)"
  | (got) "q = Inr True" "map rarg_kind outs = conversions (fmt_tokens (drop 4 m))" "ok s'"
      "length (avail s') \<le> length (avail s)"
proof -
  have sym: "list_all symmetric_token (fmt_tokens (drop 4 m))"
    using assms(2) message_tails by (auto simp: list_all_iff)
  from readf_same [OF assms(1) r] have s': "ok s'" and b: "readf bytes_read (drop 4 m) (avail s) = (outs, q, avail s')"
    by auto
  from b obtain e where l: "vreadf_loop bytes_read (fmt_tokens (drop 4 m)) (avail s) = (outs, e, avail s')"
    and q: "q = (case e of None \<Rightarrow> Inr True | Some x \<Rightarrow> if x = XIOEndOfStream \<or> x = XIOReadMismatch then Inr False else Inl x)"
    by (auto simp: readf_def vreadf_def split: prod.splits option.splits)
  from vreadf_loop_safe [OF l sym] vreadf_loop_kind [OF _ sym] l q s' readf_length [OF b] that show thesis
    by (auto split: option.splits)
qed

lemma steady_recv:
  assumes s: "ok s" "sp_wf p" "m \<in> set protocol_messages"
    and k: "\<And>outs r p'. map rarg_kind outs = conversions (fmt_tokens (drop 4 m)) \<Longrightarrow> k outs p = (r, p') \<Longrightarrow> sound r p'"
  shows "steady s (recv ops (drop 4 m) k p s)"
proof -
  obtain outs q s' where r: "readf (so_read ops) (drop 4 m) s = (outs, q, s')" by (metis prod_cases3)
  obtain r' p' where "k outs p = (r', p')" by force
  with r k s(2) show ?thesis
    by (cases rule: readf_outcome [OF s(1,3) r])
       (auto simp: recv_def steady_def sound_def proxy_failure_def)
qed

lemma steady_motion:
  assumes s: "ok s" "sp_wf p" "m \<in> set protocol_messages"
    and k: "conversions (fmt_tokens (drop 4 m)) = [(2, CHR ''i''), (2, CHR ''i'')]"
      "\<And>b x y. sp_wf (moved b x y p)"
  shows "steady s (recv_motion ops (drop 4 m) moved p s)"
proof -
  obtain outs q s' where r: "readf (so_read ops) (drop 4 m) s = (outs, q, s')" by (metis prod_cases3)
  with k s(2) show ?thesis
    by (cases rule: readf_outcome [OF s(1,3) r])
       (auto simp: recv_motion_def steady_def sound_def proxy_failure_def done_with_def map_eq_Cons_conv rarg_kind_iff)
qed

lemma is_message:
  "kMsgCEnter \<in> set protocol_messages" "kMsgCClipboard \<in> set protocol_messages" "kMsgDKeyDown \<in> set protocol_messages"
  "kMsgDKeyUp \<in> set protocol_messages" "kMsgDKeyRepeat \<in> set protocol_messages" "kMsgDMouseDown \<in> set protocol_messages"
  "kMsgDMouseUp \<in> set protocol_messages" "kMsgDMouseMove \<in> set protocol_messages"
  "kMsgDMouseRelMove \<in> set protocol_messages" "kMsgDMouseWheel \<in> set protocol_messages"
  "kMsgCScreenSaver \<in> set protocol_messages" "kMsgDClipboard \<in> set protocol_messages"
  "kMsgDFileTransfer \<in> set protocol_messages" "kMsgDSetOptions \<in> set protocol_messages"
  "kMsgDDragInfo \<in> set protocol_messages" "kMsgDServerAddresses \<in> set protocol_messages"
  "kMsgEIncompatible \<in> set protocol_messages"
  by (simp_all add: protocol_messages_def)

lemmas handler_shapes = tail_kinds map_eq_Cons_conv rarg_kind_iff

lemma steady_handlers:
  assumes "ok s" and "sp_wf p"
  shows "steady s (sp_enter ops p s)" "steady s (sp_grabClipboard ops p s)" "steady s (sp_keyDown ops p s)"
    "steady s (sp_keyUp ops p s)" "steady s (sp_keyRepeat ops p s)" "steady s (sp_mouseDown ops p s)"
    "steady s (sp_mouseUp ops p s)" "steady s (sp_mouseMove ops p s)" "steady s (sp_mouseRelativeMove ops p s)"
    "steady s (sp_mouseWheel ops p s)" "steady s (sp_screensaver ops p s)"
  unfolding sp_enter_def sp_grabClipboard_def sp_keyDown_def sp_keyUp_def sp_keyRepeat_def sp_mouseDown_def
    sp_mouseUp_def sp_mouseMove_def sp_mouseRelativeMove_def sp_mouseWheel_def sp_screensaver_def
  by (rule steady_recv steady_motion;
      use assms in \<open>auto simp: is_message handler_shapes sp_wf_moved told_def translated_def proxy_failure_def
        split: if_splits option.splits\<close>)+

lemma steady_assemble:
  assumes "ok s" and "sp_wf p"
  shows "steady s (sp_setClipboard ops p s)" "steady s (fileChunkReceived ops p s)"
proof -
  obtain outs q s' where r: "readf (so_read ops) (drop 4 kMsgDClipboard) s = (outs, q, s')" by (metis prod_cases3)
  obtain r' cr where c: "clip_process (so_junk ops) outs q (sp_clip p) = (r', cr)" by force
  show "steady s (sp_setClipboard ops p s)"
    using r c assms
    by (cases rule: readf_outcome [OF assms(1) is_message(12) r])
       (auto simp: sp_setClipboard_def ClipboardChunk_assemble_def steady_def done_with_def handler_shapes proxy_failure_def
          clip_process_def Let_def split: sum.splits EDataReceived.splits if_splits)
next
  obtain outs q s' where r: "readf (so_read ops) (drop 4 kMsgDFileTransfer) s = (outs, q, s')" by (metis prod_cases3)
  obtain r' fr where "file_process (so_junk ops) outs q (sp_file p) = (r', fr)" by force
  with r assms show "steady s (fileChunkReceived ops p s)"
    by (cases rule: readf_outcome [OF assms(1) is_message(13) r])
       (auto simp: fileChunkReceived_def FileChunk_assemble_def steady_def done_with_def handler_shapes proxy_failure_def
          file_process_def Let_def split: sum.splits EDataReceived.splits if_splits)
qed

lemma steady_lenient:
  assumes "ok s" and "sp_wf p"
  shows "steady s (sp_setOptions ops p s)" "steady s (dragInfoReceived ops p s)" "steady s (serverAddressesReceived ops p s)"
    "steady s (incompatible_version ops p s)"
proof -
  obtain outs q s' where r: "readf (so_read ops) (drop 4 kMsgDSetOptions) s = (outs, q, s')" by (metis prod_cases3)
  let ?opts = "case outs of RVec32 v # _ \<Rightarrow> v | _ \<Rightarrow> []"
  obtain r' p' where u: "apply_options ?opts (sp_call (CSetOptions ?opts) p) = (r', p')" by force
  then have "sound r' p'" using sp_wf_options assms(2) by (metis sp_wf_call)
  with r u assms show "steady s (sp_setOptions ops p s)"
    by (cases rule: readf_outcome [OF assms(1) is_message(14) r])
       (auto simp: sp_setOptions_def steady_def proxy_failure_def Let_def)
next
  obtain outs q s' where r: "readf (so_read ops) (drop 4 kMsgDDragInfo) s = (outs, q, s')" by (metis prod_cases3)
  with assms show "steady s (dragInfoReceived ops p s)"
    by (cases rule: readf_outcome [OF assms(1) is_message(15) r])
       (auto simp: dragInfoReceived_def steady_def proxy_failure_def done_with_def)
next
  obtain outs q s' where r: "readf (so_read ops) (drop 4 kMsgDServerAddresses) s = (outs, q, s')" by (metis prod_cases3)
  with assms show "steady s (serverAddressesReceived ops p s)"
    by (cases rule: readf_outcome [OF assms(1) is_message(16) r])
       (auto simp: serverAddressesReceived_def steady_def proxy_failure_def done_with_def)
next
  obtain outs q s' where r: "readf (so_read ops) (drop 4 kMsgEIncompatible) s = (outs, q, s')" by (metis prod_cases3)
  with assms show "steady s (incompatible_version ops p s)"
    by (cases rule: readf_outcome [OF assms(1) is_message(17) r])
       (auto simp: incompatible_version_def steady_def proxy_failure_def sp_disconnect_def)
qed

lemma sp_wf_direct [simp]:
  assumes "sp_wf p"
  shows "sp_wf (queryInfo cv p)" "sp_wf (infoAcknowledgment p)" "sp_wf (sp_resetOptions p)" "sp_wf (keep_alive p)"
    "sp_wf (sp_leave p)" "sp_wf (handshake_done p)"
  using assms
  by (auto simp: queryInfo_def sendInfo_def infoAcknowledgment_def sp_resetOptions_def keep_alive_def sp_leave_def
      handshake_done_def identity_table_def intro!: sp_wf_table split: prod.split)

lemma steady_parser:
  assumes "ok s" and "sp_wf p"
  shows "steady s (sp_parser ops cv code p s)"
proof -
  have h: "steady s (h p s)" if "message_handler ops cv code = Some h" for h
    using that assms
    by (auto simp: message_handler_def steady_handlers steady_assemble steady_lenient split: if_split_asm)
  have "steady s (parseMessage ops cv code p s)"
  proof (cases "message_handler ops cv code")
    case None
    then show ?thesis using assms by (simp add: parseMessage_def sp_disconnect_def)
  next
    case (Some hd)
    from h [OF Some] show ?thesis
      by (auto simp: parseMessage_def Some steady_def split: prod.splits sum.splits)
  qed
  moreover have "steady s (parseHandshakeMessage ops cv code p s)"
    using assms steady_lenient(1,4) [OF assms]
    by (auto simp: parseHandshakeMessage_def sp_disconnect_def steady_def split: prod.splits sum.splits)
  ultimately show ?thesis by (simp add: sp_parser_def)
qed


end

section \<open>The loop\<close>

text \<open>How \<^verbatim>\<open>handleData\<close> may end without a failure: nothing is left to read and no motion is pending, or
  the client has been disconnected.\<close>

definition hung_up :: "ServerProxy \<Rightarrow> bool" where
  "hung_up p \<longleftrightarrow> (\<exists>cs msg. sp_calls p = cs @ [CDisconnect msg])"

definition handled :: "bytes \<Rightarrow> ServerProxy \<Rightarrow> bool" where
  "handled rest p \<longleftrightarrow> rest = [] \<and> \<not> sp_compressMouse p \<and> \<not> sp_compressMouseRelative p \<or> hung_up p"

lemma hung_up_call [simp]: "hung_up (sp_call (CDisconnect msg) p)"
  by (simp add: hung_up_def sp_call_def)

lemma parser_disconnect:
  "sp_parser ops cv code p s = (Inr kDisconnect, p', s') \<Longrightarrow> hung_up p'"
  by (auto simp: sp_parser_def parseMessage_def parseHandshakeMessage_def sp_disconnect_def incompatible_version_def
      split: if_splits option.splits prod.splits sum.splits)

lemma flush_pending [simp]:
  "\<not> sp_compressMouse (flushCompressedMouse p)" "\<not> sp_compressMouseRelative (flushCompressedMouse p)"
  by (auto simp: flushCompressedMouse_def sp_call_def Let_def)

context proxy_stream
begin

definition completed :: "(unit, 's) run \<Rightarrow> bool" where
  "completed out \<longleftrightarrow> (case out of (r, p', s') \<Rightarrow>
     sp_wf p' \<and> ok s' \<and> (r = Inr () \<and> handled (avail s') p' \<or> r \<in> {Inl Uninitialised, Inl BadIndex, Inl ClipboardFailed}))"

lemma completed_done: "completed (done_with p s) \<longleftrightarrow> sp_wf p \<and> ok s \<and> handled (avail s) p"
  by (auto simp: completed_def done_with_def)

lemma handleData_completes:
  "ok s \<Longrightarrow> sp_wf p \<Longrightarrow> \<exists>out. handleData ops cv p s = Some out \<and> completed out"
proof (induction "length (avail s)" arbitrary: s p rule: less_induct)
  case less
  obtain code s1 where c: "so_read ops s 4 = Some (code, s1)" "ok s1" "avail s = code @ avail s1"
    "avail s \<noteq> [] \<Longrightarrow> code \<noteq> []"
    using sread_cases [OF less.prems(1), of 4] by (metis zero_less_numeral)
  consider (drained) "code = []" | (short) "code \<noteq> []" "length code \<noteq> 4" | (msg) "length code = 4" by auto
  then show ?case
  proof cases
    case msg
    then have le: "length (avail s1) < length (avail s)" using c(3) by simp
    obtain r p' s' where r: "sp_parser ops cv code p s1 = (r, p', s')" by (metis prod_cases3)
    with steady_parser [OF c(2) less.prems(2), of cv code]
    have st: "sp_wf p'" "ok s'" "length (avail s') < length (avail s)" "\<And>e. r = Inl e \<Longrightarrow> proxy_failure e"
      using le by (auto simp: steady_def sound_def)
    have step: "handleData ops cv p s = (case (r, p', s') of
              (Inr kOkay, p', s') \<Rightarrow> handleData ops cv p' s'
            | (Inr kUnknown, p', s') \<Rightarrow>
                Some (done_with (sp_call (CDisconnect (Some ''invalid message from server'')) p') s')
            | (Inr kDisconnect, p', s') \<Rightarrow> Some (done_with p' s')
            | (Inl (Thrown XBadClient), p', s') \<Rightarrow> Some (done_with (protocol_error p') s')
            | (Inl e, p', s') \<Rightarrow> Some (Inl e, p', s'))"
      using c(1) msg r by (subst handleData.simps) auto
    show ?thesis
    proof (cases r)
      case (Inl e)
      with st show ?thesis
        by (auto simp: step proxy_failure_def completed_def done_with_def protocol_error_def handled_def)
    next
      case (Inr x)
      with st less.hyps [OF st(3,2,1)] r show ?thesis
        by (cases x) (auto simp: step completed_done handled_def dest: parser_disconnect)
    qed
  next
    case drained
    then have "handleData ops cv p s = Some (done_with (flushCompressedMouse p) s1)"
      using c(1) by (subst handleData.simps) simp
    moreover have "avail s1 = []" using drained c(3,4) by fastforce
    ultimately show ?thesis using c(2) less.prems(2) by (simp add: completed_done handled_def)
  next
    case short
    then have "handleData ops cv p s =
        Some (done_with (sp_call (CDisconnect (Some ''incomplete message from server'')) p) s1)"
      using c(1) by (subst handleData.simps) simp
    then show ?thesis using c(2) less.prems(2) by (simp add: completed_done handled_def)
  qed
qed

end

section \<open>On the packet filter\<close>

definition psf_ops :: "size_t \<Rightarrow> PacketStreamFilter stream_ops" where
  "psf_ops junk = \<lparr>so_read = PacketStreamFilter_read, so_isReady = PacketStreamFilter_isReady, so_junk = junk\<rparr>"

interpretation psf_proxy: proxy_stream "psf_ops junk" psf_avail psf_wf
  by unfold_locales (simp add: psf_ops_def psf_src.sread_ok)



end
