(* ===== verification/Message_Source.thy ===== *)
theory Message_Source
  imports Proxy_Run
begin

text \<open>
  A stream that keeps packets apart, as the loops of both ends of the protocol use it: a read never takes bytes of two
  packets, and \<^verbatim>\<open>isReady\<close> tells whether a packet is left.  The packet filter is shown to be one.  A message
  that the other end wrote with \<^verbatim>\<open>writef\<close> is then split into its code and the rest that a
  handler reads back.
\<close>

locale message_source = proxy_stream ops avail ok
  for ops :: "'s stream_ops" and avail :: "'s \<Rightarrow> bytes" and ok :: "'s \<Rightarrow> bool" +
  fixes packets :: "'s \<Rightarrow> bytes list"
  assumes avail_packets: "ok s \<Longrightarrow> avail s = concat (packets s)"
    and packet_nonempty: "ok s \<Longrightarrow> p \<in> set (packets s) \<Longrightarrow> p \<noteq> []"
    and ready_iff: "ok s \<Longrightarrow> so_isReady ops s \<longleftrightarrow> packets s \<noteq> []"
    and read_within: "ok s \<Longrightarrow> packets s = p # ps \<Longrightarrow> 0 < n \<Longrightarrow> n \<le> length p \<Longrightarrow>
      \<exists>s'. so_read ops s n = Some (take n p, s') \<and> ok s' \<and> packets s' = (if n = length p then ps else drop n p # ps)"
begin

text \<open>\<open>here s p ps\<close>: what is left of the packet being read is \<open>p\<close>, and the packets \<open>ps\<close> follow.\<close>

definition here :: "'s \<Rightarrow> bytes \<Rightarrow> bytes list \<Rightarrow> bool" where
  "here s p ps \<longleftrightarrow> ok s \<and> packets s = (if p = [] then ps else p # ps)"

lemma at_ok: "here s p ps \<Longrightarrow> ok s"
  by (simp add: here_def)

lemma at_avail: "here s p ps \<Longrightarrow> avail s = p @ concat ps"
  using avail_packets [of s] by (auto simp: here_def)

lemma read_at:
  assumes "here s p ps" and "0 < n" and "n \<le> length p"
  shows "\<exists>s'. so_read ops s n = Some (take n p, s') \<and> here s' (drop n p) ps"
proof -
  have "p \<noteq> []" using assms(2,3) by auto
  with assms(1) have "ok s" "packets s = p # ps" by (auto simp: here_def)
  from read_within [OF this assms(2,3)] assms(3) show ?thesis by (auto simp: here_def)
qed

lemma pu_read_at:
  assumes "here s p ps" and "n \<le> length p"
  shows "\<exists>s'. pu_read (so_read ops) s n = (Inr (take n p), s') \<and> here s' (drop n p) ps"
proof (cases "n = 0")
  case True
  then show ?thesis using assms by (auto simp: pu_read.simps)
next
  case False
  then have n: "0 < n" by simp
  obtain s' where s': "so_read ops s n = Some (take n p, s')" "here s' (drop n p) ps"
    using read_at [OF assms(1) n assms(2)] by blast
  have "pu_read (so_read ops) s' 0 = (Inr [], s')" by (simp add: pu_read.simps)
  moreover have "take n p \<noteq> []" "n - length (take n p) = 0" using n assms(2) by auto
  ultimately have "pu_read (so_read ops) s n = (Inr (take n p), s')"
    using n s'(1) by (subst pu_read.simps) simp
  with s' show ?thesis by blast
qed

lemma read_elems_at:
  "here s p ps \<Longrightarrow> read_elems bytes_read w dec n p = (xs, None, r) \<Longrightarrow>
    \<exists>s'. read_elems (so_read ops) w dec n s = (xs, None, s') \<and> here s' r ps"
proof (induction n arbitrary: s p xs)
  case (Suc n)
  then have w: "w \<le> length p" by (auto simp: pu_read_bytes split: if_splits)
  obtain s1 where s1: "pu_read (so_read ops) s w = (Inr (take w p), s1)" "here s1 (drop w p) ps"
    using pu_read_at [OF Suc.prems(1) w] by blast
  from Suc.prems(2) w obtain ys where ys: "read_elems bytes_read w dec n (drop w p) = (ys, None, r)"
    "xs = dec (take w p) # ys"
    by (auto simp: pu_read_bytes split: prod.splits)
  with Suc.IH [OF s1(2) ys(1)] s1 show ?case by auto
qed (auto)

lemma vreadf_conv_at:
  assumes p: "here s p ps" and r: "vreadf_conv bytes_read len k p = (xs, None, r)"
  shows "\<exists>s'. vreadf_conv (so_read ops) len k s = (xs, None, s') \<and> here s' r ps"
proof -
  consider (i) "k = CHR ''i''" | (I) "k = CHR ''I''" | (str) "k = CHR ''s''"
    | (other) "k \<noteq> CHR ''i''" "k \<noteq> CHR ''I''" "k \<noteq> CHR ''s''" by blast
  then show ?thesis
  proof cases
    case i
    with r have "unat len \<le> length p" by (auto simp: vreadf_conv_def pu_read_bytes split: if_splits)
    with pu_read_at [OF p this] r i show ?thesis by (auto simp: vreadf_conv_def pu_read_bytes split: if_splits)
  next
    case I
    with r have "4 \<le> length p" by (auto simp: vreadf_conv_def pu_read_bytes split: if_splits)
    from pu_read_at [OF p this] obtain s1 where s1: "pu_read (so_read ops) s 4 = (Inr (take 4 p), s1)"
      "here s1 (drop 4 p) ps" by blast
    let ?n = "unat (readBE32 (take 4 p))"
    note elems = read_elems_at [OF s1(2), of _ _ ?n]
    show ?thesis
      using I r s1(1) \<open>4 \<le> length p\<close>
      by (auto simp: vreadf_conv_def pu_read_bytes Let_def split: if_splits prod.splits dest!: elems)
  next
    case str
    with r have "4 \<le> length p" by (auto simp: vreadf_conv_def pu_read_bytes split: if_splits)
    from pu_read_at [OF p this] obtain s1 where s1: "pu_read (so_read ops) s 4 = (Inr (take 4 p), s1)"
      "here s1 (drop 4 p) ps" by blast
    let ?n = "unat (readBE32 (take 4 p))"
    have n: "?n \<le> length (drop 4 p)"
      using str r \<open>4 \<le> length p\<close> by (auto simp: vreadf_conv_def pu_read_bytes Let_def split: if_splits)
    from pu_read_at [OF s1(2) n] str r s1(1) \<open>4 \<le> length p\<close> n show ?thesis
      by (auto simp: vreadf_conv_def pu_read_bytes Let_def split: if_splits)
  next
    case other
    with p r show ?thesis by (auto simp: vreadf_conv_def split: if_splits)
  qed
qed

lemma vreadf_loop_at:
  "here s p ps \<Longrightarrow> vreadf_loop bytes_read ts p = (xs, None, r) \<Longrightarrow>
    \<exists>s'. vreadf_loop (so_read ops) ts s = (xs, None, s') \<and> here s' r ps"
proof (induction ts arbitrary: s p xs)
  case (Cons t ts)
  show ?case
  proof (cases t)
    case (Lit c)
    with Cons.prems(2) have b: "1 \<le> length p" "take 1 p ! 0 = of_char c" "vreadf_loop bytes_read ts (drop 1 p) = (xs, None, r)"
      by (auto simp: pu_read_bytes split: if_splits)
    from pu_read_at [OF Cons.prems(1) b(1)] obtain s1 where "pu_read (so_read ops) s 1 = (Inr (take 1 p), s1)"
      "here s1 (drop 1 p) ps" by blast
    with Cons.IH [OF _ b(3), of s1] b(2) Lit show ?thesis by auto
  next
    case (Conv len k)
    with Cons.prems(2) obtain xs1 r1 xs2 where c: "vreadf_conv bytes_read len k p = (xs1, None, r1)"
      "vreadf_loop bytes_read ts r1 = (xs2, None, r)" "xs = xs1 @ xs2"
      by (auto split: prod.splits option.splits)
    from vreadf_conv_at [OF Cons.prems(1) c(1)] obtain s1 where "vreadf_conv (so_read ops) len k s = (xs1, None, s1)"
      "here s1 r1 ps" by blast
    with Cons.IH [OF _ c(2), of s1] c(3) Conv show ?thesis by auto
  qed
qed (auto)

text \<open>The interface lemma: a message that reads from its bytes reads from the packet, and nothing of the next packet is touched.\<close>

lemma readf_at:
  assumes "here s p ps" and "readf bytes_read fmt p = (xs, Inr True, r)"
  shows "\<exists>s'. readf (so_read ops) fmt s = (xs, Inr True, s') \<and> here s' r ps"
proof -
  have "vreadf_loop bytes_read (fmt_tokens fmt) p = (xs, None, r)"
    using assms(2) by (auto simp: readf_def vreadf_def split: prod.splits option.splits if_splits)
  from vreadf_loop_at [OF assms(1) this] show ?thesis by (auto simp: readf_def vreadf_def)
qed

lemma at_packets: "ok s \<Longrightarrow> packets s = ps \<Longrightarrow> here s [] ps"
  by (simp add: here_def)

lemma at_next: "here s [] (p # ps) \<Longrightarrow> here s p ps"
  using packet_nonempty [of s p] by (auto simp: here_def)

lemma at_ready: "here s [] ps \<Longrightarrow> so_isReady ops s \<longleftrightarrow> ps \<noteq> []"
  using ready_iff [of s] by (simp add: here_def)

lemma read_nothing:
  assumes "here s [] []"
  shows "\<exists>s'. so_read ops s n = Some ([], s') \<and> here s' [] []"
proof -
  have "avail s = []" using at_avail [OF assms] by simp
  then obtain s' where "so_read ops s n = Some ([], s')" "ok s'" "avail s' = []"
    using sread_ok [OF at_ok [OF assms], of n] by auto
  moreover from this have "packets s' = []"
    using avail_packets [of s'] packet_nonempty [of s'] by (cases "packets s'") auto
  ultimately show ?thesis by (simp add: here_def)
qed

end

section \<open>The packets of the filter\<close>

function split_packets :: "bytes \<Rightarrow> bytes list" where
  "split_packets w =
     (if length w < 4 then []
      else let n = unat (readBE32 w)
           in if n = 0 \<or> length w < 4 + n then []
              else take n (drop 4 w) # split_packets (drop (4 + n) w))"
  by pat_completeness auto
termination
  by (relation "measure length") auto

declare split_packets.simps [simp del]

definition psf_packets :: "PacketStreamFilter \<Rightarrow> bytes list" where
  "psf_packets f =
     (if psf_size f = 0 \<or> length (psf_content f) < psf_size f then []
      else take (psf_size f) (psf_content f) # split_packets (drop (psf_size f) (psf_content f)))"

lemma concat_split_packets: "concat (split_packets w) = deliverable w"
proof (induction w rule: split_packets.induct)
  case (1 w)
  then show ?case
    by (subst split_packets.simps, subst deliverable.simps) (auto simp: Let_def)
qed

lemma split_packets_nonempty: "p \<in> set (split_packets w) \<Longrightarrow> p \<noteq> []"
proof (induction w rule: split_packets.induct)
  case (1 w)
  note prem = "1.prems" [unfolded split_packets.simps [of w]]
  show ?case
  proof (cases "length w < 4 \<or> unat (readBE32 w) = 0 \<or> length w < 4 + unat (readBE32 w)")
    case True
    then show ?thesis using prem by (auto simp: Let_def split: if_splits)
  next
    case False
    then have "p = take (unat (readBE32 w)) (drop 4 w) \<or> p \<in> set (split_packets (drop (4 + unat (readBE32 w)) w))"
      using prem by (simp add: Let_def)
    then show ?thesis using False "1.IH" by auto
  qed
qed

lemma readPacketSize_packets:
  assumes wf: "psf_wf f" and r: "readPacketSize f = Some (okay, f')"
  shows "psf_packets f' = (if psf_size f = 0 then split_packets (psf_content f) else psf_packets f)"
proof (cases "psf_size f = 0 \<and> 4 \<le> length (psf_content f)")
  case True
  then have "psf_wf f'" "psf_size f' = unat (readBE32 (psf_content f))"
    "psf_content f' = drop 4 (psf_content f)"
    using readPacketSize_header [OF wf] r by auto
  with True show ?thesis
    by (subst split_packets.simps) (auto simp: psf_packets_def Let_def drop_drop add.commute)
next
  case False
  moreover have "split_packets (psf_content f) = []" if "length (psf_content f) < 4"
    using that by (subst split_packets.simps) simp
  ultimately show ?thesis
    using readPacketSize_noop [OF wf] r wf by (auto simp: psf_packets_def)
qed

lemma psf_read_within:
  assumes wf: "psf_wf f" and p: "psf_packets f = p # ps" and n: "0 < n" "n \<le> length p"
  shows "\<exists>f'. PacketStreamFilter_read f n = Some (take n p, f') \<and> psf_wf f' \<and>
    psf_packets f' = (if n = length p then ps else drop n p # ps)"
proof -
  have sz: "psf_size f \<noteq> 0" "psf_size f \<le> length (psf_content f)" "p = take (psf_size f) (psf_content f)"
    "ps = split_packets (drop (psf_size f) (psf_content f))"
    using p by (auto simp: psf_packets_def split: if_splits)
  then have ready: "isReadyNoLock f" using isReady_iff [OF wf] by simp
  obtain f1 okay f2 f' where r:
    "PacketStreamFilter_read f n = Some (take (min n (psf_size f)) (psf_content f), f')"
    "psf_size f1 = psf_size f - n" "psf_content f1 = drop (min n (psf_size f)) (psf_content f)"
    "psf_wf f1" "readPacketSize f1 = Some (okay, f2)" "psf_wf f'" "psf_size f' = psf_size f2"
    "psf_content f' = psf_content f2" "psf_avail f' = psf_avail f2"
    by (rule PacketStreamFilter_read_ready [OF wf ready n(1)])
  have le: "n \<le> psf_size f" "length p = psf_size f" using n sz by auto
  have "psf_packets f' = psf_packets f2" using r(7,8) by (simp add: psf_packets_def)
  also have "\<dots> = (if psf_size f1 = 0 then split_packets (psf_content f1) else psf_packets f1)"
    using readPacketSize_packets [OF r(4,5)] .
  also have "\<dots> = (if n = length p then ps else drop n p # ps)"
    using r(2,3) le sz by (auto simp: psf_packets_def min_def drop_take)
  finally show ?thesis using r(1,6) le sz by (simp add: min_def)
qed

interpretation psf_msg: message_source "psf_ops junk" psf_avail psf_wf psf_packets
proof unfold_locales
  fix f :: PacketStreamFilter and p
  assume wf: "psf_wf f"
  show "psf_avail f = concat (psf_packets f)"
    by (simp add: psf_avail_def psf_packets_def concat_split_packets)
  show "so_isReady (psf_ops junk) f \<longleftrightarrow> psf_packets f \<noteq> []"
    using isReady_iff [OF wf] by (simp add: psf_ops_def PacketStreamFilter_isReady_def psf_packets_def)
  show "p \<noteq> []" if "p \<in> set (psf_packets f)"
    using that split_packets_nonempty by (auto simp: psf_packets_def split: if_splits)
qed (use psf_read_within in \<open>simp add: psf_ops_def\<close>)

lemma split_packets_frames: "\<forall>p \<in> set ps. good_packet p \<Longrightarrow> split_packets (frames ps) = ps"
proof (induction ps)
  case Nil
  then show ?case by (subst split_packets.simps) simp
next
  case (Cons p ps)
  then have "unat (readBE32 (frame p @ frames ps)) = length p" "0 < length p"
    using readBE32_frame [of p "frames ps"] good_packet_size [of p] by auto
  with Cons show ?case by (subst split_packets.simps) (auto simp: Let_def frame_def)
qed

text \<open>A filter that has settled on the frames of good packets holds exactly these packets.\<close>

lemma psf_packets_frames:
  assumes "psf_settled f" and "\<forall>p \<in> set ps. good_packet p" and "psf_wire f = frames ps"
  shows "psf_packets f = ps"
proof (cases ps)
  case (Cons p qs)
  then have "psf_size f = length p" "psf_content f = p @ frames qs" "p \<noteq> []" "\<forall>p \<in> set qs. good_packet p"
    using settled_frames [OF assms] assms(2) good_packet_size [of p] by auto
  with Cons split_packets_frames [of qs] show ?thesis by (simp add: psf_packets_def)
qed (use settled_frames [OF assms] in \<open>simp add: psf_packets_def\<close>)

section \<open>A written message and its code\<close>

lemma fmt_tokens_code:
  "CHR ''%'' \<notin> set l \<Longrightarrow> fmt_tokens (l @ m) = map Lit l @ fmt_tokens m"
  by (induction l) auto

lemma writef_void_code:
  "writef_void_loop (map Lit l @ ts) args =
     (case writef_void_loop ts args of Inl e \<Rightarrow> Inl e | Inr b \<Rightarrow> Inr (bytes_of l @ b))"
  by (induction l) (auto simp: bytes_of_def split: sum.split)

lemma message_codes:
  "list_all (\<lambda>m. CHR ''%'' \<notin> set (take 4 m) \<and> 4 \<le> length m) protocol_messages"
  by (simp add: protocol_messages_def kMsg_defs)

text \<open>The four bytes that \<^verbatim>\<open>memcmp\<close> compares, and what the handler gets from the rest.\<close>

lemma written_message:
  assumes m: "m \<in> set protocol_messages" and w: "writef m args = Inr (Some b)"
    and args: "WStr None \<notin> set args" "list_all within_limits args"
  shows "take 4 b = bytes_of (take 4 m) \<and> 4 \<le> length b \<and>
    readf bytes_read (drop 4 m) (drop 4 b) = (sent_values (fmt_tokens (drop 4 m)) args, Inr True, [])"
proof -
  have c: "CHR ''%'' \<notin> set (take 4 m)" "4 \<le> length m" "string_last (fmt_tokens m)"
    "list_all symmetric_token (fmt_tokens (drop 4 m))"
    using m message_codes message_tails protocol_messages_ok by (auto simp: list_all_iff)
  have "fmt_tokens m = map Lit (take 4 m) @ fmt_tokens (drop 4 m)"
    using fmt_tokens_code [OF c(1), of "drop 4 m"] by simp
  then obtain d where d: "b = bytes_of (take 4 m) @ d" "writef_void (drop 4 m) args = Inr d"
    using writef_Some [OF c(3) args(1) w] by (auto simp: writef_void_def writef_void_code split: sum.splits)
  moreover have "length (bytes_of (take 4 m)) = 4" using c(2) by simp
  ultimately show ?thesis
    using readf_roundtrip_bytes [OF d(2) c(4) args(2), of "[]"] by simp
qed

section \<open>The loop on packets\<close>

context message_source
begin

lemma handleData_end:
  assumes "here s [] []"
  shows "\<exists>s'. handleData ops cv p s = Some (done_with (flushCompressedMouse p) s') \<and> here s' [] []"
proof -
  obtain s' where "so_read ops s 4 = Some ([], s')" "here s' [] []" using read_nothing [OF assms] by blast
  moreover from this have "handleData ops cv p s = Some (done_with (flushCompressedMouse p) s')"
    by (subst handleData.simps) simp
  ultimately show ?thesis by blast
qed

lemma handleData_message:
  assumes s: "here s [] (m # ps)" and len: "4 \<le> length m"
    and step: "\<And>s1. here s1 (drop 4 m) ps \<Longrightarrow>
      \<exists>s2. sp_parser ops cv (take 4 m) p s1 = (Inr kOkay, p', s2) \<and> here s2 [] ps"
  shows "\<exists>s2. handleData ops cv p s = handleData ops cv p' s2 \<and> here s2 [] ps"
proof -
  obtain s1 where s1: "so_read ops s 4 = Some (take 4 m, s1)" "here s1 (drop 4 m) ps"
    using read_at [OF at_next [OF s], of 4] len by auto
  obtain s2 where s2: "sp_parser ops cv (take 4 m) p s1 = (Inr kOkay, p', s2)" "here s2 [] ps"
    using step [OF s1(2)] by blast
  have "take 4 m \<noteq> []" "length (take 4 m) = 4" using len by auto
  with s1 s2 show ?thesis by (subst handleData.simps) auto
qed

text \<open>Every handler built with \<open>recv\<close> gets the values that were written.\<close>

lemma recv_written:
  assumes s: "here s (drop 4 b) ps" and m: "m \<in> set protocol_messages" and w: "writef m args = Inr (Some b)"
    and args: "WStr None \<notin> set args" "list_all within_limits args"
    and k: "k (sent_values (fmt_tokens (drop 4 m)) args) p = (r, p')"
  shows "\<exists>s'. recv ops (drop 4 m) k p s = (r, p', s') \<and> here s' [] ps"
proof -
  obtain s' where "readf (so_read ops) (drop 4 m) s = (sent_values (fmt_tokens (drop 4 m)) args, Inr True, s')" "here s' [] ps"
    using readf_at [OF s] written_message [OF m w args] by blast
  with k show ?thesis by (auto simp: recv_def)
qed

end

end
