(* ===== verification/Proxy_Motion.thy ===== *)
theory Proxy_Motion
  imports Message_Source
begin

text \<open>
  Mouse motion in \<^verbatim>\<open>ServerProxy\<close>.  While more input is buffered, motion messages are compressed: of absolute
  moves only the last is kept, relative moves are added up, and \<^verbatim>\<open>flushCompressedMouse\<close> forwards the rest.  The
  reference is a pointer that performs every message when it arrives.
\<close>

datatype motion = Absolute UInt16 UInt16 | Relative UInt16 UInt16

definition motion_message :: "motion \<Rightarrow> bytes" where
  "motion_message mo =
     (case mo of
        Absolute x y \<Rightarrow> bytes_of ''DMMV'' @ writeUInt16 x @ writeUInt16 y
      | Relative x y \<Rightarrow> bytes_of ''DMRM'' @ writeUInt16 x @ writeUInt16 y)"

lemma length_motion [simp]: "length (motion_message mo) = 8"
  by (simp add: motion_message_def split: motion.split)

text \<open>Where the pointer is after a motion, and after the calls made to the client.\<close>

fun move_pointer :: "motion \<Rightarrow> int \<times> int \<Rightarrow> int \<times> int" where
  "move_pointer (Absolute x y) _ = (sint x, sint y)"
| "move_pointer (Relative x y) (px, py) = (px + sint x, py + sint y)"

fun call_pointer :: "client_call \<Rightarrow> int \<times> int \<Rightarrow> int \<times> int" where
  "call_pointer (CMouseMove x y) _ = (x, y)"
| "call_pointer (CMouseRelativeMove dx dy) (px, py) = (px + dx, py + dy)"
| "call_pointer _ q = q"

section \<open>What the handlers do\<close>

definition motion_moved :: "bool \<Rightarrow> motion \<Rightarrow> ServerProxy \<Rightarrow> ServerProxy" where
  "motion_moved ready mo p =
     (case mo of
        Absolute x y \<Rightarrow> mouse_moved ready (sint x) (sint y) p
      | Relative x y \<Rightarrow> mouse_moved_relative ready (sint x) (sint y) p)"

lemma motion_fields:
  "sp_handshake (motion_moved b mo p) = sp_handshake p" "sp_ignoreMouse (motion_moved b mo p) = sp_ignoreMouse p"
  "sp_handshake (sp_write fmt args p) = sp_handshake p" "sp_ignoreMouse (sp_write fmt args p) = sp_ignoreMouse p"
  by (auto simp: motion_moved_def mouse_moved_def mouse_moved_relative_def sp_call_def sp_write_def Let_def
      split: motion.split sum.split option.split)

text \<open>The proxy after a batch: the no-op reply follows every message, and only the last message finds nothing buffered.\<close>

fun after_batch :: "motion list \<Rightarrow> ServerProxy \<Rightarrow> ServerProxy" where
  "after_batch [] p = p"
| "after_batch (mo # mos) p = after_batch mos (sp_write kMsgCNoop [] (motion_moved (mos \<noteq> []) mo p))"

lemma motion_codes:
  "is_code (bytes_of ''DMMV'') kMsgDMouseMove" "is_code (bytes_of ''DMRM'') kMsgDMouseRelMove"
  "\<not> is_code (bytes_of ''DMRM'') kMsgDMouseMove"
  by (simp_all add: is_code_def kMsg_defs bytes_of_def)

lemma readf_motion:
  "readf bytes_read (drop 4 kMsgDMouseMove) (writeUInt16 x @ writeUInt16 y) = ([R16 x, R16 y], Inr True, [])"
  "readf bytes_read (drop 4 kMsgDMouseRelMove) (writeUInt16 x @ writeUInt16 y) = ([R16 x, R16 y], Inr True, [])"
proof -
  have "readUInt16 (writeUInt16 x ! 0) (writeUInt16 x ! Suc 0) = x" for x
    by (simp add: writeUInt16_def readUInt16_write)
  then show "readf bytes_read (drop 4 kMsgDMouseMove) (writeUInt16 x @ writeUInt16 y) = ([R16 x, R16 y], Inr True, [])"
    "readf bytes_read (drop 4 kMsgDMouseRelMove) (writeUInt16 x @ writeUInt16 y) = ([R16 x, R16 y], Inr True, [])"
    by (simp_all add: readf_def vreadf_def kMsg_defs eatLength_def digit_of_def vreadf_conv_def len_ok_def pu_read_bytes nth_append)
qed

context message_source
begin

lemma motion_parsed:
  assumes "here s (drop 4 (motion_message mo)) ps" and "\<not> sp_handshake p"
  shows "\<exists>s'. sp_parser ops cv (take 4 (motion_message mo)) p s =
      (Inr kOkay, sp_write kMsgCNoop [] (motion_moved (ps \<noteq> []) mo p), s') \<and> here s' [] ps"
proof (cases mo)
  case (Absolute x y)
  then have "here s (writeUInt16 x @ writeUInt16 y) ps" using assms(1) by (simp add: motion_message_def)
  from readf_at [OF this readf_motion(1)] obtain s' where s':
    "readf (so_read ops) (drop 4 kMsgDMouseMove) s = ([R16 x, R16 y], Inr True, s')" "here s' [] ps" by blast
  then show ?thesis
    using Absolute assms(2) motion_codes(1) at_ready [OF s'(2)]
    by (simp add: motion_message_def sp_parser_def parseMessage_def message_handler_def sp_mouseMove_def
        recv_motion_def done_with_def motion_moved_def)
next
  case (Relative x y)
  then have "here s (writeUInt16 x @ writeUInt16 y) ps" using assms(1) by (simp add: motion_message_def)
  from readf_at [OF this readf_motion(2)] obtain s' where s':
    "readf (so_read ops) (drop 4 kMsgDMouseRelMove) s = ([R16 x, R16 y], Inr True, s')" "here s' [] ps" by blast
  then show ?thesis
    using Relative assms(2) motion_codes(2,3) at_ready [OF s'(2)]
    by (simp add: motion_message_def sp_parser_def parseMessage_def message_handler_def sp_mouseRelativeMove_def
        recv_motion_def done_with_def motion_moved_def)
qed

lemma handleData_batch:
  "here s [] (map motion_message mos) \<Longrightarrow> \<not> sp_handshake p \<Longrightarrow>
    \<exists>s'. handleData ops cv p s = Some (done_with (flushCompressedMouse (after_batch mos p)) s') \<and> here s' [] []"
proof (induction mos arbitrary: s p)
  case Nil
  then show ?case using handleData_end by simp
next
  case (Cons mo mos)
  let ?p = "sp_write kMsgCNoop [] (motion_moved (mos \<noteq> []) mo p)"
  have "\<exists>s2. handleData ops cv p s = handleData ops cv ?p s2 \<and> here s2 [] (map motion_message mos)"
    using Cons.prems motion_parsed [of _ mo "map motion_message mos" p cv]
    by (intro handleData_message [of _ "motion_message mo"])
       simp_all
  with Cons.IH [of _ ?p] Cons.prems(2) show ?case by (auto simp: motion_fields)
qed

end

section \<open>Compression keeps the pointer\<close>

definition is_absolute :: "motion \<Rightarrow> bool" where
  "is_absolute mo \<longleftrightarrow> (case mo of Absolute _ _ \<Rightarrow> True | Relative _ _ \<Rightarrow> False)"

text \<open>Where the pointer would be if the pending motion were flushed now.\<close>

definition flushed_pointer :: "ServerProxy \<Rightarrow> int \<times> int \<Rightarrow> int \<times> int" where
  "flushed_pointer p q =
     (let (px, py) = (if sp_compressMouse p then (sp_xMouse p, sp_yMouse p) else fold call_pointer (sp_calls p) q)
      in if sp_compressMouseRelative p then (px + sp_dxMouse p, py + sp_dyMouse p) else (px, py))"

lemma pointer_flush: "fold call_pointer (sp_calls (flushCompressedMouse p)) q = flushed_pointer p q"
  by (cases "fold call_pointer (sp_calls p) q")
     (auto simp: flushCompressedMouse_def flushed_pointer_def sp_call_def Let_def split: prod.split)

lemma flushed_write [simp]:
  "flushed_pointer (sp_write fmt args p) q = flushed_pointer p q"
  "sp_compressMouse (sp_write fmt args p) = sp_compressMouse p"
  "sp_compressMouseRelative (sp_write fmt args p) = sp_compressMouseRelative p"
  by (auto simp: flushed_pointer_def sp_write_def split: sum.split option.split)

lemma motion_buffered:
  assumes "\<not> sp_ignoreMouse p" and "sp_wf p"
  shows "flushed_pointer (motion_moved True mo p) q = move_pointer mo (flushed_pointer p q)"
    "sp_compressMouse (motion_moved True mo p) \<longleftrightarrow> sp_compressMouse p \<or> is_absolute mo"
    "sp_compressMouseRelative (motion_moved True mo p) \<longleftrightarrow> \<not> is_absolute mo"
  using assms
  by (auto simp: motion_moved_def mouse_moved_def mouse_moved_relative_def flushed_pointer_def sp_wf_def is_absolute_def
      Let_def split: motion.split prod.split)

lemma motion_last:
  assumes "\<not> sp_ignoreMouse p" and "sp_wf p"
    and "if is_absolute mo then sp_compressMouse p \<or> \<not> sp_compressMouseRelative p
      else sp_compressMouseRelative p \<or> \<not> sp_compressMouse p"
  shows "flushed_pointer (motion_moved False mo p) q = move_pointer mo (flushed_pointer p q)"
  using assms
  by (cases "fold call_pointer (sp_calls p) q")
     (auto simp: motion_moved_def mouse_moved_def mouse_moved_relative_def flushed_pointer_def sp_wf_def is_absolute_def
      sp_call_def Let_def split: motion.splits prod.splits)

text \<open>
  The batches that end well: the last message joins a compression that is under way, or nothing of the other
  kind is pending.
\<close>

definition ends_well :: "bool \<Rightarrow> bool \<Rightarrow> motion list \<Rightarrow> bool" where
  "ends_well cm cr mos \<longleftrightarrow> mos = [] \<or>
     (if is_absolute (last mos)
      then (\<exists>mo \<in> set (butlast mos). is_absolute mo) \<or> cm \<or> (butlast mos = [] \<and> \<not> cr)
      else if butlast mos = [] then cr \<or> \<not> cm else \<not> is_absolute (last (butlast mos)))"

lemma ends_well_Cons:
  "mos \<noteq> [] \<Longrightarrow> ends_well cm cr (mo # mos) \<longleftrightarrow> ends_well (cm \<or> is_absolute mo) (\<not> is_absolute mo) mos"
  by (auto simp: ends_well_def)

lemma after_batch_pointer:
  "\<not> sp_ignoreMouse p \<Longrightarrow> sp_wf p \<Longrightarrow> ends_well (sp_compressMouse p) (sp_compressMouseRelative p) mos \<Longrightarrow>
    flushed_pointer (after_batch mos p) q = fold move_pointer mos (flushed_pointer p q)"
proof (induction mos arbitrary: p)
  case (Cons mo mos)
  let ?p = "sp_write kMsgCNoop [] (motion_moved (mos \<noteq> []) mo p)"
  show ?case
  proof (cases "mos = []")
    case True
    then have "if is_absolute mo then sp_compressMouse p \<or> \<not> sp_compressMouseRelative p
        else sp_compressMouseRelative p \<or> \<not> sp_compressMouse p"
      using Cons.prems(3) by (auto simp: ends_well_def)
    from motion_last [OF Cons.prems(1,2) this] True show ?thesis by simp
  next
    case False
    have "sp_wf ?p" using Cons.prems(2) sp_wf_moved by (simp add: motion_moved_def split: motion.split)
    moreover have "ends_well (sp_compressMouse ?p) (sp_compressMouseRelative ?p) mos"
      using Cons.prems False motion_buffered(2,3) [OF Cons.prems(1,2), of mo] by (simp add: ends_well_Cons)
    ultimately show ?thesis
      using Cons.IH [of ?p] Cons.prems(1,2) False motion_buffered(1) [OF Cons.prems(1,2), of mo q]
      by (simp add: motion_fields)
  qed
qed simp

section \<open>On the packet filter\<close>

text \<open>A proxy past the handshake, whose mouse is not being ignored, with no motion pending.\<close>

definition sp_listening :: "ServerProxy \<Rightarrow> bool" where
  "sp_listening p \<longleftrightarrow> sp_wf p \<and> \<not> sp_handshake p \<and> \<not> sp_ignoreMouse p \<and> \<not> sp_compressMouse p \<and>
     \<not> sp_compressMouseRelative p"

lemma motion_batch_result:
  assumes "psf_wf f" and "psf_packets f = map motion_message mos" and "sp_listening p"
  shows "\<exists>p' f'. handleData (psf_ops junk) cv p f = Some (Inr (), p', f') \<and> psf_packets f' = [] \<and>
    fold call_pointer (sp_calls p') q = flushed_pointer (after_batch mos p) q"
  using psf_msg.handleData_batch [OF psf_msg.at_packets [OF assms(1,2)], of p junk cv] assms(3)
  by (auto simp: sp_listening_def done_with_def psf_msg.here_def pointer_flush)

text \<open>
  C27.  Compressing mouse motion does not move the pointer elsewhere.  A batch of motion messages that
  is buffered when \<^verbatim>\<open>handleData\<close> runs is consumed completely, and the calls that the client gets leave the pointer
  where performing every message in order would leave it, if the last message joins a compression
  that is under way or no motion of the other kind is pending.
\<close>

theorem motion_batch:
  assumes "psf_wf f" and "psf_packets f = map motion_message mos" and "sp_listening p" and "ends_well False False mos"
  shows "\<exists>p' f'. handleData (psf_ops junk) cv p f = Some (Inr (), p', f') \<and> psf_packets f' = [] \<and>
    fold call_pointer (sp_calls p') q = fold move_pointer mos (fold call_pointer (sp_calls p) q)"
proof -
  have "flushed_pointer (after_batch mos p) q = fold move_pointer mos (flushed_pointer p q)"
    using assms(3,4) by (intro after_batch_pointer) (auto simp: sp_listening_def)
  moreover have "flushed_pointer p q = fold call_pointer (sp_calls p) q"
    using assms(3) by (simp add: flushed_pointer_def sp_listening_def)
  ultimately show ?thesis using motion_batch_result [OF assms(1-3), of junk cv q] by simp
qed

text \<open>
  The other batches move the pointer wrongly, because a last message that is not
  compressed overtakes the motion that is pending: a relative move after an absolute one is lost, and a relative move
  before an absolute one is performed after it.
\<close>

theorem motion_batch_overtaken:
  assumes "psf_wf f" and "psf_packets f = map motion_message [Absolute x y, Relative dx dy]"
    and "psf_wf g" and "psf_packets g = map motion_message [Relative dx dy, Absolute x y]" and "sp_listening p"
  shows "(\<exists>p' f'. handleData (psf_ops junk) cv p f = Some (Inr (), p', f') \<and>
      fold call_pointer (sp_calls p') q = (sint x, sint y)) \<and>
    (\<exists>p' g'. handleData (psf_ops junk) cv p g = Some (Inr (), p', g') \<and>
      fold call_pointer (sp_calls p') q = (sint x + sint dx, sint y + sint dy))"
proof -
  have "flushed_pointer (after_batch [Absolute x y, Relative dx dy] p) q = (sint x, sint y)"
    "flushed_pointer (after_batch [Relative dx dy, Absolute x y] p) q = (sint x + sint dx, sint y + sint dy)"
    using assms(5)
    by (auto simp: sp_listening_def sp_wf_def flushed_pointer_def motion_moved_def mouse_moved_def mouse_moved_relative_def
        sp_call_def sp_write_def Let_def split: sum.split option.split prod.split)
  then show ?thesis
    using motion_batch_result [OF assms(1,2,5), of junk cv q] motion_batch_result [OF assms(3,4,5), of junk cv q]
    by auto
qed

text \<open>A filter that holds given packets, and a proxy after its handshake.\<close>

definition psf_holding :: "bytes \<Rightarrow> bytes list \<Rightarrow> PacketStreamFilter" where
  "psf_holding p ps = PacketStreamFilter_new\<lparr>psf_size := length p,
     psf_buffer := StreamBuffer_write StreamBuffer_new (p @ frames ps)\<rparr>"

definition sp_connected :: ServerProxy where
  "sp_connected = (ServerProxy_new \<lparr>rx_cached = [], rx_id = 0, rx_sequence = 0, rx_expected = 0\<rparr>
     \<lparr>frx_received = [], frx_expected = 0\<rparr>)\<lparr>sp_handshake := False\<rparr>"

lemma psf_holding_ok:
  assumes "\<forall>q \<in> set (p # ps). good_packet q" and "sb_room StreamBuffer_new (length (p @ frames ps))"
  shows "psf_wf (psf_holding p ps)" "psf_packets (psf_holding p ps) = p # ps"
proof -
  show "psf_wf (psf_holding p ps)"
    using sb.wf_put [OF sb.wf_empty assms(2)] by (simp add: psf_holding_def psf_wf_def)
  have "psf_content (psf_holding p ps) = p @ frames ps"
    using sb.content_put [OF sb.wf_empty assms(2)] sb.content_empty by (simp add: psf_content_def psf_holding_def)
  moreover have "p \<noteq> []" using assms(1) good_packet_size [of p] by auto
  ultimately show "psf_packets (psf_holding p ps) = p # ps"
    using split_packets_frames [of ps] assms(1) by (simp add: psf_packets_def psf_holding_def)
qed

lemma motion_good: "good_packet (motion_message mo)"
  by (simp add: good_packet_def PROTOCOL_MAX_MESSAGE_LENGTH_def flip: length_greater_0_conv)

lemma motion_held:
  "psf_wf (psf_holding (motion_message a) [motion_message b])"
  "psf_packets (psf_holding (motion_message a) [motion_message b]) = map motion_message [a, b]"
  using psf_holding_ok [of "motion_message a" "[motion_message b]"] motion_good
  by (simp_all add: sb_room_def StreamBuffer_new_def)

lemma sp_connected_listening: "sp_listening sp_connected" "sp_calls sp_connected = []"
  using sp_wf_new [of "\<lparr>rx_cached = [], rx_id = 0, rx_sequence = 0, rx_expected = 0\<rparr>" "\<lparr>frx_received = [], frx_expected = 0\<rparr>"]
  by (auto simp: sp_listening_def sp_connected_def)
     (simp_all add: ServerProxy_new_def setKeepAliveRate_def resetKeepAliveAlarm_def)

theorem motion_batch_witness:
  "\<exists>p' f'. handleData (psf_ops 0) \<lparr>cv_shape = (0, 0, 1, 1), cv_cursor = (0, 0), cv_displays = []\<rparr> sp_connected
      (psf_holding (motion_message (Absolute 10 20)) [motion_message (Absolute 30 40)]) = Some (Inr (), p', f') \<and>
    psf_packets f' = [] \<and> fold call_pointer (sp_calls p') (0, 0) = (30, 40)"
  using motion_batch [OF motion_held [of "Absolute 10 20" "Absolute 30 40"] sp_connected_listening(1)]
  by (simp add: ends_well_def is_absolute_def)

theorem motion_batch_overtaken_witness:
  "(\<exists>p' f'. handleData (psf_ops 0) \<lparr>cv_shape = (0, 0, 1, 1), cv_cursor = (0, 0), cv_displays = []\<rparr> sp_connected
      (psf_holding (motion_message (Absolute 100 200)) [motion_message (Relative 5 6)]) = Some (Inr (), p', f') \<and>
      fold call_pointer (sp_calls p') (0, 0) = (100, 200)) \<and>
    (\<exists>p' g'. handleData (psf_ops 0) \<lparr>cv_shape = (0, 0, 1, 1), cv_cursor = (0, 0), cv_displays = []\<rparr> sp_connected
      (psf_holding (motion_message (Relative 5 6)) [motion_message (Absolute 100 200)]) = Some (Inr (), p', g') \<and>
      fold call_pointer (sp_calls p') (0, 0) = (105, 206))"
  using motion_batch_overtaken [OF motion_held motion_held sp_connected_listening(1),
      where x = 100 and y = 200 and dx = 5 and dy = 6] by simp

end
