(* ===== verification/Client_Peer.thy ===== *)
theory Client_Peer
  imports Server_Proxy Server_Search
begin

text \<open>
  The server's end of a connection: the proxies \<^verbatim>\<open>server/ClientProxy1_0.cpp\<close> to \<^verbatim>\<open>ClientProxy1_6.cpp\<close>, one class per
  minor version of the protocol, each overriding operations of the one before, and the handshake of
  \<^verbatim>\<open>ClientProxyUnknown.cpp\<close> that chooses among them.  The class is the field \<open>cp_minor\<close>; an overridden operation looks
  at it.  Messages sent and events raised are recorded in order; timers are represented by their delay.
\<close>

section \<open>State\<close>

record ClientInfo =
  in_x :: int
  in_y :: int
  in_w :: int
  in_h :: int
  in_mx :: int
  in_my :: int

record ClientClipboard =
  cc_clipboard :: Clipboard
  cc_sequenceNumber :: UInt32
  cc_dirty :: bool

datatype peer_event =
    PeerReady
  | PeerShapeChanged
  | PeerClipboardGrabbed UInt8 UInt32
  | PeerClipboardChanged UInt8 UInt32
  | PeerDisconnected
  | PeerFileReceived
  | PeerDragInfo UInt32 bytes
  | PeerClipboardSending chunk_event

record ClientProxy =
  cp_minor :: nat
  cp_name :: string
  cp_info :: ClientInfo
  cp_heartbeatAlarm :: rat
  cp_heartbeatTimer :: "rat option"
  cp_keepAliveRate :: rat
  cp_keepAliveTimer :: "rat option"
  cp_handshake :: bool
  cp_handlers :: bool
  cp_clipboard :: "ClientClipboard list"
  cp_declaredDisplays :: "DisplayInfo list"
  cp_clip :: clip_rx
  cp_file :: file_rx
  cp_sent :: "bytes list"
  cp_events :: "peer_event list"

definition kHeartRate :: rat where "kHeartRate = - 1"
definition kHeartBeatsUntilDeath :: rat where "kHeartBeatsUntilDeath = 3"

definition ClientClipboard_new :: ClientClipboard where
  "ClientClipboard_new = \<lparr>cc_clipboard = Clipboard_new, cc_sequenceNumber = 0, cc_dirty = True\<rparr>"

definition cp_write :: "string \<Rightarrow> warg list \<Rightarrow> ClientProxy \<Rightarrow> ClientProxy" where
  "cp_write fmt args p = (case writef fmt args of Inr (Some b) \<Rightarrow> p\<lparr>cp_sent := cp_sent p @ [b]\<rparr> | _ \<Rightarrow> p)"

definition cp_raise :: "peer_event \<Rightarrow> ClientProxy \<Rightarrow> ClientProxy" where
  "cp_raise e p = p\<lparr>cp_events := cp_events p @ [e]\<rparr>"

section \<open>Timers\<close>

text \<open>\<^verbatim>\<open>setHeartbeatRate\<close>: from version 1.3 on the alarm follows from the rate.\<close>

definition setHeartbeatRate1_0 :: "rat \<Rightarrow> rat \<Rightarrow> ClientProxy \<Rightarrow> ClientProxy" where
  "setHeartbeatRate1_0 rate alarm p = p\<lparr>cp_heartbeatAlarm := alarm\<rparr>"

definition setHeartbeatRate1_3 :: "rat \<Rightarrow> rat \<Rightarrow> ClientProxy \<Rightarrow> ClientProxy" where
  "setHeartbeatRate1_3 rate alarm p =
     setHeartbeatRate1_0 rate (rate * kKeepAlivesUntilDeath) (p\<lparr>cp_keepAliveRate := rate\<rparr>)"

definition setHeartbeatRate :: "rat \<Rightarrow> rat \<Rightarrow> ClientProxy \<Rightarrow> ClientProxy" where
  "setHeartbeatRate rate alarm p =
     (if cp_minor p \<ge> 3 then setHeartbeatRate1_3 rate alarm p else setHeartbeatRate1_0 rate alarm p)"

definition resetHeartbeatRate :: "ClientProxy \<Rightarrow> ClientProxy" where
  "resetHeartbeatRate p =
     (if cp_minor p \<ge> 3 then setHeartbeatRate kKeepAliveRate (kKeepAliveRate * kKeepAlivesUntilDeath) p
      else setHeartbeatRate kHeartRate (kHeartRate * kHeartBeatsUntilDeath) p)"

definition addHeartbeatTimer1_0 :: "ClientProxy \<Rightarrow> ClientProxy" where
  "addHeartbeatTimer1_0 p =
     (if cp_heartbeatAlarm p > 0 then p\<lparr>cp_heartbeatTimer := Some (cp_heartbeatAlarm p)\<rparr> else p)"

definition removeHeartbeatTimer1_0 :: "ClientProxy \<Rightarrow> ClientProxy" where
  "removeHeartbeatTimer1_0 p = p\<lparr>cp_heartbeatTimer := None\<rparr>"

definition addHeartbeatTimer :: "ClientProxy \<Rightarrow> ClientProxy" where
  "addHeartbeatTimer p =
     addHeartbeatTimer1_0
       (if cp_minor p \<ge> 3 \<and> cp_keepAliveRate p > 0 then p\<lparr>cp_keepAliveTimer := Some (cp_keepAliveRate p)\<rparr> else p)"

definition removeHeartbeatTimer :: "ClientProxy \<Rightarrow> ClientProxy" where
  "removeHeartbeatTimer p = removeHeartbeatTimer1_0 (if cp_minor p \<ge> 3 then p\<lparr>cp_keepAliveTimer := None\<rparr> else p)"

text \<open>From version 1.3 on only the alarm is reset, not the keep alive timer.\<close>

definition resetHeartbeatTimer :: "ClientProxy \<Rightarrow> ClientProxy" where
  "resetHeartbeatTimer p =
     (if cp_minor p \<ge> 3 then addHeartbeatTimer1_0 (removeHeartbeatTimer1_0 p)
      else addHeartbeatTimer (removeHeartbeatTimer p))"

text \<open>The constructors; what they leave unset are the arguments \<open>info\<close>, \<open>cr\<close> and \<open>fr\<close>.\<close>

definition ClientProxy_new :: "nat \<Rightarrow> string \<Rightarrow> ClientInfo \<Rightarrow> clip_rx \<Rightarrow> file_rx \<Rightarrow> ClientProxy" where
  "ClientProxy_new minor name info cr fr =
     (let p = cp_write kMsgQInfo [] (setHeartbeatRate1_0 kHeartRate (kHeartRate * kHeartBeatsUntilDeath)
        \<lparr>cp_minor = minor, cp_name = name, cp_info = info, cp_heartbeatAlarm = 0, cp_heartbeatTimer = None,
         cp_keepAliveRate = kKeepAliveRate, cp_keepAliveTimer = None, cp_handshake = True, cp_handlers = True,
         cp_clipboard = [ClientClipboard_new, ClientClipboard_new], cp_declaredDisplays = [], cp_clip = cr, cp_file = fr,
         cp_sent = [], cp_events = []\<rparr>)
      in if minor \<ge> 3 then setHeartbeatRate1_3 kKeepAliveRate (kKeepAliveRate * kKeepAlivesUntilDeath) p else p)"

text \<open>\<^verbatim>\<open>removeHandlers\<close> calls the timer function of version 1.0 by name.\<close>

definition removeHandlers :: "ClientProxy \<Rightarrow> ClientProxy" where
  "removeHandlers p = removeHeartbeatTimer1_0 (p\<lparr>cp_handlers := False\<rparr>)"

definition cp_disconnect :: "ClientProxy \<Rightarrow> ClientProxy" where
  "cp_disconnect p = cp_raise PeerDisconnected (removeHandlers p)"

definition handleDisconnect :: "ClientProxy \<Rightarrow> ClientProxy" where
  "handleDisconnect p = cp_disconnect p"

definition handleWriteError :: "ClientProxy \<Rightarrow> ClientProxy" where
  "handleWriteError p = cp_disconnect p"

definition handleFlatline :: "ClientProxy \<Rightarrow> ClientProxy" where
  "handleFlatline p = cp_disconnect p"

definition handleKeepAlive :: "ClientProxy \<Rightarrow> ClientProxy" where
  "handleKeepAlive p = cp_write kMsgCKeepAlive [] p"

section \<open>What the server asks of a client\<close>

definition cp_close :: "string \<Rightarrow> ClientProxy \<Rightarrow> ClientProxy" where
  "cp_close msg p = cp_write msg [] p"

definition getClipboard :: "nat \<Rightarrow> Clipboard \<Rightarrow> ClientProxy \<Rightarrow> proxy_err + Clipboard" where
  "getClipboard i dst p =
     (if i < length (cp_clipboard p)
      then (case IClipboard_copy Clipboard_vt Clipboard_vt dst (cc_clipboard (cp_clipboard p ! i)) of
              Inl _ \<Rightarrow> Inl ClipboardFailed | Inr (_, c, _) \<Rightarrow> Inr c)
      else Inl BadIndex)"

definition getShape :: "ClientProxy \<Rightarrow> int \<times> int \<times> int \<times> int" where
  "getShape p = (in_x (cp_info p), in_y (cp_info p), in_w (cp_info p), in_h (cp_info p))"

definition getCursorPos :: "ClientProxy \<Rightarrow> int \<times> int" where
  "getCursorPos p = (in_mx (cp_info p), in_my (cp_info p))"

definition cp_enter :: "int \<Rightarrow> int \<Rightarrow> UInt32 \<Rightarrow> UInt32 \<Rightarrow> ClientProxy \<Rightarrow> ClientProxy" where
  "cp_enter x y seqNum m p = cp_write kMsgCEnter [WInt (word_of_int x), WInt (word_of_int y), WInt seqNum, WInt m] p"

definition cp_leave :: "ClientProxy \<Rightarrow> bool \<times> ClientProxy" where
  "cp_leave p = (True, cp_write kMsgCLeave [] p)"

definition cp_grabClipboard :: "nat \<Rightarrow> ClientProxy \<Rightarrow> proxy_err + ClientProxy" where
  "cp_grabClipboard i p =
     (if i < length (cp_clipboard p)
      then let p' = cp_write kMsgCClipboard [WInt (word_of_nat i), WInt 0] p
           in Inr (p'\<lparr>cp_clipboard := (cp_clipboard p')[i := (cp_clipboard p' ! i)\<lparr>cc_dirty := True\<rparr>]\<rparr>)
      else Inl BadIndex)"

definition setClipboardDirty :: "nat \<Rightarrow> bool \<Rightarrow> ClientProxy \<Rightarrow> proxy_err + ClientProxy" where
  "setClipboardDirty i d p =
     (if i < length (cp_clipboard p)
      then Inr (p\<lparr>cp_clipboard := (cp_clipboard p)[i := (cp_clipboard p ! i)\<lparr>cc_dirty := d\<rparr>]\<rparr>) else Inl BadIndex)"

definition cp_keyDown :: "UInt32 \<Rightarrow> UInt32 \<Rightarrow> UInt16 \<Rightarrow> ClientProxy \<Rightarrow> ClientProxy" where
  "cp_keyDown key m button p =
     (if cp_minor p \<ge> 1 then cp_write kMsgDKeyDown [WInt key, WInt m, WInt (ucast button)] p
      else cp_write kMsgDKeyDown1_0 [WInt key, WInt m] p)"

definition cp_keyRepeat :: "UInt32 \<Rightarrow> UInt32 \<Rightarrow> int \<Rightarrow> UInt16 \<Rightarrow> ClientProxy \<Rightarrow> ClientProxy" where
  "cp_keyRepeat key m count button p =
     (if cp_minor p \<ge> 1
      then cp_write kMsgDKeyRepeat [WInt key, WInt m, WInt (word_of_int count), WInt (ucast button)] p
      else cp_write kMsgDKeyRepeat1_0 [WInt key, WInt m, WInt (word_of_int count)] p)"

definition cp_keyUp :: "UInt32 \<Rightarrow> UInt32 \<Rightarrow> UInt16 \<Rightarrow> ClientProxy \<Rightarrow> ClientProxy" where
  "cp_keyUp key m button p =
     (if cp_minor p \<ge> 1 then cp_write kMsgDKeyUp [WInt key, WInt m, WInt (ucast button)] p
      else cp_write kMsgDKeyUp1_0 [WInt key, WInt m] p)"

definition cp_mouseDown :: "UInt8 \<Rightarrow> ClientProxy \<Rightarrow> ClientProxy" where
  "cp_mouseDown button p = cp_write kMsgDMouseDown [WInt (ucast button)] p"

definition cp_mouseUp :: "UInt8 \<Rightarrow> ClientProxy \<Rightarrow> ClientProxy" where
  "cp_mouseUp button p = cp_write kMsgDMouseUp [WInt (ucast button)] p"

definition cp_mouseMove :: "int \<Rightarrow> int \<Rightarrow> ClientProxy \<Rightarrow> ClientProxy" where
  "cp_mouseMove x y p = cp_write kMsgDMouseMove [WInt (word_of_int x), WInt (word_of_int y)] p"

definition cp_mouseRelativeMove :: "int \<Rightarrow> int \<Rightarrow> ClientProxy \<Rightarrow> ClientProxy" where
  "cp_mouseRelativeMove x y p =
     (if cp_minor p \<ge> 2 then cp_write kMsgDMouseRelMove [WInt (word_of_int x), WInt (word_of_int y)] p else p)"

definition cp_mouseWheel :: "int \<Rightarrow> int \<Rightarrow> ClientProxy \<Rightarrow> ClientProxy" where
  "cp_mouseWheel x y p =
     (if cp_minor p \<ge> 3 then cp_write kMsgDMouseWheel [WInt (word_of_int x), WInt (word_of_int y)] p
      else cp_write kMsgDMouseWheel1_0 [WInt (word_of_int y)] p)"

definition cp_sendDragInfo :: "UInt32 \<Rightarrow> bytes \<Rightarrow> nat \<Rightarrow> ClientProxy \<Rightarrow> ClientProxy" where
  "cp_sendDragInfo fileCount info sz p =
     (if cp_minor p \<ge> 5 then cp_write kMsgDDragInfo [WInt fileCount, WStr (Some (take sz info))] p else p)"

definition cp_send :: "perr + bytes option \<Rightarrow> ClientProxy \<Rightarrow> ClientProxy" where
  "cp_send r p = (case r of Inr (Some b) \<Rightarrow> p\<lparr>cp_sent := cp_sent p @ [b]\<rparr> | _ \<Rightarrow> p)"

definition cp_fileChunkSending :: "UInt8 \<Rightarrow> bytes \<Rightarrow> nat \<Rightarrow> ClientProxy \<Rightarrow> ClientProxy" where
  "cp_fileChunkSending mark data dataSize p = (if cp_minor p \<ge> 5 then cp_send (FileChunk_send mark data dataSize) p else p)"

definition cp_screensaver :: "bool \<Rightarrow> ClientProxy \<Rightarrow> ClientProxy" where
  "cp_screensaver on p = cp_write kMsgCScreenSaver [WInt (if on then 1 else 0)] p"

definition cp_resetOptions :: "ClientProxy \<Rightarrow> ClientProxy" where
  "cp_resetOptions p = addHeartbeatTimer (removeHeartbeatTimer (resetHeartbeatRate (cp_write kMsgCResetOptions [] p)))"

fun heartbeat_options :: "UInt32 list \<Rightarrow> ClientProxy \<Rightarrow> proxy_err + ClientProxy" where
  "heartbeat_options [] p = Inr p"
| "heartbeat_options [opt] p = (if opt = kOptionHeartbeat then Inl BadIndex else Inr p)"
| "heartbeat_options (opt # v # opts) p =
     heartbeat_options opts
       (if opt = kOptionHeartbeat
        then (let rate0 = of_int (uint v) / 1000; rate = (if rate0 \<le> 0 then - 1 else rate0)
              in addHeartbeatTimer (removeHeartbeatTimer (setHeartbeatRate rate (rate * kHeartBeatsUntilDeath) p)))
        else p)"

definition cp_setOptions :: "UInt32 list \<Rightarrow> ClientProxy \<Rightarrow> proxy_err + ClientProxy" where
  "cp_setOptions options p = heartbeat_options options (cp_write kMsgDSetOptions [WVec32 options] p)"

text \<open>
  \<^verbatim>\<open>setClipboard\<close> does nothing before version 1.6.  Otherwise the chunks are queued, and
  \<^verbatim>\<open>handleClipboardSendingEvent\<close> writes each of them.
\<close>

definition cp_setClipboard :: "nat \<Rightarrow> Clipboard \<Rightarrow> ClientProxy \<Rightarrow> proxy_err + ClientProxy" where
  "cp_setClipboard i c p =
     (if cp_minor p < 6 then Inr p
      else if \<not> i < length (cp_clipboard p) then Inl BadIndex
      else if \<not> cc_dirty (cp_clipboard p ! i) then Inr p
      else (case IClipboard_copy Clipboard_vt Clipboard_vt (cc_clipboard (cp_clipboard p ! i)) c of
          Inl _ \<Rightarrow> Inl ClipboardFailed
        | Inr (_, c', _) \<Rightarrow>
            (case Clipboard_marshall c' of
               Inl _ \<Rightarrow> Inl ClipboardFailed
             | Inr (data, c'') \<Rightarrow>
                 (case sendClipboard data (length data) (word_of_nat i) 0 of
                    Inl _ \<Rightarrow> Inl ClipboardFailed
                  | Inr es \<Rightarrow>
                      Inr (p\<lparr>cp_clipboard := (cp_clipboard p)[i := (cp_clipboard p ! i)\<lparr>cc_dirty := False, cc_clipboard := c''\<rparr>],
                             cp_events := cp_events p @ map PeerClipboardSending es\<rparr>)))))"

definition cp_handleClipboardSendingEvent :: "Chunk \<Rightarrow> ClientProxy \<Rightarrow> ClientProxy" where
  "cp_handleClipboardSendingEvent c p = cp_send (ClipboardChunk_send c) p"

section \<open>Messages from a client\<close>

type_synonym ('a, 's) peer_run = "(proxy_err + 'a) \<times> ClientProxy \<times> 's"

text \<open>\<^verbatim>\<open>if (!readf(...)) return false;\<close> and the rest of the handler.\<close>

definition cp_recv ::
    "'s stream_ops \<Rightarrow> string \<Rightarrow> (rarg list \<Rightarrow> ClientProxy \<Rightarrow> (proxy_err + bool) \<times> ClientProxy) \<Rightarrow> ClientProxy \<Rightarrow> 's \<Rightarrow> (bool, 's) peer_run" where
  "cp_recv ops fmt k p s =
     (case readf (so_read ops) fmt s of
        (outs, Inl e, s') \<Rightarrow> (Inl (Thrown e), p, s')
      | (outs, Inr False, s') \<Rightarrow> (Inr False, p, s')
      | (outs, Inr True, s') \<Rightarrow> (case k outs p of (r, p') \<Rightarrow> (r, p', s')))"

text \<open>
  \<^verbatim>\<open>recvInfo\<close> after its \<^verbatim>\<open>readf\<close>.  The sums are of \<^verbatim>\<open>int\<close>, and the assignments to \<^verbatim>\<open>mx\<close> and \<^verbatim>\<open>my\<close> convert
  back to 16 bits.
\<close>

definition to_SInt16 :: "int \<Rightarrow> int" where
  "to_SInt16 v = sint (word_of_int v :: 16 word)"

definition received_info :: "int \<Rightarrow> int \<Rightarrow> int \<Rightarrow> int \<Rightarrow> int \<Rightarrow> int \<Rightarrow> ClientInfo option" where
  "received_info x y w h mx my =
     (if w \<le> 0 \<or> h \<le> 0 then None
      else let (mx', my') = (if mx < x \<or> mx \<ge> x + w \<or> my < y \<or> my \<ge> y + h
                             then (to_SInt16 (x + w div 2), to_SInt16 (y + h div 2)) else (mx, my))
           in Some \<lparr>in_x = x, in_y = y, in_w = w, in_h = h, in_mx = mx', in_my = my'\<rparr>)"

definition recvInfo :: "'s stream_ops \<Rightarrow> ClientProxy \<Rightarrow> 's \<Rightarrow> (bool, 's) peer_run" where
  "recvInfo ops = cp_recv ops (drop 4 kMsgDInfo) (\<lambda>outs p.
     case outs of
       [R16 x, R16 y, R16 w, R16 h, R16 _, R16 mx, R16 my] \<Rightarrow>
         (case received_info (sint x) (sint y) (sint w) (sint h) (sint mx) (sint my) of
            None \<Rightarrow> (Inr False, p)
          | Some info \<Rightarrow> (Inr True, cp_write kMsgCInfoAck [] (p\<lparr>cp_info := info\<rparr>)))
     | _ \<Rightarrow> (Inl (Thrown BadArg), p))"

definition recvGrabClipboard :: "'s stream_ops \<Rightarrow> ClientProxy \<Rightarrow> 's \<Rightarrow> (bool, 's) peer_run" where
  "recvGrabClipboard ops = cp_recv ops (drop 4 kMsgCClipboard) (\<lambda>outs p.
     case outs of
       [R8 i, R32 seqNum] \<Rightarrow>
         if i \<ge> kClipboardEnd then (Inr False, p) else (Inr True, cp_raise (PeerClipboardGrabbed i seqNum) p)
     | _ \<Rightarrow> (Inl (Thrown BadArg), p))"

definition recvDisplays :: "'s stream_ops \<Rightarrow> ClientProxy \<Rightarrow> 's \<Rightarrow> (bool, 's) peer_run" where
  "recvDisplays ops = cp_recv ops (drop 4 kMsgDDisplays) (\<lambda>outs p.
     case outs of
       [RStr payload] \<Rightarrow>
         (Inr True, cp_raise PeerShapeChanged (p\<lparr>cp_declaredDisplays := deserializeList (chars_of payload)\<rparr>))
     | _ \<Rightarrow> (Inl (Thrown BadArg), p))"

text \<open>\<^verbatim>\<open>recvClipboard\<close>: refused before version 1.6.  \<^verbatim>\<open>assemble\<close> reports \<open>kFinish\<close> only for a valid index.\<close>

definition recvClipboard :: "'s stream_ops \<Rightarrow> ClientProxy \<Rightarrow> 's \<Rightarrow> (bool, 's) peer_run" where
  "recvClipboard ops p s =
     (if cp_minor p < 6 then (Inr False, p, s)
      else (case ClipboardChunk_assemble (so_junk ops) (so_read ops) (cp_clip p) s of
        (r, cr, s') \<Rightarrow>
          let p' = p\<lparr>cp_clip := cr\<rparr>; i = unat (rx_id cr) in
          (case r of
             Inl e \<Rightarrow> (Inl (Thrown e), p', s')
           | Inr kFinish \<Rightarrow>
               if \<not> i < length (cp_clipboard p') then (Inl BadIndex, p', s')
               else (case Clipboard_unmarshall (cc_clipboard (cp_clipboard p' ! i)) (rx_cached cr) 0 of
                  Inl _ \<Rightarrow> (Inl ClipboardFailed, p', s')
                | Inr c \<Rightarrow>
                    (Inr True, cp_raise (PeerClipboardChanged (rx_id cr) (rx_sequence cr))
                       (p'\<lparr>cp_clipboard := (cp_clipboard p')[i := (cp_clipboard p' ! i)\<lparr>cc_clipboard := c,
                          cc_sequenceNumber := rx_sequence cr\<rparr>]\<rparr>), s'))
           | Inr _ \<Rightarrow> (Inr True, p', s'))))"

text \<open>\<^verbatim>\<open>fileChunkReceived\<close> and \<^verbatim>\<open>dragInfoReceived\<close> of version 1.5; the received file belongs to the server.\<close>

definition cp_fileChunkReceived :: "'s stream_ops \<Rightarrow> ClientProxy \<Rightarrow> 's \<Rightarrow> (bool, 's) peer_run" where
  "cp_fileChunkReceived ops p s =
     (case FileChunk_assemble (so_junk ops) (so_read ops) (cp_file p) s of
        (r, fr, s') \<Rightarrow>
          let p' = p\<lparr>cp_file := fr\<rparr> in
          (case r of
             Inl e \<Rightarrow> (Inl (Thrown e), p', s')
           | Inr kFinish \<Rightarrow> (Inr True, cp_raise PeerFileReceived p', s')
           | Inr _ \<Rightarrow> (Inr True, p', s')))"

definition cp_dragInfoReceived :: "'s stream_ops \<Rightarrow> ClientProxy \<Rightarrow> 's \<Rightarrow> (bool, 's) peer_run" where
  "cp_dragInfoReceived ops p s =
     (case readf (so_read ops) (drop 4 kMsgDDragInfo) s of
        (outs, Inl e, s') \<Rightarrow> (Inl (Thrown e), p, s')
      | (outs, Inr _, s') \<Rightarrow>
          (Inr True, cp_raise (case outs of
               R16 n # RStr content # _ \<Rightarrow> PeerDragInfo (ucast n) content
             | R16 n # _ \<Rightarrow> PeerDragInfo (ucast n) []
             | _ \<Rightarrow> PeerDragInfo 0 []) p, s'))"

definition on_true :: "(ClientProxy \<Rightarrow> ClientProxy) \<Rightarrow> (bool, 's) peer_run \<Rightarrow> (bool, 's) peer_run" where
  "on_true f r = (case r of (Inr True, p, s) \<Rightarrow> (Inr True, f p, s) | _ \<Rightarrow> r)"

definition cp_parseHandshakeMessage :: "'s stream_ops \<Rightarrow> bytes \<Rightarrow> ClientProxy \<Rightarrow> 's \<Rightarrow> (bool, 's) peer_run" where
  "cp_parseHandshakeMessage ops code p s =
     (if is_code code kMsgCNoop then (Inr True, p, s)
      else if is_code code kMsgDInfo then
        on_true (\<lambda>p. addHeartbeatTimer (cp_raise PeerReady p)) (recvInfo ops (p\<lparr>cp_handshake := False\<rparr>) s)
      else if is_code code kMsgDDisplays then recvDisplays ops p s
      else (Inr False, p, s))"

definition parseMessage1_0 :: "'s stream_ops \<Rightarrow> bytes \<Rightarrow> ClientProxy \<Rightarrow> 's \<Rightarrow> (bool, 's) peer_run" where
  "parseMessage1_0 ops code p s =
     (if is_code code kMsgDInfo then on_true (cp_raise PeerShapeChanged) (recvInfo ops p s)
      else if is_code code kMsgDDisplays then recvDisplays ops p s
      else if is_code code kMsgCNoop then (Inr True, p, s)
      else if is_code code kMsgCClipboard then recvGrabClipboard ops p s
      else if is_code code kMsgDClipboard then recvClipboard ops p s
      else (Inr False, p, s))"

definition parseMessage1_3 :: "'s stream_ops \<Rightarrow> bytes \<Rightarrow> ClientProxy \<Rightarrow> 's \<Rightarrow> (bool, 's) peer_run" where
  "parseMessage1_3 ops code p s =
     (if is_code code kMsgCKeepAlive then (Inr True, resetHeartbeatTimer p, s) else parseMessage1_0 ops code p s)"

definition parseMessage1_5 :: "'s stream_ops \<Rightarrow> bytes \<Rightarrow> ClientProxy \<Rightarrow> 's \<Rightarrow> (bool, 's) peer_run" where
  "parseMessage1_5 ops code p s =
     (if is_code code kMsgDFileTransfer then cp_fileChunkReceived ops p s
      else if is_code code kMsgDDragInfo then cp_dragInfoReceived ops p s
      else parseMessage1_3 ops code p s)"

text \<open>The virtual call through \<^verbatim>\<open>m_parser\<close>.\<close>

definition cp_parser :: "'s stream_ops \<Rightarrow> bytes \<Rightarrow> ClientProxy \<Rightarrow> 's \<Rightarrow> (bool, 's) peer_run" where
  "cp_parser ops code p =
     (if cp_handshake p then cp_parseHandshakeMessage ops code p
      else if cp_minor p \<ge> 5 then parseMessage1_5 ops code p
      else if cp_minor p \<ge> 3 then parseMessage1_3 ops code p
      else parseMessage1_0 ops code p)"

partial_function (option) cp_handleData :: "'s stream_ops \<Rightarrow> ClientProxy \<Rightarrow> 's \<Rightarrow> (unit, 's) peer_run option" where
  "cp_handleData ops p s =
     (case so_read ops s 4 of
        None \<Rightarrow> Some (Inl (Thrown AssertFail), p, s)
      | Some (code, s1) \<Rightarrow>
          if code = [] then Some (Inr (), resetHeartbeatTimer p, s1)
          else if length code \<noteq> 4 then Some (Inr (), cp_disconnect p, s1)
          else (case cp_parser ops code p s1 of
              (Inr okay, p', s') \<Rightarrow> if okay then cp_handleData ops p' s' else Some (Inr (), cp_disconnect p', s')
            | (Inl (Thrown XBadClient), p', s') \<Rightarrow> Some (Inr (), cp_disconnect p', s')
            | (Inl e, p', s') \<Rightarrow> Some (Inl e, p', s')))"

section \<open>The handshake\<close>

definition kProtocolMajorVersion :: int where "kProtocolMajorVersion = 1"
definition kProtocolMinorVersion :: int where "kProtocolMinorVersion = 6"
definition kMaxHelloLength :: nat where "kMaxHelloLength = 1024"

text \<open>
  \<^verbatim>\<open>ClientProxyUnknown\<close>: its stream stays its own until a proxy takes it over, its timer runs until the outcome is
  known, and the outcome is an event.
\<close>

datatype unknown_event = Success | Failure

record ClientProxyUnknown =
  cu_ownsStream :: bool
  cu_handlers :: bool
  cu_timer :: bool
  cu_proxy :: "ClientProxy option"
  cu_ready :: bool
  cu_sent :: "bytes list"
  cu_events :: "unknown_event list"

definition cu_write :: "string \<Rightarrow> warg list \<Rightarrow> ClientProxyUnknown \<Rightarrow> ClientProxyUnknown" where
  "cu_write fmt args u = (case writef fmt args of Inr (Some b) \<Rightarrow> u\<lparr>cu_sent := cu_sent u @ [b]\<rparr> | _ \<Rightarrow> u)"

definition version_args :: "warg list" where
  "version_args = [WInt (word_of_int kProtocolMajorVersion), WInt (word_of_int kProtocolMinorVersion)]"

definition ClientProxyUnknown_new :: ClientProxyUnknown where
  "ClientProxyUnknown_new = cu_write kMsgHello version_args
     \<lparr>cu_ownsStream = True, cu_handlers = True, cu_timer = True, cu_proxy = None, cu_ready = False, cu_sent = [],
      cu_events = []\<rparr>"

definition orphanClientProxy :: "ClientProxyUnknown \<Rightarrow> ClientProxy option \<times> ClientProxyUnknown" where
  "orphanClientProxy u =
     (if cu_ready u then (cu_proxy u, u\<lparr>cu_handlers := False, cu_proxy := None\<rparr>) else (None, u))"

definition sendSuccess :: "ClientProxyUnknown \<Rightarrow> ClientProxyUnknown" where
  "sendSuccess u = u\<lparr>cu_ready := True, cu_timer := False, cu_events := cu_events u @ [Success]\<rparr>"

definition sendFailure :: "ClientProxyUnknown \<Rightarrow> ClientProxyUnknown" where
  "sendFailure u = u\<lparr>cu_proxy := None, cu_ready := False, cu_handlers := False, cu_timer := False,
     cu_events := cu_events u @ [Failure]\<rparr>"

text \<open>The three ways out of the \<^verbatim>\<open>try\<close> block.\<close>

datatype hello_error = XIncompatibleClient int int | BadClient | OtherError

definition hello_reply :: "'s stream_ops \<Rightarrow> nat \<Rightarrow> 's \<Rightarrow> (hello_error + (nat \<times> string)) \<times> 's" where
  "hello_reply ops pending s =
     (if pending > kMaxHelloLength then (Inl BadClient, s)
      else (case readf (so_read ops) kMsgHelloBack s of
          (outs, Inl XBadClient, s') \<Rightarrow> (Inl BadClient, s')
        | (outs, Inl _, s') \<Rightarrow> (Inl OtherError, s')
        | (outs, Inr False, s') \<Rightarrow> (Inl BadClient, s')
        | (outs, Inr True, s') \<Rightarrow>
            (case outs of
               [R16 major, R16 minor, RStr name] \<Rightarrow>
                 if sint major \<le> 0 \<or> sint minor < 0 then (Inl (XIncompatibleClient (sint major) (sint minor)), s')
                 else if sint major = 1 \<and> sint minor \<le> 6 then (Inr (nat (sint minor), chars_of name), s')
                 else (Inl (XIncompatibleClient (sint major) (sint minor)), s')
             | _ \<Rightarrow> (Inl OtherError, s'))))"

text \<open>\<open>pending\<close> is \<^verbatim>\<open>m_stream->getSize()\<close>; \<open>new_proxy\<close> constructs the proxy of a minor version.\<close>

definition cu_handleData ::
    "'s stream_ops \<Rightarrow> (nat \<Rightarrow> string \<Rightarrow> ClientProxy) \<Rightarrow> nat \<Rightarrow> ClientProxyUnknown \<Rightarrow> 's \<Rightarrow> ClientProxyUnknown \<times> 's" where
  "cu_handleData ops new_proxy pending u s =
     (case hello_reply ops pending s of
        (Inr (minor, name), s') \<Rightarrow> (u\<lparr>cu_handlers := True, cu_proxy := Some (new_proxy minor name), cu_ownsStream := False\<rparr>, s')
      | (Inl (XIncompatibleClient _ _), s') \<Rightarrow> (sendFailure (cu_write kMsgEIncompatible version_args u), s')
      | (Inl BadClient, s') \<Rightarrow> (sendFailure (cu_write kMsgEBad [] u), s')
      | (Inl OtherError, s') \<Rightarrow> (sendFailure u, s'))"

definition cu_handleReady :: "ClientProxyUnknown \<Rightarrow> ClientProxyUnknown" where
  "cu_handleReady u = sendSuccess u"

definition cu_handleFailure :: "ClientProxyUnknown \<Rightarrow> ClientProxyUnknown" where
  "cu_handleFailure u = sendFailure u"

end
