(* ===== verification/Peer_Link.thy ===== *)
theory Peer_Link
  imports Client_Peer Proxy_Motion
begin

text \<open>
  The two ends together: what the server asks of a client through the proxy of protocol version 1.6 is what
  \<^verbatim>\<open>ServerProxy\<close> asks of the client on the other side, at the widths of the protocol.
\<close>

section \<open>Writing\<close>

lemma write_ints:
  assumes "list_all symmetric_token ts" and "map snd (conversions ts) = replicate (length vs) (CHR ''i'')"
  shows "\<exists>b. writef_void_loop ts (map WInt vs) = Inr b \<and> length b \<le> 4 * length ts"
  using assms
proof (induction ts arbitrary: vs)
  case (Cons t ts)
  show ?case
  proof (cases t)
    case (Lit c)
    with Cons.prems Cons.IH [of vs] show ?thesis by auto
  next
    case (Conv len k)
    with Cons.prems obtain v ws where vs: "vs = v # ws" "k = CHR ''i''" "len_ok len"
      "map snd (conversions ts) = replicate (length ws) (CHR ''i'')"
      by (cases vs) auto
    with Cons.prems(1) Cons.IH [of ws] obtain b where b: "writef_void_loop ts (map WInt ws) = Inr b" "length b \<le> 4 * length ts"
      by auto
    obtain d where "writef_void_conv len k (map WInt vs) = Inr (d, map WInt ws)" "length d \<le> 4"
      using vs by (auto simp: writef_void_conv_def len_ok_def)
    with b Conv show ?thesis by auto
  qed
qed simp

lemma writef_message:
  assumes m: "m \<in> set protocol_messages" and w: "writef_void m args = Inr b" "length b < two32"
    and args: "WStr None \<notin> set args"
  shows "writef m args = Inr (Some b)"
proof -
  have c: "CHR ''%'' \<notin> set (take 4 m)" "4 \<le> length m" "string_last (fmt_tokens m)"
    using m message_codes protocol_messages_ok by (auto simp: list_all_iff)
  have "fmt_tokens m = map Lit (take 4 m) @ fmt_tokens (drop 4 m)"
    using fmt_tokens_code [OF c(1), of "drop 4 m"] by simp
  then have "b \<noteq> []"
    using w(1) c(2) by (auto simp: writef_void_def writef_void_code bytes_of_def split: sum.splits)
  then show ?thesis using writef_total [OF c(3) args w] by simp
qed

lemma fmt_tokens_length: "length (fmt_tokens m) \<le> length m"
proof (induction m rule: fmt_tokens.induct)
  case (2 c cs)
  show ?case
  proof (cases "c = CHR ''%''")
    case True
    obtain len r where e: "eatLength cs = (len, r)" by force
    then have "length r \<le> length cs" using eatLength_loop_length by (auto simp: eatLength_def)
    with True e "2.IH"(1) [OF True e [symmetric]] show ?thesis by (cases r) (auto intro: le_trans)
  qed (use "2.IH" in auto)
qed simp

lemma message_short: "list_all (\<lambda>m. length m \<le> 64) protocol_messages"
  by (simp add: protocol_messages_def kMsg_defs)

lemma writef_ints:
  assumes m: "m \<in> set protocol_messages" and k: "map snd (conversions (fmt_tokens m)) = replicate (length vs) (CHR ''i'')"
  shows "\<exists>b. writef m (map WInt vs) = Inr (Some b)"
proof -
  have "list_all symmetric_token (fmt_tokens m)" "length (fmt_tokens m) \<le> 64"
    using m protocol_messages_ok message_short fmt_tokens_length [of m] by (auto simp: list_all_iff)
  with write_ints [OF _ k] obtain b where "writef_void m (map WInt vs) = Inr b" "length b < two32"
    by (fastforce simp: writef_void_def)
  from writef_message [OF m this] show ?thesis by auto
qed

lemma int_messages:
  "map snd (conversions (fmt_tokens kMsgCEnter)) = ''iiii''"
  "map snd (conversions (fmt_tokens kMsgCLeave)) = []"
  "map snd (conversions (fmt_tokens kMsgCResetOptions)) = []"
  "map snd (conversions (fmt_tokens kMsgCClipboard)) = ''ii''"
  "map snd (conversions (fmt_tokens kMsgCScreenSaver)) = ''i''"
  "map snd (conversions (fmt_tokens kMsgDKeyDown)) = ''iii''"
  "map snd (conversions (fmt_tokens kMsgDKeyUp)) = ''iii''"
  "map snd (conversions (fmt_tokens kMsgDKeyRepeat)) = ''iiii''"
  "map snd (conversions (fmt_tokens kMsgDMouseDown)) = ''i''"
  "map snd (conversions (fmt_tokens kMsgDMouseUp)) = ''i''"
  "map snd (conversions (fmt_tokens kMsgDMouseMove)) = ''ii''"
  "map snd (conversions (fmt_tokens kMsgDMouseRelMove)) = ''ii''"
  "map snd (conversions (fmt_tokens kMsgDMouseWheel)) = ''ii''"
  by (simp_all add: kMsg_defs eatLength_def digit_of_def)

lemma cp_write_sent:
  "writef m args = Inr (Some b) \<Longrightarrow> cp_write m args p = p\<lparr>cp_sent := cp_sent p @ [b]\<rparr>"
  by (simp add: cp_write_def)

text \<open>Options are a vector of words.\<close>

lemma writef_options:
  assumes "length opts \<le> PROTOCOL_MAX_LIST_LENGTH"
  shows "\<exists>b. writef kMsgDSetOptions [WVec32 opts] = Inr (Some b)"
proof -
  have l: "length (write_counted writeUInt32 opts) = 4 + 4 * length opts"
    using assms by (simp add: write_counted_def Let_def length_concat_const unat_of_nat)
  have "writef_void kMsgDSetOptions [WVec32 opts] = Inr (bytes_of ''DSOP'' @ write_counted writeUInt32 opts)"
    by (simp add: writef_void_def kMsg_defs eatLength_def digit_of_def writef_void_conv_def bytes_of_def)
  moreover have "length (bytes_of ''DSOP'' @ write_counted writeUInt32 opts) < two32"
    using l assms by (simp add: PROTOCOL_MAX_LIST_LENGTH_def)
  ultimately have "writef kMsgDSetOptions [WVec32 opts] = Inr (Some (bytes_of ''DSOP'' @ write_counted writeUInt32 opts))"
    by (intro writef_message) (auto simp: protocol_messages_def)
  then show ?thesis ..
qed

section \<open>Key translation with the identity table\<close>

lemma table_entry_identity:
  "sp_modifierTranslationTable p = identity_table \<Longrightarrow> i < 7 \<Longrightarrow> length xs = 7 \<Longrightarrow> table_entry p i xs = Some (xs ! i)"
  by (simp add: table_entry_def identity_table_def kKeyModifierIDLast_def Let_def unat_of_nat)

lemma translateKey_identity:
  assumes "sp_modifierTranslationTable p = identity_table"
  shows "translateKey p key = Some key"
proof -
  have "map_option (\<lambda>(l, r). if b then r else l) (table_entry p i s_translationTable) = Some key"
    if "modifier_key key = Some (i, b)" for i b
    using that
    by (auto simp: modifier_key_def table_entry_identity [OF assms] s_translationTable_def split: if_splits)
  then show ?thesis by (simp add: translateKey_def split: option.split)
qed

lemma single_bit: "(if bits AND 2 ^ i \<noteq> 0 then new OR 2 ^ i else new) = new OR (bits AND 2 ^ i)" for bits :: UInt32
proof (cases "bit bits i")
  case True
  then have "bits AND 2 ^ i = 2 ^ i"
    by (intro bit_word_eqI) (auto simp: bit_and_iff bit_exp_iff)
  moreover have "i < 32" using True bit_imp_le_length [of bits i] by simp
  ultimately show ?thesis by auto
next
  case False
  then have "bits AND 2 ^ i = 0"
    by (intro bit_word_eqI) (auto simp: bit_and_iff bit_exp_iff)
  then show ?thesis by simp
qed

lemma translateModifierMask_identity:
  assumes "sp_modifierTranslationTable p = identity_table"
  shows "translateModifierMask p bits = Some bits"
proof -
  let ?M = "1 OR 2 OR 4 OR 8 OR 16 OR 32 :: UInt32"
  note e = table_entry_identity [OF assms, of _ s_masks]
  have s: "translate_bits p bits ((2 ^ k, i) # ms) new = translate_bits p bits ms (new OR (bits AND 2 ^ k))"
    if "i < 7" "s_masks ! i = 2 ^ k" for k i ms new
    using that e [of i] single_bit [of bits k new] by (auto simp: s_masks_def split: if_splits)
  have "translateModifierMask p bits = translate_bits p bits
      [(2 ^ 0, 1), (2 ^ 1, 2), (2 ^ 2, 3), (2 ^ 5, 6), (2 ^ 3, 4), (2 ^ 4, 5)] (bits AND NOT ?M)"
    by (simp add: translateModifierMask_def KeyModifierShift_def KeyModifierControl_def KeyModifierAlt_def
        KeyModifierMeta_def KeyModifierSuper_def KeyModifierAltGr_def)
  also have "\<dots> = Some ((bits AND NOT ?M) OR (bits AND 2 ^ 0) OR (bits AND 2 ^ 1) OR (bits AND 2 ^ 2) OR (bits AND 2 ^ 5) OR
      (bits AND 2 ^ 3) OR (bits AND 2 ^ 4))"
    by (subst s, simp, simp add: s_masks_def KeyModifierShift_def KeyModifierControl_def KeyModifierAlt_def
        KeyModifierMeta_def KeyModifierSuper_def KeyModifierAltGr_def)+
       (simp add: ac_simps)
  also have "\<dots> = Some (bits AND (NOT ?M OR (2 ^ 0 OR 2 ^ 1 OR 2 ^ 2 OR 2 ^ 5 OR 2 ^ 3 OR 2 ^ 4)))"
    by (simp only: bit.conj_disj_distrib or.assoc)
  also have "2 ^ 0 OR 2 ^ 1 OR 2 ^ 2 OR 2 ^ 5 OR 2 ^ 3 OR 2 ^ 4 = ?M" by simp
  also have "Some (bits AND (NOT ?M OR ?M)) = Some bits" by (simp only: bit.disj_cancel_left bit.conj_one_right)
  finally show ?thesis .
qed

section \<open>One message\<close>

lemma is_code_bytes: "is_code (bytes_of c) m \<longleftrightarrow> take 4 c = take 4 m"
  by (simp add: is_code_def bytes_of_def take_map inj_map_eq_map inj_on_def)

lemma flush_idle: "sp_listening p \<Longrightarrow> flushCompressedMouse p = p"
  by (simp add: flushCompressedMouse_def sp_listening_def)

lemma flush_quiet:
  "\<not> sp_compressMouse p \<Longrightarrow> \<not> sp_compressMouseRelative p \<Longrightarrow> flushCompressedMouse p = p"
  by (simp add: flushCompressedMouse_def)

context message_source
begin

lemma one_message:
  assumes s: "here s [] [b]" and m: "m \<in> set protocol_messages" and w: "writef m args = Inr (Some b)"
    and args: "WStr None \<notin> set args" "list_all within_limits args" and p: "\<not> sp_handshake p"
    and h: "message_handler ops cv (bytes_of (take 4 m)) = Some h"
    and step: "\<And>s1. here s1 (drop 4 b) [] \<Longrightarrow> \<exists>s2. h p s1 = (Inr (), p', s2) \<and> here s2 [] []"
    and quiet: "\<not> sp_compressMouse p'" "\<not> sp_compressMouseRelative p'"
  shows "\<exists>s'. handleData ops cv p s = Some (Inr (), sp_write kMsgCNoop [] p', s') \<and> here s' [] []"
proof -
  note wm = written_message [OF m w args]
  have "\<exists>s2. handleData ops cv p s = handleData ops cv (sp_write kMsgCNoop [] p') s2 \<and> here s2 [] []"
  proof (rule handleData_message [OF s])
    fix s1
    assume "here s1 (drop 4 b) []"
    from step [OF this] h p wm
    show "\<exists>s2. sp_parser ops cv (take 4 b) p s1 = (Inr kOkay, sp_write kMsgCNoop [] p', s2) \<and> here s2 [] []"
      by (auto simp: sp_parser_def parseMessage_def)
  qed (use wm in simp)
  then obtain s2 where s2: "handleData ops cv p s = handleData ops cv (sp_write kMsgCNoop [] p') s2" "here s2 [] []"
    by blast
  have "flushCompressedMouse (sp_write kMsgCNoop [] p') = sp_write kMsgCNoop [] p'"
    using quiet by (intro flush_quiet) simp_all
  with handleData_end [OF s2(2), of cv "sp_write kMsgCNoop [] p'"] s2(1) show ?thesis
    by (simp add: done_with_def)
qed

text \<open>A handler that reads its values with \<open>recv\<close>.\<close>

lemma one_received:
  assumes "here s [] [b]" and "m \<in> set protocol_messages" and "writef m args = Inr (Some b)"
    and "WStr None \<notin> set args" "list_all within_limits args" and "\<not> sp_handshake p"
    and "message_handler ops cv (bytes_of (take 4 m)) = Some h"
    and "\<And>s1. h p s1 = recv ops (drop 4 m) k p s1"
    and "k (sent_values (fmt_tokens (drop 4 m)) args) p = (Inr (), p')"
    and "\<not> sp_compressMouse p'" "\<not> sp_compressMouseRelative p'"
  shows "\<exists>s'. handleData ops cv p s = Some (Inr (), sp_write kMsgCNoop [] p', s') \<and> here s' [] []"
  using recv_written [OF _ assms(2-5), where k = k and p = p and p' = p' and r = "Inr ()"] assms(8,9)
  by (intro one_message [OF assms(1-7) _ assms(10,11)]) auto

lemma one_motion:
  assumes "here s [] [b]" and "m \<in> set protocol_messages" and "writef m args = Inr (Some b)"
    and "WStr None \<notin> set args" "list_all within_limits args" and "\<not> sp_handshake p"
    and "message_handler ops cv (bytes_of (take 4 m)) = Some h"
    and "\<And>s1. h p s1 = recv_motion ops (drop 4 m) moved p s1"
    and "sent_values (fmt_tokens (drop 4 m)) args = [R16 x, R16 y]"
    and "\<not> sp_compressMouse (moved False (sint x) (sint y) p)" "\<not> sp_compressMouseRelative (moved False (sint x) (sint y) p)"
  shows "\<exists>s'. handleData ops cv p s =
      Some (Inr (), sp_write kMsgCNoop [] (moved False (sint x) (sint y) p), s') \<and> here s' [] []"
proof (rule one_message [OF assms(1-7) _ assms(10,11)])
  fix s1
  assume "here s1 (drop 4 b) []"
  then obtain s2 where s2: "readf (so_read ops) (drop 4 m) s1 = ([R16 x, R16 y], Inr True, s2)" "here s2 [] []"
    using readf_at written_message [OF assms(2-5)] assms(9) by metis
  with at_ready [OF s2(2)] assms(8)
  show "\<exists>s2. h p s1 = (Inr (), moved False (sint x) (sint y) p, s2) \<and> here s2 [] []"
    by (auto simp: recv_motion_def done_with_def)
qed

end

section \<open>Calls across the link\<close>

text \<open>The call of a client's method that a server output stands for.\<close>

fun peer_do :: "srv_output \<Rightarrow> ClientProxy \<Rightarrow> (proxy_err + ClientProxy) option" where
  "peer_do (Leave _) p = Some (Inr (snd (cp_leave p)))"
| "peer_do (Enter _ x y seqNum m _) p = Some (Inr (cp_enter x y seqNum m p))"
| "peer_do (MouseMove _ x y) p = Some (Inr (cp_mouseMove x y p))"
| "peer_do (MouseRelativeMove _ x y) p = Some (Inr (cp_mouseRelativeMove x y p))"
| "peer_do (MouseDown _ b) p = Some (Inr (cp_mouseDown b p))"
| "peer_do (MouseUp _ b) p = Some (Inr (cp_mouseUp b p))"
| "peer_do (MouseWheel _ x y) p = Some (Inr (cp_mouseWheel x y p))"
| "peer_do (KeyDown _ key m b) p = Some (Inr (cp_keyDown key m b p))"
| "peer_do (KeyUp _ key m b) p = Some (Inr (cp_keyUp key m b p))"
| "peer_do (KeyRepeat _ key m n b) p = Some (Inr (cp_keyRepeat key m n b p))"
| "peer_do (GrabClipboard _ i) p = Some (cp_grabClipboard i p)"
| "peer_do (Screensaver _ on) p = Some (Inr (cp_screensaver on p))"
| "peer_do (ResetOptions _) p = Some (Inr (cp_resetOptions p))"
| "peer_do (SetOptions _ opts) p = Some (cp_setOptions opts p)"
| "peer_do (SetClipboard _ i c) p = Some (cp_setClipboard i c p)"
| "peer_do (SetClipboardDirty _ i d) p = Some (setClipboardDirty i d p)"
| "peer_do (CloseClient _ msg) p = Some (Inr (cp_close msg p))"
| "peer_do _ p = None"

definition low16 :: "UInt32 \<Rightarrow> UInt32" where
  "low16 v = ucast (ucast v :: UInt16)"

text \<open>The call that reaches the client: coordinates, keys and masks are cut to 16 bits.\<close>

fun remote_call :: "srv_output \<Rightarrow> client_call option" where
  "remote_call (Leave _) = Some CLeave"
| "remote_call (Enter _ x y seqNum m _) = Some (CEnter (to_SInt16 x) (to_SInt16 y) seqNum (low16 m) False)"
| "remote_call (MouseMove _ x y) = Some (CMouseMove (to_SInt16 x) (to_SInt16 y))"
| "remote_call (MouseRelativeMove _ x y) = Some (CMouseRelativeMove (to_SInt16 x) (to_SInt16 y))"
| "remote_call (MouseDown _ b) = Some (CMouseDown b)"
| "remote_call (MouseUp _ b) = Some (CMouseUp b)"
| "remote_call (MouseWheel _ x y) = Some (CMouseWheel (to_SInt16 x) (to_SInt16 y))"
| "remote_call (KeyDown _ key m b) = Some (CKeyDown (low16 key) (low16 m) b)"
| "remote_call (KeyUp _ key m b) = Some (CKeyUp (low16 key) (low16 m) b)"
| "remote_call (KeyRepeat _ key m n b) = Some (CKeyRepeat (low16 key) (low16 m) (n mod 65536) b)"
| "remote_call (GrabClipboard _ i) = (if i < 2 then Some (CGrabClipboard (word_of_nat i)) else None)"
| "remote_call (Screensaver _ on) = Some (CScreensaver on)"
| "remote_call (ResetOptions _) = Some CResetOptions"
| "remote_call (SetOptions _ opts) =
     (if even (length opts) \<and> length opts \<le> PROTOCOL_MAX_LIST_LENGTH then Some (CSetOptions opts) else None)"
| "remote_call _ = None"

lemma to_SInt16_wire: "sint (ucast (word_of_int v :: UInt32) :: UInt16) = to_SInt16 v"
proof -
  have "(ucast (word_of_int v :: UInt32) :: UInt16) = word_of_int v"
    by (rule bit_word_eqI) (simp add: bit_ucast_iff bit_word_of_int_iff)
  then show ?thesis by (simp add: to_SInt16_def)
qed

lemma codes:
  "take 4 kMsgCEnter = ''CINN''" "take 4 kMsgCLeave = ''COUT''" "take 4 kMsgDMouseMove = ''DMMV''"
  "take 4 kMsgDMouseRelMove = ''DMRM''" "take 4 kMsgDMouseDown = ''DMDN''" "take 4 kMsgDMouseUp = ''DMUP''"
  "take 4 kMsgDMouseWheel = ''DMWM''" "take 4 kMsgDKeyDown = ''DKDN''" "take 4 kMsgDKeyUp = ''DKUP''"
  "take 4 kMsgDKeyRepeat = ''DKRP''" "take 4 kMsgCClipboard = ''CCLP''" "take 4 kMsgCScreenSaver = ''CSEC''"
  "take 4 kMsgCResetOptions = ''CROP''" "take 4 kMsgDSetOptions = ''DSOP''" "take 4 kMsgCKeepAlive = ''CALV''"
  "take 4 kMsgCNoop = ''CNOP''" "take 4 kMsgQInfo = ''QINF''" "take 4 kMsgCInfoAck = ''CIAK''"
  "take 4 kMsgDClipboard = ''DCLP''"
  by (simp_all add: kMsg_defs)

lemma handler_of:
  "message_handler ops cv (bytes_of (take 4 kMsgCEnter)) = Some (sp_enter ops)"
  "message_handler ops cv (bytes_of (take 4 kMsgCLeave)) = Some (\<lambda>p. done_with (sp_leave p))"
  "message_handler ops cv (bytes_of (take 4 kMsgDMouseMove)) = Some (sp_mouseMove ops)"
  "message_handler ops cv (bytes_of (take 4 kMsgDMouseRelMove)) = Some (sp_mouseRelativeMove ops)"
  "message_handler ops cv (bytes_of (take 4 kMsgDMouseDown)) = Some (sp_mouseDown ops)"
  "message_handler ops cv (bytes_of (take 4 kMsgDMouseUp)) = Some (sp_mouseUp ops)"
  "message_handler ops cv (bytes_of (take 4 kMsgDMouseWheel)) = Some (sp_mouseWheel ops)"
  "message_handler ops cv (bytes_of (take 4 kMsgDKeyDown)) = Some (sp_keyDown ops)"
  "message_handler ops cv (bytes_of (take 4 kMsgDKeyUp)) = Some (sp_keyUp ops)"
  "message_handler ops cv (bytes_of (take 4 kMsgDKeyRepeat)) = Some (sp_keyRepeat ops)"
  "message_handler ops cv (bytes_of (take 4 kMsgCClipboard)) = Some (sp_grabClipboard ops)"
  "message_handler ops cv (bytes_of (take 4 kMsgCScreenSaver)) = Some (sp_screensaver ops)"
  "message_handler ops cv (bytes_of (take 4 kMsgCResetOptions)) = Some (\<lambda>p. done_with (sp_resetOptions p))"
  "message_handler ops cv (bytes_of (take 4 kMsgDSetOptions)) = Some (sp_setOptions ops)"
  by (simp_all add: message_handler_def is_code_bytes codes split del: if_split)

text \<open>What \<^verbatim>\<open>readf\<close> stores for the arguments of each message.\<close>

lemma values_sent:
  "sent_values (fmt_tokens (drop 4 kMsgCEnter)) [WInt a, WInt b, WInt c, WInt d] =
     [R16 (ucast a), R16 (ucast b), R32 c, R16 (ucast d)]"
  "sent_values (fmt_tokens (drop 4 kMsgDMouseMove)) [WInt a, WInt b] = [R16 (ucast a), R16 (ucast b)]"
  "sent_values (fmt_tokens (drop 4 kMsgDMouseRelMove)) [WInt a, WInt b] = [R16 (ucast a), R16 (ucast b)]"
  "sent_values (fmt_tokens (drop 4 kMsgDMouseWheel)) [WInt a, WInt b] = [R16 (ucast a), R16 (ucast b)]"
  "sent_values (fmt_tokens (drop 4 kMsgDMouseDown)) [WInt a] = [R8 (ucast a)]"
  "sent_values (fmt_tokens (drop 4 kMsgDMouseUp)) [WInt a] = [R8 (ucast a)]"
  "sent_values (fmt_tokens (drop 4 kMsgDKeyDown)) [WInt a, WInt b, WInt c] = [R16 (ucast a), R16 (ucast b), R16 (ucast c)]"
  "sent_values (fmt_tokens (drop 4 kMsgDKeyUp)) [WInt a, WInt b, WInt c] = [R16 (ucast a), R16 (ucast b), R16 (ucast c)]"
  "sent_values (fmt_tokens (drop 4 kMsgDKeyRepeat)) [WInt a, WInt b, WInt c, WInt d] =
     [R16 (ucast a), R16 (ucast b), R16 (ucast c), R16 (ucast d)]"
  "sent_values (fmt_tokens (drop 4 kMsgCClipboard)) [WInt a, WInt c] = [R8 (ucast a), R32 c]"
  "sent_values (fmt_tokens (drop 4 kMsgCScreenSaver)) [WInt a] = [R8 (ucast a)]"
  "sent_values (fmt_tokens (drop 4 kMsgDSetOptions)) [WVec32 v] = [RVec32 v]"
  by (simp_all add: kMsg_defs eatLength_def digit_of_def sent_value_def)

lemma ucast_16_32 [simp]: "(ucast (ucast (b :: UInt16) :: UInt32) :: UInt16) = b"
  by (rule bit_word_eqI) (simp add: bit_ucast_iff)

lemma apply_options_even:
  "even (length opts) \<Longrightarrow> \<exists>p'. apply_options opts p = (Inr (), p') \<and> sp_calls p' = sp_calls p \<and>
    sp_compressMouse p' = sp_compressMouse p \<and> sp_compressMouseRelative p' = sp_compressMouseRelative p"
proof (induction opts p rule: apply_options.induct)
  case (3 opt v opts p)
  then show ?case
    by (auto simp: setKeepAliveRate_def resetKeepAliveAlarm_def split: option.split)
qed auto

context message_source
begin

text \<open>\<open>reaches\<close>: the loop consumes the only packet and makes exactly one call.\<close>

definition reaches :: "ClientView \<Rightarrow> ServerProxy \<Rightarrow> 's \<Rightarrow> client_call \<Rightarrow> bool" where
  "reaches cv p s call \<longleftrightarrow> (\<exists>p' s'. handleData ops cv p s = Some (Inr (), p', s') \<and>
     sp_calls p' = sp_calls p @ [call] \<and> here s' [] [])"

lemma reachesI:
  assumes "\<exists>s'. handleData ops cv p s = Some (Inr (), sp_write kMsgCNoop [] p', s') \<and> here s' [] []"
    and "sp_calls p' = sp_calls p @ [call]"
  shows "reaches cv p s call"
proof -
  have "sp_calls (sp_write kMsgCNoop [] p') = sp_calls p'"
    by (simp add: sp_write_def split: sum.split option.split)
  with assms show ?thesis by (auto simp: reaches_def)
qed

lemma reaches_told:
  assumes s: "here s [] [b]" and m: "m \<in> set protocol_messages" and w: "writef m (map WInt vs) = Inr (Some b)"
    and p: "sp_listening p" and h: "message_handler ops cv (bytes_of (take 4 m)) = Some h"
    and k: "\<And>s1. h p s1 = recv ops (drop 4 m) k p s1"
    and told: "k (sent_values (fmt_tokens (drop 4 m)) (map WInt vs)) p = told call p1"
    and p1: "sp_calls p1 = sp_calls p" "\<not> sp_compressMouse p1" "\<not> sp_compressMouseRelative p1"
  shows "reaches cv p s call"
proof -
  have "list_all within_limits (map WInt vs)" "WStr None \<notin> set (map WInt vs)" by (auto simp: list_all_iff)
  then show ?thesis
    using p told p1
    by (intro reachesI [OF one_received [OF s m w _ _ _ h k, where p' = "sp_call call p1"]])
       (auto simp: sp_listening_def told_def sp_call_def)
qed

lemma reaches_moved:
  assumes s: "here s [] [b]" and m: "m \<in> set protocol_messages" and w: "writef m (map WInt vs) = Inr (Some b)"
    and p: "sp_listening p" and h: "message_handler ops cv (bytes_of (take 4 m)) = Some h"
    and k: "\<And>s1. h p s1 = recv_motion ops (drop 4 m) moved p s1"
    and vs: "sent_values (fmt_tokens (drop 4 m)) (map WInt vs) = [R16 x, R16 y]"
    and moved: "moved False (sint x) (sint y) p = sp_call call p"
  shows "reaches cv p s call"
proof -
  have "list_all within_limits (map WInt vs)" "WStr None \<notin> set (map WInt vs)" by (auto simp: list_all_iff)
  then show ?thesis
    using p moved
    by (intro reachesI [OF one_motion [OF s m w _ _ _ h k vs]])
       (auto simp: sp_listening_def sp_call_def)
qed

lemma sent_one:
  assumes "writef m args = Inr (Some b)" and "peer_do out cp = Some (Inr cp')" and "cp_sent cp' = cp_sent (cp_write m args cp)"
    and "here s [] (drop (length (cp_sent cp)) (cp_sent cp'))"
  shows "here s [] [b]"
  using assms by (simp add: cp_write_sent)

text \<open>Outputs whose message has only numbers: the general case, for handlers and for motions.\<close>

lemma number_reaches:
  assumes m: "m \<in> set protocol_messages" and c: "map snd (conversions (fmt_tokens m)) = replicate (length vs) (CHR ''i'')"
    and do: "peer_do out cp = Some (Inr cp')" and sent: "cp_sent cp' = cp_sent (cp_write m (map WInt vs) cp)"
    and s: "here s [] (drop (length (cp_sent cp)) (cp_sent cp'))"
    and p: "sp_listening p" and h: "message_handler ops cv (bytes_of (take 4 m)) = Some h"
    and k: "\<And>s1. h p s1 = recv ops (drop 4 m) k p s1"
    and told: "k (sent_values (fmt_tokens (drop 4 m)) (map WInt vs)) p = told call p1"
    and p1: "sp_calls p1 = sp_calls p" "\<not> sp_compressMouse p1" "\<not> sp_compressMouseRelative p1"
  shows "reaches cv p s call"
proof -
  obtain b where w: "writef m (map WInt vs) = Inr (Some b)" using writef_ints [OF m c] by blast
  from reaches_told [OF sent_one [OF w do sent s] m w p h k told p1] show ?thesis .
qed

lemma motion_reaches:
  assumes m: "m \<in> set protocol_messages" and c: "map snd (conversions (fmt_tokens m)) = replicate (length vs) (CHR ''i'')"
    and do: "peer_do out cp = Some (Inr cp')" and sent: "cp_sent cp' = cp_sent (cp_write m (map WInt vs) cp)"
    and s: "here s [] (drop (length (cp_sent cp)) (cp_sent cp'))"
    and p: "sp_listening p" and h: "message_handler ops cv (bytes_of (take 4 m)) = Some h"
    and k: "\<And>s1. h p s1 = recv_motion ops (drop 4 m) moved p s1"
    and vs: "sent_values (fmt_tokens (drop 4 m)) (map WInt vs) = [R16 x, R16 y]"
    and moved: "moved False (sint x) (sint y) p = sp_call call p"
  shows "reaches cv p s call"
proof -
  obtain b where w: "writef m (map WInt vs) = Inr (Some b)" using writef_ints [OF m c] by blast
  from reaches_moved [OF sent_one [OF w do sent s] m w p h k vs moved] show ?thesis .
qed

text \<open>The handlers as \<open>recv\<close>, when no motion is pending.\<close>

lemma handlers_recv:
  assumes "sp_listening p"
  shows "\<exists>k. (\<forall>s. sp_enter ops p s = recv ops (drop 4 kMsgCEnter) k p s) \<and>
      (\<forall>x y q m. k [R16 x, R16 y, R32 q, R16 m] p = told (CEnter (sint x) (sint y) q (ucast m) False)
        (p\<lparr>sp_compressMouse := False, sp_compressMouseRelative := False, sp_dxMouse := 0, sp_dyMouse := 0, sp_seqNum := q\<rparr>))"
    "\<exists>k. (\<forall>s. sp_mouseDown ops p s = recv ops (drop 4 kMsgDMouseDown) k p s) \<and> (\<forall>b. k [R8 b] p = told (CMouseDown b) p)"
    "\<exists>k. (\<forall>s. sp_mouseUp ops p s = recv ops (drop 4 kMsgDMouseUp) k p s) \<and> (\<forall>b. k [R8 b] p = told (CMouseUp b) p)"
    "\<exists>k. (\<forall>s. sp_mouseWheel ops p s = recv ops (drop 4 kMsgDMouseWheel) k p s) \<and>
      (\<forall>x y. k [R16 x, R16 y] p = told (CMouseWheel (sint x) (sint y)) p)"
    "\<exists>k. (\<forall>s. sp_screensaver ops p s = recv ops (drop 4 kMsgCScreenSaver) k p s) \<and> (\<forall>b. k [R8 b] p = told (CScreensaver (b \<noteq> 0)) p)"
    "\<exists>k. (\<forall>s. sp_grabClipboard ops p s = recv ops (drop 4 kMsgCClipboard) k p s) \<and>
      (\<forall>i q. i < kClipboardEnd \<longrightarrow> k [R8 i, R32 q] p = told (CGrabClipboard i) p)"
  using assms
  by (auto simp: sp_enter_def sp_mouseDown_def sp_mouseUp_def sp_mouseWheel_def sp_screensaver_def sp_grabClipboard_def flush_idle
      intro!: exI conjI)

lemma keys_recv:
  assumes "sp_listening p" and "sp_modifierTranslationTable p = identity_table"
  shows "\<exists>k. (\<forall>s. sp_keyDown ops p s = recv ops (drop 4 kMsgDKeyDown) k p s) \<and>
      (\<forall>a b c. k [R16 a, R16 b, R16 c] p = told (CKeyDown (ucast a) (ucast b) c) p)"
    "\<exists>k. (\<forall>s. sp_keyUp ops p s = recv ops (drop 4 kMsgDKeyUp) k p s) \<and>
      (\<forall>a b c. k [R16 a, R16 b, R16 c] p = told (CKeyUp (ucast a) (ucast b) c) p)"
    "\<exists>k. (\<forall>s. sp_keyRepeat ops p s = recv ops (drop 4 kMsgDKeyRepeat) k p s) \<and>
      (\<forall>a b n c. k [R16 a, R16 b, R16 n, R16 c] p = told (CKeyRepeat (ucast a) (ucast b) (uint n) c) p)"
  using assms
  by (auto simp: sp_keyDown_def sp_keyUp_def sp_keyRepeat_def flush_idle translated_def translateKey_identity
      translateModifierMask_identity intro!: exI conjI)

lemma enter_reaches:
  assumes do: "peer_do out cp = Some (Inr cp')" and p: "sp_listening p"
    and s: "here s [] (drop (length (cp_sent cp)) (cp_sent cp'))"
    and o: "out = Enter c x y seqNum mods ss"
  shows "reaches cv p s (CEnter (to_SInt16 x) (to_SInt16 y) seqNum (low16 mods) False)"
proof -
  note reach = number_reaches [OF _ _ do _ s p]
  have idle: "\<not> sp_compressMouse p" "\<not> sp_compressMouseRelative p" using p by (simp_all add: sp_listening_def)
  obtain k where "\<forall>s. sp_enter ops p s = recv ops (drop 4 kMsgCEnter) k p s"
    "\<forall>x y q m. k [R16 x, R16 y, R32 q, R16 m] p = told (CEnter (sint x) (sint y) q (ucast m) False)
      (p\<lparr>sp_compressMouse := False, sp_compressMouseRelative := False, sp_dxMouse := 0, sp_dyMouse := 0, sp_seqNum := q\<rparr>)"
    using handlers_recv(1) [OF p] by blast
  then show ?thesis
    using do o
    by (intro reach [OF is_message(1) _ _ handler_of(1), where vs = "[word_of_int x, word_of_int y, seqNum, mods]" and k = k and
        ?p1.0 = "p\<lparr>sp_compressMouse := False, sp_compressMouseRelative := False, sp_dxMouse := 0, sp_dyMouse := 0, sp_seqNum := seqNum\<rparr>"])
       (auto simp: int_messages cp_enter_def values_sent to_SInt16_wire low16_def)
qed

lemma button_reaches:
  assumes do: "peer_do out cp = Some (Inr cp')" and p: "sp_listening p"
    and s: "here s [] (drop (length (cp_sent cp)) (cp_sent cp'))"
    and o: "out = MouseDown c btn \<and> call = CMouseDown btn \<or> out = MouseUp c btn \<and> call = CMouseUp btn"
  shows "reaches cv p s call"
proof -
  note reach = number_reaches [OF _ _ do _ s p]
  have idle: "\<not> sp_compressMouse p" "\<not> sp_compressMouseRelative p" using p by (simp_all add: sp_listening_def)
  show ?thesis
    using o
  proof (elim disjE conjE)
    assume o: "out = MouseDown c btn" and call: "call = CMouseDown btn"
    obtain k where "\<forall>s. sp_mouseDown ops p s = recv ops (drop 4 kMsgDMouseDown) k p s" "\<forall>b. k [R8 b] p = told (CMouseDown b) p"
      using handlers_recv(2) [OF p] by blast
    then show ?thesis
      using do o idle call
      by (intro reach [OF is_message(6) _ _ handler_of(5), where vs = "[ucast btn]" and k = k])
         (auto simp: int_messages cp_mouseDown_def values_sent)
  next
    assume o: "out = MouseUp c btn" and call: "call = CMouseUp btn"
    obtain k where "\<forall>s. sp_mouseUp ops p s = recv ops (drop 4 kMsgDMouseUp) k p s" "\<forall>b. k [R8 b] p = told (CMouseUp b) p"
      using handlers_recv(3) [OF p] by blast
    then show ?thesis
      using do o idle call
      by (intro reach [OF is_message(7) _ _ handler_of(6), where vs = "[ucast btn]" and k = k])
         (auto simp: int_messages cp_mouseUp_def values_sent)
  qed
qed

lemma screensaver_reaches:
  assumes do: "peer_do out cp = Some (Inr cp')" and p: "sp_listening p"
    and s: "here s [] (drop (length (cp_sent cp)) (cp_sent cp'))"
    and o: "out = Screensaver c on"
  shows "reaches cv p s (CScreensaver on)"
proof -
  note reach = number_reaches [OF _ _ do _ s p]
  have idle: "\<not> sp_compressMouse p" "\<not> sp_compressMouseRelative p" using p by (simp_all add: sp_listening_def)
  obtain k where "\<forall>s. sp_screensaver ops p s = recv ops (drop 4 kMsgCScreenSaver) k p s"
    "\<forall>b. k [R8 b] p = told (CScreensaver (b \<noteq> 0)) p"
    using handlers_recv(5) [OF p] by blast
  then show ?thesis
    using do o idle
    by (intro reach [OF is_message(11) _ _ handler_of(12), where vs = "[if on then 1 else 0]" and k = k])
       (auto simp: int_messages cp_screensaver_def values_sent)
qed

lemma wheel_reaches:
  assumes do: "peer_do out cp = Some (Inr cp')" and p: "sp_listening p"
    and s: "here s [] (drop (length (cp_sent cp)) (cp_sent cp'))"
    and o: "out = MouseWheel c x y" and v: "cp_minor cp = 6"
  shows "reaches cv p s (CMouseWheel (to_SInt16 x) (to_SInt16 y))"
proof -
  note reach = number_reaches [OF _ _ do _ s p]
  have idle: "\<not> sp_compressMouse p" "\<not> sp_compressMouseRelative p" using p by (simp_all add: sp_listening_def)
  obtain k where "\<forall>s. sp_mouseWheel ops p s = recv ops (drop 4 kMsgDMouseWheel) k p s"
    "\<forall>x y. k [R16 x, R16 y] p = told (CMouseWheel (sint x) (sint y)) p"
    using handlers_recv(4) [OF p] by blast
  then show ?thesis
    using do o idle v
    by (intro reach [OF is_message(10) _ _ handler_of(7), where vs = "[word_of_int x, word_of_int y]" and k = k])
       (auto simp: int_messages cp_mouseWheel_def values_sent to_SInt16_wire)
qed

lemma grab_reaches:
  assumes do: "peer_do out cp = Some (Inr cp')" and p: "sp_listening p"
    and s: "here s [] (drop (length (cp_sent cp)) (cp_sent cp'))"
    and o: "out = GrabClipboard c i" and i: "i < 2"
  shows "reaches cv p s (CGrabClipboard (word_of_nat i))"
proof -
  note reach = number_reaches [OF _ _ do _ s p]
  have idle: "\<not> sp_compressMouse p" "\<not> sp_compressMouseRelative p" using p by (simp_all add: sp_listening_def)
  obtain k where "\<forall>s. sp_grabClipboard ops p s = recv ops (drop 4 kMsgCClipboard) k p s"
    "\<forall>i q. i < kClipboardEnd \<longrightarrow> k [R8 i, R32 q] p = told (CGrabClipboard i) p"
    using handlers_recv(6) [OF p] by blast
  moreover have "(ucast (word_of_nat i :: UInt32) :: UInt8) = word_of_nat i" "(word_of_nat i :: UInt8) < kClipboardEnd"
    using i by (auto simp: less_2_cases_iff kClipboardEnd_def)
  ultimately show ?thesis
    using do o idle
    by (intro reach [OF is_message(2) _ _ handler_of(11), where vs = "[word_of_nat i, 0]" and k = k])
       (auto simp: int_messages cp_grabClipboard_def values_sent Let_def split: if_splits)
qed

lemma key_reaches:
  assumes do: "peer_do out cp = Some (Inr cp')" and p: "sp_listening p"
    and s: "here s [] (drop (length (cp_sent cp)) (cp_sent cp'))"
    and table: "sp_modifierTranslationTable p = identity_table" and v: "cp_minor cp = 6"
    and o: "out = KeyDown c key mods btn \<and> call = CKeyDown (low16 key) (low16 mods) btn \<or>
      out = KeyUp c key mods btn \<and> call = CKeyUp (low16 key) (low16 mods) btn"
  shows "reaches cv p s call"
proof -
  note reach = number_reaches [OF _ _ do _ s p]
  have idle: "\<not> sp_compressMouse p" "\<not> sp_compressMouseRelative p" using p by (simp_all add: sp_listening_def)
  show ?thesis
    using o
  proof (elim disjE conjE)
    assume o: "out = KeyDown c key mods btn" and call: "call = CKeyDown (low16 key) (low16 mods) btn"
    obtain k where "\<forall>s. sp_keyDown ops p s = recv ops (drop 4 kMsgDKeyDown) k p s"
      "\<forall>a b c. k [R16 a, R16 b, R16 c] p = told (CKeyDown (ucast a) (ucast b) c) p"
      using keys_recv(1) [OF p table] by blast
    then show ?thesis
      using do o idle call v
      by (intro reach [OF is_message(3) _ _ handler_of(8), where vs = "[key, mods, ucast btn]" and k = k])
         (auto simp: int_messages cp_keyDown_def values_sent low16_def)
  next
    assume o: "out = KeyUp c key mods btn" and call: "call = CKeyUp (low16 key) (low16 mods) btn"
    obtain k where "\<forall>s. sp_keyUp ops p s = recv ops (drop 4 kMsgDKeyUp) k p s"
      "\<forall>a b c. k [R16 a, R16 b, R16 c] p = told (CKeyUp (ucast a) (ucast b) c) p"
      using keys_recv(2) [OF p table] by blast
    then show ?thesis
      using do o idle call v
      by (intro reach [OF is_message(4) _ _ handler_of(9), where vs = "[key, mods, ucast btn]" and k = k])
         (auto simp: int_messages cp_keyUp_def values_sent low16_def)
  qed
qed

lemma repeat_reaches:
  assumes do: "peer_do out cp = Some (Inr cp')" and p: "sp_listening p"
    and s: "here s [] (drop (length (cp_sent cp)) (cp_sent cp'))"
    and table: "sp_modifierTranslationTable p = identity_table" and v: "cp_minor cp = 6"
    and o: "out = KeyRepeat c key mods n btn"
  shows "reaches cv p s (CKeyRepeat (low16 key) (low16 mods) (n mod 65536) btn)"
proof -
  note reach = number_reaches [OF _ _ do _ s p]
  have idle: "\<not> sp_compressMouse p" "\<not> sp_compressMouseRelative p" using p by (simp_all add: sp_listening_def)
  obtain k where "\<forall>s. sp_keyRepeat ops p s = recv ops (drop 4 kMsgDKeyRepeat) k p s"
    "\<forall>a b n c. k [R16 a, R16 b, R16 n, R16 c] p = told (CKeyRepeat (ucast a) (ucast b) (uint n) c) p"
    using keys_recv(3) [OF p table] by blast
  moreover have "uint (ucast (word_of_int n :: UInt32) :: UInt16) = n mod 65536"
    by (simp add: uint_word_of_int unsigned_ucast_eq take_bit_eq_mod mod_mod_cancel)
  ultimately show ?thesis
    using do o idle v
    by (intro reach [OF is_message(5) _ _ handler_of(10), where vs = "[key, mods, word_of_int n, ucast btn]" and k = k])
       (auto simp: int_messages cp_keyRepeat_def values_sent low16_def)
qed

lemma move_reaches:
  assumes do: "peer_do out cp = Some (Inr cp')" and p: "sp_listening p"
    and s: "here s [] (drop (length (cp_sent cp)) (cp_sent cp'))" and v: "cp_minor cp = 6"
    and o: "out = MouseMove c x y \<and> call = CMouseMove (to_SInt16 x) (to_SInt16 y) \<or>
      out = MouseRelativeMove c x y \<and> call = CMouseRelativeMove (to_SInt16 x) (to_SInt16 y)"
  shows "reaches cv p s call"
proof -
  note reach = motion_reaches [OF _ _ do _ s p]
  have moved: "mouse_moved False a b p = sp_call (CMouseMove a b) p" "mouse_moved_relative False a b p = sp_call (CMouseRelativeMove a b) p" for a b
    using p by (simp_all add: sp_listening_def mouse_moved_def mouse_moved_relative_def)
  show ?thesis
    using o
  proof (elim disjE conjE)
    assume "out = MouseMove c x y" "call = CMouseMove (to_SInt16 x) (to_SInt16 y)"
    with do show ?thesis
      by (intro reach [OF is_message(8) _ _ handler_of(3), where vs = "[word_of_int x, word_of_int y]" and moved = mouse_moved])
         (auto simp: int_messages cp_mouseMove_def sp_mouseMove_def values_sent moved to_SInt16_wire)
  next
    assume "out = MouseRelativeMove c x y" "call = CMouseRelativeMove (to_SInt16 x) (to_SInt16 y)"
    with do v show ?thesis
      by (intro reach [OF is_message(9) _ _ handler_of(4), where vs = "[word_of_int x, word_of_int y]" and moved = mouse_moved_relative])
         (auto simp: int_messages cp_mouseRelativeMove_def sp_mouseRelativeMove_def values_sent moved to_SInt16_wire)
  qed
qed

text \<open>Messages without values.\<close>

lemma plain_reaches:
  assumes do: "peer_do out cp = Some (Inr cp')" and p: "sp_listening p"
    and s: "here s [] (drop (length (cp_sent cp)) (cp_sent cp'))"
    and o: "out = Leave c \<and> call = CLeave \<or> out = ResetOptions c \<and> call = CResetOptions"
  shows "reaches cv p s call"
proof -
  have idle: "\<not> sp_compressMouse p" "\<not> sp_compressMouseRelative p" "\<not> sp_handshake p" "flushCompressedMouse p = p"
    using p flush_idle by (simp_all add: sp_listening_def)
  have plain: "reaches cv p s call"
    if m: "m \<in> set protocol_messages" "m = take 4 m" and sent: "cp_sent cp' = cp_sent (cp_write m [] cp)"
      and c: "conversions (fmt_tokens m) = []"
      and h: "message_handler ops cv (bytes_of (take 4 m)) = Some (\<lambda>p. done_with (f p))"
      and f: "sp_calls (f p) = sp_calls p @ [call]" "\<not> sp_compressMouse (f p)" "\<not> sp_compressMouseRelative (f p)" for m f
  proof -
    obtain b where w: "writef m [] = Inr (Some b)" using writef_ints [OF m(1), of "[]"] c by auto
    have "drop 4 m = []" using m(2) by (metis append_take_drop_id self_append_conv)
    then have "drop 4 b = []"
      using written_message [OF m(1) w] by (simp add: readf_def vreadf_def)
    then have "\<exists>s2. done_with (f p) s1 = (Inr (), f p, s2) \<and> here s2 [] []" if "here s1 (drop 4 b) []" for s1
      using that by (simp add: done_with_def)
    from reachesI [OF one_message [OF sent_one [OF w do sent s] m(1) w _ _ idle(3) h this f(2,3)] f(1)] show ?thesis
      by simp
  qed
  show ?thesis
    using o
  proof (elim disjE conjE)
    assume "out = Leave c" "call = CLeave"
    with do idle show ?thesis
      by (intro plain [OF _ _ _ _ handler_of(2)])
         (auto simp: cp_leave_def handler_of sp_leave_def sp_call_def protocol_messages_def kMsgCLeave_def)
  next
    assume "out = ResetOptions c" "call = CResetOptions"
    with do idle show ?thesis
      by (intro plain [OF _ _ _ _ handler_of(13)])
         (auto simp: cp_resetOptions_def handler_of sp_resetOptions_def sp_call_def setKeepAliveRate_def resetKeepAliveAlarm_def
            addHeartbeatTimer_def addHeartbeatTimer1_0_def removeHeartbeatTimer_def removeHeartbeatTimer1_0_def
            resetHeartbeatRate_def setHeartbeatRate_def setHeartbeatRate1_0_def setHeartbeatRate1_3_def
            protocol_messages_def kMsgCResetOptions_def)
  qed
qed

lemma heartbeat_sent: "heartbeat_options opts p = Inr p' \<Longrightarrow> cp_sent p' = cp_sent p"
proof (induction opts p rule: heartbeat_options.induct)
  case (3 opt v opts p)
  then show ?case
    by (auto simp: Let_def addHeartbeatTimer_def addHeartbeatTimer1_0_def removeHeartbeatTimer_def removeHeartbeatTimer1_0_def
        setHeartbeatRate_def setHeartbeatRate1_0_def setHeartbeatRate1_3_def split: if_splits)
qed (auto split: if_splits)

lemma options_reach:
  assumes do: "peer_do out cp = Some (Inr cp')" and p: "sp_listening p"
    and s: "here s [] (drop (length (cp_sent cp)) (cp_sent cp'))"
    and o: "out = SetOptions c opts" "even (length opts)" "length opts \<le> PROTOCOL_MAX_LIST_LENGTH"
  shows "reaches cv p s (CSetOptions opts)"
proof -
  obtain b where w: "writef kMsgDSetOptions [WVec32 opts] = Inr (Some b)" using writef_options [OF o(3)] by blast
  have sent: "cp_sent cp' = cp_sent (cp_write kMsgDSetOptions [WVec32 opts] cp)"
    using do o(1) heartbeat_sent by (auto simp: cp_setOptions_def)
  obtain p' where u: "apply_options opts (sp_call (CSetOptions opts) p) = (Inr (), p')"
    "sp_calls p' = sp_calls p @ [CSetOptions opts]" "\<not> sp_compressMouse p'" "\<not> sp_compressMouseRelative p'"
    using apply_options_even [OF o(2), of "sp_call (CSetOptions opts) p"] p
    by (auto simp: sp_call_def sp_listening_def)
  have args: "WStr None \<notin> set [WVec32 opts]" "list_all within_limits [WVec32 opts]" using o(3) by simp_all
  have "\<exists>s2. sp_setOptions ops p s1 = (Inr (), p', s2) \<and> here s2 [] []" if s1: "here s1 (drop 4 b) []" for s1
  proof -
    obtain s2 where "readf (so_read ops) (drop 4 kMsgDSetOptions) s1 = ([RVec32 opts], Inr True, s2)" "here s2 [] []"
      using readf_at [OF s1] written_message [OF is_message(14) w args] values_sent(12) by metis
    with u(1) show ?thesis by (auto simp: sp_setOptions_def Let_def)
  qed
  from reachesI [OF one_message [OF sent_one [OF w do sent s] is_message(14) w args _ handler_of(14) this u(3,4)] u(2)] p
  show ?thesis by (simp add: sp_listening_def)
qed

lemma output_reaches:
  assumes v: "cp_minor cp = 6" and do: "peer_do out cp = Some (Inr cp')" and call: "remote_call out = Some call"
    and p: "sp_listening p" "sp_modifierTranslationTable p = identity_table"
    and s: "here s [] (drop (length (cp_sent cp)) (cp_sent cp'))"
  shows "reaches cv p s call"
  using call
proof (cases rule: remote_call.elims)
qed (use v do p s enter_reaches [OF do p(1) s] button_reaches [OF do p(1) s] screensaver_reaches [OF do p(1) s]
    wheel_reaches [OF do p(1) s _ v] grab_reaches [OF do p(1) s] key_reaches [OF do p(1) s p(2) v]
    repeat_reaches [OF do p(1) s p(2) v] move_reaches [OF do p(1) s v] plain_reaches [OF do p(1) s]
    options_reach [OF do p(1) s] in \<open>auto split: if_splits\<close>)

end


definition cp_example :: ClientProxy where
  "cp_example = ClientProxy_new 6 ''b'' \<lparr>in_x = 0, in_y = 0, in_w = 1, in_h = 1, in_mx = 0, in_my = 0\<rparr>
     \<lparr>rx_cached = [], rx_id = 0, rx_sequence = 0, rx_expected = 0\<rparr> \<lparr>frx_received = [], frx_expected = 0\<rparr>"


end
