(* ===== verification/Client_Core.thy ===== *)
theory Client_Core
  imports Client_Peer
begin

text \<open>
  The client, \<^verbatim>\<open>client/Client.cpp\<close>: how a connection is made, greeted, used, lost and suspended, and what the client
  does with the calls of \<^verbatim>\<open>ServerProxy\<close>.  The stream and the timer are present or not; event handlers
  are flags.  What the screen is told and which events are raised are recorded in order.  A failing
  assertion, a null pointer and an index out of range are \<open>None\<close>.
\<close>

section \<open>State\<close>

datatype screen_call =
    ScrMouseMove int int
  | ScrEnter UInt32
  | ScrLeave
  | ScrSetClipboard nat Clipboard
  | ScrGrabClipboard nat
  | ScrKeyDown UInt32 UInt32 UInt16
  | ScrKeyRepeat UInt32 UInt32 int UInt16
  | ScrKeyUp UInt32 UInt32 UInt16
  | ScrMouseDown UInt8
  | ScrMouseUp UInt8
  | ScrMouseRelativeMove int int
  | ScrMouseWheel int int
  | ScrScreensaver bool
  | ScrResetOptions
  | ScrSetOptions "UInt32 list"
  | ScrEnable
  | ScrDisable
  | ScrDragInfo UInt32 bytes

datatype client_event =
    EvConnected
  | EvDisconnected
  | EvConnectionFailed string
  | EvInputReady
  | EvClipboardSending chunk_event
  | EvFileReceived
  | EvServerAddresses bytes

record Client =
  cl_name :: string
  cl_crypto :: bool
  cl_stream :: bool
  cl_timer :: bool
  cl_server :: "ServerProxy option"
  cl_ready :: bool
  cl_active :: bool
  cl_suspended :: bool
  cl_connectOnResume :: bool
  cl_restartable :: bool
  cl_enableClipboard :: bool
  cl_ownClipboard :: "bool list"
  cl_sentClipboard :: "bool list"
  cl_timeClipboard :: "ClipTime list"
  cl_dataClipboard :: "bytes list"
  cl_sendFileThread :: bool
  cl_lastCopiedFile :: string
  cl_clipStatics :: clip_rx
  cl_fileData :: file_rx
  cl_onConnected :: bool
  cl_onSecureConnected :: bool
  cl_onFailed :: bool
  cl_onStream :: bool
  cl_onScreen :: bool
  cl_sent :: "bytes list"
  cl_screen :: "screen_call list"
  cl_events :: "client_event list"

text \<open>What the client asks its surroundings: the screen's clipboard, a local file named by clipboard text, the last file received
  and the drag information for a file.\<close>

record ClientEnv =
  ce_getClipboard :: "nat \<Rightarrow> Clipboard \<Rightarrow> Clipboard"
  ce_localFile :: "bytes \<Rightarrow> string"
  ce_lastReceived :: string
  ce_dragInfo :: "string \<Rightarrow> UInt32 \<times> bytes"

text \<open>The constructor leaves the clipboard flags, times and the expected file size unset; they are arguments.\<close>

definition Client_new :: "string \<Rightarrow> bool \<Rightarrow> bool \<Rightarrow> bool list \<Rightarrow> bool list \<Rightarrow> ClipTime list \<Rightarrow> clip_rx \<Rightarrow> file_rx \<Rightarrow> Client" where
  "Client_new name crypto restartable own sent time cr fr =
     \<lparr>cl_name = name, cl_crypto = crypto, cl_stream = False, cl_timer = False, cl_server = None, cl_ready = False,
      cl_active = False, cl_suspended = False, cl_connectOnResume = False, cl_restartable = restartable,
      cl_enableClipboard = True, cl_ownClipboard = own, cl_sentClipboard = sent, cl_timeClipboard = time,
      cl_dataClipboard = [[], []], cl_sendFileThread = False, cl_lastCopiedFile = [], cl_clipStatics = cr, cl_fileData = fr,
      cl_onConnected = False, cl_onSecureConnected = False, cl_onFailed = False, cl_onStream = False, cl_onScreen = False,
      cl_sent = [], cl_screen = [], cl_events = []\<rparr>"

definition cl_raise :: "client_event \<Rightarrow> Client \<Rightarrow> Client" where
  "cl_raise e c = c\<lparr>cl_events := cl_events c @ [e]\<rparr>"

definition cl_tell :: "screen_call \<Rightarrow> Client \<Rightarrow> Client" where
  "cl_tell x c = c\<lparr>cl_screen := cl_screen c @ [x]\<rparr>"

definition sendConnectionFailedEvent :: "string \<Rightarrow> Client \<Rightarrow> Client" where
  "sendConnectionFailedEvent msg c = cl_raise (EvConnectionFailed msg) c"

definition cl_isConnected :: "Client \<Rightarrow> bool" where
  "cl_isConnected c \<longleftrightarrow> cl_server c \<noteq> None"

definition cl_isConnecting :: "Client \<Rightarrow> bool" where
  "cl_isConnecting c \<longleftrightarrow> cl_timer c"

section \<open>Setting up and cleaning up\<close>

definition setupConnecting :: "Client \<Rightarrow> Client option" where
  "setupConnecting c =
     (if \<not> cl_stream c then None
      else Some ((if cl_crypto c then c\<lparr>cl_onSecureConnected := True\<rparr> else c\<lparr>cl_onConnected := True\<rparr>)\<lparr>cl_onFailed := True\<rparr>))"

definition setupConnection :: "Client \<Rightarrow> Client option" where
  "setupConnection c = (if \<not> cl_stream c then None else Some (c\<lparr>cl_onStream := True\<rparr>))"

definition setupScreen :: "Client \<Rightarrow> Client option" where
  "setupScreen c =
     (if cl_server c \<noteq> None then None
      else Some (c\<lparr>cl_ready := False, cl_server := Some (ServerProxy_new (cl_clipStatics c) (cl_fileData c)), cl_onScreen := True\<rparr>))"

definition setupTimer :: "Client \<Rightarrow> Client option" where
  "setupTimer c = (if cl_timer c then None else Some (c\<lparr>cl_timer := True\<rparr>))"

text \<open>\<^verbatim>\<open>cleanupConnecting\<close> does not remove the handler of \<^verbatim>\<open>secureConnected\<close>.\<close>

definition cleanupConnecting :: "Client \<Rightarrow> Client" where
  "cleanupConnecting c = (if cl_stream c then c\<lparr>cl_onConnected := False, cl_onFailed := False\<rparr> else c)"

definition cleanupStream :: "Client \<Rightarrow> Client" where
  "cleanupStream c = c\<lparr>cl_stream := False\<rparr>"

definition cleanupConnection :: "Client \<Rightarrow> Client" where
  "cleanupConnection c = (if cl_stream c then cleanupStream (c\<lparr>cl_onStream := False\<rparr>) else c)"

definition cleanupScreen :: "Client \<Rightarrow> Client" where
  "cleanupScreen c =
     (case cl_server c of
        None \<Rightarrow> c
      | Some p \<Rightarrow>
          let c1 = (if cl_ready c then (cl_tell ScrDisable c)\<lparr>cl_ready := False\<rparr> else c)
          in c1\<lparr>cl_onScreen := False, cl_server := None, cl_clipStatics := sp_clip p, cl_fileData := sp_file p\<rparr>)"

definition cleanupTimer :: "Client \<Rightarrow> Client" where
  "cleanupTimer c = c\<lparr>cl_timer := False\<rparr>"

section \<open>Connecting\<close>

text \<open>How far an attempt gets: resolving and creating the socket may throw, then starting to connect may.\<close>

datatype attempt = NoSocket string | NoConnect string | Connecting

definition connect_failed :: "string \<Rightarrow> Client \<Rightarrow> Client" where
  "connect_failed msg c = sendConnectionFailedEvent msg (cleanupStream (cleanupConnecting (cleanupTimer c)))"

definition cl_connect :: "attempt \<Rightarrow> Client \<Rightarrow> Client option" where
  "cl_connect att c =
     (if cl_stream c then Some c
      else if cl_suspended c then Some (c\<lparr>cl_connectOnResume := True\<rparr>)
      else (case att of
          NoSocket msg \<Rightarrow> Some (connect_failed msg c)
        | NoConnect msg \<Rightarrow> do {
            c1 \<leftarrow> setupConnecting (c\<lparr>cl_stream := True\<rparr>);
            c2 \<leftarrow> setupTimer c1;
            Some (connect_failed msg c2)
          }
        | Connecting \<Rightarrow> do {
            c1 \<leftarrow> setupConnecting (c\<lparr>cl_stream := True\<rparr>);
            setupTimer c1
          }))"

definition cl_disconnect :: "string option \<Rightarrow> Client \<Rightarrow> Client" where
  "cl_disconnect msg c =
     (let c1 = cleanupConnection (cleanupConnecting (cleanupScreen (cleanupTimer (c\<lparr>cl_connectOnResume := False\<rparr>))))
      in case msg of Some m \<Rightarrow> sendConnectionFailedEvent m c1 | None \<Rightarrow> cl_raise EvDisconnected c1)"

definition handshakeComplete :: "Client \<Rightarrow> Client" where
  "handshakeComplete c = cl_raise EvConnected (cl_tell ScrEnable (c\<lparr>cl_ready := True\<rparr>))"

definition handleConnected :: "Client \<Rightarrow> Client option" where
  "handleConnected c = do {
     c1 \<leftarrow> setupConnection (cleanupConnecting c);
     Some (c1\<lparr>cl_ownClipboard := map (\<lambda>_. False) (cl_ownClipboard c1), cl_sentClipboard := map (\<lambda>_. False) (cl_sentClipboard c1),
              cl_timeClipboard := map (\<lambda>_. 0) (cl_timeClipboard c1)\<rparr>)
   }"

definition handleConnectionFailed :: "string \<Rightarrow> Client \<Rightarrow> Client" where
  "handleConnectionFailed msg c = sendConnectionFailedEvent msg (cleanupStream (cleanupConnecting (cleanupTimer c)))"

definition handleConnectTimeout :: "Client \<Rightarrow> Client" where
  "handleConnectTimeout c =
     sendConnectionFailedEvent ''Timed out'' (cleanupStream (cleanupConnection (cleanupConnecting (cleanupTimer c))))"

definition handleOutputError :: "Client \<Rightarrow> Client" where
  "handleOutputError c = cl_raise EvDisconnected (cleanupConnection (cleanupScreen (cleanupTimer c)))"

definition handleDisconnected :: "Client \<Rightarrow> Client" where
  "handleDisconnected c = cl_raise EvDisconnected (cleanupConnection (cleanupScreen (cleanupTimer c)))"

text \<open>The greeting.  \<open>incompatible_what\<close> is the text of \<^verbatim>\<open>XIncompatibleClient\<close>.\<close>

definition hello_failed :: "string \<Rightarrow> Client \<Rightarrow> Client" where
  "hello_failed msg c = cleanupConnection (cleanupTimer (sendConnectionFailedEvent msg c))"

definition cl_write :: "string \<Rightarrow> warg list \<Rightarrow> Client \<Rightarrow> Client" where
  "cl_write fmt args c = (case writef fmt args of Inr (Some b) \<Rightarrow> c\<lparr>cl_sent := cl_sent c @ [b]\<rparr> | _ \<Rightarrow> c)"

definition cl_handleHello :: "'s stream_ops \<Rightarrow> (int \<Rightarrow> int \<Rightarrow> string) \<Rightarrow> Client \<Rightarrow> 's \<Rightarrow> (Client \<times> 's) option" where
  "cl_handleHello ops incompatible_what c s =
     (case readf (so_read ops) kMsgHello s of
        (outs, Inl e, s') \<Rightarrow> None
      | (outs, Inr False, s') \<Rightarrow>
          Some (hello_failed ''Protocol error from server, check encryption settings'' c, s')
      | (outs, Inr True, s') \<Rightarrow>
          (case outs of
             [R16 major, R16 minor] \<Rightarrow>
               if sint major < kProtocolMajorVersion \<or>
                  sint major = kProtocolMajorVersion \<and> sint minor < kProtocolMinorVersion
               then Some (hello_failed (incompatible_what (sint major) (sint minor)) c, s')
               else do {
                 c1 \<leftarrow> setupScreen (cl_write kMsgHelloBack (version_args @ [WStr (Some (bytes_of (cl_name c)))]) c);
                 let c2 = cleanupTimer c1;
                 Some (if so_isReady ops s' then cl_raise EvInputReady c2 else c2, s')
               }
           | _ \<Rightarrow> None))"

definition cl_handleSuspend :: "Client \<Rightarrow> Client" where
  "cl_handleSuspend c =
     (let wasConnected = cl_isConnected c
      in (cl_disconnect None (c\<lparr>cl_suspended := True\<rparr>))\<lparr>cl_connectOnResume := wasConnected\<rparr>)"

definition cl_handleResume :: "attempt \<Rightarrow> Client \<Rightarrow> Client option" where
  "cl_handleResume att c =
     (let c1 = c\<lparr>cl_suspended := False\<rparr>
      in if cl_connectOnResume c1 then cl_connect att (c1\<lparr>cl_connectOnResume := False\<rparr>) else Some c1)"

definition cl_handleStopRetry :: "Client \<Rightarrow> Client" where
  "cl_handleStopRetry c = c\<lparr>cl_restartable := False\<rparr>"

section \<open>Clipboards\<close>

text \<open>The end of \<^verbatim>\<open>sendClipboard\<close>: text that names a local file is offered to the server.\<close>

definition offer_local_file :: "ClientEnv \<Rightarrow> Clipboard \<Rightarrow> Client \<Rightarrow> Client option" where
  "offer_local_file env clipboard c = do {
     (opened, cb) \<leftarrow> of_clip (Clipboard_open 0 clipboard);
     if \<not> opened then Some c
     else do {
       hasText \<leftarrow> of_clip (Clipboard_has kText cb);
       if \<not> hasText then do { _ \<leftarrow> of_clip (Clipboard_close cb); Some c }
       else do {
         text \<leftarrow> of_clip (Clipboard_get kText cb);
         _ \<leftarrow> of_clip (Clipboard_close cb);
         let localFile = ce_localFile env text;
         if localFile \<noteq> [] \<and> localFile \<noteq> ce_lastReceived env \<and> localFile \<noteq> cl_lastCopiedFile c then do {
           p \<leftarrow> cl_server c;
           let (fileCount, info) = ce_dragInfo env localFile;
           Some (c\<lparr>cl_lastCopiedFile := localFile, cl_server := Some (sendDragInfo fileCount info (length info) p),
                   cl_sendFileThread := True\<rparr>)
         } else if localFile = [] then Some (c\<lparr>cl_lastCopiedFile := []\<rparr>)
         else Some c
       }
     }
   }"

definition sp_result :: "proxy_err + 'a \<Rightarrow> 'a option" where
  "sp_result r = (case r of Inl _ \<Rightarrow> None | Inr x \<Rightarrow> Some x)"

definition cl_sendClipboard :: "ClientEnv \<Rightarrow> nat \<Rightarrow> Client \<Rightarrow> Client option" where
  "cl_sendClipboard env i c =
     (if \<not> i < length (cl_timeClipboard c) then None
      else do {
        p \<leftarrow> cl_server c;
        (opened, cb1) \<leftarrow> of_clip (Clipboard_open (cl_timeClipboard c ! i) Clipboard_new);
        cb2 \<leftarrow> (if opened then of_clip (Clipboard_close cb1) else Some cb1);
        let clipboard = ce_getClipboard env i cb2;
        let c1 = c\<lparr>cl_timeClipboard := (cl_timeClipboard c)[i := Clipboard_getTime clipboard]\<rparr>;
        (data, clipboard') \<leftarrow> of_clip (Clipboard_marshall clipboard);
        if \<not> cl_sentClipboard c1 ! i \<or> data \<noteq> cl_dataClipboard c1 ! i then do {
          let c2 = c1\<lparr>cl_sentClipboard := (cl_sentClipboard c1)[i := True], cl_dataClipboard := (cl_dataClipboard c1)[i := data]\<rparr>;
          es \<leftarrow> sp_result (sp_onClipboardChanged (word_of_nat i) clipboard' p);
          offer_local_file env clipboard' (c2\<lparr>cl_events := cl_events c2 @ map EvClipboardSending es\<rparr>)
        } else Some c1
      })"

definition cl_handleClipboardGrabbed :: "ClientEnv \<Rightarrow> nat \<Rightarrow> Client \<Rightarrow> Client option" where
  "cl_handleClipboardGrabbed env i c =
     (if \<not> cl_enableClipboard c then Some c
      else do {
        p \<leftarrow> cl_server c;
        if \<not> i < length (cl_ownClipboard c) then None
        else do {
          let c1 = c\<lparr>cl_server := Some (snd (onGrabClipboard (word_of_nat i) p)), cl_ownClipboard := (cl_ownClipboard c)[i := True],
            cl_sentClipboard := (cl_sentClipboard c)[i := False], cl_timeClipboard := (cl_timeClipboard c)[i := 0]\<rparr>;
          if \<not> cl_active c1 then cl_sendClipboard env i c1 else Some c1
        }
      })"

definition cl_handleShapeChanged :: "ClientView \<Rightarrow> Client \<Rightarrow> Client option" where
  "cl_handleShapeChanged cv c = do { p \<leftarrow> cl_server c; Some (c\<lparr>cl_server := Some (onInfoChanged cv p)\<rparr>) }"

section \<open>Calls of the server\<close>

definition cl_enter :: "int \<Rightarrow> int \<Rightarrow> UInt32 \<Rightarrow> Client \<Rightarrow> Client" where
  "cl_enter x y m c =
     (cl_tell (ScrEnter m) (cl_tell (ScrMouseMove x y) (c\<lparr>cl_active := True\<rparr>)))\<lparr>cl_sendFileThread := False\<rparr>"

fun send_owned :: "ClientEnv \<Rightarrow> nat list \<Rightarrow> Client \<Rightarrow> Client option" where
  "send_owned env [] c = Some c"
| "send_owned env (i # is) c = do {
     c1 \<leftarrow> (if cl_ownClipboard c ! i then cl_sendClipboard env i c else Some c);
     send_owned env is c1
   }"

definition cl_leave :: "ClientEnv \<Rightarrow> Client \<Rightarrow> Client option" where
  "cl_leave env c =
     (let c1 = cl_tell ScrLeave (c\<lparr>cl_active := False\<rparr>)
      in if cl_enableClipboard c1 then send_owned env [0..<unat kClipboardEnd] c1 else Some c1)"

definition cl_setClipboard :: "nat \<Rightarrow> Clipboard \<Rightarrow> Client \<Rightarrow> Client option" where
  "cl_setClipboard i clipboard c =
     (if \<not> i < length (cl_ownClipboard c) then None
      else do {
        (data, clipboard') \<leftarrow> of_clip (Clipboard_marshall clipboard);
        Some ((cl_tell (ScrSetClipboard i clipboard) c)\<lparr>cl_ownClipboard := (cl_ownClipboard c)[i := False],
          cl_sentClipboard := (cl_sentClipboard c)[i := True], cl_dataClipboard := (cl_dataClipboard c)[i := data],
          cl_timeClipboard := (cl_timeClipboard c)[i := Clipboard_getTime clipboard']\<rparr>)
      })"

definition cl_grabClipboard :: "nat \<Rightarrow> Client \<Rightarrow> Client option" where
  "cl_grabClipboard i c =
     (if \<not> i < length (cl_ownClipboard c) then None
      else Some ((cl_tell (ScrGrabClipboard i) c)\<lparr>cl_ownClipboard := (cl_ownClipboard c)[i := False],
        cl_sentClipboard := (cl_sentClipboard c)[i := False]\<rparr>))"

text \<open>The loop of \<^verbatim>\<open>setOptions\<close> looks at every element, values included, and uses the one after the first match.\<close>

fun clipboard_sharing :: "UInt32 list \<Rightarrow> bool \<Rightarrow> bool option" where
  "clipboard_sharing [] enabled = Some enabled"
| "clipboard_sharing (opt # opts) enabled =
     (if opt = kOptionClipboardSharing then (case opts of [] \<Rightarrow> None | v # _ \<Rightarrow> Some (v \<noteq> 0))
      else clipboard_sharing opts enabled)"

definition cl_setOptions :: "UInt32 list \<Rightarrow> Client \<Rightarrow> Client option" where
  "cl_setOptions options c = do {
     enabled \<leftarrow> clipboard_sharing options (cl_enableClipboard c);
     Some (cl_tell (ScrSetOptions options) (c\<lparr>cl_enableClipboard := enabled\<rparr>))
   }"

text \<open>A call of \<^verbatim>\<open>ServerProxy\<close> on \<^verbatim>\<open>m_client\<close>.\<close>

fun client_do :: "ClientEnv \<Rightarrow> client_call \<Rightarrow> Client \<Rightarrow> Client option" where
  "client_do env (CEnter x y seqNum m ss) c = Some (cl_enter x y m c)"
| "client_do env CLeave c = cl_leave env c"
| "client_do env (CMouseMove x y) c = Some (cl_tell (ScrMouseMove x y) c)"
| "client_do env (CMouseRelativeMove x y) c = Some (cl_tell (ScrMouseRelativeMove x y) c)"
| "client_do env (CMouseWheel x y) c = Some (cl_tell (ScrMouseWheel x y) c)"
| "client_do env (CMouseDown b) c = Some (cl_tell (ScrMouseDown b) c)"
| "client_do env (CMouseUp b) c = Some (cl_tell (ScrMouseUp b) c)"
| "client_do env (CKeyDown key m b) c = Some (cl_tell (ScrKeyDown key m b) c)"
| "client_do env (CKeyRepeat key m n b) c = Some (cl_tell (ScrKeyRepeat key m n b) c)"
| "client_do env (CKeyUp key m b) c = Some (cl_tell (ScrKeyUp key m b) c)"
| "client_do env (CSetClipboard i clipboard) c = cl_setClipboard (unat i) clipboard c"
| "client_do env (CGrabClipboard i) c = cl_grabClipboard (unat i) c"
| "client_do env (CScreensaver on) c = Some (cl_tell (ScrScreensaver on) c)"
| "client_do env CResetOptions c = Some (cl_tell ScrResetOptions c)"
| "client_do env (CSetOptions opts) c = cl_setOptions opts c"
| "client_do env CHandshakeComplete c = Some (handshakeComplete c)"
| "client_do env (CDisconnect msg) c = Some (cl_disconnect msg c)"
| "client_do env CFileReceived c = Some (cl_raise EvFileReceived c)"
| "client_do env (CDragInfo n info) c = Some (cl_tell (ScrDragInfo n info) c)"
| "client_do env (CServerAddresses a) c = Some (cl_raise (EvServerAddresses a) c)"

text \<open>Disconnecting deletes the proxy; a later call from it would be undefined.\<close>

fun client_do_all :: "ClientEnv \<Rightarrow> client_call list \<Rightarrow> Client \<Rightarrow> Client option" where
  "client_do_all env [] c = Some c"
| "client_do_all env (x # xs) c = do { _ \<leftarrow> cl_server c; c1 \<leftarrow> client_do env x c; client_do_all env xs c1 }"

text \<open>
  Input from the server: the proxy handles it, then the client performs the proxy's calls in their order; in the code they are
  nested, so that a clipboard sent by \<^verbatim>\<open>leave\<close> carries the sequence number of that moment.  \<open>None\<close> is also the result when the
  proxy used a value that it had not received.
\<close>

definition cl_handleInput :: "ClientEnv \<Rightarrow> 's stream_ops \<Rightarrow> ClientView \<Rightarrow> Client \<Rightarrow> 's \<Rightarrow> (Client \<times> 's) option" where
  "cl_handleInput env ops cv c s = do {
     p \<leftarrow> cl_server c;
     (r, p', s') \<leftarrow> handleData ops cv p s;
     _ \<leftarrow> sp_result r;
     c' \<leftarrow> client_do_all env (drop (length (sp_calls p)) (sp_calls p')) (c\<lparr>cl_server := Some p'\<rparr>);
     Some (c', s')
   }"

end
