(* ===== verification/Client_Run.thy ===== *)
theory Client_Run
  imports Client_Core Proxy_Run
begin

text \<open>
  The client as a state machine.  An event is possible when its handler is installed; the reachable states keep the stream, the
  timer, the proxy and the handlers in step with each other.  A socket is assumed to report at most once
  that it is connected.
\<close>

section \<open>Events\<close>

datatype cl_event =
    ClConnect attempt
  | ClDisconnect "string option"
  | ClConnected
  | ClConnectionFailed string
  | ClTimeout
  | ClOutputError
  | ClDisconnected
  | ClHello PacketStreamFilter
  | ClInput PacketStreamFilter ClientView
  | ClShapeChanged ClientView
  | ClClipboardGrabbed nat
  | ClSuspend
  | ClResume attempt
  | ClStopRetry

fun cl_possible :: "cl_event \<Rightarrow> Client \<Rightarrow> bool" where
  "cl_possible ClConnected c \<longleftrightarrow> cl_stream c \<and> (cl_onConnected c \<or> cl_onSecureConnected c) \<and> \<not> cl_onStream c"
| "cl_possible (ClConnectionFailed _) c \<longleftrightarrow> cl_onFailed c"
| "cl_possible ClTimeout c \<longleftrightarrow> cl_timer c"
| "cl_possible ClOutputError c \<longleftrightarrow> cl_onStream c"
| "cl_possible ClDisconnected c \<longleftrightarrow> cl_onStream c"
| "cl_possible (ClHello f) c \<longleftrightarrow> cl_onStream c \<and> cl_server c = None \<and> psf_wf f"
| "cl_possible (ClInput f _) c \<longleftrightarrow> cl_onStream c \<and> cl_server c \<noteq> None \<and> psf_wf f"
| "cl_possible (ClShapeChanged _) c \<longleftrightarrow> cl_onScreen c"
| "cl_possible (ClClipboardGrabbed i) c \<longleftrightarrow> cl_onScreen c \<and> i < 2"
| "cl_possible _ c \<longleftrightarrow> True"

fun cl_handle :: "ClientEnv \<Rightarrow> size_t \<Rightarrow> (int \<Rightarrow> int \<Rightarrow> string) \<Rightarrow> cl_event \<Rightarrow> Client \<Rightarrow> Client option" where
  "cl_handle env junk what (ClConnect att) c = cl_connect att c"
| "cl_handle env junk what (ClDisconnect msg) c = Some (cl_disconnect msg c)"
| "cl_handle env junk what ClConnected c = handleConnected c"
| "cl_handle env junk what (ClConnectionFailed msg) c = Some (handleConnectionFailed msg c)"
| "cl_handle env junk what ClTimeout c = Some (handleConnectTimeout c)"
| "cl_handle env junk what ClOutputError c = Some (handleOutputError c)"
| "cl_handle env junk what ClDisconnected c = Some (handleDisconnected c)"
| "cl_handle env junk what (ClHello f) c = map_option fst (cl_handleHello (psf_ops junk) what c f)"
| "cl_handle env junk what (ClInput f cv) c = map_option fst (cl_handleInput env (psf_ops junk) cv c f)"
| "cl_handle env junk what (ClShapeChanged cv) c = cl_handleShapeChanged cv c"
| "cl_handle env junk what (ClClipboardGrabbed i) c = cl_handleClipboardGrabbed env i c"
| "cl_handle env junk what ClSuspend c = Some (cl_handleSuspend c)"
| "cl_handle env junk what (ClResume att) c = cl_handleResume att c"
| "cl_handle env junk what ClStopRetry c = Some (cl_handleStopRetry c)"

inductive cl_reachable :: "Client \<Rightarrow> bool" where
  start: "length own = 2 \<Longrightarrow> length sent = 2 \<Longrightarrow> length time = 2 \<Longrightarrow>
    cl_reachable (Client_new name crypto restartable own sent time cr fr)"
| step: "cl_reachable c \<Longrightarrow> cl_possible ev c \<Longrightarrow> cl_handle env junk what ev c = Some c' \<Longrightarrow> cl_reachable c'"

section \<open>The invariant\<close>

definition cl_arrays :: "Client \<Rightarrow> bool" where
  "cl_arrays c \<longleftrightarrow> length (cl_ownClipboard c) = 2 \<and> length (cl_sentClipboard c) = 2 \<and> length (cl_timeClipboard c) = 2 \<and>
     length (cl_dataClipboard c) = 2"

definition cl_link :: "Client \<Rightarrow> bool" where
  "cl_link c \<longleftrightarrow>
     (cl_stream c \<longrightarrow> cl_onStream c \<or> cl_onFailed c) \<and> (cl_onStream c \<longrightarrow> cl_stream c \<and> \<not> cl_onFailed c) \<and>
     (cl_onFailed c \<longrightarrow> cl_stream c) \<and> (cl_timer c \<longrightarrow> cl_stream c) \<and> (cl_suspended c \<longrightarrow> \<not> cl_stream c) \<and>
     (cl_connectOnResume c \<longrightarrow> cl_suspended c)"

definition cl_wf :: "Client \<Rightarrow> bool" where
  "cl_wf c \<longleftrightarrow> cl_arrays c \<and> cl_link c \<and>
     (case cl_server c of
        None \<Rightarrow> \<not> cl_onScreen c \<and> \<not> cl_ready c
      | Some p \<Rightarrow> cl_onScreen c \<and> cl_onStream c \<and> \<not> cl_timer c \<and> sp_wf p)"

lemmas cl_defs = cl_wf_def cl_link_def cl_arrays_def

lemmas cl_cleanup_defs = cleanupTimer_def cleanupStream_def cleanupConnecting_def cleanupConnection_def cleanupScreen_def
  sendConnectionFailedEvent_def cl_raise_def cl_tell_def Let_def

lemma cl_wf_disconnect: "cl_wf c \<Longrightarrow> cl_wf (cl_disconnect msg c)"
  by (auto simp: cl_disconnect_def cl_defs cl_cleanup_defs split: option.splits)

lemma cl_wf_lost:
  assumes "cl_wf c"
  shows "cl_timer c \<Longrightarrow> cl_wf (handleConnectTimeout c)" "cl_onStream c \<Longrightarrow> cl_wf (handleOutputError c)"
    "cl_onStream c \<Longrightarrow> cl_wf (handleDisconnected c)" "cl_onFailed c \<Longrightarrow> cl_wf (handleConnectionFailed msg c)"
  using assms
  by (auto simp: handleConnectTimeout_def handleOutputError_def handleDisconnected_def handleConnectionFailed_def
      cl_defs cl_cleanup_defs split: option.splits)

lemma cl_wf_connect:
  assumes "cl_wf c"
  shows "\<exists>c'. cl_connect att c = Some c' \<and> cl_wf c'"
  using assms
  by (auto simp: cl_connect_def connect_failed_def setupConnecting_def setupTimer_def cl_defs cl_cleanup_defs
      split: option.splits attempt.splits)

lemma cl_wf_connected:
  assumes "cl_wf c" and "cl_stream c" and "\<not> cl_onStream c"
  shows "\<exists>c'. handleConnected c = Some c' \<and> cl_wf c'"
  using assms
  by (auto simp: handleConnected_def setupConnection_def cleanupConnecting_def cl_defs split: option.splits)

lemma cl_wf_suspend: "cl_wf c \<Longrightarrow> cl_wf (cl_handleSuspend c)"
  by (auto simp: cl_handleSuspend_def cl_disconnect_def cl_isConnected_def cl_defs cl_cleanup_defs split: option.splits)

lemma cl_wf_resume: "cl_wf c \<Longrightarrow> \<exists>c'. cl_handleResume att c = Some c' \<and> cl_wf c'"
  using cl_wf_connect [of "c\<lparr>cl_suspended := False, cl_connectOnResume := False\<rparr>" att]
  by (auto simp: cl_handleResume_def cl_defs Let_def split: option.splits)

lemma sp_wf_info: "sp_wf p \<Longrightarrow> sp_wf (onInfoChanged cv p)"
  by (simp add: onInfoChanged_def queryInfo_def sendInfo_def split: prod.split)

lemma cl_wf_server:
  "cl_wf c \<Longrightarrow> cl_server c = Some p \<Longrightarrow> sp_wf p \<and> (sp_wf p' \<longrightarrow> cl_wf (c\<lparr>cl_server := Some p'\<rparr>))"
  by (auto simp: cl_defs)

lemma cl_wf_shape:
  assumes "cl_wf c" and "cl_onScreen c"
  shows "\<exists>c'. cl_handleShapeChanged cv c = Some c' \<and> cl_wf c'"
proof -
  obtain p where p: "cl_server c = Some p" using assms by (auto simp: cl_wf_def split: option.splits)
  with cl_wf_server [OF assms(1) p, of "onInfoChanged cv p"] sp_wf_info show ?thesis
    by (simp add: cl_handleShapeChanged_def)
qed

lemma cl_wf_fields:
  "cl_wf (c\<lparr>cl_sent := x\<rparr>) = cl_wf c" "cl_wf (c\<lparr>cl_screen := y\<rparr>) = cl_wf c" "cl_wf (c\<lparr>cl_events := z\<rparr>) = cl_wf c"
  "cl_wf (c\<lparr>cl_active := b\<rparr>) = cl_wf c" "cl_wf (c\<lparr>cl_sendFileThread := b\<rparr>) = cl_wf c" "cl_wf (c\<lparr>cl_lastCopiedFile := l\<rparr>) = cl_wf c"
  "cl_wf (c\<lparr>cl_enableClipboard := b\<rparr>) = cl_wf c" "cl_wf (c\<lparr>cl_restartable := b\<rparr>) = cl_wf c"
  by (simp_all add: cl_defs split: option.split)

text \<open>Numbers have no length that could exceed a limit.\<close>

lemma read_ints_outcome:
  "vreadf_loop bytes_read ts b = (vs, e, r) \<Longrightarrow> list_all symmetric_token ts \<Longrightarrow> list_all (\<lambda>(_, k). k = CHR ''i'') (conversions ts) \<Longrightarrow>
    e \<in> {None, Some XIOEndOfStream, Some XIOReadMismatch}"
proof (induction ts arbitrary: b vs e r)
  case (Cons t ts)
  show ?case
  proof (cases t)
    case (Lit c)
    with Cons show ?thesis by (auto simp: pu_read_bytes split: if_splits)
  next
    case (Conv len k)
    obtain v1 e1 r1 where c: "vreadf_conv bytes_read len k b = (v1, e1, r1)" by (metis prod_cases3)
    obtain v2 e2 r2 where l: "vreadf_loop bytes_read ts r1 = (v2, e2, r2)" by (metis prod_cases3)
    have "e1 \<in> {None, Some XIOEndOfStream}"
      using c Cons.prems Conv by (auto simp: vreadf_conv_def pu_read_bytes split: if_splits)
    with Cons.prems Cons.IH [OF l] c l Conv show ?thesis by auto
  qed
qed simp

lemma cl_wf_hello_failed: "cl_wf c \<Longrightarrow> cl_onStream c \<Longrightarrow> cl_server c = None \<Longrightarrow> cl_wf (hello_failed msg c)"
  by (simp add: hello_failed_def cl_defs cl_cleanup_defs)

lemma cl_wf_greeted:
  "cl_wf c \<Longrightarrow> cl_onStream c \<Longrightarrow> cl_server c = None \<Longrightarrow> \<exists>c1. setupScreen (cl_write fmt args c) = Some c1 \<and> cl_wf (cleanupTimer c1)"
  using sp_wf_new
  by (auto simp: setupScreen_def cl_write_def cleanupTimer_def cl_defs split: sum.split option.split)

lemma cl_wf_hello:
  assumes c: "cl_wf c" "cl_onStream c" "cl_server c = None" and f: "psf_wf f"
  shows "\<exists>c' f'. cl_handleHello (psf_ops junk) what c f = Some (c', f') \<and> cl_wf c'"
proof -
  obtain outs q f' where r: "readf PacketStreamFilter_read kMsgHello f = (outs, q, f')" by (metis prod_cases3)
  have sym: "list_all symmetric_token (fmt_tokens kMsgHello)"
    using protocol_messages_ok by (simp add: protocol_messages_def)
  have k: "conversions (fmt_tokens kMsgHello) = [(2, CHR ''i''), (2, CHR ''i'')]"
    by (simp add: kMsgHello_def eatLength_def digit_of_def)
  from psf_src.readf_same [OF f r] obtain e where l:
    "vreadf_loop bytes_read (fmt_tokens kMsgHello) (psf_avail f) = (outs, e, psf_avail f')"
    and q: "q = (case e of None \<Rightarrow> Inr True | Some x \<Rightarrow> if x = XIOEndOfStream \<or> x = XIOReadMismatch then Inr False else Inl x)"
    by (auto simp: readf_def vreadf_def split: prod.splits option.splits)
  have "q = Inr False \<or> q = Inr True \<and> (\<exists>x y. outs = [R16 x, R16 y])"
    using read_ints_outcome [OF l sym] vreadf_loop_kind [of "fmt_tokens kMsgHello" "psf_avail f" outs "psf_avail f'"] sym k l q
    by (auto simp: map_eq_Cons_conv rarg_kind_iff)
  then consider (refused) "q = Inr False" | (hello) x y where "q = Inr True" "outs = [R16 x, R16 y]" by blast
  then show ?thesis
  proof cases
    case refused
    with r cl_wf_hello_failed [OF c] show ?thesis by (simp add: cl_handleHello_def psf_ops_def)
  next
    case hello
    obtain c1 where "setupScreen (cl_write kMsgHelloBack (version_args @ [WStr (Some (bytes_of (cl_name c)))]) c) = Some c1"
      "cl_wf (cleanupTimer c1)" using cl_wf_greeted [OF c] by blast
    with hello r cl_wf_hello_failed [OF c] show ?thesis
      by (simp add: cl_handleHello_def psf_ops_def cl_raise_def cl_wf_fields Let_def)
  qed
qed

section \<open>Calls of the server keep it\<close>

lemma cl_wf_tell [simp]: "cl_wf (cl_tell x c) = cl_wf c" "cl_wf (cl_raise e c) = cl_wf c"
  by (simp_all add: cl_tell_def cl_raise_def cl_wf_fields)

lemma cl_wf_arrays:
  assumes "cl_wf c" and "length own = 2" and "length sent = 2" and "length time = 2" and "length data = 2"
  shows "cl_wf (c\<lparr>cl_ownClipboard := own, cl_sentClipboard := sent, cl_timeClipboard := time, cl_dataClipboard := data\<rparr>)"
  using assms by (auto simp: cl_defs split: option.split)

lemma cl_wf_lengths:
  "cl_wf c \<Longrightarrow> length (cl_ownClipboard c) = 2" "cl_wf c \<Longrightarrow> length (cl_sentClipboard c) = 2"
  "cl_wf c \<Longrightarrow> length (cl_timeClipboard c) = 2" "cl_wf c \<Longrightarrow> length (cl_dataClipboard c) = 2"
  by (simp_all add: cl_defs)

lemma cl_wf_array_updates:
  assumes "cl_wf c"
  shows "cl_wf (c\<lparr>cl_timeClipboard := (cl_timeClipboard c)[i := x]\<rparr>)"
    "cl_wf (c\<lparr>cl_sentClipboard := (cl_sentClipboard c)[i := b]\<rparr>)" "cl_wf (c\<lparr>cl_ownClipboard := (cl_ownClipboard c)[i := b]\<rparr>)"
    "cl_wf (c\<lparr>cl_dataClipboard := (cl_dataClipboard c)[i := d]\<rparr>)"
  using assms by (auto simp: cl_defs split: option.splits)

lemma cl_wf_offer:
  assumes o: "offer_local_file env cb c = Some c'" and c: "cl_wf c"
  shows "cl_wf c'"
proof -
  have "cl_wf (c\<lparr>cl_lastCopiedFile := l, cl_server := Some (sp_write fmt args p), cl_sendFileThread := b\<rparr>)"
    if "cl_server c = Some p" for l fmt args p b
    using c that by (auto simp: cl_defs)
  with o c show ?thesis
    by (auto simp: offer_local_file_def sendDragInfo_def cl_wf_fields Let_def split: Option.bind_splits if_splits prod.splits)
qed

lemma cl_wf_sendClipboard:
  assumes o: "cl_sendClipboard env i c = Some c'" and c: "cl_wf c"
  shows "cl_wf c'"
proof -
  have wf: "cl_wf (c\<lparr>cl_timeClipboard := (cl_timeClipboard c)[i := x], cl_sentClipboard := (cl_sentClipboard c)[i := True],
      cl_dataClipboard := (cl_dataClipboard c)[i := d], cl_events := es\<rparr>)" for x d es
    using c by (auto simp: cl_defs split: option.splits)
  have offer: "offer_local_file env cb c1 = Some c' \<Longrightarrow> cl_wf c1 \<longrightarrow> cl_wf c'" for cb c1
    using cl_wf_offer by blast
  show ?thesis
    using o cl_wf_array_updates(1) [OF c]
    by (auto simp: cl_sendClipboard_def Let_def wf split: Option.bind_splits if_splits dest!: offer)
qed

lemma cl_wf_send_owned: "send_owned env is c = Some c' \<Longrightarrow> cl_wf c \<Longrightarrow> cl_wf c'"
  by (induction "is" arbitrary: c)
     (auto split: Option.bind_splits if_splits dest: cl_wf_sendClipboard)

lemma cl_wf_leave: "cl_leave env c = Some c' \<Longrightarrow> cl_wf c \<Longrightarrow> cl_wf c'"
  by (auto simp: cl_leave_def Let_def cl_wf_fields split: if_splits dest!: cl_wf_send_owned)

lemma cl_wf_tell_arrays:
  assumes "cl_wf c" and "length own = 2" and "length sent = 2" and "length time = 2" and "length data = 2"
  shows "cl_wf ((cl_tell x c)\<lparr>cl_ownClipboard := own, cl_sentClipboard := sent, cl_dataClipboard := data, cl_timeClipboard := time\<rparr>)"
  using assms by (auto simp: cl_tell_def cl_defs split: option.split)

lemma cl_wf_tell_owner:
  assumes "cl_wf c" and "length own = 2" and "length sent = 2"
  shows "cl_wf ((cl_tell x c)\<lparr>cl_ownClipboard := own, cl_sentClipboard := sent\<rparr>)"
  using assms by (auto simp: cl_tell_def cl_defs split: option.split)

lemma cl_wf_setClipboard: "cl_setClipboard i cb c = Some c' \<Longrightarrow> cl_wf c \<Longrightarrow> cl_wf c'"
  by (auto simp: cl_setClipboard_def cl_wf_tell_arrays cl_wf_lengths split: Option.bind_splits if_splits)

lemma cl_wf_grabClipboard: "cl_grabClipboard i c = Some c' \<Longrightarrow> cl_wf c \<Longrightarrow> cl_wf c'"
  by (auto simp: cl_grabClipboard_def cl_wf_tell_owner cl_wf_lengths split: if_splits)

lemma cl_wf_ready: "cl_wf c \<Longrightarrow> cl_server c \<noteq> None \<Longrightarrow> cl_wf (c\<lparr>cl_ready := True\<rparr>)"
  by (auto simp: cl_defs)

lemma cl_wf_client_do:
  assumes "client_do env x c = Some c'" and "cl_wf c" and "cl_server c \<noteq> None"
  shows "cl_wf c'"
proof (cases x)
  case CHandshakeComplete
  with assms cl_wf_ready show ?thesis by (auto simp: handshakeComplete_def)
next
  case (CSetOptions opts)
  with assms show ?thesis by (auto simp: cl_setOptions_def cl_wf_fields split: Option.bind_splits)
qed (use assms cl_wf_disconnect cl_wf_leave cl_wf_setClipboard cl_wf_grabClipboard in \<open>auto simp: cl_enter_def cl_wf_fields\<close>)

lemma cl_wf_client_do_all: "client_do_all env xs c = Some c' \<Longrightarrow> cl_wf c \<Longrightarrow> cl_wf c'"
  by (induction xs arbitrary: c) (auto split: Option.bind_splits dest: cl_wf_client_do)

lemma cl_wf_input:
  assumes "cl_handleInput env (psf_ops junk) cv c f = Some (c', f')" and "cl_wf c" and "psf_wf f"
  shows "cl_wf c'"
proof -
  obtain p r p' where p: "cl_server c = Some p" "handleData (psf_ops junk) cv p f = Some (r, p', f')"
    "client_do_all env (drop (length (sp_calls p)) (sp_calls p')) (c\<lparr>cl_server := Some p'\<rparr>) = Some c'"
    using assms(1) by (auto simp: cl_handleInput_def split: Option.bind_splits)
  have "sp_wf p'" using psf_proxy.handleData_completes [OF assms(3), of p junk cv] cl_wf_server [OF assms(2) p(1)] p(2)
    by (auto simp: psf_proxy.completed_def)
  with cl_wf_server [OF assms(2) p(1)] cl_wf_client_do_all [OF p(3)] show ?thesis by blast
qed

lemma cl_wf_grabbed:
  assumes "cl_handleClipboardGrabbed env i c = Some c'" and "cl_wf c"
  shows "cl_wf c'"
proof -
  have "cl_wf (c\<lparr>cl_server := Some (snd (onGrabClipboard j p)), cl_ownClipboard := (cl_ownClipboard c)[i := True],
      cl_sentClipboard := (cl_sentClipboard c)[i := False], cl_timeClipboard := (cl_timeClipboard c)[i := 0]\<rparr>)"
    if "cl_server c = Some p" for j p
    using assms(2) that by (auto simp: cl_defs onGrabClipboard_def)
  then show ?thesis
    using assms by (auto simp: cl_handleClipboardGrabbed_def Let_def split: Option.bind_splits if_splits dest!: cl_wf_sendClipboard)
qed

section \<open>Every reachable state\<close>

text \<open>Events of the connection itself; input and grabbed clipboards also depend on what the server and the screen supply.\<close>

fun connection_event :: "cl_event \<Rightarrow> bool" where
  "connection_event (ClInput _ _) \<longleftrightarrow> False"
| "connection_event (ClClipboardGrabbed _) \<longleftrightarrow> False"
| "connection_event _ \<longleftrightarrow> True"

lemma cl_wf_new:
  "length own = 2 \<Longrightarrow> length sent = 2 \<Longrightarrow> length time = 2 \<Longrightarrow> cl_wf (Client_new name crypto restartable own sent time cr fr)"
  by (simp add: Client_new_def cl_defs)

lemma connection_handled:
  assumes c: "cl_wf c" and ev: "cl_possible ev c" "connection_event ev"
  shows "\<exists>c'. cl_handle env junk what ev c = Some c' \<and> cl_wf c'"
proof (cases ev)
  case (ClHello f)
  with c ev cl_wf_hello [OF c, of f junk what] show ?thesis by auto
next
  case ClConnected
  with c ev cl_wf_connected show ?thesis by simp
next
  case ClStopRetry
  with c show ?thesis by (simp add: cl_handleStopRetry_def cl_wf_fields)
qed (use c ev cl_wf_connect cl_wf_disconnect cl_wf_lost cl_wf_suspend cl_wf_resume cl_wf_shape in auto)

lemma cl_wf_step:
  assumes c: "cl_wf c" and ev: "cl_possible ev c" and h: "cl_handle env junk what ev c = Some c'"
  shows "cl_wf c'"
proof (cases "connection_event ev")
  case True
  from connection_handled [OF c ev this, of env junk what] h show ?thesis by auto
next
  case False
  then consider f cv where "ev = ClInput f cv" | i where "ev = ClClipboardGrabbed i"
    by (cases ev) auto
  then show ?thesis
    using c ev h cl_wf_input cl_wf_grabbed by cases auto
qed

lemma cl_reachable_wf: "cl_reachable c \<Longrightarrow> cl_wf c"
  by (induction rule: cl_reachable.induct) (auto intro: cl_wf_new cl_wf_step)


definition client_example :: Client where
  "client_example = Client_new ''a'' False True [False, False] [False, False] [0, 0]
     \<lparr>rx_cached = [], rx_id = 0, rx_sequence = 0, rx_expected = 0\<rparr> \<lparr>frx_received = [], frx_expected = 0\<rparr>"


end
