(* ===== verification/Handshake.thy ===== *)
theory Handshake
  imports Client_Run Peer_Link
begin

text \<open>
  The greeting between \<^verbatim>\<open>ClientProxyUnknown\<close> on the server and \<^verbatim>\<open>Client::handleHello\<close>: hello, the client's answer with its
  name, and the proxy that the server creates for it.
\<close>

section \<open>The server\<close>

lemma int_format_hello: "writef kMsgHello version_args = Inr (Some (bytes_of ''Barrier'' @ [0, 1, 0, 6]))"
  by (simp add: kMsgHello_def version_args_def kProtocolMajorVersion_def kProtocolMinorVersion_def writef_def vwritef_def
      getLength_def writef_void_def eatLength_def digit_of_def getLength_conv_def writef_void_conv_def len_ok_def bytes_of_def)

lemma hello_sent: "cu_sent ClientProxyUnknown_new = [bytes_of ''Barrier'' @ [0, 1, 0, 6]]"
  by (simp add: ClientProxyUnknown_new_def cu_write_def int_format_hello)

definition hello_back :: "string \<Rightarrow> bytes" where
  "hello_back name = bytes_of ''Barrier'' @ [0, 1, 0, 6] @ write_counted (\<lambda>b. [b]) (bytes_of name)"

lemma hello_back_written:
  assumes "length name \<le> PROTOCOL_MAX_STRING_LENGTH"
  shows "writef_void kMsgHelloBack (version_args @ [WStr (Some (bytes_of name))]) = Inr (hello_back name)"
    "writef kMsgHelloBack (version_args @ [WStr (Some (bytes_of name))]) = Inr (Some (hello_back name))"
    "length (hello_back name) = 15 + length name"
proof -
  show l: "length (hello_back name) = 15 + length name"
    using assms write_string_length [of "bytes_of name"] by (simp add: hello_back_def)
  show w: "writef_void kMsgHelloBack (version_args @ [WStr (Some (bytes_of name))]) = Inr (hello_back name)"
    by (simp add: kMsgHelloBack_def version_args_def kProtocolMajorVersion_def kProtocolMinorVersion_def hello_back_def
        writef_void_def eatLength_def digit_of_def writef_void_conv_def len_ok_def bytes_of_def)
  show "writef kMsgHelloBack (version_args @ [WStr (Some (bytes_of name))]) = Inr (Some (hello_back name))"
    using assms l by (intro writef_message [OF _ w]) (auto simp: protocol_messages_def version_args_def PROTOCOL_MAX_STRING_LENGTH_def)
qed

lemma hello_values:
  "readf bytes_read kMsgHello (bytes_of ''Barrier'' @ [0, 1, 0, 6]) = ([R16 1, R16 6], Inr True, [])"
  by (simp add: kMsgHello_def eatLength_def digit_of_def readf_def vreadf_def vreadf_conv_def pu_read_bytes len_ok_def
      bytes_of_def readUInt16_def)

lemma hello_back_values:
  assumes "length name \<le> PROTOCOL_MAX_STRING_LENGTH"
  shows "readf bytes_read kMsgHelloBack (hello_back name) = ([R16 1, R16 6, RStr (bytes_of name)], Inr True, [])"
proof -
  have "list_all symmetric_token (fmt_tokens kMsgHelloBack)"
    using protocol_messages_ok by (simp add: protocol_messages_def)
  from readf_roundtrip_bytes [OF hello_back_written(1) [OF assms] this, of "[]"] assms show ?thesis
    by (simp add: version_args_def kProtocolMajorVersion_def kProtocolMinorVersion_def)
       (simp add: kMsgHelloBack_def eatLength_def digit_of_def sent_value_def)
qed

lemma getSize_packet: "psf_wf g \<Longrightarrow> psf_packets g = p # ps \<Longrightarrow> PacketStreamFilter_getSize g = length p"
  using isReady_iff [of g]
  by (auto simp: PacketStreamFilter_getSize_def psf_packets_def split: if_splits)

text \<open>
  C32.  A client and a server of this version get acquainted: the hello that the server sends makes the client
  answer with its name and become connected, and that answer makes the server create a proxy of protocol version 1.6 with exactly
  this name; nothing of either message is left over.
\<close>

theorem greeting:
  assumes c: "cl_wf c" "cl_onStream c" "cl_server c = None" and name: "length (cl_name c) \<le> 1009"
    and f: "psf_wf f" "psf_packets f = cu_sent ClientProxyUnknown_new"
    and g: "psf_wf g" "psf_packets g = [hello_back (cl_name c)]"
  shows "\<exists>c' f' u g'. cl_handleHello (psf_ops junk) what c f = Some (c', f') \<and> cl_isConnected c' \<and> psf_packets f' = [] \<and>
    cl_sent c' = cl_sent c @ [hello_back (cl_name c)] \<and>
    cu_handleData (psf_ops junk) new_proxy (PacketStreamFilter_getSize g) ClientProxyUnknown_new g = (u, g') \<and>
    cu_proxy u = Some (new_proxy 6 (cl_name c)) \<and> psf_packets g' = []"
proof -
  have lim: "length (cl_name c) \<le> PROTOCOL_MAX_STRING_LENGTH" using name by (simp add: PROTOCOL_MAX_STRING_LENGTH_def)
  obtain f' where f': "readf PacketStreamFilter_read kMsgHello f = ([R16 1, R16 6], Inr True, f')" "psf_packets f' = []"
    using psf_msg.readf_at [OF psf_msg.at_next [OF psf_msg.at_packets [OF f(1)]] hello_values] f(2) hello_sent
    by (auto simp: psf_msg.here_def psf_ops_def)
  obtain g' where g': "readf PacketStreamFilter_read kMsgHelloBack g = ([R16 1, R16 6, RStr (bytes_of (cl_name c))], Inr True, g')"
    "psf_packets g' = []"
    using psf_msg.readf_at [OF psf_msg.at_next [OF psf_msg.at_packets [OF g]] hello_back_values [OF lim]]
    by (auto simp: psf_msg.here_def psf_ops_def)
  have "PacketStreamFilter_getSize g \<le> kMaxHelloLength"
    using getSize_packet [OF g] hello_back_written(3) [OF lim] name by (simp add: kMaxHelloLength_def)
  then have "cu_handleData (psf_ops junk) new_proxy (PacketStreamFilter_getSize g) ClientProxyUnknown_new g =
      (ClientProxyUnknown_new\<lparr>cu_handlers := True, cu_proxy := Some (new_proxy 6 (cl_name c)), cu_ownsStream := False\<rparr>, g')"
    using g'(1) by (simp add: cu_handleData_def hello_reply_def psf_ops_def)
  moreover have "setupScreen (cl_write kMsgHelloBack (version_args @ [WStr (Some (bytes_of (cl_name c)))]) c) =
      Some (c\<lparr>cl_sent := cl_sent c @ [hello_back (cl_name c)], cl_ready := False,
        cl_server := Some (ServerProxy_new (cl_clipStatics c) (cl_fileData c)), cl_onScreen := True\<rparr>)"
    using hello_back_written(2) [OF lim] c(3) by (simp add: setupScreen_def cl_write_def)
  ultimately show ?thesis
    using f' g'(2)
    by (simp add: cl_handleHello_def psf_ops_def kProtocolMajorVersion_def kProtocolMinorVersion_def cleanupTimer_def cl_raise_def
        cl_isConnected_def Let_def)
qed

theorem greeting_witness:
  "\<exists>c' f' u g'. cl_handleHello (psf_ops 0) (\<lambda>_ _. []) (client_example\<lparr>cl_stream := True, cl_onStream := True\<rparr>)
      (psf_holding (bytes_of ''Barrier'' @ [0, 1, 0, 6]) []) = Some (c', f') \<and> cl_isConnected c' \<and> psf_packets f' = [] \<and>
    cl_sent c' = [hello_back ''a''] \<and>
    cu_handleData (psf_ops 0) (\<lambda>_ _. cp_example) (PacketStreamFilter_getSize (psf_holding (hello_back ''a'') []))
      ClientProxyUnknown_new (psf_holding (hello_back ''a'') []) = (u, g') \<and>
    cu_proxy u = Some cp_example \<and> psf_packets g' = []"
proof -
  let ?c = "client_example\<lparr>cl_stream := True, cl_onStream := True\<rparr>"
  have name: "cl_name ?c = ''a''" "cl_sent ?c = []" by (simp_all add: client_example_def Client_new_def)
  have c: "cl_wf ?c" "cl_onStream ?c" "cl_server ?c = None"
    by (simp_all add: client_example_def Client_new_def cl_defs)
  have held: "psf_wf (psf_holding p [])" "psf_packets (psf_holding p []) = [p]" if "0 < length p" "length p \<le> 100" for p
    using psf_holding_ok [of p "[]"] that
    by (auto simp: good_packet_def PROTOCOL_MAX_MESSAGE_LENGTH_def sb_room_def StreamBuffer_new_def)
  have l: "length (hello_back ''a'') = 16"
    using hello_back_written(3) [of "''a''"] by (simp add: PROTOCOL_MAX_STRING_LENGTH_def)
  show ?thesis
    using greeting [OF c, of "psf_holding (bytes_of ''Barrier'' @ [0, 1, 0, 6]) []" "psf_holding (hello_back ''a'') []"]
      held [of "bytes_of ''Barrier'' @ [0, 1, 0, 6]"] held [of "hello_back ''a''"] l name hello_sent
    by simp
qed

end
