(* ===== verification/Priority_Queue.thy ===== *)
theory Priority_Queue
  imports Barrier_Prelude "HOL-Library.Multiset"
begin

text \<open>
  The priority queue of the timers, \<^verbatim>\<open>base/PriorityQueue.h\<close>, a vector kept as a heap with \<^verbatim>\<open>std::greater\<close>.  The C++ standard says
  of \<^verbatim>\<open>push_heap\<close>, \<^verbatim>\<open>pop_heap\<close> and \<^verbatim>\<open>make_heap\<close> only what locale \<open>std_heap\<close> says; the theorems about the queue rest on the
  locale alone.  The usual array algorithms are its interpretation.  Elements are compared by a key.
\<close>

section \<open>Heaps in an array\<close>

definition parent :: "nat \<Rightarrow> nat" where
  "parent i = (i - 1) div 2"

definition is_heap :: "('a \<Rightarrow> 'k::linorder) \<Rightarrow> 'a list \<Rightarrow> bool" where
  "is_heap key xs \<longleftrightarrow> (\<forall>i \<in> {1..<length xs}. key (xs ! parent i) \<le> key (xs ! i))"

definition swap :: "nat \<Rightarrow> nat \<Rightarrow> 'a list \<Rightarrow> 'a list" where
  "swap i j xs = xs[i := xs ! j, j := xs ! i]"

lemma length_swap [simp]: "length (swap i j xs) = length xs"
  by (simp add: swap_def)

lemma nth_swap: "i < length xs \<Longrightarrow> j < length xs \<Longrightarrow> k < length xs \<Longrightarrow>
    swap i j xs ! k = (if k = j then xs ! i else if k = i then xs ! j else xs ! k)"
  by (simp add: swap_def nth_list_update)

lemma mset_swap_list [simp]: "i < length xs \<Longrightarrow> j < length xs \<Longrightarrow> mset (swap i j xs) = mset xs"
  unfolding swap_def by (rule mset_swap)

lemma parent_less: "0 < i \<Longrightarrow> parent i < i"
  by (auto simp: parent_def)

lemma parent_eq: "0 < j \<Longrightarrow> parent j = i \<longleftrightarrow> j = 2 * i + 1 \<or> j = 2 * i + 2"
  by (auto simp: parent_def)

function sift_up :: "('a \<Rightarrow> 'k::linorder) \<Rightarrow> nat \<Rightarrow> 'a list \<Rightarrow> 'a list" where
  "sift_up key i xs =
     (if 0 < i \<and> key (xs ! parent i) > key (xs ! i) then sift_up key (parent i) (swap i (parent i) xs) else xs)"
  by pat_completeness auto
termination
  by (relation "measure (\<lambda>(key, i, xs). i)") (auto simp: parent_less)

declare sift_up.simps [simp del]

definition least_child :: "('a \<Rightarrow> 'k::linorder) \<Rightarrow> nat \<Rightarrow> 'a list \<Rightarrow> nat" where
  "least_child key i xs =
     (if 2 * i + 2 < length xs \<and> key (xs ! (2 * i + 2)) < key (xs ! (2 * i + 1)) then 2 * i + 2 else 2 * i + 1)"

function sift_down :: "('a \<Rightarrow> 'k::linorder) \<Rightarrow> nat \<Rightarrow> 'a list \<Rightarrow> 'a list" where
  "sift_down key i xs =
     (let m = least_child key i xs
      in if 2 * i + 1 < length xs \<and> key (xs ! m) < key (xs ! i) then sift_down key m (swap i m xs) else xs)"
  by pat_completeness auto
termination
  by (relation "measure (\<lambda>(key, i, xs). length xs - i)") (auto simp: least_child_def)

declare sift_down.simps [simp del]

definition push_heap :: "('a \<Rightarrow> 'k::linorder) \<Rightarrow> 'a list \<Rightarrow> 'a list" where
  "push_heap key xs = sift_up key (length xs - 1) xs"

text \<open>\<^verbatim>\<open>pop_heap\<close> moves the first element to the end and makes a heap of the others.\<close>

definition pop_heap :: "('a \<Rightarrow> 'k::linorder) \<Rightarrow> 'a list \<Rightarrow> 'a list" where
  "pop_heap key xs =
     (if xs = [] then []
      else sift_down key 0 (butlast (swap 0 (length xs - 1) xs)) @ [xs ! 0])"

fun make_heap_from :: "('a \<Rightarrow> 'k::linorder) \<Rightarrow> nat \<Rightarrow> 'a list \<Rightarrow> 'a list" where
  "make_heap_from key 0 xs = xs"
| "make_heap_from key (Suc i) xs = make_heap_from key i (sift_down key i xs)"

definition make_heap :: "('a \<Rightarrow> 'k::linorder) \<Rightarrow> 'a list \<Rightarrow> 'a list" where
  "make_heap key xs = make_heap_from key (length xs div 2) xs"

section \<open>They are heap operations\<close>

lemma least_child_less: "2 * i + 1 < length xs \<Longrightarrow> i < least_child key i xs \<and> least_child key i xs < length xs"
  by (simp add: least_child_def)

lemma mset_sift_up: "i < length xs \<Longrightarrow> mset (sift_up key i xs) = mset xs"
proof (induction key i xs rule: sift_up.induct)
  case (1 key i xs)
  then show ?case using parent_less [of i] by (subst sift_up.simps) auto
qed

lemma mset_sift_down: "mset (sift_down key i xs) = mset xs"
proof (induction key i xs rule: sift_down.induct)
  case (1 key i xs)
  then show ?case using least_child_less [of i xs key] by (subst sift_down.simps) (auto simp: Let_def)
qed

lemma length_sift_down [simp]: "length (sift_down key i xs) = length xs"
  using mset_sift_down [of key i xs] mset_eq_length by blast

text \<open>A heap but for the edge above \<open>i\<close>, and with that element removed still a heap.\<close>

definition up_hole :: "('a \<Rightarrow> 'k::linorder) \<Rightarrow> nat \<Rightarrow> 'a list \<Rightarrow> bool" where
  "up_hole key i xs \<longleftrightarrow>
     (\<forall>j \<in> {1..<length xs}. (j \<noteq> i \<longrightarrow> key (xs ! parent j) \<le> key (xs ! j)) \<and>
        (parent j = i \<and> 0 < i \<longrightarrow> key (xs ! parent i) \<le> key (xs ! j)))"

lemma up_hole_swap:
  assumes h: "up_hole key i xs" and i: "0 < i" "i < length xs" and lt: "key (xs ! i) < key (xs ! parent i)"
  shows "up_hole key (parent i) (swap i (parent i) xs)"
  unfolding up_hole_def
proof (intro ballI conjI impI)
  fix j assume j: "j \<in> {1..<length (swap i (parent i) xs)}"
  note p = parent_less [of i] parent_less [of j]
  note n = nth_swap [of i xs "parent i"]
  have J: "j \<noteq> i \<Longrightarrow> key (xs ! parent j) \<le> key (xs ! j)" "parent j = i \<Longrightarrow> key (xs ! parent i) \<le> key (xs ! j)"
    using h i j by (auto simp: up_hole_def)
  show "key (swap i (parent i) xs ! parent j) \<le> key (swap i (parent i) xs ! j)" if "j \<noteq> parent i"
    using that i j lt J p by (auto simp: n)
  have I: "0 < parent i \<Longrightarrow> key (xs ! parent (parent i)) \<le> key (xs ! parent i)"
    using h i p by (auto simp: up_hole_def)
  show "key (swap i (parent i) xs ! parent (parent i)) \<le> key (swap i (parent i) xs ! j)" if "parent j = parent i \<and> 0 < parent i"
    using that i j lt J(1) I p parent_less [of "parent i"] by (auto simp: n)
qed

lemma is_heap_sift_up: "i < length xs \<Longrightarrow> up_hole key i xs \<Longrightarrow> is_heap key (sift_up key i xs)"
proof (induction key i xs rule: sift_up.induct)
  case (1 key i xs)
  show ?case
  proof (cases "0 < i \<and> key (xs ! parent i) > key (xs ! i)")
    case True
    then show ?thesis using 1 up_hole_swap [of key i xs] parent_less [of i] by (subst sift_up.simps) auto
  next
    case False
    then have "is_heap key xs" using 1(3) unfolding is_heap_def up_hole_def by (metis atLeastLessThan_iff less_eq_Suc_le not_less One_nat_def)
    then show ?thesis by (subst sift_up.simps) (use False in auto)
  qed
qed

text \<open>A heap below \<open>k\<close>, and the same but for the edges below \<open>i\<close>.\<close>

definition heap_from :: "('a \<Rightarrow> 'k::linorder) \<Rightarrow> nat \<Rightarrow> 'a list \<Rightarrow> bool" where
  "heap_from key k xs \<longleftrightarrow> (\<forall>j \<in> {1..<length xs}. k \<le> parent j \<longrightarrow> key (xs ! parent j) \<le> key (xs ! j))"

definition down_hole :: "('a \<Rightarrow> 'k::linorder) \<Rightarrow> nat \<Rightarrow> nat \<Rightarrow> 'a list \<Rightarrow> bool" where
  "down_hole key k i xs \<longleftrightarrow>
     (\<forall>j \<in> {1..<length xs}. (k \<le> parent j \<and> parent j \<noteq> i \<longrightarrow> key (xs ! parent j) \<le> key (xs ! j)) \<and>
        (parent j = i \<and> 0 < i \<and> k \<le> parent i \<longrightarrow> key (xs ! parent i) \<le> key (xs ! j)))"

lemma least_child_le:
  assumes "0 < j" "j < length xs" "parent j = i"
  shows "key (xs ! least_child key i xs) \<le> key (xs ! j)"
  using assms parent_eq [of j i] by (auto simp: least_child_def)

lemma parent_least_child: "parent (least_child key i xs) = i"
  by (simp add: least_child_def parent_def)

lemma down_hole_swap:
  assumes h: "down_hole key k i xs" and i: "2 * i + 1 < length xs" "k \<le> i" and m: "m = least_child key i xs"
    and lt: "key (xs ! m) < key (xs ! i)"
  shows "down_hole key k m (swap i m xs)"
  unfolding down_hole_def
proof (intro ballI conjI impI)
  fix j assume j: "j \<in> {1..<length (swap i m xs)}"
  have mi: "i < m" "m < length xs" "parent m = i" using least_child_less [OF i(1), of key] parent_least_child [of key i xs] m by auto
  note p = parent_less [of j]
  note n = nth_swap [of i xs m]
  have J: "k \<le> parent j \<Longrightarrow> parent j \<noteq> i \<Longrightarrow> key (xs ! parent j) \<le> key (xs ! j)"
    "parent j = i \<Longrightarrow> 0 < i \<Longrightarrow> k \<le> parent i \<Longrightarrow> key (xs ! parent i) \<le> key (xs ! j)"
    using h j by (auto simp: down_hole_def)
  have L: "parent j = i \<Longrightarrow> key (xs ! m) \<le> key (xs ! j)" using least_child_le [of j xs i key] j m by auto
  have I: "0 < i \<Longrightarrow> k \<le> parent i \<Longrightarrow> key (xs ! parent i) \<le> key (xs ! m)"
    using h mi by (auto simp: down_hole_def)
  show "key (swap i m xs ! parent j) \<le> key (swap i m xs ! j)" if "k \<le> parent j \<and> parent j \<noteq> m"
    using that i j lt J L I mi p by (auto simp: n)
  show "key (swap i m xs ! parent m) \<le> key (swap i m xs ! j)" if "parent j = m \<and> 0 < m \<and> k \<le> parent m"
    using that i j lt J mi p by (auto simp: n)
qed

lemma heap_from_sift_down: "down_hole key k i xs \<Longrightarrow> k \<le> i \<Longrightarrow> heap_from key k (sift_down key i xs)"
proof (induction key i xs rule: sift_down.induct)
  case (1 key i xs)
  let ?m = "least_child key i xs"
  show ?case
  proof (cases "2 * i + 1 < length xs \<and> key (xs ! ?m) < key (xs ! i)")
    case True
    then show ?thesis using 1(1) [OF refl True down_hole_swap [OF 1(2) _ 1(3) refl]] 1(3) least_child_less [of i xs key]
      by (subst sift_down.simps) (auto simp: Let_def)
  next
    case False
    have "key (xs ! parent j) \<le> key (xs ! j)" if j: "j \<in> {1..<length xs}" "k \<le> parent j" for j
    proof (cases "parent j = i")
      case True
      then have "2 * i + 1 < length xs" using j parent_eq [of j i] by auto
      then show ?thesis using False least_child_le [of j xs i key] True j by auto
    qed (use 1(2) j in \<open>auto simp: down_hole_def\<close>)
    then have "heap_from key k xs" by (simp add: heap_from_def)
    then show ?thesis by (subst sift_down.simps) (use False in \<open>auto simp: Let_def\<close>)
  qed
qed

lemma is_heap_from: "is_heap key xs \<longleftrightarrow> heap_from key 0 xs"
  by (simp add: is_heap_def heap_from_def)

lemma mset_push_heap: "mset (push_heap key xs) = mset xs"
  by (cases "xs = []") (simp add: push_heap_def sift_up.simps [of key 0], simp add: push_heap_def mset_sift_up)

lemma is_heap_push_heap:
  assumes "is_heap key xs"
  shows "is_heap key (push_heap key (xs @ [x]))"
proof -
  have "parent j < length xs" if "j \<in> {1..<Suc (length xs)}" for j using that parent_less [of j] by auto
  then have "up_hole key (length xs) (xs @ [x])"
    using assms by (fastforce simp: up_hole_def is_heap_def nth_append)
  then show ?thesis using is_heap_sift_up [of "length xs" "xs @ [x]" key] by (simp add: push_heap_def)
qed

lemma mset_make_heap: "mset (make_heap key xs) = mset xs"
proof -
  have "mset (make_heap_from key n ys) = mset ys" for n and ys :: "'a list"
    by (induction n arbitrary: ys) (simp_all add: mset_sift_down)
  then show ?thesis by (simp add: make_heap_def)
qed

lemma is_heap_make_heap: "is_heap key (make_heap key xs)"
proof -
  have "heap_from key n ys \<Longrightarrow> heap_from key 0 (make_heap_from key n ys)" for n and ys :: "'a list"
  proof (induction n arbitrary: ys)
    case (Suc n)
    have "down_hole key n n ys" using Suc(2) parent_less [of n] by (auto simp: heap_from_def down_hole_def)
    then show ?case using Suc heap_from_sift_down [of key n n ys] by simp
  qed simp
  moreover have "heap_from key (length xs div 2) xs" by (auto simp: heap_from_def parent_def)
  ultimately show ?thesis by (simp add: is_heap_from make_heap_def)
qed

lemma pop_heap_split:
  assumes "is_heap key xs" and "xs \<noteq> []"
  shows "\<exists>ys. pop_heap key xs = ys @ [hd xs] \<and> is_heap key ys \<and> mset xs = add_mset (hd xs) (mset ys)"
proof -
  let ?ys = "butlast (swap 0 (length xs - 1) xs)"
  have l: "swap 0 (length xs - 1) xs = ?ys @ [hd xs]"
    using assms(2) nth_swap [of 0 xs "length xs - 1" "length xs - 1"]
    by (metis append_butlast_last_id diff_less hd_conv_nth last_conv_nth length_greater_0_conv length_swap less_numeral_extra(1) list.size(3))
  have "mset xs = mset (?ys @ [hd xs])" unfolding l [symmetric] using assms(2) by simp
  then have m: "mset xs = add_mset (hd xs) (mset ?ys)" by simp
  have "down_hole key 0 0 ?ys"
    unfolding down_hole_def
  proof (intro ballI conjI impI)
    fix j assume j: "j \<in> {1..<length ?ys}" and p: "0 \<le> parent j \<and> parent j \<noteq> 0"
    have "swap 0 (length xs - 1) xs ! i = xs ! i" if "0 < i" "i < length xs - 1" for i
      using that assms(2) by (subst nth_swap) auto
    then have "?ys ! j = xs ! j" "?ys ! parent j = xs ! parent j" using j p parent_less [of j] by (auto simp: nth_butlast)
    then show "key (?ys ! parent j) \<le> key (?ys ! j)" using assms(1) j by (auto simp: is_heap_def)
  qed simp
  then have "is_heap key (sift_down key 0 ?ys)" by (simp add: is_heap_from heap_from_sift_down)
  with m assms(2) show ?thesis
    by (intro exI [of _ "sift_down key 0 ?ys"]) (simp add: pop_heap_def mset_sift_down hd_conv_nth)
qed

lemma is_heap_top:
  assumes "is_heap key xs" and "x \<in> set xs"
  shows "key (hd xs) \<le> key x"
proof -
  have "key (xs ! 0) \<le> key (xs ! i)" if "i < length xs" for i
    using that
  proof (induction i rule: less_induct)
    case (less i)
    show ?case
    proof (cases "i = 0")
      case False
      then have "key (xs ! 0) \<le> key (xs ! parent i)" using less parent_less [of i] by auto
      moreover have "key (xs ! parent i) \<le> key (xs ! i)" using assms(1) less(2) False by (auto simp: is_heap_def)
      ultimately show ?thesis by order
    qed simp
  qed
  then show ?thesis using assms(2) by (metis hd_conv_nth in_set_conv_nth length_pos_if_in_set length_greater_0_conv)
qed

section \<open>The queue\<close>

type_synonym 'a PriorityQueue = "'a list"

definition PriorityQueue_push :: "('a \<Rightarrow> 'k::linorder) \<Rightarrow> 'a \<Rightarrow> 'a PriorityQueue \<Rightarrow> 'a PriorityQueue" where
  "PriorityQueue_push key v c = push_heap key (c @ [v])"

definition PriorityQueue_pop :: "('a \<Rightarrow> 'k::linorder) \<Rightarrow> 'a PriorityQueue \<Rightarrow> 'a PriorityQueue" where
  "PriorityQueue_pop key c = butlast (pop_heap key c)"

text \<open>\<^verbatim>\<open>erase\<close> takes an iterator, here an index.\<close>

definition PriorityQueue_erase :: "('a \<Rightarrow> 'k::linorder) \<Rightarrow> nat \<Rightarrow> 'a PriorityQueue \<Rightarrow> 'a PriorityQueue" where
  "PriorityQueue_erase key i c = make_heap key (take i c @ drop (Suc i) c)"

definition PriorityQueue_swap :: "('a \<Rightarrow> 'k::linorder) \<Rightarrow> 'a list \<Rightarrow> 'a PriorityQueue \<Rightarrow> 'a PriorityQueue \<times> 'a list" where
  "PriorityQueue_swap key c2 c = (make_heap key c2, c)"

definition PriorityQueue_empty :: "'a PriorityQueue \<Rightarrow> bool" where
  "PriorityQueue_empty c \<longleftrightarrow> c = []"

text \<open>\<^verbatim>\<open>top\<close> of an empty queue is undefined.\<close>

definition PriorityQueue_top :: "'a PriorityQueue \<Rightarrow> 'a option" where
  "PriorityQueue_top c = (case c of [] \<Rightarrow> None | x # _ \<Rightarrow> Some x)"

text \<open>What the standard promises of the heap algorithms.\<close>

locale std_heap =
  fixes key :: "'a \<Rightarrow> 'k::linorder"
    and push :: "'a list \<Rightarrow> 'a list"
    and pop :: "'a list \<Rightarrow> 'a list"
    and make :: "'a list \<Rightarrow> 'a list"
  assumes push_is_heap: "is_heap key xs \<Longrightarrow> is_heap key (push (xs @ [x]))"
    and push_mset: "mset (push xs) = mset xs"
    and pop_splits: "is_heap key xs \<Longrightarrow> xs \<noteq> [] \<Longrightarrow>
      \<exists>ys. pop xs = ys @ [hd xs] \<and> is_heap key ys \<and> mset xs = add_mset (hd xs) (mset ys)"
    and make_is_heap: "is_heap key (make xs)"
    and make_mset: "mset (make xs) = mset xs"
begin

lemma added: "is_heap key c \<Longrightarrow> is_heap key (push (c @ [v])) \<and> mset (push (c @ [v])) = add_mset v (mset c)"
  using push_is_heap [of c v] push_mset [of "c @ [v]"] by simp

lemma removed: "is_heap key c \<Longrightarrow> c \<noteq> [] \<Longrightarrow> is_heap key (butlast (pop c)) \<and> mset (butlast (pop c)) = mset c - {#hd c#}"
  using pop_splits [of c] by fastforce

lemma erased:
  assumes "i < length c"
  shows "is_heap key (make (take i c @ drop (Suc i) c)) \<and> mset (make (take i c @ drop (Suc i) c)) = mset c - {#c ! i#}"
proof -
  have "mset c = mset (take i c @ c ! i # drop (Suc i) c)" using id_take_nth_drop [OF assms] by metis
  then show ?thesis by (simp add: make_is_heap make_mset)
qed

end

interpretation array_heap: std_heap key "push_heap key" "pop_heap key" "make_heap key" for key :: "'a \<Rightarrow> 'k::linorder"
  by unfold_locales (auto simp: is_heap_push_heap mset_push_heap is_heap_make_heap mset_make_heap intro: pop_heap_split)

text \<open>The queue is a multiset whose top is a least element.\<close>

lemma PriorityQueue_push_ok:
  "is_heap key c \<Longrightarrow> is_heap key (PriorityQueue_push key v c) \<and> mset (PriorityQueue_push key v c) = add_mset v (mset c)"
  using array_heap.added [of key c v] by (simp add: PriorityQueue_push_def)

lemma PriorityQueue_pop_ok:
  "is_heap key c \<Longrightarrow> PriorityQueue_top c = Some x \<Longrightarrow>
    is_heap key (PriorityQueue_pop key c) \<and> mset c = add_mset x (mset (PriorityQueue_pop key c)) \<and> (\<forall>y \<in> set c. key x \<le> key y)"
  using array_heap.removed [of key c] is_heap_top [of key c]
  by (cases c) (auto simp: PriorityQueue_pop_def PriorityQueue_top_def)

lemma PriorityQueue_erase_ok:
  "i < length c \<Longrightarrow> is_heap key (PriorityQueue_erase key i c) \<and> mset (PriorityQueue_erase key i c) = mset c - {#c ! i#}"
  using array_heap.erased [of i c key] by (simp add: PriorityQueue_erase_def)

lemma PriorityQueue_top_in: "PriorityQueue_top c = Some x \<Longrightarrow> x \<in> set c"
  by (cases c) (auto simp: PriorityQueue_top_def)

text \<open>Counting all keys down by the same amount keeps the heap.\<close>

lemma is_heap_map:
  assumes "is_heap key c" and "\<And>x y. x \<in> set c \<Longrightarrow> y \<in> set c \<Longrightarrow> key x \<le> key y \<Longrightarrow> key' (f x) \<le> key' (f y)"
  shows "is_heap key' (map f c)"
  unfolding is_heap_def
proof
  fix i assume i: "i \<in> {1..<length (map f c)}"
  then have "parent i < length c" using parent_less [of i] by auto
  with i assms show "key' (map f c ! parent i) \<le> key' (map f c ! i)" by (auto simp: is_heap_def)
qed

end
