(* ===== verification/Event_Queue.thy ===== *)
theory Event_Queue
  imports Priority_Queue Std_Map Complex_Main
begin

text \<open>
  The event queue that drives server and client: \<^verbatim>\<open>base/EventQueue.cpp\<close> with its buffer \<^verbatim>\<open>base/SimpleEventQueueBuffer.cpp\<close>, \<^verbatim>\<open>base/Event.cpp\<close>
  and \<^verbatim>\<open>base/Stopwatch.cpp\<close>.  Pointers are numbers, null is 0.  Times are reals, without the rounding of \<^verbatim>\<open>double\<close>.  The
  clock, what other threads add while the queue waits, and the effect of a handler are arguments.
  Data of events that was released and events that were dispatched are recorded in order.
\<close>

section \<open>Stopwatch\<close>

record Stopwatch =
  sw_mark :: real
  sw_triggered :: bool
  sw_stopped :: bool

definition Stopwatch_new :: "bool \<Rightarrow> real \<Rightarrow> Stopwatch" where
  "Stopwatch_new triggered now = \<lparr>sw_mark = (if triggered then 0 else now), sw_triggered = triggered, sw_stopped = triggered\<rparr>"

definition Stopwatch_reset :: "real \<Rightarrow> Stopwatch \<Rightarrow> real \<times> Stopwatch" where
  "Stopwatch_reset now w =
     (if sw_stopped w then (sw_mark w, w\<lparr>sw_mark := 0\<rparr>) else (now - sw_mark w, w\<lparr>sw_mark := now\<rparr>))"

definition Stopwatch_stop :: "real \<Rightarrow> Stopwatch \<Rightarrow> Stopwatch" where
  "Stopwatch_stop now w = (if sw_stopped w then w else w\<lparr>sw_mark := now - sw_mark w, sw_stopped := True\<rparr>)"

definition Stopwatch_start :: "real \<Rightarrow> Stopwatch \<Rightarrow> Stopwatch" where
  "Stopwatch_start now w =
     (let w1 = w\<lparr>sw_triggered := False\<rparr>
      in if \<not> sw_stopped w1 then w1 else w1\<lparr>sw_mark := now - sw_mark w1, sw_stopped := False\<rparr>)"

definition Stopwatch_setTrigger :: "real \<Rightarrow> Stopwatch \<Rightarrow> Stopwatch" where
  "Stopwatch_setTrigger now w = (Stopwatch_stop now w)\<lparr>sw_triggered := True\<rparr>"

definition Stopwatch_getTime :: "real \<Rightarrow> Stopwatch \<Rightarrow> real \<times> Stopwatch" where
  "Stopwatch_getTime now w =
     (if sw_triggered w then (sw_mark w, Stopwatch_start now w)
      else if sw_stopped w then (sw_mark w, w)
      else (now - sw_mark w, w))"

section \<open>Events\<close>

definition kUnknown :: UInt32 where "kUnknown = 0"
definition kQuit :: UInt32 where "kQuit = 1"
definition kSystem :: UInt32 where "kSystem = 2"
definition kTimer :: UInt32 where "kTimer = 3"
definition kLast :: UInt32 where "kLast = 4"

definition kDeliverImmediately :: UInt32 where "kDeliverImmediately = 1"
definition kDontFreeData :: UInt32 where "kDontFreeData = 2"

lemmas event_types = kUnknown_def kQuit_def kSystem_def kTimer_def kLast_def

text \<open>The data of an event: nothing, an allocated block, or the timer information inside the queue.\<close>

datatype event_data = NoData | Block nat | TimerInfo

record Event =
  e_type :: UInt32
  e_target :: nat
  e_data :: event_data
  e_flags :: UInt32
  e_dataObject :: nat

definition Event_new :: "UInt32 \<Rightarrow> nat \<Rightarrow> event_data \<Rightarrow> UInt32 \<Rightarrow> Event" where
  "Event_new type target data flags =
     \<lparr>e_type = type, e_target = target, e_data = data, e_flags = flags, e_dataObject = 0\<rparr>"

definition Event_default :: Event where
  "Event_default = Event_new kUnknown 0 NoData 0"

text \<open>\<^verbatim>\<open>setDataObject\<close> asserts that there is none yet.\<close>

definition Event_setDataObject :: "nat \<Rightarrow> Event \<Rightarrow> Event option" where
  "Event_setDataObject obj e = (if e_dataObject e = 0 then Some (e\<lparr>e_dataObject := obj\<rparr>) else None)"

text \<open>What \<^verbatim>\<open>deleteData\<close> frees: the block and the object.\<close>

definition Event_deleteData :: "Event \<Rightarrow> (event_data \<times> nat) list" where
  "Event_deleteData e =
     (if e_type e \<in> {kUnknown, kQuit, kSystem, kTimer} then []
      else if e_flags e AND kDontFreeData = 0 then [(e_data e, e_dataObject e)] else [])"

section \<open>The buffer\<close>

text \<open>A deque of event numbers, front first.\<close>

record SimpleEventQueueBuffer =
  sq_queue :: "UInt32 list"
  sq_queueReady :: bool

definition SimpleEventQueueBuffer_new :: SimpleEventQueueBuffer where
  "SimpleEventQueueBuffer_new = \<lparr>sq_queue = [], sq_queueReady = False\<rparr>"

text \<open>\<open>None\<close> is \<^verbatim>\<open>kNone\<close>, \<open>Some\<close> is \<^verbatim>\<open>kUser\<close>.\<close>

definition sq_getEvent :: "SimpleEventQueueBuffer \<Rightarrow> UInt32 option \<times> SimpleEventQueueBuffer" where
  "sq_getEvent b =
     (if \<not> sq_queueReady b then (None, b)
      else (Some (last (sq_queue b)), b\<lparr>sq_queue := butlast (sq_queue b), sq_queueReady := butlast (sq_queue b) \<noteq> []\<rparr>))"

definition sq_addEvent :: "UInt32 \<Rightarrow> SimpleEventQueueBuffer \<Rightarrow> bool \<times> SimpleEventQueueBuffer" where
  "sq_addEvent dataID b = (True, b\<lparr>sq_queue := dataID # sq_queue b, sq_queueReady := True\<rparr>)"

definition sq_isEmpty :: "SimpleEventQueueBuffer \<Rightarrow> bool" where
  "sq_isEmpty b \<longleftrightarrow> \<not> sq_queueReady b"

section \<open>Timers\<close>

record Timer =
  tm_timer :: nat
  tm_timeout :: real
  tm_target :: nat
  tm_oneShot :: bool
  tm_time :: real

definition Timer_new :: "nat \<Rightarrow> real \<Rightarrow> real \<Rightarrow> nat \<Rightarrow> bool \<Rightarrow> Timer" where
  "Timer_new timer timeout initialTime target oneShot =
     \<lparr>tm_timer = timer, tm_timeout = timeout, tm_target = target, tm_oneShot = oneShot, tm_time = initialTime\<rparr>"

definition Timer_reset :: "Timer \<Rightarrow> Timer" where
  "Timer_reset t = t\<lparr>tm_time := tm_timeout t\<rparr>"

definition Timer_minus :: "real \<Rightarrow> Timer \<Rightarrow> Timer" where
  "Timer_minus dt t = t\<lparr>tm_time := tm_time t - dt\<rparr>"

text \<open>The timer and how often it expired since it was last handled.\<close>

definition Timer_fillEvent :: "Timer \<Rightarrow> nat \<times> UInt32" where
  "Timer_fillEvent t =
     (tm_timer t, if tm_time t \<le> 0 then word_of_int \<lfloor>(tm_timeout t - tm_time t) / tm_timeout t\<rfloor> else 0)"

section \<open>The queue\<close>

record 'job EventQueue =
  q_nextType :: UInt32
  q_typeMap :: "UInt32 \<rightharpoonup> string"
  q_nameMap :: "string \<rightharpoonup> UInt32"
  q_buffer :: SimpleEventQueueBuffer
  q_events :: "(UInt32, Event) smap"
  q_oldEventIDs :: "UInt32 list"
  q_time :: Stopwatch
  q_timers :: "nat set"
  q_timerQueue :: "Timer PriorityQueue"
  q_timerEvent :: "nat \<times> UInt32"
  q_handlers :: "nat \<Rightarrow> UInt32 \<rightharpoonup> 'job"
  q_ready :: bool
  q_pending :: "Event list"
  q_freed :: "(event_data \<times> nat) list"
  q_dispatched :: "Event list"

definition EventQueue_new :: "real \<Rightarrow> 'job EventQueue" where
  "EventQueue_new now =
     \<lparr>q_nextType = kLast, q_typeMap = Map.empty, q_nameMap = Map.empty, q_buffer = SimpleEventQueueBuffer_new, q_events = [],
      q_oldEventIDs = [], q_time = Stopwatch_new False now, q_timers = {}, q_timerQueue = [], q_timerEvent = (0, 0),
      q_handlers = (\<lambda>_. Map.empty), q_ready = False, q_pending = [], q_freed = [], q_dispatched = []\<rparr>"

definition q_free :: "Event \<Rightarrow> 'job EventQueue \<Rightarrow> 'job EventQueue" where
  "q_free e q = q\<lparr>q_freed := q_freed q @ Event_deleteData e\<rparr>"

subsection \<open>Event types\<close>

text \<open>The type is given and returned by reference; \<^verbatim>\<open>insert\<close> keeps an entry that exists.\<close>

definition registerTypeOnce :: "UInt32 \<Rightarrow> string \<Rightarrow> 'job EventQueue \<Rightarrow> UInt32 \<times> 'job EventQueue" where
  "registerTypeOnce type name q =
     (if type = kUnknown
      then (q_nextType q,
            q\<lparr>q_typeMap := (if q_typeMap q (q_nextType q) = None then (q_typeMap q)(q_nextType q \<mapsto> name) else q_typeMap q),
              q_nameMap := (if q_nameMap q name = None then (q_nameMap q)(name \<mapsto> q_nextType q) else q_nameMap q),
              q_nextType := q_nextType q + 1\<rparr>)
      else (type, q))"

definition getTypeName :: "UInt32 \<Rightarrow> 'job EventQueue \<Rightarrow> string" where
  "getTypeName type q =
     (if type = kUnknown then ''nil'' else if type = kQuit then ''quit'' else if type = kSystem then ''system''
      else if type = kTimer then ''timer''
      else case q_typeMap q type of None \<Rightarrow> ''<unknown>'' | Some name \<Rightarrow> name)"

definition getRegisteredType :: "string \<Rightarrow> 'job EventQueue \<Rightarrow> UInt32" where
  "getRegisteredType name q = (case q_nameMap q name of None \<Rightarrow> kUnknown | Some type \<Rightarrow> type)"

subsection \<open>Handlers\<close>

definition getHandler :: "UInt32 \<Rightarrow> nat \<Rightarrow> 'job EventQueue \<Rightarrow> 'job option" where
  "getHandler type target q = q_handlers q target type"

definition adoptHandler :: "UInt32 \<Rightarrow> nat \<Rightarrow> 'job \<Rightarrow> 'job EventQueue \<Rightarrow> 'job EventQueue" where
  "adoptHandler type target job q = q\<lparr>q_handlers := (q_handlers q)(target := (q_handlers q target)(type \<mapsto> job))\<rparr>"

definition removeHandler :: "UInt32 \<Rightarrow> nat \<Rightarrow> 'job EventQueue \<Rightarrow> 'job EventQueue" where
  "removeHandler type target q = q\<lparr>q_handlers := (q_handlers q)(target := (q_handlers q target)(type := None))\<rparr>"

definition removeAllHandlers :: "nat \<Rightarrow> 'job EventQueue \<Rightarrow> 'job EventQueue" where
  "removeAllHandlers target q = q\<lparr>q_handlers := (q_handlers q)(target := Map.empty)\<rparr>"

text \<open>\<open>run\<close> is \<^verbatim>\<open>IEventJob::run\<close>: what the handler does to the queue.\<close>

definition dispatchEvent :: "('job \<Rightarrow> Event \<Rightarrow> 'job EventQueue \<Rightarrow> 'job EventQueue) \<Rightarrow> Event \<Rightarrow> 'job EventQueue \<Rightarrow>
    bool \<times> 'job EventQueue" where
  "dispatchEvent run e q =
     (let q1 = q\<lparr>q_dispatched := q_dispatched q @ [e]\<rparr>;
          job = (case getHandler (e_type e) (e_target e) q1 of
                   None \<Rightarrow> getHandler kUnknown (e_target e) q1
                 | Some j \<Rightarrow> Some j)
      in case job of None \<Rightarrow> (False, q1) | Some j \<Rightarrow> (True, run j e q1))"

subsection \<open>Stored events\<close>

definition saveEvent :: "Event \<Rightarrow> 'job EventQueue \<Rightarrow> UInt32 \<times> 'job EventQueue" where
  "saveEvent e q =
     (let (i, q1) = (if q_oldEventIDs q \<noteq> []
                     then (last (q_oldEventIDs q), q\<lparr>q_oldEventIDs := butlast (q_oldEventIDs q)\<rparr>)
                     else (word_of_nat (length (q_events q)), q))
      in (i, q1\<lparr>q_events := smap_insert (<) i e (smap_erase (<) i (q_events q1))\<rparr>))"

definition removeEvent :: "UInt32 \<Rightarrow> 'job EventQueue \<Rightarrow> Event \<times> 'job EventQueue" where
  "removeEvent eventID q =
     (case smap_find (<) eventID (q_events q) of
        None \<Rightarrow> (Event_default, q)
      | Some (_, e) \<Rightarrow> (e, q\<lparr>q_events := smap_erase (<) eventID (q_events q), q_oldEventIDs := q_oldEventIDs q @ [eventID]\<rparr>))"

definition addEventToBuffer :: "Event \<Rightarrow> 'job EventQueue \<Rightarrow> 'job EventQueue" where
  "addEventToBuffer e q =
     (let (eventID, q1) = saveEvent e q;
          (ok, b) = sq_addEvent eventID (q_buffer q1);
          q2 = q1\<lparr>q_buffer := b\<rparr>
      in if \<not> ok then q_free e (snd (removeEvent eventID q2)) else q2)"

definition addEvent :: "('job \<Rightarrow> Event \<Rightarrow> 'job EventQueue \<Rightarrow> 'job EventQueue) \<Rightarrow> Event \<Rightarrow> 'job EventQueue \<Rightarrow> 'job EventQueue" where
  "addEvent run e q =
     (if e_type e \<in> {kUnknown, kSystem, kTimer} then q
      else if e_flags e AND kDeliverImmediately \<noteq> 0 then q_free e (snd (dispatchEvent run e q))
      else if \<not> q_ready q then q\<lparr>q_pending := q_pending q @ [e]\<rparr>
      else addEventToBuffer e q)"

definition adoptBuffer :: "SimpleEventQueueBuffer option \<Rightarrow> 'job EventQueue \<Rightarrow> 'job EventQueue" where
  "adoptBuffer buffer q =
     q\<lparr>q_freed := q_freed q @ concat (map (Event_deleteData \<circ> snd) (q_events q)), q_events := [], q_oldEventIDs := [],
       q_buffer := (case buffer of None \<Rightarrow> SimpleEventQueueBuffer_new | Some b \<Rightarrow> b)\<rparr>"

subsection \<open>Timers of the queue\<close>

text \<open>\<open>timer\<close> is the object that the buffer allocates; the duration is asserted to be positive.\<close>

definition q_newTimer :: "bool \<Rightarrow> nat \<Rightarrow> real \<Rightarrow> nat \<Rightarrow> real \<Rightarrow> 'job EventQueue \<Rightarrow> 'job EventQueue option" where
  "q_newTimer oneShot timer duration target now q =
     (if \<not> duration > 0 then None
      else let target' = (if target = 0 then timer else target);
               (elapsed, w) = Stopwatch_getTime now (q_time q)
           in Some (q\<lparr>q_timers := insert timer (q_timers q), q_time := w,
                     q_timerQueue := PriorityQueue_push tm_time (Timer_new timer duration (duration + elapsed) target' oneShot)
                       (q_timerQueue q)\<rparr>))"

definition newTimer :: "nat \<Rightarrow> real \<Rightarrow> nat \<Rightarrow> real \<Rightarrow> 'job EventQueue \<Rightarrow> 'job EventQueue option" where
  "newTimer = q_newTimer False"

definition newOneShotTimer :: "nat \<Rightarrow> real \<Rightarrow> nat \<Rightarrow> real \<Rightarrow> 'job EventQueue \<Rightarrow> 'job EventQueue option" where
  "newOneShotTimer = q_newTimer True"

fun timer_index :: "nat \<Rightarrow> Timer list \<Rightarrow> nat option" where
  "timer_index timer [] = None"
| "timer_index timer (t # ts) = (if tm_timer t = timer then Some 0 else map_option Suc (timer_index timer ts))"

definition deleteTimer :: "nat \<Rightarrow> 'job EventQueue \<Rightarrow> 'job EventQueue" where
  "deleteTimer timer q =
     q\<lparr>q_timerQueue := (case timer_index timer (q_timerQueue q) of
           None \<Rightarrow> q_timerQueue q
         | Some i \<Rightarrow> PriorityQueue_erase tm_time i (q_timerQueue q)),
       q_timers := q_timers q - {timer}\<rparr>"

text \<open>The clock is read twice, when the elapsed time is taken and when the stopwatch is reset.\<close>

definition hasTimerExpired :: "real \<Rightarrow> real \<Rightarrow> 'job EventQueue \<Rightarrow> Event option \<times> 'job EventQueue" where
  "hasTimerExpired now now' q =
     (if PriorityQueue_empty (q_timerQueue q) then (None, q)
      else let (elapsed, w) = Stopwatch_getTime now (q_time q);
               (_, w') = Stopwatch_reset now' w;
               ts = map (Timer_minus elapsed) (q_timerQueue q);
               q1 = q\<lparr>q_time := w', q_timerQueue := ts\<rparr>
           in case PriorityQueue_top ts of
                None \<Rightarrow> (None, q1)
              | Some timer \<Rightarrow>
                  if tm_time timer > 0 then (None, q1)
                  else let ts1 = PriorityQueue_pop tm_time ts;
                           ts2 = (if tm_oneShot timer then ts1 else PriorityQueue_push tm_time (Timer_reset timer) ts1)
                       in (Some (Event_new kTimer (tm_target timer) TimerInfo 0),
                           q1\<lparr>q_timerEvent := Timer_fillEvent timer, q_timerQueue := ts2\<rparr>))"

definition getNextTimerTimeout :: "'job EventQueue \<Rightarrow> real" where
  "getNextTimerTimeout q =
     (case PriorityQueue_top (q_timerQueue q) of
        None \<Rightarrow> - 1
      | Some t \<Rightarrow> if tm_time t \<le> 0 then 0 else tm_time t)"

section \<open>Waiting for events\<close>

text \<open>
  What the condition variable lets through: the clock when the waiting thread wakes up and the events that other
  threads added meanwhile.  The clock advances only there.  \<open>None\<close> is a thread that is never woken again.
\<close>

type_synonym wakeup = "real \<times> Event list"

fun sq_waitForEvent :: "real \<Rightarrow> Stopwatch \<Rightarrow> real \<Rightarrow> wakeup list \<Rightarrow> 'job EventQueue \<Rightarrow> (real \<times> wakeup list \<times> 'job EventQueue) option" where
  "sq_waitForEvent timeout timer now wakes q =
     (if sq_queueReady (q_buffer q) then Some (now, wakes, q)
      else let (elapsed, timer1) = (if timeout \<ge> 0 then Stopwatch_getTime now timer else (0, timer))
           in if timeout \<ge> 0 \<and> timeout - elapsed < 0 then Some (now, wakes, q)
              else (case wakes of
                  [] \<Rightarrow> None
                | w # ws \<Rightarrow> sq_waitForEvent timeout timer1 (fst w) ws (fold addEventToBuffer (snd w) q)))"

declare sq_waitForEvent.simps [simp del]

lemma sq_waitForEvent_length:
  "sq_waitForEvent timeout timer now wakes q = Some (now', wakes', q') \<Longrightarrow> length wakes' \<le> length wakes"
proof (induction timeout timer now wakes q rule: sq_waitForEvent.induct)
  case (1 timeout timer now wakes q)
  then show ?case
    by (subst (asm) (2) sq_waitForEvent.simps)
       (fastforce simp: Let_def split: if_splits list.splits prod.splits)
qed

lemma sq_waitForEvent_wakes:
  assumes "sq_waitForEvent timeout (Stopwatch_new True t) now wakes q = Some (now', wakes', q')" and "sq_isEmpty (q_buffer q)"
  shows "length wakes' < length wakes"
  using assms
  by (subst (asm) sq_waitForEvent.simps)
     (auto simp: sq_isEmpty_def Stopwatch_getTime_def Stopwatch_new_def split: list.splits if_splits dest!: sq_waitForEvent_length)

datatype wait_end = GotTimer Event | GotTimeout | GotEvents

text \<open>How long to wait: until the next timer, if that is before the timeout.\<close>

definition wait_time :: "real \<Rightarrow> real \<Rightarrow> 'job EventQueue \<Rightarrow> real" where
  "wait_time timeout timeLeft q =
     (if timeout < 0 \<or> getNextTimerTimeout q \<ge> 0 \<and> getNextTimerTimeout q < timeLeft then getNextTimerTimeout q else timeLeft)"

function wait_loop :: "real \<Rightarrow> Stopwatch \<Rightarrow> real \<Rightarrow> wakeup list \<Rightarrow> 'job EventQueue \<Rightarrow>
    (wait_end \<times> Stopwatch \<times> real \<times> wakeup list \<times> 'job EventQueue) option" where
  "wait_loop timeout timer now wakes q =
     (if \<not> sq_isEmpty (q_buffer q) then Some (GotEvents, timer, now, wakes, q)
      else case hasTimerExpired now now q of
          (Some e, q1) \<Rightarrow> Some (GotTimer e, timer, now, wakes, q1)
        | (None, q1) \<Rightarrow>
            let (elapsed, timer1) = Stopwatch_getTime now timer;
                timeLeft = timeout - elapsed
            in if timeout \<ge> 0 \<and> timeLeft \<le> 0 then Some (GotTimeout, timer1, now, wakes, q1)
               else (case sq_waitForEvent (wait_time timeout timeLeft q1) (Stopwatch_new True now) now wakes q1 of
                   None \<Rightarrow> None
                 | Some (now', wakes', q2) \<Rightarrow> wait_loop timeout timer1 now' wakes' q2))"
  by pat_completeness auto

lemma hasTimerExpired_buffer:
  "hasTimerExpired now now' q = (r, q1) \<Longrightarrow>
    q_buffer q1 = q_buffer q \<and> q_events q1 = q_events q \<and> q_oldEventIDs q1 = q_oldEventIDs q \<and>
    q_dispatched q1 = q_dispatched q \<and> q_freed q1 = q_freed q"
  by (auto simp: hasTimerExpired_def Let_def split: if_splits option.splits prod.splits)

termination wait_loop
proof (relation "measure (\<lambda>(timeout, timer, now, wakes, q). length wakes)", goal_cases)
  case 1
  then show ?case by simp
next
  case (2 timeout timer now wakes q r q1 x elapsed timer1 timeLeft y z now' wakes' q2)
  then have "sq_isEmpty (q_buffer q1)" using hasTimerExpired_buffer [of now now q None q1] by metis
  with 2 show ?case using sq_waitForEvent_wakes by fastforce
qed

declare wait_loop.simps [simp del]

text \<open>
  \<^verbatim>\<open>getEvent\<close>, which has set its event (\<open>Some\<close>) or left it; \<open>shutdown\<close> is whether the parent process asks to end at a time.  \<^verbatim>\<open>goto retry\<close> is
  the recursive call.
\<close>

partial_function (option) getEvent :: "(real \<Rightarrow> bool) \<Rightarrow> real \<Rightarrow> Stopwatch \<Rightarrow> real \<Rightarrow> wakeup list \<Rightarrow> 'job EventQueue \<Rightarrow>
    (bool \<times> Event option \<times> real \<times> wakeup list \<times> 'job EventQueue) option" where
  "getEvent shutdown timeout timer now wakes q =
     (if shutdown now then Some (False, Some (Event_new kQuit 0 NoData 0), now, wakes, q)
      else Option.bind (wait_loop timeout timer now wakes q) (\<lambda>(r, timer1, now1, wakes1, q1).
        case r of
          GotTimer e \<Rightarrow> Some (True, Some e, now1, wakes1, q1)
        | GotTimeout \<Rightarrow> Some (False, None, now1, wakes1, q1)
        | GotEvents \<Rightarrow>
            (case fst (sq_getEvent (q_buffer q1)) of
               Some dataID \<Rightarrow>
                 (let (e, q2) = removeEvent dataID (q1\<lparr>q_buffer := snd (sq_getEvent (q_buffer q1))\<rparr>)
                  in Some (True, Some e, now1, wakes1, q2))
             | None \<Rightarrow>
                 (if timeout < 0 \<or> timeout \<le> fst (Stopwatch_getTime now1 timer1)
                  then getEvent shutdown timeout (snd (Stopwatch_getTime now1 timer1)) now1 wakes1 q1
                  else Some (False, None, now1, wakes1, q1)))))"

section \<open>The loop\<close>

partial_function (option) dispatch_loop ::
    "('job \<Rightarrow> Event \<Rightarrow> 'job EventQueue \<Rightarrow> 'job EventQueue) \<Rightarrow> (real \<Rightarrow> bool) \<Rightarrow> Event \<Rightarrow> real \<Rightarrow> wakeup list \<Rightarrow> 'job EventQueue \<Rightarrow>
     'job EventQueue option" where
  "dispatch_loop run shutdown event now wakes q =
     Option.bind (getEvent shutdown (- 1) (Stopwatch_new True now) now wakes q) (\<lambda>(ok, ev, now1, wakes1, q1).
       let e = (case ev of None \<Rightarrow> event | Some e \<Rightarrow> e)
       in if e_type e = kQuit then Some q1
          else dispatch_loop run shutdown e now1 wakes1 (q_free e (snd (dispatchEvent run e q1))))"

definition eq_loop ::
    "('job \<Rightarrow> Event \<Rightarrow> 'job EventQueue \<Rightarrow> 'job EventQueue) \<Rightarrow> (real \<Rightarrow> bool) \<Rightarrow> real \<Rightarrow> wakeup list \<Rightarrow> 'job EventQueue \<Rightarrow>
     'job EventQueue option" where
  "eq_loop run shutdown now wakes q =
     (let q1 = q\<lparr>q_ready := True\<rparr>;
          q2 = fold addEventToBuffer (q_pending q1) (q1\<lparr>q_pending := []\<rparr>)
      in dispatch_loop run shutdown Event_default now wakes q2)"

end
