(* ===== verification/Event_Delivery.thy ===== *)
theory Event_Delivery
  imports Event_Queue
begin

text \<open>
  Events are delivered once, in the order in which they were added, and their data is released once.  The table of
  stored events reuses numbers; locale \<open>event_fifo\<close> is what remains to be seen of it, a queue.
\<close>

section \<open>Numbers of stored events\<close>

interpretation ids: ordered_map "(<) :: UInt32 \<Rightarrow> UInt32 \<Rightarrow> bool"
  by unfold_locales auto

lemma ids_eqv [simp]: "ids.eqv a b \<longleftrightarrow> a = b"
  by (auto simp: ids.eqv_def)

lemma smap_erase_fresh: "k \<notin> fst ` set m \<Longrightarrow> smap_erase (<) k m = (m :: (UInt32, 'v) smap)"
  by (induction m) (auto simp: not_less_iff_gr_or_eq)

lemma length_smap_insert_fresh: "k \<notin> fst ` set m \<Longrightarrow> length (smap_insert (<) k v (m :: (UInt32, 'v) smap)) = Suc (length m)"
  by (induction m) (auto simp: not_less_iff_gr_or_eq)

lemma length_smap_erase: "ids.ascending m \<Longrightarrow> k \<in> fst ` set m \<Longrightarrow> Suc (length (smap_erase (<) k m)) = length m"
proof (induction m)
  case (Cons x m)
  then show ?case by (cases x) (force simp: not_less_iff_gr_or_eq dest: less_trans)
qed simp

lemma ascending_card: "ids.ascending m \<Longrightarrow> card (fst ` set m) = length m"
proof (induction m)
  case (Cons x m)
  then have "fst x \<notin> fst ` set m" by auto
  with Cons show ?case by simp
qed simp

text \<open>Numbers in use and numbers to be reused are, together, those below their count.\<close>

definition q_wf :: "'job EventQueue \<Rightarrow> bool" where
  "q_wf q \<longleftrightarrow>
     ids.ascending (q_events q) \<and> distinct (q_oldEventIDs q) \<and> set (q_oldEventIDs q) \<inter> fst ` set (q_events q) = {} \<and>
     set (q_oldEventIDs q) \<union> fst ` set (q_events q) = word_of_nat ` {..<length (q_oldEventIDs q) + length (q_events q)} \<and>
     distinct (sq_queue (q_buffer q)) \<and> set (sq_queue (q_buffer q)) = fst ` set (q_events q) \<and>
     (sq_queueReady (q_buffer q) \<longleftrightarrow> sq_queue (q_buffer q) \<noteq> [])"

definition event_at :: "'job EventQueue \<Rightarrow> UInt32 \<Rightarrow> Event" where
  "event_at q i = snd (the (smap_find (<) i (q_events q)))"

definition q_contents :: "'job EventQueue \<Rightarrow> Event list" where
  "q_contents q = map (event_at q) (rev (sq_queue (q_buffer q)))"

lemma q_wf_new: "q_wf (EventQueue_new now)" "q_contents (EventQueue_new now) = []"
  by (simp_all add: q_wf_def EventQueue_new_def SimpleEventQueueBuffer_new_def q_contents_def)

lemma q_wf_length: "q_wf q \<Longrightarrow> length (q_contents q) = length (q_events q)"
  using ascending_card [of "q_events q"] distinct_card [of "sq_queue (q_buffer q)"] by (simp add: q_wf_def q_contents_def)

lemma q_wf_empty: "q_wf q \<Longrightarrow> sq_isEmpty (q_buffer q) \<longleftrightarrow> q_contents q = []"
  by (simp add: q_wf_def q_contents_def sq_isEmpty_def)

lemma saveEvent_fresh:
  assumes "q_wf q" and "length (q_contents q) < two32" and "saveEvent e q = (i, q1)"
  shows "i \<notin> fst ` set (q_events q)"
    "q1 = q\<lparr>q_oldEventIDs := butlast (q_oldEventIDs q), q_events := smap_insert (<) i e (q_events q)\<rparr>"
    "q_oldEventIDs q = [] \<longrightarrow> i = word_of_nat (length (q_events q))"
    "q_oldEventIDs q \<noteq> [] \<longrightarrow> q_oldEventIDs q = butlast (q_oldEventIDs q) @ [i]"
proof -
  have "i \<notin> fst ` set (q_events q) \<and> (q_oldEventIDs q = [] \<longrightarrow> i = word_of_nat (length (q_events q))) \<and>
      (q_oldEventIDs q \<noteq> [] \<longrightarrow> q_oldEventIDs q = butlast (q_oldEventIDs q) @ [i])"
  proof (cases "q_oldEventIDs q = []")
    case True
    then have i: "i = word_of_nat (length (q_events q))" using assms(3) by (auto simp: saveEvent_def Let_def)
    have "word_of_nat (length (q_events q)) \<noteq> (word_of_nat k :: UInt32)" if "k < length (q_events q)" for k
      using that assms(2) q_wf_length [OF assms(1)] by (simp add: word_of_nat_eq_iff take_bit_nat_eq_self)
    then show ?thesis using assms(1) True i by (auto simp: q_wf_def)
  next
    case False
    then have i: "i = last (q_oldEventIDs q)" using assms(3) by (auto simp: saveEvent_def Let_def)
    moreover have "i \<notin> fst ` set (q_events q)"
      using assms(1) last_in_set [OF False] unfolding q_wf_def i by (meson disjoint_iff)
    ultimately show ?thesis using False by simp
  qed
  then show i: "i \<notin> fst ` set (q_events q)" and old: "q_oldEventIDs q = [] \<longrightarrow> i = word_of_nat (length (q_events q))"
      "q_oldEventIDs q \<noteq> [] \<longrightarrow> q_oldEventIDs q = butlast (q_oldEventIDs q) @ [i]"
    by auto
  show "q1 = q\<lparr>q_oldEventIDs := butlast (q_oldEventIDs q), q_events := smap_insert (<) i e (q_events q)\<rparr>"
    using assms(3) smap_erase_fresh [OF i] by (auto simp: saveEvent_def Let_def split: if_splits)
qed

lemma addEventToBuffer_fifo:
  assumes wf: "q_wf q" and room: "length (q_contents q) < two32"
  shows "q_wf (addEventToBuffer e q) \<and> q_contents (addEventToBuffer e q) = q_contents q @ [e]"
proof -
  obtain i q1 where s: "saveEvent e q = (i, q1)" by fastforce
  note fresh = saveEvent_fresh [OF wf room s]
  define ev where "ev = smap_insert (<) i e (q_events q)"
  let ?q = "q\<lparr>q_oldEventIDs := butlast (q_oldEventIDs q), q_events := ev,
    q_buffer := (q_buffer q)\<lparr>sq_queue := i # sq_queue (q_buffer q), sq_queueReady := True\<rparr>\<rparr>"
  have q': "addEventToBuffer e q = ?q"
    using s fresh(2) by (simp add: addEventToBuffer_def sq_addEvent_def ev_def)
  have asc: "ids.ascending (q_events q)" using wf by (simp add: q_wf_def)
  have ev: "ids.ascending ev" "fst ` set ev = insert i (fst ` set (q_events q))" "length ev = Suc (length (q_events q))"
    using ids.ascending_insert [OF asc] ids.set_insert [OF asc, of i e] fresh(1) length_smap_insert_fresh [OF fresh(1), of e]
    by (auto simp: ev_def)
  have all: "set (butlast (q_oldEventIDs q)) \<union> fst ` set ev = word_of_nat ` {..<length (butlast (q_oldEventIDs q)) + length ev}"
  proof (cases "q_oldEventIDs q = []")
    case True
    then show ?thesis using wf fresh(3) ev by (simp add: q_wf_def lessThan_Suc)
  next
    case False
    then obtain xs where "q_oldEventIDs q = xs @ [i]" using fresh(4) by metis
    with wf ev show ?thesis by (simp add: q_wf_def)
  qed
  have "set (butlast (q_oldEventIDs q)) \<inter> insert i (fst ` set (q_events q)) = {}"
  proof (cases "q_oldEventIDs q = []")
    case False
    then obtain xs where "q_oldEventIDs q = xs @ [i]" using fresh(4) by metis
    with wf show ?thesis by (auto simp: q_wf_def)
  qed simp
  then have "q_wf ?q"
    using wf ev all fresh(1) distinct_butlast [of "q_oldEventIDs q"] by (simp add: q_wf_def)
  moreover have "event_at ?q j = event_at q j" if "j \<in> set (sq_queue (q_buffer q))" for j
  proof -
    from that wf fresh(1) have "i \<noteq> j" by (auto simp: q_wf_def)
    then show ?thesis using ids.find_insert_other [OF asc, of i j e] by (simp add: event_at_def ev_def)
  qed
  moreover have "event_at ?q i = e"
    using fresh(1) ids.find_insert_same [OF asc, of i i e] ids.find_None_iff [OF asc, of i] by (auto simp: event_at_def ev_def)
  ultimately show ?thesis by (simp add: q' q_contents_def)
qed

text \<open>Taking the next event out of the buffer, as \<^verbatim>\<open>getEvent\<close> does.\<close>

definition take_event :: "'job EventQueue \<Rightarrow> (Event \<times> 'job EventQueue) option" where
  "take_event q =
     (case sq_getEvent (q_buffer q) of
        (None, _) \<Rightarrow> None
      | (Some dataID, b) \<Rightarrow> Some (removeEvent dataID (q\<lparr>q_buffer := b\<rparr>)))"

lemma take_event_fifo:
  assumes wf: "q_wf q" and c: "q_contents q = e # es"
  shows "\<exists>q'. take_event q = Some (e, q') \<and> q_wf q' \<and> q_contents q' = es \<and> q_dispatched q' = q_dispatched q \<and> q_freed q' = q_freed q \<and>
    q_timerQueue q' = q_timerQueue q"
proof -
  from c obtain i js where i: "sq_queue (q_buffer q) = js @ [i]" and e: "e = event_at q i" "es = map (event_at q) (rev js)"
    by (cases "sq_queue (q_buffer q)" rule: rev_cases) (auto simp: q_contents_def)
  have asc: "ids.ascending (q_events q)" and ready: "sq_queueReady (q_buffer q)" and k: "i \<in> fst ` set (q_events q)" and ni: "i \<notin> set js" "distinct js"
    and keys: "insert i (set js) = fst ` set (q_events q)"
    using wf i by (auto simp: q_wf_def)
  from k obtain v where f: "smap_find (<) i (q_events q) = Some (i, v)" using ids.find_Some_iff [OF asc] by auto
  define ev where "ev = smap_erase (<) i (q_events q)"
  let ?q = "q\<lparr>q_buffer := (q_buffer q)\<lparr>sq_queue := js, sq_queueReady := js \<noteq> []\<rparr>, q_events := ev, q_oldEventIDs := q_oldEventIDs q @ [i]\<rparr>"
  have t: "take_event q = Some (v, ?q)"
    using i ready f by (simp add: take_event_def sq_getEvent_def removeEvent_def ev_def)
  have ev: "ids.ascending ev" "fst ` set ev = fst ` set (q_events q) - {i}" "Suc (length ev) = length (q_events q)"
    using ids.ascending_erase [OF asc] ids.set_erase [OF asc, of i] length_smap_erase [OF asc k] by (auto simp: ev_def)
  have "insert i (set (q_oldEventIDs q)) \<union> fst ` set ev = set (q_oldEventIDs q) \<union> fst ` set (q_events q)" using ev(2) k by auto
  then have "q_wf ?q"
    using wf ev ni k keys i by (auto simp: q_wf_def)
  moreover have "event_at ?q j = event_at q j" if "j \<in> set js" for j
  proof -
    from that ni(1) have "i \<noteq> j" by auto
    then show ?thesis using ids.find_erase_other [OF asc, of i j] by (simp add: event_at_def ev_def)
  qed
  ultimately show ?thesis using t e f by (simp add: q_contents_def event_at_def)
qed

section \<open>The interface\<close>

locale event_fifo =
  fixes wf :: "'q \<Rightarrow> bool" and contents :: "'q \<Rightarrow> 'e list" and add :: "'e \<Rightarrow> 'q \<Rightarrow> 'q" and remove :: "'q \<Rightarrow> ('e \<times> 'q) option"
  assumes add_last: "wf q \<Longrightarrow> length (contents q) < two32 \<Longrightarrow> wf (add e q) \<and> contents (add e q) = contents q @ [e]"
    and remove_first: "wf q \<Longrightarrow> contents q = e # es \<Longrightarrow> \<exists>q'. remove q = Some (e, q') \<and> wf q' \<and> contents q' = es"
begin

lemma add_all:
  "wf q \<Longrightarrow> length (contents q) + length es \<le> two32 \<Longrightarrow> wf (fold add es q) \<and> contents (fold add es q) = contents q @ es"
proof (induction es arbitrary: q)
  case (Cons e es)
  then show ?case using add_last [of q e] Cons.IH [of "add e q"] by simp
qed simp

end

interpretation queue: event_fifo q_wf q_contents addEventToBuffer take_event
  by unfold_locales (use addEventToBuffer_fifo take_event_fifo in blast)+

section \<open>The loop delivers\<close>

lemma getEvent_next:
  assumes wf: "q_wf q" and c: "q_contents q = e # es" and s: "\<not> shutdown now"
  shows "\<exists>q'. getEvent shutdown timeout timer now wakes q = Some (True, Some e, now, wakes, q') \<and> q_wf q' \<and> q_contents q' = es \<and>
    q_dispatched q' = q_dispatched q \<and> q_freed q' = q_freed q"
proof -
  obtain q' where t: "take_event q = Some (e, q')" and q': "q_wf q'" "q_contents q' = es" "q_dispatched q' = q_dispatched q" "q_freed q' = q_freed q"
    using take_event_fifo [OF wf c] by blast
  have "wait_loop timeout timer now wakes q = Some (GotEvents, timer, now, wakes, q)"
    using q_wf_empty [OF wf] c by (subst wait_loop.simps) simp
  then show ?thesis
    using t q' s by (subst getEvent.simps) (auto simp: take_event_def split: prod.splits option.splits)
qed

text \<open>Handlers that leave the stored events, and what was recorded, alone.\<close>

definition passive_job :: "('job \<Rightarrow> Event \<Rightarrow> 'job EventQueue \<Rightarrow> 'job EventQueue) \<Rightarrow> bool" where
  "passive_job run \<longleftrightarrow> (\<forall>j e q. q_events (run j e q) = q_events q \<and> q_oldEventIDs (run j e q) = q_oldEventIDs q \<and>
     q_buffer (run j e q) = q_buffer q \<and> q_dispatched (run j e q) = q_dispatched q \<and> q_freed (run j e q) = q_freed q)"

lemma q_wf_cong:
  assumes "q_events q' = q_events q" "q_oldEventIDs q' = q_oldEventIDs q" "q_buffer q' = q_buffer q"
  shows "q_wf q' \<longleftrightarrow> q_wf q" "q_contents q' = q_contents q"
  using assms by (auto simp: q_wf_def q_contents_def event_at_def [abs_def])

lemma dispatch_passive:
  assumes run: "passive_job run" and q': "q' = q_free e (snd (dispatchEvent run e q))"
  shows "q_wf q' \<longleftrightarrow> q_wf q" "q_contents q' = q_contents q" "q_dispatched q' = q_dispatched q @ [e]" "q_freed q' = q_freed q @ Event_deleteData e"
proof -
  have "q_events q' = q_events q" "q_oldEventIDs q' = q_oldEventIDs q" "q_buffer q' = q_buffer q"
    using run by (auto simp: q' q_free_def dispatchEvent_def passive_job_def Let_def split: option.splits)
  from q_wf_cong [OF this] show "q_wf q' \<longleftrightarrow> q_wf q" "q_contents q' = q_contents q" .
  show "q_dispatched q' = q_dispatched q @ [e]" "q_freed q' = q_freed q @ Event_deleteData e"
    using run by (auto simp: q' q_free_def dispatchEvent_def passive_job_def Let_def split: option.splits)
qed

lemma dispatch_loop_delivers:
  assumes "q_wf q" and "q_contents q = es @ quit # rest" and "\<forall>e \<in> set es. e_type e \<noteq> kQuit" and "e_type quit = kQuit"
    and "passive_job run" and "\<not> shutdown now"
  shows "\<exists>q'. dispatch_loop run shutdown event now wakes q = Some q' \<and> q_dispatched q' = q_dispatched q @ es \<and>
    q_freed q' = q_freed q @ concat (map Event_deleteData es) \<and> q_contents q' = rest"
  using assms
proof (induction es arbitrary: q event)
  case Nil
  then obtain q' where "getEvent shutdown (- 1) (Stopwatch_new True now) now wakes q = Some (True, Some quit, now, wakes, q')"
    "q_contents q' = rest" "q_dispatched q' = q_dispatched q" "q_freed q' = q_freed q"
    using getEvent_next [OF Nil.prems(1), of quit rest shutdown now "- 1" "Stopwatch_new True now" wakes] Nil.prems(2,6) by auto
  with Nil(4) show ?case by (subst dispatch_loop.simps) simp
next
  case (Cons e es)
  then obtain q1 where q1: "getEvent shutdown (- 1) (Stopwatch_new True now) now wakes q = Some (True, Some e, now, wakes, q1)"
    "q_wf q1" "q_contents q1 = es @ quit # rest" "q_dispatched q1 = q_dispatched q" "q_freed q1 = q_freed q"
    using getEvent_next [OF Cons.prems(1), of e "es @ quit # rest" shutdown now "- 1" "Stopwatch_new True now" wakes] Cons.prems(2,6) by auto
  define q2 where "q2 = q_free e (snd (dispatchEvent run e q1))"
  note q2 = dispatch_passive [OF Cons.prems(5) q2_def]
  have "dispatch_loop run shutdown event now wakes q = dispatch_loop run shutdown e now wakes q2"
    using q1(1) Cons.prems(3) by (subst dispatch_loop.simps) (simp add: q2_def)
  with Cons.IH [of q2 e] Cons.prems q1 q2 show ?case by simp
qed



end
