(* ===== verification/Event_Timers.thy ===== *)
theory Event_Timers
  imports Event_Queue
begin

text \<open>
  The timers of the event queue as a schedule of due times.  The queue counts every timer down by the time since its
  last check; seen with the mark of the stopwatch added, a timer has a fixed time at which it is due.
\<close>

section \<open>The schedule\<close>

text \<open>Heap order, a running stopwatch and positive periods.\<close>

definition timers_ok :: "'job EventQueue \<Rightarrow> bool" where
  "timers_ok q \<longleftrightarrow> is_heap tm_time (q_timerQueue q) \<and> \<not> sw_stopped (q_time q) \<and> \<not> sw_triggered (q_time q) \<and>
     (\<forall>t \<in> set (q_timerQueue q). tm_timeout t > 0)"

text \<open>Timers put off by an amount of time.\<close>

definition later :: "real \<Rightarrow> Timer multiset \<Rightarrow> Timer multiset" where
  "later dt = image_mset (\<lambda>t. t\<lparr>tm_time := tm_time t + dt\<rparr>)"

definition schedule :: "'job EventQueue \<Rightarrow> Timer multiset" where
  "schedule q = later (sw_mark (q_time q)) (mset (q_timerQueue q))"

lemma later_simps [simp]: "later dt {#} = {#}" "later dt (add_mset t m) = add_mset (t\<lparr>tm_time := tm_time t + dt\<rparr>) (later dt m)"
  "later dt (m + n) = later dt m + later dt n"
  by (simp_all add: later_def)

lemma later_later [simp]: "later a (later b m) = later (b + a) m"
  by (simp add: later_def multiset.map_comp comp_def add.assoc)

lemma later_minus: "later dt (image_mset (Timer_minus d) m) = later (dt - d) m"
  by (simp add: later_def Timer_minus_def multiset.map_comp comp_def algebra_simps)

lemma timers_ok_new: "timers_ok (EventQueue_new now)" "schedule (EventQueue_new now) = {#}"
  by (simp_all add: timers_ok_def schedule_def EventQueue_new_def Stopwatch_new_def is_heap_def)

lemma newTimer_schedule:
  assumes ok: "timers_ok q" and d: "duration > 0"
  shows "\<exists>q'. q_newTimer oneShot timer duration target now q = Some q' \<and> timers_ok q' \<and>
    schedule q' = add_mset (Timer_new timer duration (now + duration) (if target = 0 then timer else target) oneShot) (schedule q)"
proof -
  let ?t = "Timer_new timer duration (duration + (now - sw_mark (q_time q))) (if target = 0 then timer else target) oneShot"
  have p: "is_heap tm_time (PriorityQueue_push tm_time ?t (q_timerQueue q))" "mset (PriorityQueue_push tm_time ?t (q_timerQueue q)) = add_mset ?t (mset (q_timerQueue q))"
    using PriorityQueue_push_ok [of tm_time "q_timerQueue q" ?t] ok by (auto simp: timers_ok_def)
  then have "set (PriorityQueue_push tm_time ?t (q_timerQueue q)) = insert ?t (set (q_timerQueue q))"
    by (metis set_mset_add_mset_insert set_mset_mset)
  with p ok d show ?thesis
    by (auto simp: q_newTimer_def Stopwatch_getTime_def timers_ok_def schedule_def Timer_new_def algebra_simps split del: if_split)
qed

lemma timer_index_Some: "timer_index timer ts = Some i \<Longrightarrow> i < length ts \<and> tm_timer (ts ! i) = timer"
  by (induction ts arbitrary: i) (auto split: if_splits)

lemma timer_index_None: "timer_index timer ts = None \<longleftrightarrow> timer \<notin> tm_timer ` set ts"
  by (induction ts) auto

lemma later_filter: "(\<And>t. P (t\<lparr>tm_time := tm_time t + dt\<rparr>) \<longleftrightarrow> P t) \<Longrightarrow> later dt (filter_mset P m) = filter_mset P (later dt m)"
  by (induction m) auto

lemma deleteTimer_schedule:
  assumes ok: "timers_ok q" and d: "distinct (map tm_timer (q_timerQueue q))"
  shows "timers_ok (deleteTimer timer q) \<and> schedule (deleteTimer timer q) = filter_mset (\<lambda>t. tm_timer t \<noteq> timer) (schedule q)"
proof -
  let ?ts = "q_timerQueue q" and ?P = "\<lambda>t. tm_timer t \<noteq> timer"
  have "is_heap tm_time (q_timerQueue (deleteTimer timer q)) \<and> mset (q_timerQueue (deleteTimer timer q)) = filter_mset ?P (mset ?ts)"
  proof (cases "timer_index timer ?ts")
    case None
    then have "filter ?P ?ts = ?ts" using timer_index_None [of timer ?ts] by (auto intro: filter_True)
    then show ?thesis using None ok by (simp add: deleteTimer_def timers_ok_def flip: mset_filter)
  next
    case (Some i)
    note i = timer_index_Some [OF this]
    have "filter ?P ?ts = filter ?P (take i ?ts) @ filter ?P (?ts ! i # drop (Suc i) ?ts)"
      using i by (metis filter_append id_take_nth_drop)
    moreover have "tm_timer (?ts ! j) \<noteq> timer" if "j < length ?ts" "j \<noteq> i" for j
      using d that i by (metis length_map nth_eq_iff_index_eq nth_map)
    then have "filter ?P (take i ?ts) = take i ?ts" "filter ?P (drop (Suc i) ?ts) = drop (Suc i) ?ts"
      using i by (auto intro!: filter_True simp: in_set_conv_nth)
    ultimately have "filter ?P ?ts = take i ?ts @ drop (Suc i) ?ts" using i by simp
    moreover have "mset ?ts = mset (take i ?ts @ ?ts ! i # drop (Suc i) ?ts)" using i id_take_nth_drop by metis
    ultimately have "filter_mset ?P (mset ?ts) = mset ?ts - {#?ts ! i#}"
      by (metis add_mset_remove_trivial mset.simps(2) mset_append mset_filter union_mset_add_mset_right)
    then show ?thesis
      using PriorityQueue_erase_ok [of i ?ts tm_time] i Some by (simp add: deleteTimer_def)
  qed
  moreover from this have "set (q_timerQueue (deleteTimer timer q)) \<subseteq> set ?ts" by (metis filter_is_subset mset_filter set_mset_mset)
  ultimately show ?thesis using ok by (auto simp: timers_ok_def schedule_def deleteTimer_def later_filter)
qed

section \<open>Expiry\<close>

text \<open>The queue after a check that found no timer, and after one that found \<open>t\<close>; \<open>now'\<close> is the time of the reset.\<close>

lemma counted_down:
  assumes "timers_ok q"
  shows "is_heap tm_time (map (Timer_minus d) (q_timerQueue q))"
  using assms by (intro is_heap_map [where key = tm_time]) (auto simp: timers_ok_def Timer_minus_def)

lemma expired_schedule:
  assumes ok: "timers_ok q" and t: "t \<in># schedule q" "tm_time t \<le> now" and "hasTimerExpired now now' q = (r, q')"
  shows "timers_ok q' \<and> (\<exists>t \<in># schedule q. (\<forall>u \<in># schedule q. tm_time t \<le> tm_time u) \<and>
    r = Some (Event_new kTimer (tm_target t) TimerInfo 0) \<and>
    q_timerEvent q' = (tm_timer t, word_of_int \<lfloor>(tm_timeout t + (now - tm_time t)) / tm_timeout t\<rfloor>) \<and>
    schedule q' = later (now' - now) (schedule q - {#t#}) +
      (if tm_oneShot t then {#} else {#t\<lparr>tm_time := now' + tm_timeout t\<rparr>#}))"
proof -
  let ?m = "sw_mark (q_time q)" and ?ts = "map (Timer_minus (now - sw_mark (q_time q))) (q_timerQueue q)"
  have sw: "\<not> sw_stopped (q_time q)" "\<not> sw_triggered (q_time q)" using ok by (auto simp: timers_ok_def)
  have sched: "schedule q = later now (mset ?ts)" by (simp add: schedule_def later_minus)
  obtain x xs where x: "q_timerQueue q = x # xs" using t(1) by (cases "q_timerQueue q") (auto simp: schedule_def)
  let ?x = "Timer_minus (now - ?m) x" and ?rest = "PriorityQueue_pop tm_time ?ts"
  have top: "PriorityQueue_top ?ts = Some ?x" by (simp add: x PriorityQueue_top_def)
  note pop = PriorityQueue_pop_ok [OF counted_down [OF ok] top]
  define t0 where "t0 = ?x\<lparr>tm_time := tm_time ?x + now\<rparr>"
  have t0: "schedule q = add_mset t0 (later now (mset ?rest))" using pop by (simp add: sched t0_def)
  have "\<forall>y \<in> set ?ts. tm_time ?x \<le> tm_time y" using pop by blast
  then have least: "\<forall>u \<in># schedule q. tm_time t0 \<le> tm_time u" by (auto simp: sched later_def t0_def)
  then have le: "tm_time ?x \<le> 0" using t by (force simp: t0_def)
  define ts2 where "ts2 = (if tm_oneShot x then ?rest else PriorityQueue_push tm_time (Timer_reset ?x) ?rest)"
  have h: "hasTimerExpired now now' q = (Some (Event_new kTimer (tm_target x) TimerInfo 0),
      q\<lparr>q_time := (q_time q)\<lparr>sw_mark := now'\<rparr>, q_timerEvent := Timer_fillEvent ?x, q_timerQueue := ts2\<rparr>)"
    using top le sw by (simp add: hasTimerExpired_def PriorityQueue_empty_def Stopwatch_getTime_def Stopwatch_reset_def ts2_def x Timer_minus_def)
  have ts2: "is_heap tm_time ts2" "mset ts2 = mset ?rest + (if tm_oneShot x then {#} else {#Timer_reset ?x#})"
    using pop PriorityQueue_push_ok [of tm_time ?rest "Timer_reset ?x"] by (auto simp: ts2_def)
  have "set_mset (mset ?rest) \<subseteq> set_mset (mset ?ts)" using pop by (metis set_mset_add_mset_insert subset_insertI)
  then have "\<forall>u \<in># mset ts2. tm_timeout u > 0"
    using ok x by (auto simp: ts2(2) timers_ok_def Timer_minus_def Timer_reset_def split: if_splits)
  then have ok': "timers_ok q'" using assms(4) h ts2(1) sw by (auto simp: timers_ok_def)
  have sch: "schedule q' = later (now' - now) (schedule q - {#t0#}) + (if tm_oneShot t0 then {#} else {#t0\<lparr>tm_time := now' + tm_timeout t0\<rparr>#})"
    using assms(4) h ts2(2) by (auto simp: schedule_def [of q'] t0 t0_def Timer_minus_def Timer_reset_def algebra_simps)
  have "t0 \<in># schedule q" by (simp add: t0)
  moreover have "r = Some (Event_new kTimer (tm_target t0) TimerInfo 0)" using assms(4) h by (auto simp: t0_def Timer_minus_def)
  moreover have "q_timerEvent q' = (tm_timer t0, word_of_int \<lfloor>(tm_timeout t0 + (now - tm_time t0)) / tm_timeout t0\<rfloor>)"
    using assms(4) h le by (auto simp: t0_def Timer_minus_def Timer_fillEvent_def algebra_simps)
  ultimately show ?thesis using ok' sch least by blast
qed

lemma not_expired_schedule:
  assumes ok: "timers_ok q" and t: "\<forall>t \<in># schedule q. now < tm_time t" and "hasTimerExpired now now' q = (r, q')"
  shows "timers_ok q' \<and> r = None \<and> schedule q' = later (now' - now) (schedule q)"
proof (cases "q_timerQueue q")
  case Nil
  with assms show ?thesis by (auto simp: hasTimerExpired_def PriorityQueue_empty_def schedule_def)
next
  case (Cons x xs)
  let ?d = "now - sw_mark (q_time q)"
  have sw: "\<not> sw_stopped (q_time q)" "\<not> sw_triggered (q_time q)" using ok by (auto simp: timers_ok_def)
  have "0 < tm_time (Timer_minus ?d x)" using t Cons by (simp add: schedule_def Timer_minus_def)
  then have "q' = q\<lparr>q_time := (q_time q)\<lparr>sw_mark := now'\<rparr>, q_timerQueue := map (Timer_minus ?d) (q_timerQueue q)\<rparr> \<and> r = None"
    using assms(3) Cons sw
    by (auto simp: hasTimerExpired_def PriorityQueue_empty_def PriorityQueue_top_def Stopwatch_getTime_def Stopwatch_reset_def)
  with ok sw counted_down [OF ok, of ?d] show ?thesis
    by (auto simp: timers_ok_def schedule_def later_minus, auto simp: Timer_minus_def algebra_simps)
qed

text \<open>
  C29.  The timers implement a schedule of due times.  A new timer is due its duration from now; deleting a timer
  removes it and no other.  A check reports a timer exactly when one is due, and then one with the earliest due time,
  with the number of periods that have passed; that timer is due again one period after the check, unless it is a one-shot
  timer, which is gone.  All other timers stay due as they were, but for the time between the two readings of the clock
  during the check.
\<close>

theorem timer_schedule:
  assumes ok: "timers_ok q"
  shows "(duration > 0 \<longrightarrow> (\<exists>q'. q_newTimer oneShot timer duration target now q = Some q' \<and> timers_ok q' \<and>
      schedule q' = add_mset (Timer_new timer duration (now + duration) (if target = 0 then timer else target) oneShot) (schedule q))) \<and>
    (distinct (map tm_timer (q_timerQueue q)) \<longrightarrow> timers_ok (deleteTimer timer q) \<and>
      schedule (deleteTimer timer q) = filter_mset (\<lambda>t. tm_timer t \<noteq> timer) (schedule q)) \<and>
    (let (r, q') = hasTimerExpired now now' q
     in timers_ok q' \<and>
        (if \<exists>t \<in># schedule q. tm_time t \<le> now
         then \<exists>t \<in># schedule q. (\<forall>u \<in># schedule q. tm_time t \<le> tm_time u) \<and>
           r = Some (Event_new kTimer (tm_target t) TimerInfo 0) \<and>
           q_timerEvent q' = (tm_timer t, word_of_int \<lfloor>(tm_timeout t + (now - tm_time t)) / tm_timeout t\<rfloor>) \<and>
           schedule q' = later (now' - now) (schedule q - {#t#}) +
             (if tm_oneShot t then {#} else {#t\<lparr>tm_time := now' + tm_timeout t\<rparr>#})
         else r = None \<and> schedule q' = later (now' - now) (schedule q)))"
proof -
  obtain r q' where h: "hasTimerExpired now now' q = (r, q')" by fastforce
  show ?thesis
  proof (intro conjI impI)
    show "\<exists>q'. q_newTimer oneShot timer duration target now q = Some q' \<and> timers_ok q' \<and>
        schedule q' = add_mset (Timer_new timer duration (now + duration) (if target = 0 then timer else target) oneShot) (schedule q)"
      if "duration > 0" by (rule newTimer_schedule [OF ok that])
    show "timers_ok (deleteTimer timer q)" "schedule (deleteTimer timer q) = filter_mset (\<lambda>t. tm_timer t \<noteq> timer) (schedule q)"
      if "distinct (map tm_timer (q_timerQueue q))" using deleteTimer_schedule [OF ok that, of timer] by auto
  next
    show "let (r, q') = hasTimerExpired now now' q
     in timers_ok q' \<and>
        (if \<exists>t \<in># schedule q. tm_time t \<le> now
         then \<exists>t \<in># schedule q. (\<forall>u \<in># schedule q. tm_time t \<le> tm_time u) \<and>
           r = Some (Event_new kTimer (tm_target t) TimerInfo 0) \<and>
           q_timerEvent q' = (tm_timer t, word_of_int \<lfloor>(tm_timeout t + (now - tm_time t)) / tm_timeout t\<rfloor>) \<and>
           schedule q' = later (now' - now) (schedule q - {#t#}) +
             (if tm_oneShot t then {#} else {#t\<lparr>tm_time := now' + tm_timeout t\<rparr>#})
         else r = None \<and> schedule q' = later (now' - now) (schedule q))"
    proof (cases "\<exists>t \<in># schedule q. tm_time t \<le> now")
      case True
      then show ?thesis unfolding h Let_def prod.case if_P [OF True] using expired_schedule [OF ok _ _ h] by blast
    next
      case False
      then show ?thesis unfolding h Let_def prod.case if_not_P [OF False] using not_expired_schedule [OF ok _ h] by fastforce
    qed
  qed
qed

text \<open>A timer of three seconds, started at time ten and checked at time fourteen.\<close>

theorem timer_schedule_witness:
  "\<exists>q r q'. newTimer 9 3 0 10 (EventQueue_new 10 :: nat EventQueue) = Some q \<and> hasTimerExpired 14 14 q = (r, q') \<and>
    r = Some (Event_new kTimer 9 TimerInfo 0) \<and> schedule q' = {#Timer_new 9 3 17 9 False#}"
proof -
  have new: "\<exists>q. newTimer 9 3 0 10 (EventQueue_new 10 :: nat EventQueue) = Some q \<and> timers_ok q \<and> schedule q = {#Timer_new 9 3 13 9 False#}"
    using timer_schedule [OF timers_ok_new(1) [of 10], of 3 False 9 0 10 10] timers_ok_new(2) [of 10] by (auto simp: newTimer_def)
  then obtain q :: "nat EventQueue" where q: "newTimer 9 3 0 10 (EventQueue_new 10) = Some q" "timers_ok q" "schedule q = {#Timer_new 9 3 13 9 False#}"
    by blast
  obtain r q' where h: "hasTimerExpired 14 14 q = (r, q')" by fastforce
  have "r = Some (Event_new kTimer 9 TimerInfo 0)" "schedule q' = {#Timer_new 9 3 17 9 False#}"
    using timer_schedule [OF q(2), of 1 False 0 0 14 14] h q(3) by (auto simp: Timer_new_def)
  with q h show ?thesis by blast
qed

end
