(* ===== verification/Event_Startup.thy ===== *)
theory Event_Startup
  imports Event_Delivery
begin

text \<open>
  The start of the event loop while other threads add events, \<^verbatim>\<open>EventQueue::loop\<close> and \<^verbatim>\<open>EventQueue::addEvent\<close>.  A step is what a thread does
  while it holds a lock.  \<^verbatim>\<open>addEvent\<close> reads the ready flag under one lock and stores the event under another.
\<close>

section \<open>Threads\<close>

text \<open>Where the thread of the loop is: before it, moving pending events to the buffer, with one in hand, or past that.\<close>

datatype loop_at = BeforeLoop | Draining | Carrying Event | Running

text \<open>A thread in \<^verbatim>\<open>addEvent\<close> has read the ready flag, or is outside.\<close>

datatype adder_at = Outside | Checked bool Event

record 'job threads =
  th_queue :: "'job EventQueue"
  th_loop :: loop_at
  th_adder :: "nat \<Rightarrow> adder_at"

text \<open>Events that \<^verbatim>\<open>addEvent\<close> stores: not of a reserved type and not to be delivered at once.\<close>

definition queued_event :: "Event \<Rightarrow> bool" where
  "queued_event e \<longleftrightarrow> e_type e \<notin> {kUnknown, kSystem, kTimer} \<and> e_flags e AND kDeliverImmediately = 0"

inductive thread_step :: "'job threads \<Rightarrow> 'job threads \<Rightarrow> bool" where
  set_ready: "th_loop s = BeforeLoop \<Longrightarrow>
    thread_step s (s\<lparr>th_loop := Draining, th_queue := (th_queue s)\<lparr>q_ready := True\<rparr>\<rparr>)"
| pop_pending: "th_loop s = Draining \<Longrightarrow> q_pending (th_queue s) = e # es \<Longrightarrow>
    thread_step s (s\<lparr>th_loop := Carrying e, th_queue := (th_queue s)\<lparr>q_pending := es\<rparr>\<rparr>)"
| move_pending: "th_loop s = Carrying e \<Longrightarrow>
    thread_step s (s\<lparr>th_loop := Draining, th_queue := addEventToBuffer e (th_queue s)\<rparr>)"
| drained: "th_loop s = Draining \<Longrightarrow> q_pending (th_queue s) = [] \<Longrightarrow> thread_step s (s\<lparr>th_loop := Running\<rparr>)"
| read_ready: "th_adder s i = Outside \<Longrightarrow> queued_event e \<Longrightarrow>
    thread_step s (s\<lparr>th_adder := (th_adder s)(i := Checked (q_ready (th_queue s)) e)\<rparr>)"
| store_pending: "th_adder s i = Checked False e \<Longrightarrow>
    thread_step s (s\<lparr>th_adder := (th_adder s)(i := Outside), th_queue := (th_queue s)\<lparr>q_pending := q_pending (th_queue s) @ [e]\<rparr>\<rparr>)"
| store_buffer: "th_adder s i = Checked True e \<Longrightarrow>
    thread_step s (s\<lparr>th_adder := (th_adder s)(i := Outside), th_queue := addEventToBuffer e (th_queue s)\<rparr>)"

inductive_cases thread_stepE: "thread_step s s'"

inductive thread_run :: "'job threads \<Rightarrow> 'job threads \<Rightarrow> bool" where
  stop: "thread_run s s"
| step: "thread_step s s' \<Longrightarrow> thread_run s' s'' \<Longrightarrow> thread_run s s''"

definition threads_start :: "real \<Rightarrow> 'job threads" where
  "threads_start now = \<lparr>th_queue = EventQueue_new now, th_loop = BeforeLoop, th_adder = (\<lambda>_. Outside)\<rparr>"

lemma thread_run_trans: "thread_run s s' \<Longrightarrow> thread_run s' s'' \<Longrightarrow> thread_run s s''"
  by (induction rule: thread_run.induct) (auto intro: thread_run.step)

section \<open>A thread that is alone loses nothing\<close>

lemma pending_same: "q_pending (addEventToBuffer e q) = q_pending q" "q_ready (addEventToBuffer e q) = q_ready q"
  by (simp_all add: addEventToBuffer_def saveEvent_def sq_addEvent_def Let_def)

text \<open>\<^verbatim>\<open>addEvent\<close> without interruption is its two steps.\<close>

lemma addEvent_steps:
  assumes "queued_event e" and "th_adder s i = Outside"
  shows "thread_run s (s\<lparr>th_queue := addEvent run e (th_queue s)\<rparr>)"
proof -
  let ?s = "s\<lparr>th_adder := (th_adder s)(i := Checked (q_ready (th_queue s)) e)\<rparr>"
  have "thread_step s ?s" using assms by (intro read_ready) auto
  moreover have "thread_step ?s (s\<lparr>th_queue := addEvent run e (th_queue s)\<rparr>)"
  proof (cases "q_ready (th_queue s)")
    case True
    have "(th_adder s)(i := Outside) = th_adder s" using assms(2) by auto
    with store_buffer [of ?s i e] True assms(1) show ?thesis by (simp add: addEvent_def queued_event_def)
  next
    case False
    have "(th_adder s)(i := Outside) = th_adder s" using assms(2) by auto
    with store_pending [of ?s i e] False assms(1) show ?thesis by (simp add: addEvent_def queued_event_def)
  qed
  ultimately show ?thesis by (blast intro: thread_run.intros)
qed

text \<open>Once the loop runs, what is pending stays pending.\<close>

lemma running_step:
  "thread_step s s' \<Longrightarrow> th_loop s = Running \<Longrightarrow> th_loop s' = Running \<and> (\<exists>es. q_pending (th_queue s') = q_pending (th_queue s) @ es)"
  by (auto elim!: thread_stepE simp: pending_same)

lemma running_run:
  "thread_run s s' \<Longrightarrow> th_loop s = Running \<Longrightarrow> th_loop s' = Running \<and> (\<exists>es. q_pending (th_queue s') = q_pending (th_queue s) @ es)"
  by (induction rule: thread_run.induct) (auto dest!: running_step)

text \<open>Only a thread that read the flag before the loop set it can still make an event pending.\<close>

definition late_adder :: "'job threads \<Rightarrow> bool" where
  "late_adder s \<longleftrightarrow> (\<exists>i e. th_adder s i = Checked False e)"

lemma ready_step: "thread_step s s' \<Longrightarrow> q_ready (th_queue s) \<longleftrightarrow> th_loop s \<noteq> BeforeLoop \<Longrightarrow> q_ready (th_queue s') \<longleftrightarrow> th_loop s' \<noteq> BeforeLoop"
  by (auto elim!: thread_stepE simp: pending_same)

lemma not_late_step:
  "thread_step s s' \<Longrightarrow> \<not> late_adder s \<Longrightarrow> q_ready (th_queue s) \<Longrightarrow> \<not> late_adder s'"
  by (auto elim!: thread_stepE simp: late_adder_def split: if_splits)

text \<open>With no such thread when the loop begins, nothing is pending once it runs.\<close>

lemma no_late_adder_step:
  assumes "thread_step s s'" and "q_ready (th_queue s)" and "\<not> late_adder s" and "th_loop s = Running \<longrightarrow> q_pending (th_queue s) = []"
  shows "th_loop s' = Running \<longrightarrow> q_pending (th_queue s') = []"
  using assms by (auto elim!: thread_stepE simp: pending_same late_adder_def)

lemma no_late_adder_run:
  "thread_run s s' \<Longrightarrow> q_ready (th_queue s) \<Longrightarrow> th_loop s \<noteq> BeforeLoop \<Longrightarrow> \<not> late_adder s \<Longrightarrow>
    (th_loop s = Running \<longrightarrow> q_pending (th_queue s) = []) \<Longrightarrow> th_loop s' = Running \<Longrightarrow> q_pending (th_queue s') = []"
proof (induction rule: thread_run.induct)
  case (step s s' s'')
  have "q_ready (th_queue s') \<and> th_loop s' \<noteq> BeforeLoop"
    using step.hyps(1) step.prems(1,2) by (auto elim!: thread_stepE simp: pending_same)
  then show ?case
    using step no_late_adder_step [OF step.hyps(1)] not_late_step [OF step.hyps(1)] by blast
qed simp

text \<open>
  C30.  An event added while the loop starts can be lost.  For every event that is to be queued there is an
  interleaving of one adding thread with the start of the loop after which the loop runs, the call of
  \<^verbatim>\<open>addEvent\<close> has returned and the event is neither in the buffer nor ever moved there: in whatever follows it stays
  pending.  But if no thread is between reading the ready flag and storing its event when the loop sets the flag, no event
  is left behind.
\<close>

theorem startup_event_lost:
  "(queued_event e \<longrightarrow> (\<exists>s :: 'job threads. thread_run (threads_start now) s \<and> th_loop s = Running \<and> th_adder s i = Outside \<and>
      q_contents (th_queue s) = [] \<and> (\<forall>s'. thread_run s s' \<longrightarrow> th_loop s' = Running \<and> e \<in> set (q_pending (th_queue s'))))) \<and>
   (\<forall>s s' :: 'job threads. th_loop s = BeforeLoop \<and> \<not> late_adder s \<and> th_loop s' = Running \<and>
      thread_run (s\<lparr>th_loop := Draining, th_queue := (th_queue s)\<lparr>q_ready := True\<rparr>\<rparr>) s' \<longrightarrow> q_pending (th_queue s') = [])"
proof (intro conjI impI allI)
  assume e: "queued_event e"
  let ?s0 = "threads_start now :: 'job threads"
  let ?s1 = "?s0\<lparr>th_adder := (th_adder ?s0)(i := Checked False e)\<rparr>"
  let ?s2 = "?s1\<lparr>th_loop := Draining, th_queue := (th_queue ?s1)\<lparr>q_ready := True\<rparr>\<rparr>"
  let ?s3 = "?s2\<lparr>th_loop := Running\<rparr>"
  let ?s4 = "?s3\<lparr>th_adder := (th_adder ?s3)(i := Outside), th_queue := (th_queue ?s3)\<lparr>q_pending := q_pending (th_queue ?s3) @ [e]\<rparr>\<rparr>"
  have "thread_step ?s0 ?s1" using read_ready [of ?s0 i e] e by (simp add: threads_start_def EventQueue_new_def)
  moreover have "thread_step ?s1 ?s2" by (rule set_ready) (simp add: threads_start_def)
  moreover have "thread_step ?s2 ?s3" by (rule drained) (simp_all add: threads_start_def EventQueue_new_def)
  moreover have "thread_step ?s3 ?s4" by (rule store_pending) simp
  ultimately have run: "thread_run ?s0 ?s4" by (blast intro: thread_run.intros)
  have pend: "q_pending (th_queue ?s4) = [e]" by (simp add: threads_start_def EventQueue_new_def)
  have "th_loop s' = Running \<and> e \<in> set (q_pending (th_queue s'))" if "thread_run ?s4 s'" for s'
    using running_run [OF that] pend by auto
  moreover have "q_contents (th_queue ?s4) = []" by (simp add: threads_start_def q_contents_def EventQueue_new_def SimpleEventQueueBuffer_new_def)
  ultimately show "\<exists>s :: 'job threads. thread_run (threads_start now) s \<and> th_loop s = Running \<and> th_adder s i = Outside \<and>
      q_contents (th_queue s) = [] \<and> (\<forall>s'. thread_run s s' \<longrightarrow> th_loop s' = Running \<and> e \<in> set (q_pending (th_queue s')))"
    using run by (intro exI [of _ ?s4]) auto
next
  fix s s' :: "'job threads"
  assume a: "th_loop s = BeforeLoop \<and> \<not> late_adder s \<and> th_loop s' = Running \<and>
    thread_run (s\<lparr>th_loop := Draining, th_queue := (th_queue s)\<lparr>q_ready := True\<rparr>\<rparr>) s'"
  then have "\<not> late_adder (s\<lparr>th_loop := Draining, th_queue := (th_queue s)\<lparr>q_ready := True\<rparr>\<rparr>)" by (simp add: late_adder_def)
  with a show "q_pending (th_queue s') = []" by (intro no_late_adder_run) auto
qed

theorem startup_event_lost_witness:
  "\<exists>s :: nat threads. thread_run (threads_start 0) s \<and> th_loop s = Running \<and> q_contents (th_queue s) = [] \<and>
    Event_new kQuit 0 NoData 0 \<in> set (q_pending (th_queue s))"
proof -
  have "queued_event (Event_new kQuit 0 NoData 0)" by (simp add: queued_event_def Event_new_def event_types)
  then obtain s :: "nat threads" where "thread_run (threads_start 0) s" "th_loop s = Running" "q_contents (th_queue s) = []"
    "\<forall>s'. thread_run s s' \<longrightarrow> th_loop s' = Running \<and> Event_new kQuit 0 NoData 0 \<in> set (q_pending (th_queue s'))"
    using startup_event_lost [of "Event_new kQuit 0 NoData 0" 0 0] by blast
  then show ?thesis using thread_run.stop [of s] by blast
qed

end
