(* ===== verification/Float64.thy ===== *)
theory Float64
  imports Float32
begin

text \<open>
  Rounding to a binary format with \<open>p + 1\<close> bits and exponents from \<open>lo\<close> to \<open>hi\<close>, of which \<open>round32\<close> is an instance, and the
  conversion of percentages that the configuration file uses: \<^verbatim>\<open>double\<close>, then \<^verbatim>\<open>float\<close>.
\<close>

definition bexp :: "int \<Rightarrow> int \<Rightarrow> rat \<Rightarrow> int" where
  "bexp lo hi x = Max (set (lo # filter (\<lambda>e. 2 powi e \<le> \<bar>x\<bar>) [lo..hi]))"

definition round_bin :: "int \<Rightarrow> int \<Rightarrow> int \<Rightarrow> rat \<Rightarrow> rat" where
  "round_bin p lo hi x = (let q = 2 powi (bexp lo hi x - p) in of_int (half_even (x / q)) * q)"

definition round64 :: "rat \<Rightarrow> rat" where
  "round64 = round_bin 52 (- 1022) 1023"

lemma round32_bin: "round32 = round_bin 23 (- 126) 127"
  by (rule ext) (simp only: round32_def round_bin_def fexp_def bexp_def exponents_def)

lemma bexp_le:
  assumes "\<bar>x\<bar> < 2 powi (e + 1)" and "lo \<le> e"
  shows "bexp lo hi x \<le> e"
proof -
  have le: "i \<le> e" if "i \<in> set (lo # filter (\<lambda>i. 2 powi i \<le> \<bar>x\<bar>) [lo..hi])" for i
  proof (rule ccontr)
    assume n: "\<not> i \<le> e"
    then have "2 powi i \<le> \<bar>x\<bar>" using that assms(2) by auto
    moreover have "(2 :: rat) powi (e + 1) \<le> 2 powi i" using n by (intro power_int_increasing) auto
    ultimately show False using assms(1) by simp
  qed
  show ?thesis unfolding bexp_def
    by (rule Max.boundedI [OF finite_set _ le]) (simp_all only: list.set insert_not_empty not_False_eq_True)
qed

lemma half_even_near: "\<bar>of_int (half_even x) - x\<bar> \<le> 1 / 2"
proof -
  have "of_int \<lfloor>x\<rfloor> \<le> x" "x < of_int \<lfloor>x\<rfloor> + 1" by linarith+
  then show ?thesis by (auto simp: half_even_def Let_def abs_le_iff)
qed

lemma round_bin_near:
  assumes "\<bar>x\<bar> < 2 powi (e + 1)" and "lo \<le> e"
  shows "\<bar>round_bin p lo hi x - x\<bar> \<le> 2 powi (e - p) / 2"
proof -
  define q where "q = (2 :: rat) powi (bexp lo hi x - p)"
  have q: "0 < q" "q \<le> 2 powi (e - p)"
    using bexp_le [OF assms, of hi] by (auto simp: q_def intro!: power_int_increasing)
  have "round_bin p lo hi x - x = (of_int (half_even (x / q)) - x / q) * q"
    using q(1) by (simp add: round_bin_def q_def [symmetric] algebra_simps)
  then have "\<bar>round_bin p lo hi x - x\<bar> = \<bar>of_int (half_even (x / q)) - x / q\<bar> * q"
    using q(1) by (simp add: abs_mult)
  also have "\<dots> \<le> 1 / 2 * q" using q(1) by (intro mult_right_mono half_even_near) simp
  finally show ?thesis using q(2) by simp
qed

lemma round_bin_int:
  assumes "\<bar>of_int k\<bar> < (2 :: rat) powi (p + 1)" and "lo \<le> p"
  shows "round_bin p lo hi (of_int k) = of_int k"
proof -
  define n where "n = nat (p - bexp lo hi (of_int k))"
  have "bexp lo hi (of_int k) \<le> p" by (rule bexp_le [OF assms])
  then have q: "(2 :: rat) powi (bexp lo hi (of_int k) - p) = 1 / 2 ^ n" by (simp add: n_def power_int_def divide_simps)
  have "of_int k / (1 / 2 ^ n) = (of_int (k * 2 ^ n) :: rat)" by simp
  then show ?thesis unfolding round_bin_def q Let_def by (simp only: half_even_int) simp
qed

section \<open>Percentages\<close>

text \<open>\<^verbatim>\<open>(float)(value / 100.0F)\<close> for a \<^verbatim>\<open>double\<close>, and \<^verbatim>\<open>(int)(x * 100.0F + 0.5F)\<close> for a \<^verbatim>\<open>float\<close>.\<close>

definition of_percent :: "rat \<Rightarrow> rat" where
  "of_percent v = round32 (round64 (v / 100))"

definition to_percent :: "rat \<Rightarrow> int" where
  "to_percent x = (let y = round32 (round32 (x * 100) + 1 / 2) in if y < 0 then \<lceil>y\<rceil> else \<lfloor>y\<rfloor>)"

lemma round64_int: "0 \<le> k \<Longrightarrow> k \<le> 100 \<Longrightarrow> round64 (of_int k) = of_int k"
proof -
  assume "0 \<le> k" "k \<le> 100"
  then have "\<bar>of_int k :: rat\<bar> \<le> 100" by simp
  also have "(100 :: rat) < 2 powi (52 + 1)" by (simp add: power_int_numeral)
  finally show ?thesis unfolding round64_def by (rule round_bin_int) simp
qed

lemma of_percent_ends: "of_percent 0 = 0" "of_percent 100 = 1"
  using round64_int [of 0] round64_int [of 1] round_bin_int [of 0 23 "-126" 127] round32_one
  by (simp_all add: of_percent_def round32_bin)

lemma of_percent_near:
  assumes "0 \<le> k" "k \<le> 100"
  shows "\<bar>of_percent (of_int k) - of_int k / 100\<bar> \<le> 1 / 1000000"
proof -
  let ?x = "of_int k / 100 :: rat"
  have x: "\<bar>?x\<bar> \<le> 1" using assms by simp
  then have "\<bar>round64 ?x - ?x\<bar> \<le> 2 powi (0 - 52) / 2" unfolding round64_def by (intro round_bin_near) auto
  then have r: "\<bar>round64 ?x - ?x\<bar> \<le> 1 / 4000000" by (simp add: power_int_minus field_simps)
  then have "\<bar>round64 ?x\<bar> \<le> 1 + 1 / 4000000" using x by linarith
  then have "\<bar>round64 ?x\<bar> < 2 powi (0 + 1)" by simp
  then have "\<bar>round32 (round64 ?x) - round64 ?x\<bar> \<le> 2 powi (0 - 23) / 2" unfolding round32_bin by (intro round_bin_near) auto
  then have "\<bar>round32 (round64 ?x) - round64 ?x\<bar> \<le> 1 / 4000000" by (simp add: power_int_minus field_simps)
  with r show ?thesis unfolding of_percent_def by linarith
qed

lemma to_of_percent:
  assumes "0 \<le> k" "k \<le> 100"
  shows "to_percent (of_percent (of_int k)) = k"
proof -
  define a where "a = of_percent (of_int k) * 100"
  define b where "b = round32 a"
  define y where "y = round32 (b + 1 / 2)"
  have k: "(0 :: rat) \<le> of_int k" "of_int k \<le> (100 :: rat)" using assms by simp_all
  have err: "\<bar>round32 x - x\<bar> \<le> 1 / 1000" if "\<bar>x\<bar> < 128" for x
  proof -
    have "\<bar>round32 x - x\<bar> \<le> 2 powi (6 - 23) / 2"
      unfolding round32_bin using that by (intro round_bin_near) (simp_all add: power_int_numeral)
    then show ?thesis by (simp add: power_int_minus field_simps)
  qed
  have a: "\<bar>a - of_int k\<bar> \<le> 1 / 10000" using of_percent_near [OF assms] unfolding a_def by linarith
  then have "\<bar>a\<bar> < 128" using k by linarith
  then have b: "\<bar>b - a\<bar> \<le> 1 / 1000" unfolding b_def by (rule err)
  then have "\<bar>b + 1 / 2\<bar> < 128" using a k by linarith
  then have "\<bar>y - (b + 1 / 2)\<bar> \<le> 1 / 1000" unfolding y_def by (rule err)
  with a b have "of_int k \<le> y" "y < of_int k + 1" by linarith+
  then have "\<lfloor>y\<rfloor> = k" "\<not> y < 0" using k by (auto simp: floor_eq_iff)
  then show ?thesis by (simp add: to_percent_def Let_def y_def b_def a_def)
qed

lemma of_percent_less:
  assumes "0 \<le> a" "a < b" "b \<le> 100"
  shows "of_percent (of_int a) < of_percent (of_int b)"
proof -
  have "(of_int a :: rat) + 1 \<le> of_int b" using assms(2) by (metis of_int_1 of_int_add of_int_le_iff zless_imp_add1_zle)
  moreover have "\<bar>of_percent (of_int a) - of_int a / 100\<bar> \<le> 1 / 1000000" "\<bar>of_percent (of_int b) - of_int b / 100\<bar> \<le> 1 / 1000000"
    by (rule of_percent_near; use assms in simp)+
  ultimately show ?thesis by linarith
qed

lemma of_percent_range:
  assumes "0 \<le> k" "k \<le> 100"
  shows "0 \<le> of_percent (of_int k)" "of_percent (of_int k) \<le> 1"
proof -
  show "0 \<le> of_percent (of_int k)"
    using of_percent_less [of 0 k] assms of_percent_ends(1) by (cases "k = 0") auto
  show "of_percent (of_int k) \<le> 1"
    using of_percent_less [of k 100] assms of_percent_ends(2) by (cases "k = 100") auto
qed

lemma of_percent_eq_iff:
  assumes "0 \<le> a" "a \<le> 100" "0 \<le> b" "b \<le> 100"
  shows "of_percent (of_int a) = of_percent (of_int b) \<longleftrightarrow> a = b"
  using to_of_percent [of a] to_of_percent [of b] assms by metis

end
