(* ===== verification/Config_Text.thy ===== *)
theory Config_Text
  imports Server_Proxy Float64
begin

text \<open>
  Reading the text of a configuration, \<^verbatim>\<open>ConfigReadContext\<close> of \<^verbatim>\<open>server/Config.cpp\<close>: lines without comments, and the values
  they hold.  Positions in a line are numbers, \<^verbatim>\<open>npos\<close> is \<open>None\<close>.  An exception is \<open>XConfigRead\<close> with the number of the line, the
  message and its argument.
\<close>

section \<open>Searching strings\<close>

fun index_where :: "(char \<Rightarrow> bool) \<Rightarrow> string \<Rightarrow> nat option" where
  "index_where P [] = None"
| "index_where P (c # s) = (if P c then Some 0 else map_option Suc (index_where P s))"

definition find_first_of :: "string \<Rightarrow> string \<Rightarrow> nat \<Rightarrow> nat option" where
  "find_first_of s cs i = map_option ((+) i) (index_where (\<lambda>c. c \<in> set cs) (drop i s))"

definition find_first_not_of :: "string \<Rightarrow> string \<Rightarrow> nat \<Rightarrow> nat option" where
  "find_first_not_of s cs i = map_option ((+) i) (index_where (\<lambda>c. c \<notin> set cs) (drop i s))"

definition find_last_not_of :: "string \<Rightarrow> string \<Rightarrow> nat option" where
  "find_last_not_of s cs = map_option (\<lambda>k. length s - 1 - k) (index_where (\<lambda>c. c \<notin> set cs) (rev s))"

text \<open>\<^verbatim>\<open>s.substr(i, j - i)\<close>, up to the end when \<^verbatim>\<open>j\<close> is \<^verbatim>\<open>npos\<close>.\<close>

definition substr_to :: "string \<Rightarrow> nat \<Rightarrow> nat option \<Rightarrow> string" where
  "substr_to s i j = (case j of None \<Rightarrow> drop i s | Some j \<Rightarrow> take (j - i) (drop i s))"

definition blanks :: string where
  "blanks = [CHR '' '', CHR 0x09]"

lemma index_where_Some: "index_where P s = Some i \<Longrightarrow> i < length s \<and> P (s ! i)"
  by (induction s arbitrary: i) (auto split: if_splits)

lemma find_first_not_of_Some: "find_first_not_of s cs i = Some j \<Longrightarrow> i \<le> j \<and> j < length s"
  using index_where_Some [of "\<lambda>c. c \<notin> set cs" "drop i s"] by (fastforce simp: find_first_not_of_def)

lemma find_first_of_Some: "find_first_of s cs i = Some j \<Longrightarrow> i \<le> j \<and> j < length s \<and> s ! j \<in> set cs"
  using index_where_Some [of "\<lambda>c. c \<in> set cs" "drop i s"] by (fastforce simp: find_first_of_def)

lemma index_where_append: "list_all (\<lambda>c. \<not> P c) s \<Longrightarrow> index_where P (s @ t) = map_option ((+) (length s)) (index_where P t)"
  by (induction s; cases "index_where P t") auto

lemma index_where_None: "index_where P s = None \<longleftrightarrow> list_all (\<lambda>c. \<not> P c) s"
  by (induction s) auto

lemma find_first_of_at:
  "list_all (\<lambda>c. c \<notin> set cs) s \<Longrightarrow> c \<in> set cs \<Longrightarrow> find_first_of (pre @ s @ c # t) cs (length pre) = Some (length pre + length s)"
  by (simp add: find_first_of_def index_where_append)

lemma find_first_of_none: "list_all (\<lambda>c. c \<notin> set cs) s \<Longrightarrow> find_first_of (pre @ s) cs (length pre) = None"
  by (simp add: find_first_of_def index_where_None)

lemma find_first_not_of_at: "c \<notin> set cs \<Longrightarrow> find_first_not_of (pre @ c # t) cs (length pre) = Some (length pre)"
  by (simp add: find_first_not_of_def)

section \<open>Lines\<close>

datatype cfg_error =
    XConfigRead nat string string
  | CfgAssertion
  | CfgUndefined

record ConfigReadContext =
  rc_stream :: string
  rc_fail :: bool
  rc_line :: nat

definition ConfigReadContext_new :: "string \<Rightarrow> ConfigReadContext" where
  "ConfigReadContext_new s = \<lparr>rc_stream = s, rc_fail = False, rc_line = 0\<rparr>"

definition isgraph :: "char \<Rightarrow> bool" where
  "isgraph c \<longleftrightarrow> 33 \<le> (of_char c :: nat) \<and> (of_char c :: nat) \<le> 126"

text \<open>Leading blanks, a comment, trailing blanks; a line of nothing but blanks is left as it is.\<close>

definition strip_line :: "string \<Rightarrow> string" where
  "strip_line l =
     (let l1 = (case find_first_not_of l blanks 0 of Some i \<Rightarrow> drop i l | None \<Rightarrow> l);
          l2 = (case find_first_of l1 ''#'' 0 of Some i \<Rightarrow> take i l1 | None \<Rightarrow> l1)
      in case find_last_not_of l2 (CHR '' '' # CHR 0x0D # CHR 0x09 # []) of Some i \<Rightarrow> take (i + 1) l2 | None \<Rightarrow> l2)"

definition line_char :: "char \<Rightarrow> bool" where
  "line_char c \<longleftrightarrow> isgraph c \<or> c = CHR '' '' \<or> c = CHR 0x09"

text \<open>\<^verbatim>\<open>%#2x\<close> of a \<^verbatim>\<open>char\<close>, which is passed as a signed \<^verbatim>\<open>int\<close>.\<close>

fun hexadecimal :: "nat \<Rightarrow> string" where
  "hexadecimal n = (if n < 16 then [hex_digit n] else hexadecimal (n div 16) @ [hex_digit (n mod 16)])"

declare hexadecimal.simps [simp del]

definition char_hex :: "char \<Rightarrow> string" where
  "char_hex c = (let n = unat (word_of_int (char_int c) :: UInt32) in if n = 0 then '' 0'' else ''0x'' @ hexadecimal n)"

function readLine_loop :: "ConfigReadContext \<Rightarrow> cfg_error + (string option \<times> ConfigReadContext)" where
  "readLine_loop s =
     (case getline (CHR 0x0A) (rc_stream s) of
        None \<Rightarrow> Inr (None, s\<lparr>rc_fail := True\<rparr>)
      | Some (l, rest) \<Rightarrow>
          let line = strip_line l; s1 = s\<lparr>rc_stream := rest\<rparr>
          in if line \<noteq> []
             then (if list_all line_char line then Inr (Some line, s1) else 
                   Inl (XConfigRead (rc_line s) ''invalid character %{1}'' (char_hex (hd (filter (\<lambda>c. \<not> line_char c) line)))))
             else readLine_loop (s1\<lparr>rc_line := rc_line s + 1\<rparr>))"
  by pat_completeness auto

lemma getline_length: "getline delim s = Some (l, rest) \<Longrightarrow> length rest < length s"
proof -
  have "length (drop 1 (dropWhile P s)) < length s" if "s \<noteq> []" for P and s :: string
    using that length_dropWhile_le [of P s] by (cases s) (auto simp: less_Suc_eq_le le_trans diff_le_self)
  then show "getline delim s = Some (l, rest) \<Longrightarrow> length rest < length s"
    by (auto simp: getline_def split: if_splits)
qed

termination readLine_loop
  by (relation "measure (\<lambda>s. length (rc_stream s))") (auto dest: getline_length)

declare readLine_loop.simps [simp del]

definition readLine :: "ConfigReadContext \<Rightarrow> cfg_error + (string option \<times> ConfigReadContext)" where
  "readLine s = readLine_loop (s\<lparr>rc_line := rc_line s + 1\<rparr>)"

lemma readLine_loop_length:
  "readLine_loop s = Inr (Some line, s') \<Longrightarrow> length (rc_stream s') < length (rc_stream s)"
proof (induction s rule: readLine_loop.induct)
  case (1 s)
  show ?case
  proof (cases "getline (CHR 0x0A) (rc_stream s)")
    case None
    with 1(2) show ?thesis by (simp add: readLine_loop.simps [of s])
  next
    case (Some x)
    obtain l rest where x: "x = (l, rest)" by (cases x)
    have len: "length rest < length (rc_stream s)" using Some x getline_length by simp
    show ?thesis
    proof (cases "strip_line l = []")
      case True
      then show ?thesis using 1(1) [OF Some x [symmetric] refl refl] 1(2) Some x len
        by (simp add: readLine_loop.simps [of s])
    next
      case False
      then show ?thesis using 1(2) Some x len by (auto simp: readLine_loop.simps [of s] Let_def split: if_splits)
    qed
  qed
qed

lemma readLine_length: "readLine s = Inr (Some line, s') \<Longrightarrow> length (rc_stream s') < length (rc_stream s)"
  using readLine_loop_length by (fastforce simp: readLine_def)

section \<open>Values\<close>

definition parseBoolean :: "nat \<Rightarrow> string \<Rightarrow> cfg_error + OptionValue" where
  "parseBoolean lno arg =
     (if CaselessCmp_equal arg ''true'' then Inr 1
      else if CaselessCmp_equal arg ''false'' then Inr 0
      else Inl (XConfigRead lno ''invalid boolean argument \"%{1}\"'' arg))"

definition parseInt :: "nat \<Rightarrow> string \<Rightarrow> cfg_error + OptionValue" where
  "parseInt lno arg =
     (let (tmp, n, _) = strtol10 arg
      in if drop n arg \<noteq> [] then Inl (XConfigRead lno ''invalid integer argument \"%{1}\"'' arg)
         else if sint (word_of_int tmp :: OptionValue) \<noteq> tmp
         then Inl (XConfigRead lno ''integer argument \"%{1}\" out of range'' arg)
         else Inr (word_of_int tmp))"

definition kKeyModifierIDNull :: OptionValue where "kKeyModifierIDNull = 0"
definition kKeyModifierIDShift :: OptionValue where "kKeyModifierIDShift = 1"
definition kKeyModifierIDControl :: OptionValue where "kKeyModifierIDControl = 2"
definition kKeyModifierIDAlt :: OptionValue where "kKeyModifierIDAlt = 3"
definition kKeyModifierIDMeta :: OptionValue where "kKeyModifierIDMeta = 4"
definition kKeyModifierIDSuper :: OptionValue where "kKeyModifierIDSuper = 5"
definition kKeyModifierIDAltGr :: OptionValue where "kKeyModifierIDAltGr = 6"

lemmas modifier_ids = kKeyModifierIDNull_def kKeyModifierIDShift_def kKeyModifierIDControl_def kKeyModifierIDAlt_def
  kKeyModifierIDMeta_def kKeyModifierIDSuper_def kKeyModifierIDAltGr_def

definition parseModifierKey :: "nat \<Rightarrow> string \<Rightarrow> cfg_error + OptionValue" where
  "parseModifierKey lno arg =
     (if CaselessCmp_equal arg ''shift'' then Inr kKeyModifierIDShift
      else if CaselessCmp_equal arg ''ctrl'' then Inr kKeyModifierIDControl
      else if CaselessCmp_equal arg ''alt'' then Inr kKeyModifierIDAlt
      else if CaselessCmp_equal arg ''altgr'' then Inr kKeyModifierIDAltGr
      else if CaselessCmp_equal arg ''meta'' then Inr kKeyModifierIDMeta
      else if CaselessCmp_equal arg ''super'' then Inr kKeyModifierIDSuper
      else if CaselessCmp_equal arg ''none'' then Inr kKeyModifierIDNull
      else Inl (XConfigRead lno ''invalid argument \"%{1}\"'' arg))"

definition kAllCornersMask :: OptionValue where "kAllCornersMask = 15"

definition parseCorner :: "nat \<Rightarrow> string \<Rightarrow> cfg_error + OptionValue" where
  "parseCorner lno arg =
     (if CaselessCmp_equal arg ''left'' then Inr (kTopLeftMask OR kBottomLeftMask)
      else if CaselessCmp_equal arg ''right'' then Inr (kTopRightMask OR kBottomRightMask)
      else if CaselessCmp_equal arg ''top'' then Inr (kTopLeftMask OR kTopRightMask)
      else if CaselessCmp_equal arg ''bottom'' then Inr (kBottomLeftMask OR kBottomRightMask)
      else if CaselessCmp_equal arg ''top-left'' then Inr kTopLeftMask
      else if CaselessCmp_equal arg ''top-right'' then Inr kTopRightMask
      else if CaselessCmp_equal arg ''bottom-left'' then Inr kBottomLeftMask
      else if CaselessCmp_equal arg ''bottom-right'' then Inr kBottomRightMask
      else if CaselessCmp_equal arg ''none'' then Inr kNoCornerMask
      else if CaselessCmp_equal arg ''all'' then Inr kAllCornersMask
      else Inl (XConfigRead lno ''invalid argument \"%{1}\"'' arg))"

text \<open>The corners after the first one, from the position of an operator.\<close>

function parse_more_corners :: "nat \<Rightarrow> string \<Rightarrow> nat option \<Rightarrow> OptionValue \<Rightarrow> cfg_error + OptionValue" where
  "parse_more_corners lno args None corners = Inr corners"
| "parse_more_corners lno args (Some i) corners =
     (if args ! i \<noteq> CHR ''-'' \<and> args ! i \<noteq> CHR ''+''
      then Inl (XConfigRead lno ''invalid corner operator \"%{1}\"'' [args ! i])
      else (case find_first_not_of args blanks (i + 1) of
          None \<Rightarrow> Inl (XConfigRead lno ''missing corner argument'' [])
        | Some i' \<Rightarrow>
            let j = find_first_of args blanks i'
            in bind_sum (parseCorner lno (substr_to args i' j)) (\<lambda>c.
                 parse_more_corners lno args (Option.bind j (find_first_not_of args blanks))
                   (if args ! i = CHR ''+'' then corners OR c else corners AND NOT c))))"
  by pat_completeness auto
termination
proof (relation "measure (\<lambda>(lno, args, i, corners). case i of None \<Rightarrow> 0 | Some i \<Rightarrow> Suc (length args - i))", goal_cases)
  case (2 lno args i corners i' j c)
  show ?case
  proof (cases "Option.bind j (find_first_not_of args blanks)")
    case (Some k)
    then obtain j' where "find_first_of args blanks i' = Some j'" "find_first_not_of args blanks j' = Some k"
      using 2(3) by (cases "find_first_of args blanks i'") auto
    then show ?thesis using Some find_first_of_Some [of args blanks i' j'] find_first_not_of_Some [of args blanks j' k]
        find_first_not_of_Some [OF 2(2)] by auto
  qed simp
qed simp

definition parseCorners :: "nat \<Rightarrow> string \<Rightarrow> cfg_error + OptionValue" where
  "parseCorners lno args =
     (case find_first_not_of args blanks 0 of
        None \<Rightarrow> Inl (XConfigRead lno ''missing corner argument'' [])
      | Some i \<Rightarrow>
          let j = find_first_of args blanks i
          in bind_sum (parseCorner lno (substr_to args i j)) (\<lambda>corners.
               parse_more_corners lno args (Option.bind j (find_first_not_of args blanks)) corners))"

section \<open>Numbers with a fraction\<close>

text \<open>\<^verbatim>\<open>strtod\<close>: the value, rounded to \<^verbatim>\<open>double\<close>, and the number of characters used, 0 when there is no number.\<close>

datatype dnum = DFin rat | DInf bool | DNaN

definition dbl :: "rat \<Rightarrow> dnum" where
  "dbl v = (if \<bar>v\<bar> \<ge> 2 ^ 1024 then DInf (v < 0) else DFin (round64 v))"

definition is_hex :: "char \<Rightarrow> bool" where
  "is_hex c \<longleftrightarrow> hex_to_number c \<ge> 0"

definition hex_val :: "string \<Rightarrow> nat" where
  "hex_val ds = foldl (\<lambda>n c. 16 * n + nat (hex_to_number c)) 0 ds"

text \<open>Digits with at most one point: both parts and the number of characters.\<close>

definition mantissa :: "(char \<Rightarrow> bool) \<Rightarrow> string \<Rightarrow> (string \<times> string \<times> nat) option" where
  "mantissa isd s =
     (let ip = takeWhile isd s; r = drop (length ip) s;
          fp = (if r \<noteq> [] \<and> hd r = CHR ''.'' then takeWhile isd (tl r) else [])
      in if ip = [] \<and> fp = [] then None
         else Some (ip, fp, length ip + (if r \<noteq> [] \<and> hd r = CHR ''.'' then 1 + length fp else 0)))"

text \<open>An exponent after one of the letters \<open>es\<close>.\<close>

definition exponent_part :: "string \<Rightarrow> string \<Rightarrow> int \<times> nat" where
  "exponent_part es s =
     (if s = [] \<or> hd s \<notin> set es then (0, 0)
      else let sign = takeWhile (\<lambda>c. c = CHR ''+'' \<or> c = CHR ''-'') (take 1 (tl s));
               ds = takeWhile isdigit (drop (length sign) (tl s))
           in if ds = [] then (0, 0)
              else ((if sign = ''-'' then - int (decimal_val ds) else int (decimal_val ds)), 1 + length sign + length ds))"

definition caseless_prefix :: "string \<Rightarrow> string \<Rightarrow> bool" where
  "caseless_prefix w s \<longleftrightarrow> map tolower_char (take (length w) s) = w"

definition nan_length :: "string \<Rightarrow> nat" where
  "nan_length s =
     (let r = drop 3 s; w = takeWhile (\<lambda>c. isalnum c \<or> c = CHR ''_'') (tl r)
      in if r \<noteq> [] \<and> hd r = CHR ''('' \<and> drop (length w) (tl r) \<noteq> [] \<and> hd (drop (length w) (tl r)) = CHR '')''
         then 3 + 2 + length w else 3)"

definition strtod_body :: "string \<Rightarrow> (rat \<Rightarrow> rat) \<Rightarrow> bool \<Rightarrow> (dnum \<times> nat) option" where
  "strtod_body s with_sign neg =
     (if caseless_prefix ''infinity'' s then Some (DInf neg, 8)
      else if caseless_prefix ''inf'' s then Some (DInf neg, 3)
      else if caseless_prefix ''nan'' s then Some (DNaN, nan_length s)
      else (case (if caseless_prefix ''0x'' s then mantissa is_hex (drop 2 s) else None) of
          Some (ip, fp, n) \<Rightarrow>
            let (e, k) = exponent_part ''pP'' (drop (2 + n) s)
            in Some (dbl (with_sign (of_nat (hex_val (ip @ fp)) * 2 powi (e - 4 * int (length fp)))), 2 + n + k)
        | None \<Rightarrow>
            (case mantissa isdigit s of
               None \<Rightarrow> None
             | Some (ip, fp, n) \<Rightarrow>
                 let (e, k) = exponent_part ''eE'' (drop n s)
                 in Some (dbl (with_sign (of_nat (decimal_val (ip @ fp)) * 10 powi (e - int (length fp)))), n + k))))"

definition strtod :: "string \<Rightarrow> dnum \<times> nat" where
  "strtod s =
     (let ws = takeWhile isspace s; s1 = drop (length ws) s;
          sign = takeWhile (\<lambda>c. c = CHR ''+'' \<or> c = CHR ''-'') (take 1 s1)
      in case strtod_body (drop (length sign) s1) (if sign = ''-'' then uminus else (\<lambda>v. v)) (sign = ''-'') of
           None \<Rightarrow> (DFin 0, 0)
         | Some (v, n) \<Rightarrow> (v, length ws + length sign + n))"

text \<open>Comparisons of \<^verbatim>\<open>double\<close>: with a NaN all of them are false.\<close>

fun dless :: "dnum \<Rightarrow> dnum \<Rightarrow> bool" where
  "dless DNaN b \<longleftrightarrow> False"
| "dless a DNaN \<longleftrightarrow> False"
| "dless (DInf n) (DInf m) \<longleftrightarrow> n \<and> \<not> m"
| "dless (DInf n) (DFin b) \<longleftrightarrow> n"
| "dless (DFin a) (DInf m) \<longleftrightarrow> \<not> m"
| "dless (DFin a) (DFin b) \<longleftrightarrow> a < b"

definition dge :: "dnum \<Rightarrow> dnum \<Rightarrow> bool" where
  "dge a b \<longleftrightarrow> a \<noteq> DNaN \<and> b \<noteq> DNaN \<and> \<not> dless a b"

definition concatArgs :: "string list \<Rightarrow> string" where
  "concatArgs args = ''('' @ concat (map (\<lambda>(i, a). (if i \<noteq> 0 then '','' else []) @ a) (enumerate 0 args)) @ '')''"

text \<open>An interval that passes the checks with a NaN is \<open>CfgUndefined\<close>: no later comparison means anything.\<close>

definition parseInterval :: "nat \<Rightarrow> string list \<Rightarrow> cfg_error + (rat \<times> rat)" where
  "parseInterval lno args =
     (let bad = XConfigRead lno ''invalid interval \"%{1}\"'' (concatArgs args)
      in if args = [] then Inr (0, 1)
         else if length args \<noteq> 2 \<or> args ! 0 = [] \<or> args ! 1 = [] then Inl bad
         else let (startValue, n) = strtod (args ! 0); (endValue, k) = strtod (args ! 1)
              in if drop n (args ! 0) \<noteq> [] \<or> drop k (args ! 1) \<noteq> [] then Inl bad
                 else if dless startValue (DFin 0) \<or> dless (DFin 100) startValue \<or>
                         dless endValue (DFin 0) \<or> dless (DFin 100) endValue \<or> dge startValue endValue
                 then Inl bad
                 else (case (startValue, endValue) of
                         (DFin a, DFin b) \<Rightarrow> Inr (of_percent a, of_percent b)
                       | _ \<Rightarrow> Inl CfgUndefined))"

section \<open>Names with arguments\<close>

definition trim_arg :: "string \<Rightarrow> string" where
  "trim_arg arg =
     (let a = (case find_first_not_of arg blanks 0 of None \<Rightarrow> arg | Some j \<Rightarrow> drop j arg)
      in case find_last_not_of a blanks of None \<Rightarrow> a | Some j \<Rightarrow> take (j + 1) a)"

text \<open>
  The arguments from position \<open>i\<close> and the position of the closing parenthesis, if there is one.  The variable \<^verbatim>\<open>j\<close> that holds
  its position is overwritten by the search for the end of the argument, so that a last argument of nothing but blanks is taken for a missing
  parenthesis.
\<close>

function parse_args :: "string \<Rightarrow> nat \<Rightarrow> (string list \<times> nat) option" where
  "parse_args line i =
     (case find_first_of line '',)'' i of
        None \<Rightarrow> None
      | Some j \<Rightarrow>
          let arg = trim_arg (take (j - i) (drop i line))
          in if line ! j = CHR '')'' then (if find_last_not_of arg blanks = None then None else Some ([arg], j))
             else map_option (\<lambda>(args, k). (arg # args, k)) (parse_args line (j + 1)))"
  by pat_completeness auto
termination
  by (relation "measure (\<lambda>(line, i). length line - i)") (auto dest: find_first_of_Some)

declare parse_args.simps [simp del]

text \<open>The position behind what was read, the name and its arguments.\<close>

definition parseNameWithArgs :: "nat \<Rightarrow> string \<Rightarrow> string \<Rightarrow> string \<Rightarrow> nat \<Rightarrow> cfg_error + (nat \<times> string \<times> string list)" where
  "parseNameWithArgs lno kind line delim index =
     (let needDelim = (delim \<noteq> [] \<and> CHR 0x0A \<notin> set delim);
          missing = Inl (XConfigRead lno (''missing '' @ take 1 delim) [])
      in case find_first_not_of line blanks index of
           None \<Rightarrow> Inl (XConfigRead lno (''missing '' @ kind) [])
         | Some i \<Rightarrow>
             let j = (case find_first_of line (blanks @ ''('' @ delim) i of None \<Rightarrow> length line | Some j \<Rightarrow> j);
                 name = take (j - i) (drop i line)
             in (case find_first_not_of line blanks j of
                   None \<Rightarrow> if needDelim then missing else Inr (length line, name, [])
                 | Some i \<Rightarrow>
                     if line ! i \<noteq> CHR ''('' then Inr (i, name, [])
                     else (case parse_args line (i + 1) of
                         None \<Rightarrow> Inl (XConfigRead lno ''missing )'' [])
                       | Some (args, k) \<Rightarrow>
                           (case find_first_not_of line blanks (k + 1) of
                              None \<Rightarrow> if needDelim then missing else Inr (length line, name, args)
                            | Some j \<Rightarrow>
                                if needDelim \<and> line ! j \<notin> set delim then Inl (XConfigRead lno (''expected '' @ take 1 delim) [])
                                else Inr (j, name, args)))))"

text \<open>Reading goes forward.\<close>

lemma parse_args_ge: "parse_args line i = Some (args, k) \<Longrightarrow> i \<le> k \<and> k < length line"
proof (induction line i arbitrary: args k rule: parse_args.induct)
  case (1 line i)
  then obtain j where j: "find_first_of line '',)'' i = Some j"
    by (subst (asm) (2) parse_args.simps) (auto split: option.splits)
  then have ij: "i \<le> j" "j < length line" using find_first_of_Some [of line "'',)''" i j] by auto
  show ?case
  proof (cases "line ! j = CHR '')''")
    case True
    then show ?thesis using 1(2) j ij by (subst (asm) parse_args.simps) (auto simp: Let_def split: if_splits)
  next
    case False
    then show ?thesis using 1(2) j ij 1(1) [OF j refl False]
      by (subst (asm) parse_args.simps) (fastforce simp: Let_def)
  qed
qed

lemma parseNameWithArgs_ge: "parseNameWithArgs lno kind line delim index = Inr (i, name, args) \<Longrightarrow> index \<le> i \<and> i \<le> length line"
  by (auto simp: parseNameWithArgs_def Let_def split: option.splits if_splits prod.splits
      dest!: find_first_not_of_Some find_first_of_Some parse_args_ge)

end
