(* ===== verification/Key_Names.thy ===== *)
theory Key_Names
  imports Config_Text
begin

text \<open>
  Keys and modifiers as text: the tables of \<^verbatim>\<open>barrier/key_types.cpp\<close> and \<^verbatim>\<open>formatKey\<close>, \<^verbatim>\<open>parseKey\<close> and \<^verbatim>\<open>parseModifiers\<close> of
  \<^verbatim>\<open>barrier/KeyMap.cpp\<close>.  The maps from names and to names are built from the tables by assignment, so that a later entry wins.
\<close>

section \<open>Tables\<close>

type_synonym KeyID = UInt32
type_synonym KeyModifierMask = UInt32

definition kKeySetModifiers :: KeyID where "kKeySetModifiers = 0xEE06"
definition kKeyClearModifiers :: KeyID where "kKeyClearModifiers = 0xEE07"

definition kKeyNameMap :: "(string \<times> KeyID) list" where
  "kKeyNameMap =
     [(''AltGr'', 0xEF7E), (''Alt_L'', 0xEFE9), (''Alt_R'', 0xEFEA), (''AppMail'', 0xE0B4), (''AppMedia'', 0xE0B5),
     (''AppUser1'', 0xE0B6), (''AppUser2'', 0xE0B7), (''AudioDown'', 0xE0AE), (''AudioMute'', 0xE0AD), (''AudioNext'', 0xE0B0),
     (''AudioPlay'', 0xE0B3), (''AudioPrev'', 0xE0B1), (''AudioStop'', 0xE0B2), (''AudioUp'', 0xE0AF), (''BackSpace'', 0xEF08),
     (''Begin'', 0xEF58), (''Break'', 0xEF6B), (''Cancel'', 0xEF69), (''CapsLock'', 0xEFE5), (''Clear'', 0xEF0B),
     (''Control_L'', 0xEFE3), (''Control_R'', 0xEFE4), (''Delete'', 0xEFFF), (''Down'', 0xEF54), (''EisuToggle'', 0xEF30),
     (''Eject'', 0xE001), (''End'', 0xEF57), (''Escape'', 0xEF1B), (''Execute'', 0xEF62), (''F1'', 0xEFBE), (''F2'', 0xEFBF),
     (''F3'', 0xEFC0), (''F4'', 0xEFC1), (''F5'', 0xEFC2), (''F6'', 0xEFC3), (''F7'', 0xEFC4), (''F8'', 0xEFC5), (''F9'', 0xEFC6),
     (''F10'', 0xEFC7), (''F11'', 0xEFC8), (''F12'', 0xEFC9), (''F13'', 0xEFCA), (''F14'', 0xEFCB), (''F15'', 0xEFCC),
     (''F16'', 0xEFCD), (''F17'', 0xEFCE), (''F18'', 0xEFCF), (''F19'', 0xEFD0), (''F20'', 0xEFD1), (''F21'', 0xEFD2),
     (''F22'', 0xEFD3), (''F23'', 0xEFD4), (''F24'', 0xEFD5), (''F25'', 0xEFD6), (''F26'', 0xEFD7), (''F27'', 0xEFD8),
     (''F28'', 0xEFD9), (''F29'', 0xEFDA), (''F30'', 0xEFDB), (''F31'', 0xEFDC), (''F32'', 0xEFDD), (''F33'', 0xEFDE),
     (''F34'', 0xEFDF), (''F35'', 0xEFE0), (''Find'', 0xEF68), (''Help'', 0xEF6A), (''Henkan'', 0xEF23), (''Home'', 0xEF50),
     (''Hyper_L'', 0xEFED), (''Hyper_R'', 0xEFEE), (''Insert'', 0xEF63), (''Kana'', 0xEF26), (''KP_0'', 0xEFB0),
     (''KP_1'', 0xEFB1), (''KP_2'', 0xEFB2), (''KP_3'', 0xEFB3), (''KP_4'', 0xEFB4), (''KP_5'', 0xEFB5), (''KP_6'', 0xEFB6),
     (''KP_7'', 0xEFB7), (''KP_8'', 0xEFB8), (''KP_9'', 0xEFB9), (''KP_Add'', 0xEFAB), (''KP_Begin'', 0xEF9D),
     (''KP_Decimal'', 0xEFAE), (''KP_Delete'', 0xEF9F), (''KP_Divide'', 0xEFAF), (''KP_Down'', 0xEF99), (''KP_End'', 0xEF9C),
     (''KP_Enter'', 0xEF8D), (''KP_Equal'', 0xEFBD), (''KP_F1'', 0xEF91), (''KP_F2'', 0xEF92), (''KP_F3'', 0xEF93),
     (''KP_F4'', 0xEF94), (''KP_Home'', 0xEF95), (''KP_Insert'', 0xEF9E), (''KP_Left'', 0xEF96), (''KP_Multiply'', 0xEFAA),
     (''KP_PageDown'', 0xEF9B), (''KP_PageUp'', 0xEF9A), (''KP_Right'', 0xEF98), (''KP_Separator'', 0xEFAC),
     (''KP_Space'', 0xEF80), (''KP_Subtract'', 0xEFAD), (''KP_Tab'', 0xEF89), (''KP_Up'', 0xEF97), (''Left'', 0xEF51),
     (''LeftTab'', 0xEE20), (''Linefeed'', 0xEF0A), (''Menu'', 0xEF67), (''Meta_L'', 0xEFE7), (''Meta_R'', 0xEFE8),
     (''Muhenkan'', 0xEF22), (''NumLock'', 0xEF7F), (''PageDown'', 0xEF56), (''PageUp'', 0xEF55), (''Pause'', 0xEF13),
     (''Print'', 0xEF61), (''Redo'', 0xEF66), (''Return'', 0xEF0D), (''Right'', 0xEF53), (''ScrollLock'', 0xEF14),
     (''Select'', 0xEF60), (''ShiftLock'', 0xEFE6), (''Shift_L'', 0xEFE1), (''Shift_R'', 0xEFE2), (''Sleep'', 0xE05F),
     (''Super_L'', 0xEFEB), (''Super_R'', 0xEFEC), (''SysReq'', 0xEF15), (''Tab'', 0xEF09), (''Undo'', 0xEF65), (''Up'', 0xEF52),
     (''WWWBack'', 0xE0A6), (''WWWFavorites'', 0xE0AB), (''WWWForward'', 0xE0A7), (''WWWHome'', 0xE0AC), (''WWWRefresh'', 0xE0A8),
     (''WWWSearch'', 0xE0AA), (''WWWStop'', 0xE0A9), (''Zenkaku'', 0xEF2A), (''Space'', 0x0020), (''Exclaim'', 0x0021),
     (''DoubleQuote'', 0x0022), (''Number'', 0x0023), (''Dollar'', 0x0024), (''Percent'', 0x0025), (''Ampersand'', 0x0026),
     (''Apostrophe'', 0x0027), (''ParenthesisL'', 0x0028), (''ParenthesisR'', 0x0029), (''Asterisk'', 0x002A), (''Plus'', 0x002B),
     (''Comma'', 0x002C), (''Minus'', 0x002D), (''Period'', 0x002E), (''Slash'', 0x002F), (''Colon'', 0x003A),
     (''Semicolon'', 0x003B), (''Less'', 0x003C), (''Equal'', 0x003D), (''Greater'', 0x003E), (''Question'', 0x003F),
     (''At'', 0x0040), (''BracketL'', 0x005B), (''Backslash'', 0x005C), (''BracketR'', 0x005D), (''Circumflex'', 0x005E),
     (''Underscore'', 0x005F), (''Grave'', 0x0060), (''BraceL'', 0x007B), (''Bar'', 0x007C), (''BraceR'', 0x007D),
     (''Tilde'', 0x007E), (''Copy'', 0x1008EF57), (''Cut'', 0x1008EF58), (''Open'', 0x1008EF6B), (''Paste'', 0x1008EF6D),
     (''Props'', 0x1005EF70), (''Front'', 0x1005EF71)]"

definition kModifierNameMap :: "(string \<times> KeyModifierMask) list" where
  "kModifierNameMap =
     [(''Alt'', 0x0004), (''AltGr'', 0x0020), (''Control'', 0x0002), (''Meta'', 0x0008), (''Shift'', 0x0001), (''Super'', 0x0010)]"

definition by_name :: "(string \<times> 'a) list \<Rightarrow> string \<Rightarrow> 'a option" where
  "by_name table x = map_option snd (find (\<lambda>(n, _). CaselessCmp_equal n x) (rev table))"

definition by_value :: "(string \<times> 'a) list \<Rightarrow> 'a \<Rightarrow> string option" where
  "by_value table v = map_option fst (find (\<lambda>(_, w). w = v) (rev table))"

section \<open>Formatting\<close>

text \<open>\<^verbatim>\<open>%04x\<close>.\<close>

definition hex4 :: "nat \<Rightarrow> string" where
  "hex4 n = (let ds = hexadecimal n in replicate (4 - length ds) (CHR ''0'') @ ds)"

definition format_modifiers :: "KeyModifierMask \<Rightarrow> string" where
  "format_modifiers m =
     concat (map (\<lambda>i. case (if m AND push_bit i 1 \<noteq> 0 then by_value kModifierNameMap (push_bit i 1) else None) of
                        None \<Rightarrow> [] | Some n \<Rightarrow> n @ ''+'') [0..<16])"

definition formatKey :: "KeyID \<Rightarrow> KeyModifierMask \<Rightarrow> string" where
  "formatKey key m =
     (let x = format_modifiers m
      in if key \<noteq> kKeyNone
         then x @ (case by_value kKeyNameMap key of
                     Some n \<Rightarrow> n
                   | None \<Rightarrow> if 33 \<le> key \<and> key < 127 then [char_of (unat key)] else CHR 0x5C # CHR ''u'' # hex4 (unat key))
         else if x \<noteq> [] then butlast x else x)"

section \<open>Parsing\<close>

text \<open>\<^verbatim>\<open>strtol(s, &end, 16)\<close> on a short string: the value and the number of characters before \<^verbatim>\<open>end\<close>.\<close>

definition strtol16 :: "string \<Rightarrow> int \<times> nat" where
  "strtol16 s =
     (let ws = takeWhile isspace s; s1 = drop (length ws) s;
          sign = takeWhile (\<lambda>c. c = CHR ''+'' \<or> c = CHR ''-'') (take 1 s1);
          s2 = drop (length sign) s1;
          pre = (if caseless_prefix ''0x'' s2 \<and> takeWhile is_hex (drop 2 s2) \<noteq> [] then 2 else 0);
          ds = takeWhile is_hex (drop pre s2)
      in if ds = [] then (0, 0)
         else ((if sign = ''-'' then - int (hex_val ds) else int (hex_val ds)), length ws + length sign + pre + length ds))"

definition parseKey :: "string \<Rightarrow> KeyID option" where
  "parseKey x =
     (case by_name kKeyNameMap x of
        Some k \<Rightarrow> Some k
      | None \<Rightarrow>
          if length x = 1 then (if isgraph (x ! 0) then Some (of_char (x ! 0)) else None)
          else if length x = 6 \<and> x ! 0 = CHR 0x5C \<and> x ! 1 = CHR ''u''
          then (let (v, n) = strtol16 (drop 2 x) in if drop n (drop 2 x) \<noteq> [] then None else Some (word_of_int v))
          else if x \<noteq> [] then None else Some kKeyNone)"

text \<open>The text after the modifiers and their mask, or failure.\<close>

definition trim_key :: "string \<Rightarrow> string" where
  "trim_key x =
     (case (find_first_not_of x blanks 0, find_last_not_of x blanks) of
        (Some tb, Some te) \<Rightarrow> take (te - tb + 1) (drop tb x)
      | _ \<Rightarrow> [])"

function parse_modifiers_from :: "string \<Rightarrow> nat option \<Rightarrow> KeyModifierMask \<Rightarrow> (string \<times> KeyModifierMask) option" where
  "parse_modifiers_from x None m = Some ([], m)"
| "parse_modifiers_from x (Some tb) m =
     (let te = (case find_first_of x (blanks @ ''+)'') tb of None \<Rightarrow> length x | Some te \<Rightarrow> te);
          c = take (te - tb) (drop tb x)
      in if c = [] then None
         else (case by_name kModifierNameMap c of
             None \<Rightarrow> Some (trim_key (drop tb x), m)
           | Some md \<Rightarrow>
               if m AND md \<noteq> 0 then None
               else (case find_first_not_of x blanks te of
                   None \<Rightarrow> Some ([], m OR md)
                 | Some tb' \<Rightarrow>
                     if x ! tb' \<noteq> CHR ''+'' then None
                     else parse_modifiers_from x (find_first_not_of x blanks (tb' + 1)) (m OR md))))"
  by pat_completeness auto
termination
proof (relation "measure (\<lambda>(x, tb, m). case tb of None \<Rightarrow> 0 | Some tb \<Rightarrow> Suc (length x - tb))", goal_cases)
  case (2 x tb m te c md tb')
  have "c \<noteq> []" "tb \<le> te" using 2(2,3,1) by (auto split: option.splits dest: find_first_of_Some)
  moreover have "te \<le> tb'" "tb' < length x" using find_first_not_of_Some [OF 2(6)] by auto
  ultimately show ?case by (auto split: option.splits dest!: find_first_not_of_Some)
qed simp

declare parse_modifiers_from.simps [simp del]

definition parseModifiers :: "string \<Rightarrow> (string \<times> KeyModifierMask) option" where
  "parseModifiers x = parse_modifiers_from x (find_first_not_of x blanks 0) 0"

end
