(* ===== verification/Network_Address.thy ===== *)
theory Network_Address
  imports Display_List
begin

text \<open>
  Addresses of hosts, \<^verbatim>\<open>net/NetworkAddress.cpp\<close>: host and port from text, and the address that the name resolves to.  The network functions
  of the architecture layer are the parameter \<open>arch_net\<close>; an address of theirs is a block of bytes, a null pointer \<open>None\<close>.
\<close>

type_synonym ArchNetAddress = "UInt8 list"

datatype XArchNetworkName = XNameUnknown | XNameNoAddress | XNameUnsupported | XNameOther

record arch_net =
  newAnyAddr4 :: ArchNetAddress
  newAnyAddr6 :: ArchNetAddress
  nameToAddr :: "string \<Rightarrow> XArchNetworkName + ArchNetAddress"
  setAddrPort :: "ArchNetAddress \<Rightarrow> int \<Rightarrow> ArchNetAddress"

datatype EError = kUnknownAddress | kNotFound | kNoAddress | kUnsupported | kBadPort

record XSocketAddress =
  xs_error :: EError
  xs_hostname :: string
  xs_port :: int

record NetworkAddress =
  na_address :: "ArchNetAddress option"
  na_hostname :: string
  na_port :: int

definition NetworkAddress_new :: NetworkAddress where
  "NetworkAddress_new = \<lparr>na_address = None, na_hostname = [], na_port = 0\<rparr>"

text \<open>A \<^verbatim>\<open>long\<close> stored in an \<^verbatim>\<open>int\<close>.\<close>

definition to_int32 :: "int \<Rightarrow> int" where
  "to_int32 v = sint (word_of_int v :: 32 word)"

text \<open>\<^verbatim>\<open>parse_address\<close>: host and port, \<open>None\<close> for \<^verbatim>\<open>false\<close>.\<close>

definition parse_address :: "string \<Rightarrow> int \<Rightarrow> (string \<times> int) option" where
  "parse_address address port =
     (if address \<noteq> [] \<and> address ! 0 = CHR ''[''
      then (case str_find address '']'' 1 of
          None \<Rightarrow> None
        | Some endBracket \<Rightarrow>
            let host = take (endBracket - 1) (drop 1 address)
            in if endBracket + 1 < length address
               then (if address ! (endBracket + 1) \<noteq> CHR '':'' then None
                     else Some (host, to_int32 (fst (strtol10 (drop (endBracket + 2) address)))))
               else Some (host, port))
      else (case str_find address '':'' 0 of
          None \<Rightarrow> Some (address, port)
        | Some colon \<Rightarrow>
            if str_find address '':'' (colon + 1) = None
            then Some (take colon address, to_int32 (fst (strtol10 (drop (colon + 1) address))))
            else Some (address, port)))"

definition checkPort :: "NetworkAddress \<Rightarrow> XSocketAddress + NetworkAddress" where
  "checkPort a =
     (if na_port a \<le> 0 \<or> na_port a > 65535 then Inl \<lparr>xs_error = kBadPort, xs_hostname = na_hostname a, xs_port = na_port a\<rparr>
      else Inr a)"

definition NetworkAddress_any :: "arch_net \<Rightarrow> int \<Rightarrow> XSocketAddress + NetworkAddress" where
  "NetworkAddress_any net port =
     map_sum id (\<lambda>a. a\<lparr>na_address := Some (setAddrPort net (newAnyAddr4 net) port)\<rparr>)
       (checkPort \<lparr>na_address = None, na_hostname = [], na_port = port\<rparr>)"

definition NetworkAddress_named :: "string \<Rightarrow> int \<Rightarrow> XSocketAddress + NetworkAddress" where
  "NetworkAddress_named hostname port =
     (case parse_address hostname port of
        None \<Rightarrow> Inl \<lparr>xs_error = kUnknownAddress,
            xs_hostname = (if hostname \<noteq> [] \<and> hostname ! 0 = CHR ''['' \<and> str_find hostname '']'' 1 \<noteq> None
               then take (the (str_find hostname '']'' 1) - 1) (drop 1 hostname) else hostname), xs_port = port\<rparr>
      | Some (host, p) \<Rightarrow> checkPort \<lparr>na_address = None, na_hostname = host, na_port = p\<rparr>)"

definition resolve :: "arch_net \<Rightarrow> NetworkAddress \<Rightarrow> XSocketAddress + NetworkAddress" where
  "resolve net a =
     (case (if na_hostname a = [] then Inr (newAnyAddr6 net) else nameToAddr net (na_hostname a)) of
        Inl e \<Rightarrow> Inl \<lparr>xs_error = (case e of XNameUnknown \<Rightarrow> kNotFound | XNameNoAddress \<Rightarrow> kNoAddress
                          | XNameUnsupported \<Rightarrow> kUnsupported | XNameOther \<Rightarrow> kUnknownAddress),
                      xs_hostname = na_hostname a, xs_port = na_port a\<rparr>
      | Inr addr \<Rightarrow> Inr (a\<lparr>na_address := Some (setAddrPort net addr (na_port a))\<rparr>))"

definition NetworkAddress_isValid :: "NetworkAddress \<Rightarrow> bool" where
  "NetworkAddress_isValid a \<longleftrightarrow> na_address a \<noteq> None"

text \<open>\<^verbatim>\<open>ArchNetworkBSD::isEqualAddr\<close> reads both addresses: \<open>None\<close> for a null pointer.\<close>

definition isEqualAddr :: "ArchNetAddress option \<Rightarrow> ArchNetAddress option \<Rightarrow> bool option" where
  "isEqualAddr a b = (case (a, b) of (Some x, Some y) \<Rightarrow> Some (x = y) | _ \<Rightarrow> None)"

definition NetworkAddress_eq :: "NetworkAddress \<Rightarrow> NetworkAddress \<Rightarrow> bool option" where
  "NetworkAddress_eq a b = isEqualAddr (na_address a) (na_address b)"

text \<open>\<^verbatim>\<open>XSocketAddress::getWhat\<close>.\<close>

definition socket_message :: "EError \<Rightarrow> string" where
  "socket_message e =
     (case e of
        kUnknownAddress \<Rightarrow> ''unknown error for: %{1}:%{2}''
      | kNotFound \<Rightarrow> ''address not found for: %{1}''
      | kNoAddress \<Rightarrow> ''no address for: %{1}''
      | kUnsupported \<Rightarrow> ''unsupported address for: %{1}''
      | kBadPort \<Rightarrow> ''invalid port'')"

definition XSocketAddress_what :: "XSocketAddress \<Rightarrow> string" where
  "XSocketAddress_what e =
     (case vformat (socket_message (xs_error e)) [xs_hostname e, print_int (xs_port e)] of Some w \<Rightarrow> w | None \<Rightarrow> [])"

section \<open>What text gives which address\<close>

text \<open>A port is taken from the text behind a single colon or behind brackets; it is always one of 1 to 65535.\<close>

lemma named_port: "NetworkAddress_named hostname port = Inr a \<Longrightarrow> 1 \<le> na_port a \<and> na_port a \<le> 65535 \<and> na_address a = None"
  by (auto simp: NetworkAddress_named_def checkPort_def split: option.splits if_splits prod.splits)

end
