(* ===== verification/Input_Filter.thy ===== *)
theory Input_Filter
  imports Key_Names
begin

text \<open>
  The rules of hot keys, \<^verbatim>\<open>server/InputFilter.cpp\<close>: conditions, actions, their text, and which actions an event performs.
  Rules live in a \<^verbatim>\<open>std::vector\<close> that copies them when it grows; a copy of a condition is not registered with the platform.  Event data
  that is a null pointer is \<open>None\<close>, and its use makes the result \<open>None\<close>.  Hot keys are registered by the platform: \<open>register\<close> gives
  the number for a key and a mask.
\<close>

section \<open>Conditions and actions\<close>

type_synonym ButtonID = UInt8

datatype Condition =
    KeystrokeCondition UInt32 KeyID KeyModifierMask
  | MouseButtonCondition ButtonID KeyModifierMask
  | ScreenConnectedCondition string

datatype Mode = kOff | kOn | kToggle

record KeyInfo =
  ki_key :: KeyID
  ki_mask :: KeyModifierMask
  ki_button :: UInt16
  ki_count :: int
  ki_screens :: string

definition KeyInfo_alloc :: "KeyID \<Rightarrow> KeyModifierMask \<Rightarrow> UInt16 \<Rightarrow> int \<Rightarrow> string list \<Rightarrow> KeyInfo" where
  "KeyInfo_alloc key m button count destinations =
     \<lparr>ki_key = key, ki_mask = m, ki_button = button, ki_count = count, ki_screens = KeyInfo_join destinations\<rparr>"

datatype Action =
    LockCursorToScreenAction Mode
  | SwitchToScreenAction string
  | ToggleScreenAction
  | SwitchInDirectionAction EDirection
  | KeyboardBroadcastAction Mode string
  | KeystrokeAction KeyInfo bool
  | MouseButtonAction ButtonID KeyModifierMask bool

text \<open>The events that the filter receives; the last argument of \<open>FConnected\<close> is the data object.\<close>

datatype filter_event =
    FHotKeyDown UInt32
  | FHotKeyUp UInt32
  | FButtonDown ButtonID KeyModifierMask
  | FButtonUp ButtonID KeyModifierMask
  | FConnected "string option"
  | FKeyDown KeyInfo
  | FKeyUp KeyInfo
  | FKeyRepeat KeyInfo

text \<open>What the filter sends on.\<close>

datatype filter_output =
    OLockCursor Mode
  | OSwitchToScreen string
  | OToggleScreen
  | OSwitchInDirection EDirection
  | OKeyboardBroadcast Mode string
  | OFakeInputBegin
  | OFakeInputEnd
  | OKey bool KeyInfo
  | OModifiers KeyInfo
  | OButton bool ButtonID KeyModifierMask
  | OPass filter_event

datatype EFilterStatus = kNoMatch | kActivate | kDeactivate

definition s_ignoreMask :: KeyModifierMask where
  "s_ignoreMask = 0x0020 OR 0x1000 OR 0x2000 OR 0x4000"

fun Condition_match :: "Condition \<Rightarrow> filter_event \<Rightarrow> EFilterStatus option" where
  "Condition_match (KeystrokeCondition i key m) (FHotKeyDown h) = Some (if h \<noteq> i then kNoMatch else kActivate)"
| "Condition_match (KeystrokeCondition i key m) (FHotKeyUp h) = Some (if h \<noteq> i then kNoMatch else kDeactivate)"
| "Condition_match (MouseButtonCondition b m) (FButtonDown b' m') =
     Some (if b' \<noteq> b \<or> m' AND NOT s_ignoreMask \<noteq> m then kNoMatch else kActivate)"
| "Condition_match (MouseButtonCondition b m) (FButtonUp b' m') =
     Some (if b' \<noteq> b \<or> m' AND NOT s_ignoreMask \<noteq> m then kNoMatch else kDeactivate)"
| "Condition_match (ScreenConnectedCondition screen) (FConnected info) =
     map_option (\<lambda>name. if screen = name \<or> screen = [] then kActivate else kNoMatch) info"
| "Condition_match _ _ = Some kNoMatch"

fun Condition_clone :: "Condition \<Rightarrow> Condition" where
  "Condition_clone (KeystrokeCondition i key m) = KeystrokeCondition 0 key m"
| "Condition_clone c = c"

fun Condition_enablePrimary :: "(KeyID \<Rightarrow> KeyModifierMask \<Rightarrow> UInt32) \<Rightarrow> Condition \<Rightarrow> Condition" where
  "Condition_enablePrimary register (KeystrokeCondition i key m) = KeystrokeCondition (register key m) key m"
| "Condition_enablePrimary register c = c"

fun Condition_disablePrimary :: "Condition \<Rightarrow> Condition" where
  "Condition_disablePrimary (KeystrokeCondition i key m) = KeystrokeCondition 0 key m"
| "Condition_disablePrimary c = c"

fun Condition_format :: "Condition \<Rightarrow> string" where
  "Condition_format (KeystrokeCondition i key m) = ''keystroke('' @ formatKey key m @ '')''"
| "Condition_format (MouseButtonCondition b m) =
     (let key = formatKey kKeyNone m
      in ''mousebutton('' @ (if key \<noteq> [] then key @ ''+'' else key) @ decimal (unat b) @ '')'')"
| "Condition_format (ScreenConnectedCondition screen) = ''connect('' @ screen @ '')''"

definition mode_name :: "Mode \<Rightarrow> string" where
  "mode_name m = (case m of kOff \<Rightarrow> ''off'' | kOn \<Rightarrow> ''on'' | kToggle \<Rightarrow> ''toggle'')"

fun direction_name :: "EDirection \<Rightarrow> string" where
  "direction_name kNoDirection = []"
| "direction_name kLeft = ''left''"
| "direction_name kRight = ''right''"
| "direction_name kTop = ''up''"
| "direction_name kBottom = ''down''"

text \<open>Screens are kept between colons; the text leaves the outer colons out.\<close>

fun Action_format :: "Action \<Rightarrow> string" where
  "Action_format (LockCursorToScreenAction mode) = ''lockCursorToScreen('' @ mode_name mode @ '')''"
| "Action_format (SwitchToScreenAction screen) = ''switchToScreen('' @ screen @ '')''"
| "Action_format ToggleScreenAction = ''toggleScreen''"
| "Action_format (SwitchInDirectionAction dir) = ''switchInDirection('' @ direction_name dir @ '')''"
| "Action_format (KeyboardBroadcastAction mode screens) =
     (if screens = [] \<or> screens ! 0 = CHR ''*'' then ''keyboardBroadcast('' @ mode_name mode @ '')''
      else ''keyboardBroadcast('' @ mode_name mode @ '','' @ take (length screens - 2) (tl screens) @ '')'')"
| "Action_format (KeystrokeAction info press) =
     (let type = (if press then ''keyDown'' else ''keyUp''); key = formatKey (ki_key info) (ki_mask info)
      in if ki_screens info = [] then type @ ''('' @ key @ '')''
         else if ki_screens info ! 0 = CHR ''*'' then type @ ''('' @ key @ '',*)''
         else type @ ''('' @ key @ '','' @ take (length (tl (ki_screens info)) - 1) (tl (ki_screens info)) @ '')'')"
| "Action_format (MouseButtonAction b m press) =
     (let key = formatKey kKeyNone m
      in (if press then ''mouseDown'' else ''mouseUp'') @ ''('' @ key @ (if key = [] then [] else ''+'') @ decimal (unat b) @ '')'')"

fun Action_perform :: "Action \<Rightarrow> filter_event \<Rightarrow> filter_output list option" where
  "Action_perform (LockCursorToScreenAction mode) ev = Some [OLockCursor mode]"
| "Action_perform (SwitchToScreenAction screen) ev =
     (case ev of
        FConnected info \<Rightarrow> if screen = [] then map_option (\<lambda>name. [OSwitchToScreen name]) info else Some [OSwitchToScreen screen]
      | _ \<Rightarrow> Some [OSwitchToScreen screen])"
| "Action_perform ToggleScreenAction ev = Some [OToggleScreen]"
| "Action_perform (SwitchInDirectionAction dir) ev = Some [OSwitchInDirection dir]"
| "Action_perform (KeyboardBroadcastAction mode screens) ev = Some [OKeyboardBroadcast mode screens]"
| "Action_perform (KeystrokeAction info press) ev = Some [OFakeInputBegin, OKey press info, OFakeInputEnd]"
| "Action_perform (MouseButtonAction b m press) ev =
     Some ((if m \<noteq> 0 then [OModifiers (KeyInfo_alloc (if press then kKeySetModifiers else kKeyClearModifiers) m 0 1 [])] else []) @
       [OButton press b m])"

section \<open>Rules\<close>

record Rule =
  rl_condition :: "Condition option"
  rl_activate :: "Action list"
  rl_deactivate :: "Action list"

definition Rule_new :: "Condition \<Rightarrow> Rule" where
  "Rule_new c = \<lparr>rl_condition = Some c, rl_activate = [], rl_deactivate = []\<rparr>"

definition Rule_copy :: "Rule \<Rightarrow> Rule" where
  "Rule_copy r = r\<lparr>rl_condition := map_option Condition_clone (rl_condition r)\<rparr>"

definition Rule_setCondition :: "Condition option \<Rightarrow> Rule \<Rightarrow> Rule" where
  "Rule_setCondition c r = r\<lparr>rl_condition := c\<rparr>"

definition adoptAction :: "Action \<Rightarrow> bool \<Rightarrow> Rule \<Rightarrow> Rule" where
  "adoptAction a onActivation r =
     (if onActivation then r\<lparr>rl_activate := rl_activate r @ [a]\<rparr> else r\<lparr>rl_deactivate := rl_deactivate r @ [a]\<rparr>)"

definition erase_at :: "nat \<Rightarrow> 'a list \<Rightarrow> 'a list option" where
  "erase_at i xs = (if i < length xs then Some (take i xs @ drop (i + 1) xs) else None)"

definition removeAction :: "bool \<Rightarrow> nat \<Rightarrow> Rule \<Rightarrow> Rule option" where
  "removeAction onActivation i r =
     (if onActivation then map_option (\<lambda>as. r\<lparr>rl_activate := as\<rparr>) (erase_at i (rl_activate r))
      else map_option (\<lambda>as. r\<lparr>rl_deactivate := as\<rparr>) (erase_at i (rl_deactivate r)))"

definition replaceAction :: "Action option \<Rightarrow> bool \<Rightarrow> nat \<Rightarrow> Rule \<Rightarrow> Rule option" where
  "replaceAction adopted onActivation i r =
     (case adopted of
        None \<Rightarrow> removeAction onActivation i r
      | Some a \<Rightarrow>
          if onActivation then (if i < length (rl_activate r) then Some (r\<lparr>rl_activate := (rl_activate r)[i := a]\<rparr>) else None)
          else (if i < length (rl_deactivate r) then Some (r\<lparr>rl_deactivate := (rl_deactivate r)[i := a]\<rparr>) else None))"

definition Rule_enable :: "(KeyID \<Rightarrow> KeyModifierMask \<Rightarrow> UInt32) \<Rightarrow> Rule \<Rightarrow> Rule" where
  "Rule_enable register r = r\<lparr>rl_condition := map_option (Condition_enablePrimary register) (rl_condition r)\<rparr>"

definition Rule_disable :: "Rule \<Rightarrow> Rule" where
  "Rule_disable r = r\<lparr>rl_condition := map_option Condition_disablePrimary (rl_condition r)\<rparr>"

fun perform_all :: "Action list \<Rightarrow> filter_event \<Rightarrow> filter_output list option" where
  "perform_all [] ev = Some []"
| "perform_all (a # as) ev = do { xs \<leftarrow> Action_perform a ev; ys \<leftarrow> perform_all as ev; Some (xs @ ys) }"

text \<open>Whether the event was handled, and what was sent.\<close>

definition Rule_handleEvent :: "Rule \<Rightarrow> filter_event \<Rightarrow> (bool \<times> filter_output list) option" where
  "Rule_handleEvent r ev =
     (case rl_condition r of
        None \<Rightarrow> Some (False, [])
      | Some c \<Rightarrow> do {
          st \<leftarrow> Condition_match c ev;
          (case st of
             kNoMatch \<Rightarrow> Some (False, [])
           | kActivate \<Rightarrow> do { xs \<leftarrow> perform_all (rl_activate r) ev; Some (True, xs) }
           | kDeactivate \<Rightarrow> do { xs \<leftarrow> perform_all (rl_deactivate r) ev; Some (True, xs) })
        })"

definition comma_separated :: "string list \<Rightarrow> string" where
  "comma_separated xs = (case xs of [] \<Rightarrow> [] | x # xs \<Rightarrow> x @ concat (map (\<lambda>y. '', '' @ y) xs))"

definition Rule_format :: "Rule \<Rightarrow> string" where
  "Rule_format r =
     (case rl_condition r of
        None \<Rightarrow> []
      | Some c \<Rightarrow> Condition_format c @ '' = '' @ comma_separated (map Action_format (rl_activate r)) @
          (if rl_deactivate r \<noteq> [] then ''; '' @ comma_separated (map Action_format (rl_deactivate r)) else []))"

section \<open>The filter\<close>

record InputFilter =
  if_ruleList :: "Rule list"
  if_capacity :: nat
  if_primary :: bool

definition InputFilter_new :: InputFilter where
  "InputFilter_new = \<lparr>if_ruleList = [], if_capacity = 0, if_primary = False\<rparr>"

text \<open>\<^verbatim>\<open>vector::push_back\<close>: without room all rules are copied, as \<^verbatim>\<open>Rule\<close> has a copy constructor and no move constructor.\<close>

definition rules_push_back :: "Rule \<Rightarrow> InputFilter \<Rightarrow> InputFilter" where
  "rules_push_back r f =
     (if length (if_ruleList f) < if_capacity f then f\<lparr>if_ruleList := if_ruleList f @ [Rule_copy r]\<rparr>
      else f\<lparr>if_ruleList := map Rule_copy (if_ruleList f) @ [Rule_copy r], if_capacity := max 1 (2 * length (if_ruleList f))\<rparr>)"

definition addFilterRule :: "(KeyID \<Rightarrow> KeyModifierMask \<Rightarrow> UInt32) \<Rightarrow> Rule \<Rightarrow> InputFilter \<Rightarrow> InputFilter" where
  "addFilterRule register r f =
     (let f1 = rules_push_back r f
      in if if_primary f1
         then f1\<lparr>if_ruleList := butlast (if_ruleList f1) @ [Rule_enable register (last (if_ruleList f1))]\<rparr>
         else f1)"

text \<open>\<^verbatim>\<open>vector::erase\<close> moves the rules behind the erased one by assignment, that is by copying.\<close>

definition removeFilterRule :: "nat \<Rightarrow> InputFilter \<Rightarrow> InputFilter option" where
  "removeFilterRule i f =
     (if i < length (if_ruleList f)
      then Some (f\<lparr>if_ruleList := take i (if_ruleList f) @ map Rule_copy (drop (i + 1) (if_ruleList f))\<rparr>)
      else None)"

text \<open>
  There is one primary client or none.  Its event handlers, one for each kind of \<open>filter_event\<close>, are installed together with the rules being
  enabled and removed together with their being disabled.
\<close>

definition filter_setPrimaryClient :: "(KeyID \<Rightarrow> KeyModifierMask \<Rightarrow> UInt32) \<Rightarrow> bool \<Rightarrow> InputFilter \<Rightarrow> InputFilter" where
  "filter_setPrimaryClient register client f =
     (if if_primary f = client then f
      else let f1 = (if if_primary f then f\<lparr>if_ruleList := map Rule_disable (if_ruleList f)\<rparr> else f);
               f2 = f1\<lparr>if_primary := client\<rparr>
           in if client then f2\<lparr>if_ruleList := map (Rule_enable register) (if_ruleList f2)\<rparr> else f2)"

text \<open>Assignment; the vector keeps its memory when the new rules fit.\<close>

definition InputFilter_assign :: "(KeyID \<Rightarrow> KeyModifierMask \<Rightarrow> UInt32) \<Rightarrow> InputFilter \<Rightarrow> InputFilter \<Rightarrow> InputFilter" where
  "InputFilter_assign register x f =
     (let f1 = filter_setPrimaryClient register False f;
          f2 = f1\<lparr>if_ruleList := map Rule_copy (if_ruleList x), if_capacity := max (if_capacity f1) (length (if_ruleList x))\<rparr>
      in filter_setPrimaryClient register (if_primary f) f2)"

definition InputFilter_format :: "string \<Rightarrow> InputFilter \<Rightarrow> string" where
  "InputFilter_format linePrefix f = concat (map (\<lambda>r. linePrefix @ Rule_format r @ [CHR 0x0A]) (if_ruleList f))"

text \<open>The copy of the event has its data but not its data object.\<close>

fun own_event :: "filter_event \<Rightarrow> filter_event" where
  "own_event (FConnected info) = FConnected None"
| "own_event ev = ev"

fun try_rules :: "Rule list \<Rightarrow> filter_event \<Rightarrow> filter_output list option" where
  "try_rules [] ev = Some [OPass ev]"
| "try_rules (r # rs) ev = do {
     (handled, xs) \<leftarrow> Rule_handleEvent r ev;
     if handled then Some xs else try_rules rs ev
   }"

definition filter_handleEvent :: "filter_event \<Rightarrow> InputFilter \<Rightarrow> filter_output list option" where
  "filter_handleEvent ev f = try_rules (if_ruleList f) (own_event ev)"

section \<open>Which rule acts\<close>

definition rule_status :: "filter_event \<Rightarrow> Rule \<Rightarrow> EFilterStatus option" where
  "rule_status ev r = (case rl_condition r of None \<Rightarrow> Some kNoMatch | Some c \<Rightarrow> Condition_match c ev)"

lemma Rule_handleEvent_status:
  "Rule_handleEvent r ev =
     (case rule_status ev r of
        None \<Rightarrow> None
      | Some kNoMatch \<Rightarrow> Some (False, [])
      | Some kActivate \<Rightarrow> map_option (Pair True) (perform_all (rl_activate r) ev)
      | Some kDeactivate \<Rightarrow> map_option (Pair True) (perform_all (rl_deactivate r) ev))"
  by (auto simp: Rule_handleEvent_def rule_status_def map_conv_bind_option comp_def split: option.split EFilterStatus.split)

lemma try_rules_skip: "\<forall>r \<in> set as. rule_status ev r = Some kNoMatch \<Longrightarrow> try_rules (as @ rs) ev = try_rules rs ev"
  by (induction as) (auto simp: Rule_handleEvent_status)

lemma Condition_match_total: "\<nexists>info. ev = FConnected info \<Longrightarrow> Condition_match c ev \<noteq> None"
  by (cases c; cases ev) auto

lemma perform_all_total: "\<nexists>info. ev = FConnected info \<Longrightarrow> perform_all as ev \<noteq> None"
proof (induction as)
  case (Cons a as)
  have "Action_perform a ev \<noteq> None" using Cons.prems by (cases a; cases ev) auto
  with Cons show ?case by auto
qed simp


definition lock_rule :: Rule where
  "lock_rule = adoptAction (LockCursorToScreenAction kToggle) True (Rule_new (KeystrokeCondition 7 0xEF14 0))"


text \<open>
  A rule with the condition \<^verbatim>\<open>connect\<close> makes the server use a null pointer: when a screen connects, the
  filter hands its rules a copy of the event without the data object, which such a condition reads, whatever screen it names.  With no
  such rule the event is passed on, but its data object is lost.
\<close>

theorem connect_rule_crashes:
  "filter_handleEvent (FConnected info) f =
    (if \<exists>r \<in> set (if_ruleList f). \<exists>screen. rl_condition r = Some (ScreenConnectedCondition screen) then None
     else Some [OPass (FConnected None)])"
proof -
  have none: "rule_status (FConnected None) r = (if \<exists>screen. rl_condition r = Some (ScreenConnectedCondition screen) then None else Some kNoMatch)" for r
  proof (cases "rl_condition r")
    case (Some c)
    then show ?thesis by (cases c) (auto simp: rule_status_def)
  qed (simp add: rule_status_def)
  have "try_rules rs (FConnected None) =
      (if \<exists>r \<in> set rs. \<exists>screen. rl_condition r = Some (ScreenConnectedCondition screen) then None else Some [OPass (FConnected None)])" for rs
    by (induction rs) (auto simp: Rule_handleEvent_status none)
  then show ?thesis by (simp add: filter_handleEvent_def)
qed

text \<open>
  C37.  Adding a rule while the primary screen is set can disable all hot keys: when the vector of rules is full, the
  rules are copied and the copies forget their registered numbers.  Afterwards no hot key but that of the new rule
  has an effect, its event is passed on.  When there is room, the other rules stay as they were.
\<close>

theorem added_rule_disables_hotkeys:
  assumes "if_primary f" and "h \<noteq> 0" and "\<nexists>key m. rl_condition r = Some (KeystrokeCondition 0 key m) \<and> register key m = h"
    and "\<exists>key m. rl_condition r = Some (KeystrokeCondition 0 key m)"
  shows "(if length (if_ruleList f) = if_capacity f
     then filter_handleEvent (FHotKeyDown h) (addFilterRule register r f) = Some [OPass (FHotKeyDown h)]
     else length (if_ruleList f) < if_capacity f \<longrightarrow>
       if_ruleList (addFilterRule register r f) = if_ruleList f @ [Rule_enable register (Rule_copy r)])"
proof (cases "length (if_ruleList f) = if_capacity f")
  case True
  have copied: "rule_status (FHotKeyDown h) (Rule_copy r') = Some kNoMatch" for r'
  proof (cases "rl_condition r'")
    case (Some c)
    then show ?thesis using assms(2) by (cases c) (auto simp: rule_status_def Rule_copy_def)
  qed (simp add: rule_status_def Rule_copy_def)
  have new: "rule_status (FHotKeyDown h) (Rule_enable register (Rule_copy r)) = Some kNoMatch"
    using assms(3,4) by (auto simp: rule_status_def Rule_copy_def Rule_enable_def)
  have "if_ruleList (addFilterRule register r f) = map Rule_copy (if_ruleList f) @ [Rule_enable register (Rule_copy r)]"
    using True assms(1) by (simp add: addFilterRule_def rules_push_back_def)
  then have "filter_handleEvent (FHotKeyDown h) (addFilterRule register r f) = Some [OPass (FHotKeyDown h)]"
    using try_rules_skip [of "map Rule_copy (if_ruleList f) @ [Rule_enable register (Rule_copy r)]" "FHotKeyDown h" "[]"] copied new
    by (auto simp: filter_handleEvent_def)
  with True show ?thesis by simp
next
  case False
  then show ?thesis using assms(1) by (simp add: addFilterRule_def rules_push_back_def)
qed

text \<open>Reloading a configuration with one hot key: its rules are assigned, then the rule for the scroll lock key is added.\<close>

theorem added_rule_disables_hotkeys_witness:
  "filter_handleEvent (FHotKeyDown 97) (addFilterRule (\<lambda>key m. key) (Rule_new (KeystrokeCondition 0 0xEF14 0))
      (InputFilter_assign (\<lambda>key m. key) \<lparr>if_ruleList = [Rule_new (KeystrokeCondition 0 97 0)], if_capacity = 1, if_primary = False\<rparr>
        \<lparr>if_ruleList = [], if_capacity = 0, if_primary = True\<rparr>)) = Some [OPass (FHotKeyDown 97)]"
proof -
  let ?f = "InputFilter_assign (\<lambda>key m. key) \<lparr>if_ruleList = [Rule_new (KeystrokeCondition 0 97 0)], if_capacity = 1, if_primary = False\<rparr>
        \<lparr>if_ruleList = [], if_capacity = 0, if_primary = True\<rparr>"
  have "if_primary ?f" "length (if_ruleList ?f) = if_capacity ?f"
    by (simp_all add: InputFilter_assign_def filter_setPrimaryClient_def)
  then show ?thesis
    using added_rule_disables_hotkeys [where f = ?f and h = 97 and r = "Rule_new (KeystrokeCondition 0 0xEF14 0)" and register = "\<lambda>key m. key"]
    by (simp add: Rule_new_def)
qed

end
