(* ===== verification/Config_Read.thy ===== *)
theory Config_Read
  imports Input_Filter Network_Address
begin

text \<open>
  Reading a configuration file, \<^verbatim>\<open>Config::read\<close> and what it calls in \<^verbatim>\<open>server/Config.cpp\<close>.  \<open>ConfigFile\<close> is the class \<^verbatim>\<open>Config\<close> with all of its fields;
  \<open>cf_config\<close> are those of the topology.  Resolving an address is the parameter \<open>net\<close>, registering hot keys \<open>register\<close>.
\<close>

section \<open>The configuration\<close>

record NetworkNode =
  nn_ip :: string
  nn_sshUser :: string
  nn_sshPort :: OptionValue
  nn_clientCmd :: string

definition NetworkNode_new :: NetworkNode where
  "NetworkNode_new = \<lparr>nn_ip = [], nn_sshUser = [], nn_sshPort = 22, nn_clientCmd = []\<rparr>"

record ConfigFile =
  cf_config :: Config
  cf_serverName :: string
  cf_serverIp :: string
  cf_clientAutoConfig :: bool
  cf_enableDragDrop :: bool
  cf_requireClientCertificate :: bool
  cf_cryptoEnabled :: bool
  cf_logFilename :: string
  cf_barrierAddress :: NetworkAddress
  cf_networkNodes :: "(string, NetworkNode) smap"
  cf_inputFilter :: InputFilter
  cf_hasLockToScreenAction :: bool

definition ConfigFile_new :: ConfigFile where
  "ConfigFile_new = \<lparr>cf_config = Config_new, cf_serverName = [], cf_serverIp = [], cf_clientAutoConfig = False,
     cf_enableDragDrop = False, cf_requireClientCertificate = True, cf_cryptoEnabled = True, cf_logFilename = [],
     cf_barrierAddress = NetworkAddress_new, cf_networkNodes = [], cf_inputFilter = InputFilter_new,
     cf_hasLockToScreenAction = False\<rparr>"

text \<open>\<^verbatim>\<open>m[k]\<close> of a \<^verbatim>\<open>std::map\<close>, then changed.\<close>

definition smap_at :: "('k \<Rightarrow> 'k \<Rightarrow> bool) \<Rightarrow> 'k \<Rightarrow> 'v \<Rightarrow> ('v \<Rightarrow> 'v) \<Rightarrow> ('k, 'v) smap \<Rightarrow> ('k, 'v) smap" where
  "smap_at lt k d f m = smap_update lt k f (if smap_find lt k m = None then smap_insert lt k d m else m)"

section \<open>Sections\<close>

definition stripQuotes :: "string \<Rightarrow> string" where
  "stripQuotes str =
     (let ws = blanks @ [CHR 0x0D, CHR 0x0A];
          trim = (\<lambda>s. case (find_first_not_of s ws 0, find_last_not_of s ws) of
                        (Some a, Some b) \<Rightarrow> take (b - a + 1) (drop a s) | _ \<Rightarrow> []);
          s1 = trim str
      in if length s1 \<ge> 2 \<and> (hd s1 = CHR 0x22 \<and> last s1 = CHR 0x22 \<or> hd s1 = CHR 0x27 \<and> last s1 = CHR 0x27)
         then trim (butlast (tl s1)) else s1)"

text \<open>
  The loop of a section: \<open>item\<close> handles a line, given its number, the line, the name of the latest screen and the configuration.
\<close>

type_synonym section_item = "nat \<Rightarrow> string \<Rightarrow> string \<Rightarrow> ConfigFile \<Rightarrow> cfg_error + (string \<times> ConfigFile)"

function read_lines ::
    "section_item \<Rightarrow> string \<Rightarrow> string \<Rightarrow> ConfigFile \<Rightarrow> ConfigReadContext \<Rightarrow> cfg_error + (ConfigFile \<times> ConfigReadContext)" where
  "read_lines item sec screen c s =
     (case readLine s of
        Inl e \<Rightarrow> Inl e
      | Inr (None, s') \<Rightarrow> Inl (XConfigRead (rc_line s') (''unexpected end of '' @ sec @ '' section'') [])
      | Inr (Some line, s') \<Rightarrow>
          if line = ''end'' then Inr (c, s')
          else (case item (rc_line s') line screen c of
              Inl e \<Rightarrow> Inl e
            | Inr (screen', c') \<Rightarrow> read_lines item sec screen' c' s'))"
  by pat_completeness auto
termination
  by (relation "measure (\<lambda>(item, sec, screen, c, s). length (rc_stream s))") (auto dest: readLine_length)

declare read_lines.simps [simp del]

text \<open>A line that ends in a colon names a screen, any other line belongs to the latest one.\<close>

definition screen_line ::
    "string \<Rightarrow> (nat \<Rightarrow> string \<Rightarrow> ConfigFile \<Rightarrow> cfg_error + ConfigFile) \<Rightarrow>
     (nat \<Rightarrow> string \<Rightarrow> string \<Rightarrow> ConfigFile \<Rightarrow> cfg_error + ConfigFile) \<Rightarrow> section_item" where
  "screen_line what start argument lno line screen c =
     (if last line = CHR '':''
      then bind_sum (start lno (butlast line) c) (\<lambda>c'. Inr (butlast line, c'))
      else if screen = [] then Inl (XConfigRead lno (''argument before first '' @ what) [])
      else bind_sum (argument lno line screen c) (\<lambda>c'. Inr (screen, c')))"

text \<open>\<open>name = value\<close>; the value goes to the end of the line and may be missing.\<close>

definition parse_assignment :: "nat \<Rightarrow> string \<Rightarrow> cfg_error + (string \<times> string)" where
  "parse_assignment lno line =
     (let missing = Inl (XConfigRead lno ''missing ='' [])
      in case find_first_of line (blanks @ ''='') 0 of
           None \<Rightarrow> missing
         | Some i \<Rightarrow>
             if i = 0 then Inl (XConfigRead lno ''missing argument name'' [])
             else (case find_first_not_of line blanks i of
                 None \<Rightarrow> missing
               | Some k \<Rightarrow>
                   if line ! k \<noteq> CHR ''='' then missing
                   else Inr (take i line, case find_first_not_of line blanks (k + 1) of None \<Rightarrow> [] | Some v \<Rightarrow> drop v line)))"

definition unquote :: "string \<Rightarrow> string" where
  "unquote value = (if length value > 1 \<and> hd value = CHR 0x22 \<and> last value = CHR 0x22 then butlast (tl value) else value)"

definition upd_config :: "(Config \<Rightarrow> Config) \<Rightarrow> ConfigFile \<Rightarrow> ConfigFile" where
  "upd_config f c = c\<lparr>cf_config := f (cf_config c)\<rparr>"

subsection \<open>Screens\<close>

definition kOptionHalfDuplexCapsLock :: OptionID where "kOptionHalfDuplexCapsLock = option_code (CHR ''H'') (CHR ''D'') (CHR ''C'') (CHR ''L'')"
definition kOptionHalfDuplexNumLock :: OptionID where "kOptionHalfDuplexNumLock = option_code (CHR ''H'') (CHR ''D'') (CHR ''N'') (CHR ''L'')"
definition kOptionHalfDuplexScrollLock :: OptionID where "kOptionHalfDuplexScrollLock = option_code (CHR ''H'') (CHR ''D'') (CHR ''S'') (CHR ''L'')"
definition kOptionScreenSaverSync :: OptionID where "kOptionScreenSaverSync = option_code (CHR ''S'') (CHR ''S'') (CHR ''V'') (CHR ''R'')"
definition kOptionXTestXineramaUnaware :: OptionID where "kOptionXTestXineramaUnaware = option_code (CHR ''X'') (CHR ''T'') (CHR ''X'') (CHR ''U'')"
definition kOptionScreenPreserveFocus :: OptionID where "kOptionScreenPreserveFocus = option_code (CHR ''S'') (CHR ''F'') (CHR ''O'') (CHR ''C'')"
definition kOptionWin32KeepForeground :: OptionID where "kOptionWin32KeepForeground = option_code (CHR ''_'') (CHR ''K'') (CHR ''F'') (CHR ''W'')"

text \<open>The option that a name stands for and its value.\<close>

definition screen_option :: "nat \<Rightarrow> string \<Rightarrow> string \<Rightarrow> (OptionID \<times> (cfg_error + OptionValue)) option" where
  "screen_option lno name value =
     (if name = ''halfDuplexCapsLock'' then Some (kOptionHalfDuplexCapsLock, parseBoolean lno value)
      else if name = ''halfDuplexNumLock'' then Some (kOptionHalfDuplexNumLock, parseBoolean lno value)
      else if name = ''halfDuplexScrollLock'' then Some (kOptionHalfDuplexScrollLock, parseBoolean lno value)
      else if name = ''shift'' then Some (kOptionModifierMapForShift, parseModifierKey lno value)
      else if name = ''ctrl'' then Some (kOptionModifierMapForControl, parseModifierKey lno value)
      else if name = ''alt'' then Some (kOptionModifierMapForAlt, parseModifierKey lno value)
      else if name = ''altgr'' then Some (kOptionModifierMapForAltGr, parseModifierKey lno value)
      else if name = ''meta'' then Some (kOptionModifierMapForMeta, parseModifierKey lno value)
      else if name = ''super'' then Some (kOptionModifierMapForSuper, parseModifierKey lno value)
      else if name = ''xtestIsXineramaUnaware'' then Some (kOptionXTestXineramaUnaware, parseBoolean lno value)
      else if name = ''switchCorners'' then Some (kOptionScreenSwitchCorners, parseCorners lno value)
      else if name = ''switchCornerSize'' then Some (kOptionScreenSwitchCornerSize, parseInt lno value)
      else if name = ''preserveFocus'' then Some (kOptionScreenPreserveFocus, parseBoolean lno value)
      else None)"

definition screens_start :: "nat \<Rightarrow> string \<Rightarrow> ConfigFile \<Rightarrow> cfg_error + ConfigFile" where
  "screens_start lno screen c =
     (if \<not> isValidScreenName screen then Inl (XConfigRead lno ''invalid screen name \"%{1}\"'' screen)
      else case addScreen (cf_config c) screen of
        (True, cfg) \<Rightarrow> Inr (c\<lparr>cf_config := cfg\<rparr>)
      | (False, _) \<Rightarrow> Inl (XConfigRead lno ''duplicate screen name \"%{1}\"'' screen))"

definition screens_argument :: "nat \<Rightarrow> string \<Rightarrow> string \<Rightarrow> ConfigFile \<Rightarrow> cfg_error + ConfigFile" where
  "screens_argument lno line screen c =
     bind_sum (parse_assignment lno line) (\<lambda>(name, value).
       case screen_option lno name value of
         Some (opt, parsed) \<Rightarrow> bind_sum parsed (\<lambda>v. Inr (upd_config (\<lambda>cfg. snd (addOption cfg screen opt v)) c))
       | None \<Rightarrow>
           if name = ''dropTarget''
           then Inr (upd_config (\<lambda>cfg. cfg\<lparr>cfg_screenDropTargets :=
                  smap_at CaselessCmp_less screen [] (\<lambda>_. stripQuotes value) (cfg_screenDropTargets cfg)\<rparr>) c)
           else Inl (XConfigRead lno ''unknown argument \"%{1}\"'' name))"

definition readSectionScreens :: "ConfigFile \<Rightarrow> ConfigReadContext \<Rightarrow> cfg_error + (ConfigFile \<times> ConfigReadContext)" where
  "readSectionScreens = read_lines (screen_line ''screen'' screens_start screens_argument) ''screens'' []"

subsection \<open>Links and aliases\<close>

definition known_screen :: "nat \<Rightarrow> string \<Rightarrow> ConfigFile \<Rightarrow> cfg_error + ConfigFile" where
  "known_screen lno screen c =
     (if \<not> isScreen (cf_config c) screen then Inl (XConfigRead lno ''unknown screen name \"%{1}\"'' screen)
      else if \<not> isCanonicalName (cf_config c) screen then Inl (XConfigRead lno ''cannot use screen name alias here'' [])
      else Inr c)"

definition direction_of :: "string \<Rightarrow> EDirection option" where
  "direction_of side =
     (if side = ''left'' then Some kLeft
      else if side = ''right'' then Some kRight
      else if side = ''up'' then Some kTop
      else if side = ''down'' then Some kBottom
      else None)"

definition links_argument :: "nat \<Rightarrow> string \<Rightarrow> string \<Rightarrow> ConfigFile \<Rightarrow> cfg_error + ConfigFile" where
  "links_argument lno line screen c =
     bind_sum (parseNameWithArgs lno ''link'' line ''='' 0) (\<lambda>(i, side, srcArgs).
     bind_sum (parseNameWithArgs lno ''screen'' line [] (i + 1)) (\<lambda>(_, dstScreen, dstArgs).
     bind_sum (parseInterval lno srcArgs) (\<lambda>(srcStart, srcEnd).
     bind_sum (parseInterval lno dstArgs) (\<lambda>(dstStart, dstEnd).
       case direction_of side of
         None \<Rightarrow> Inl (XConfigRead lno ''unknown side \"%{1}\" in link'' side)
       | Some dir \<Rightarrow>
           if \<not> isScreen (cf_config c) dstScreen then Inl (XConfigRead lno ''unknown screen name \"%{1}\"'' dstScreen)
           else (case connect (cf_config c) screen dir srcStart srcEnd dstScreen dstStart dstEnd of
               None \<Rightarrow> Inl CfgAssertion
             | Some (False, _) \<Rightarrow> Inl (XConfigRead lno ''overlapping range'' [])
             | Some (True, cfg) \<Rightarrow> Inr (c\<lparr>cf_config := cfg\<rparr>))))))"

definition readSectionLinks :: "ConfigFile \<Rightarrow> ConfigReadContext \<Rightarrow> cfg_error + (ConfigFile \<times> ConfigReadContext)" where
  "readSectionLinks = read_lines (screen_line ''screen'' known_screen links_argument) ''links'' []"

definition aliases_argument :: "nat \<Rightarrow> string \<Rightarrow> string \<Rightarrow> ConfigFile \<Rightarrow> cfg_error + ConfigFile" where
  "aliases_argument lno line screen c =
     (if \<not> isValidScreenName line then Inl (XConfigRead lno ''invalid screen alias \"%{1}\"'' line)
      else case addAlias (cf_config c) screen line of
        (True, cfg) \<Rightarrow> Inr (c\<lparr>cf_config := cfg\<rparr>)
      | (False, _) \<Rightarrow> Inl (XConfigRead lno ''alias \"%{1}\" is already used'' line))"

definition readSectionAliases :: "ConfigFile \<Rightarrow> ConfigReadContext \<Rightarrow> cfg_error + (ConfigFile \<times> ConfigReadContext)" where
  "readSectionAliases = read_lines (screen_line ''screen'' known_screen aliases_argument) ''aliases'' []"

subsection \<open>Network and monitors\<close>

definition network_start :: "nat \<Rightarrow> string \<Rightarrow> ConfigFile \<Rightarrow> cfg_error + ConfigFile" where
  "network_start lno screen c =
     (if \<not> isValidScreenName screen then Inl (XConfigRead lno ''invalid screen name \"%{1}\"'' screen) else Inr c)"

definition network_argument :: "nat \<Rightarrow> string \<Rightarrow> string \<Rightarrow> ConfigFile \<Rightarrow> cfg_error + ConfigFile" where
  "network_argument lno line screen c =
     bind_sum (parse_assignment lno line) (\<lambda>(name, value).
       let node = (\<lambda>f. Inr (c\<lparr>cf_networkNodes := smap_at CaselessCmp_less screen NetworkNode_new f (cf_networkNodes c)\<rparr>))
       in if name = ''ip'' then node (\<lambda>n. n\<lparr>nn_ip := value\<rparr>)
          else if name = ''ssh_user'' then node (\<lambda>n. n\<lparr>nn_sshUser := value\<rparr>)
          else if name = ''ssh_port'' then bind_sum (parseInt lno value) (\<lambda>v. node (\<lambda>n. n\<lparr>nn_sshPort := v\<rparr>))
          else if name = ''client_cmd'' then node (\<lambda>n. n\<lparr>nn_clientCmd := unquote value\<rparr>)
          else Inl (XConfigRead lno ''unknown argument \"%{1}\"'' name))"

definition readSectionNetwork :: "ConfigFile \<Rightarrow> ConfigReadContext \<Rightarrow> cfg_error + (ConfigFile \<times> ConfigReadContext)" where
  "readSectionNetwork = read_lines (screen_line ''screen'' network_start network_argument) ''network'' []"

definition MonitorConfig_new :: MonitorConfig where
  "MonitorConfig_new = \<lparr>mc_name = [], mc_matchPattern = [], mc_defaultHost = []\<rparr>"

definition upd_monitor :: "string \<Rightarrow> (MonitorConfig \<Rightarrow> MonitorConfig) \<Rightarrow> ConfigFile \<Rightarrow> ConfigFile" where
  "upd_monitor name f = upd_config (\<lambda>cfg. cfg\<lparr>cfg_monitors := smap_at CaselessCmp_less name MonitorConfig_new f (cfg_monitors cfg)\<rparr>)"

definition monitors_start :: "nat \<Rightarrow> string \<Rightarrow> ConfigFile \<Rightarrow> cfg_error + ConfigFile" where
  "monitors_start lno monitorName c =
     (if \<not> isValidScreenName monitorName then Inl (XConfigRead lno ''invalid monitor name \"%{1}\"'' monitorName)
      else let c1 = (if isScreen (cf_config c) monitorName then c else upd_config (\<lambda>cfg. snd (addScreen cfg monitorName)) c)
           in Inr (upd_monitor monitorName (\<lambda>m. m\<lparr>mc_name := monitorName\<rparr>) c1))"

definition monitors_argument :: "nat \<Rightarrow> string \<Rightarrow> string \<Rightarrow> ConfigFile \<Rightarrow> cfg_error + ConfigFile" where
  "monitors_argument lno line monitorName c =
     bind_sum (parse_assignment lno line) (\<lambda>(name, v).
       let value = unquote v
       in if name = ''match'' \<or> name = ''pattern'' \<or> name = ''name''
          then Inr (upd_monitor monitorName (\<lambda>m. m\<lparr>mc_matchPattern := value\<rparr>) c)
          else if name = ''host'' then Inr (upd_monitor monitorName (\<lambda>m. m\<lparr>mc_defaultHost := value\<rparr>) c)
          else Inl (XConfigRead lno ''unknown argument \"%{1}\" in monitors'' name))"

definition readSectionMonitors :: "ConfigFile \<Rightarrow> ConfigReadContext \<Rightarrow> cfg_error + (ConfigFile \<times> ConfigReadContext)" where
  "readSectionMonitors = read_lines (screen_line ''monitor'' monitors_start monitors_argument) ''monitors'' []"

subsection \<open>Rules\<close>

definition parseKeystroke :: "nat \<Rightarrow> string \<Rightarrow> string list \<Rightarrow> cfg_error + KeyInfo" where
  "parseKeystroke lno keystroke screens =
     (case parseModifiers keystroke of
        None \<Rightarrow> Inl (XConfigRead lno ''unable to parse key modifiers'' [])
      | Some (s, m) \<Rightarrow>
          (case parseKey s of
             None \<Rightarrow> Inl (XConfigRead lno ''unable to parse key'' [])
           | Some key \<Rightarrow>
               if key = kKeyNone \<and> m = 0 then Inl (XConfigRead lno ''missing key and/or modifiers in keystroke'' [])
               else Inr (KeyInfo_alloc key m 0 0 screens)))"

definition parseMouse :: "nat \<Rightarrow> string \<Rightarrow> cfg_error + (ButtonID \<times> KeyModifierMask)" where
  "parseMouse lno mouse =
     (case parseModifiers mouse of
        None \<Rightarrow> Inl (XConfigRead lno ''unable to parse button modifiers'' [])
      | Some (s, m) \<Rightarrow>
          (let (v, n, _) = strtol10 s; button = word_of_int v
           in if drop n s \<noteq> [] then Inl (XConfigRead lno ''unable to parse button'' [])
              else if s = [] \<or> button = 0 then Inl (XConfigRead lno ''invalid button'' [])
              else Inr (button, m)))"

definition parseModifier :: "nat \<Rightarrow> string \<Rightarrow> cfg_error + KeyModifierMask" where
  "parseModifier lno modifiers =
     (case parseModifiers modifiers of
        None \<Rightarrow> Inl (XConfigRead lno ''unable to parse modifiers'' [])
      | Some (_, m) \<Rightarrow> if m = 0 then Inl (XConfigRead lno ''no modifiers specified'' []) else Inr m)"

text \<open>A screen by its canonical name; the empty name stays.\<close>

definition named_screen :: "Config \<Rightarrow> cfg_error \<Rightarrow> string \<Rightarrow> cfg_error + string" where
  "named_screen cfg unknown screen =
     (if isScreen cfg screen then Inr (getCanonicalName cfg screen) else if screen \<noteq> [] then Inl unknown else Inr screen)"

definition parseCondition :: "Config \<Rightarrow> nat \<Rightarrow> string \<Rightarrow> string list \<Rightarrow> cfg_error + Condition" where
  "parseCondition cfg lno name args =
     (if name = ''keystroke'' then
        (if length args \<noteq> 1 then Inl (XConfigRead lno ''syntax for condition: keystroke(modifiers+key)'' [])
         else bind_sum (parseKeystroke lno (args ! 0) []) (\<lambda>k. Inr (KeystrokeCondition 0 (ki_key k) (ki_mask k))))
      else if name = ''mousebutton'' then
        (if length args \<noteq> 1 then Inl (XConfigRead lno ''syntax for condition: mousebutton(modifiers+button)'' [])
         else bind_sum (parseMouse lno (args ! 0)) (\<lambda>(b, m). Inr (MouseButtonCondition b m)))
      else if name = ''connect'' then
        (if length args \<noteq> 1 then Inl (XConfigRead lno ''syntax for condition: connect([screen])'' [])
         else bind_sum (named_screen cfg (XConfigRead lno ''unknown screen name \"%{1}\" in connect'' (args ! 0)) (args ! 0))
                (\<lambda>screen. Inr (ScreenConnectedCondition screen)))
      else Inl (XConfigRead lno ''unknown argument \"%{1}\"'' name))"

lemma str_find_ge: "str_find s f i = Some j \<Longrightarrow> i \<le> j"
  by (auto simp: str_find_def split: if_splits)

text \<open>
  \<^verbatim>\<open>parseScreens\<close>: names between colons from position \<open>i\<close>, collected in a \<^verbatim>\<open>std::set<std::string>\<close>.  When only blanks are left after the
  last colon the search for the start of a name fails and \<^verbatim>\<open>i < j\<close> is false.
\<close>

function parseScreens_from :: "Config \<Rightarrow> nat \<Rightarrow> string \<Rightarrow> nat \<Rightarrow> (string, unit) smap \<Rightarrow> cfg_error + (string, unit) smap" where
  "parseScreens_from cfg lno s i screens =
     (if i < length s
      then let j = (case str_find s '':'' i of None \<Rightarrow> length s | Some j \<Rightarrow> j);
               rawName = (case find_first_not_of s blanks i of
                   None \<Rightarrow> []
                 | Some b \<Rightarrow> if b < j then (case find_last_not_of (take j s) blanks of
                                 None \<Rightarrow> [] | Some e \<Rightarrow> take (e - b + 1) (drop b s)) else [])
           in if rawName = ''*'' then parseScreens_from cfg lno s (j + 1) (smap_insert str_less ''*'' () screens)
              else if rawName \<noteq> []
              then (if getCanonicalName cfg rawName = [] then Inl (XConfigRead lno ''unknown screen name \"%{1}\"'' rawName)
                    else parseScreens_from cfg lno s (j + 1) (smap_insert str_less (getCanonicalName cfg rawName) () screens))
              else parseScreens_from cfg lno s (j + 1) screens
      else Inr screens)"
  by pat_completeness auto
termination
  by (relation "measure (\<lambda>(cfg, lno, s, i, screens). length s - i)") (auto split: option.splits dest: str_find_ge)

declare parseScreens_from.simps [simp del]

definition parseScreens :: "Config \<Rightarrow> nat \<Rightarrow> string \<Rightarrow> cfg_error + string list" where
  "parseScreens cfg lno s = map_sum id (map fst) (parseScreens_from cfg lno s 0 [])"

definition parseMode :: "cfg_error \<Rightarrow> string list \<Rightarrow> cfg_error + Mode" where
  "parseMode wrong args =
     (if args = [] then Inr kToggle
      else if hd args = ''off'' then Inr kOff
      else if hd args = ''on'' then Inr kOn
      else if hd args = ''toggle'' then Inr kToggle
      else Inl wrong)"

text \<open>The names that start an action on keys or buttons: pressed, released or both.\<close>

definition adopt_input :: "string \<Rightarrow> string \<Rightarrow> string \<Rightarrow> (bool \<Rightarrow> Action) \<Rightarrow> bool \<Rightarrow> Rule \<Rightarrow> Rule" where
  "adopt_input name both down act activate rule =
     (if name = both then adoptAction (act False) False (adoptAction (act True) True rule)
      else if name = down then adoptAction (act True) activate rule
      else adoptAction (act False) activate rule)"

definition parseAction ::
    "nat \<Rightarrow> string \<Rightarrow> string list \<Rightarrow> bool \<Rightarrow> ConfigFile \<times> Rule \<Rightarrow> cfg_error + (ConfigFile \<times> Rule)" where
  "parseAction lno name args activate = (\<lambda>(c, rule).
     let cfg = cf_config c; adopt = (\<lambda>a. Inr (c, adoptAction a activate rule)); wrong = (\<lambda>text. XConfigRead lno text [])
     in if name \<in> {''keystroke'', ''keyDown'', ''keyUp''} then
          (if length args < 1 \<or> length args > 2 then Inl (wrong ''syntax for action: keystroke(modifiers+key[,screens])'')
           else bind_sum (if length args = 1 then Inr [] else parseScreens cfg lno (args ! 1)) (\<lambda>screens.
                bind_sum (parseKeystroke lno (args ! 0) screens) (\<lambda>info.
                  Inr (c, adopt_input name ''keystroke'' ''keyDown'' (KeystrokeAction info) activate rule))))
        else if name \<in> {''mousebutton'', ''mouseDown'', ''mouseUp''} then
          (if length args \<noteq> 1 then Inl (wrong ''syntax for action: mousebutton(modifiers+button)'')
           else bind_sum (parseMouse lno (args ! 0)) (\<lambda>(b, m).
                  Inr (c, adopt_input name ''mousebutton'' ''mouseDown'' (MouseButtonAction b m) activate rule)))
        else if name = ''switchToScreen'' then
          (if length args \<noteq> 1 then Inl (wrong ''syntax for action: switchToScreen(name)'')
           else bind_sum (named_screen cfg (wrong ''unknown screen name in switchToScreen'') (args ! 0)) (\<lambda>screen.
                  adopt (SwitchToScreenAction screen)))
        else if name = ''toggleScreen'' then adopt ToggleScreenAction
        else if name = ''switchInDirection'' then
          (if length args \<noteq> 1 then Inl (wrong ''syntax for action: switchInDirection(<left|right|up|down>)'')
           else (case direction_of (args ! 0) of
               None \<Rightarrow> Inl (XConfigRead lno ''unknown direction \"%{1}\" in switchToScreen'' (args ! 0))
             | Some dir \<Rightarrow> adopt (SwitchInDirectionAction dir)))
        else if name = ''lockCursorToScreen'' then
          (let e = wrong ''syntax for action: lockCursorToScreen([{off|on|toggle}])''
           in if length args > 1 then Inl e
              else bind_sum (parseMode e args) (\<lambda>mode.
                     Inr (c\<lparr>cf_hasLockToScreenAction := cf_hasLockToScreenAction c \<or> mode \<noteq> kOff\<rparr>,
                          adoptAction (LockCursorToScreenAction mode) activate rule)))
        else if name = ''keyboardBroadcast'' then
          (let e = wrong ''syntax for action: keyboardBroadcast([{off|on|toggle}[,screens]])''
           in if length args > 2 then Inl e
              else bind_sum (parseMode e args) (\<lambda>mode.
                   bind_sum (if length args \<ge> 2 then parseScreens cfg lno (args ! 1) else Inr []) (\<lambda>screens.
                     adopt (KeyboardBroadcastAction mode (KeyInfo_join screens)))))
        else Inl (XConfigRead lno ''unknown action argument \"%{1}\"'' name))"

text \<open>
  The actions behind position \<open>i\<close>.  The loop for those on activation ends at a semicolon, and at the end of the line; \<open>stop\<close> is that
  condition, and \<open>delim\<close> the delimiters of a value.
\<close>

function parse_actions ::
    "nat \<Rightarrow> string \<Rightarrow> string \<Rightarrow> (char \<Rightarrow> bool) \<Rightarrow> bool \<Rightarrow> nat \<Rightarrow> ConfigFile \<times> Rule \<Rightarrow> cfg_error + (nat \<times> ConfigFile \<times> Rule)" where
  "parse_actions lno line delim stop activate i cr =
     (if i < length line \<and> \<not> stop (line ! i)
      then (case parseNameWithArgs lno ''value'' line delim (i + 1) of
          Inl e \<Rightarrow> Inl e
        | Inr (i', value, args) \<Rightarrow>
            (case parseAction lno value args activate cr of
               Inl e \<Rightarrow> Inl e
             | Inr cr' \<Rightarrow> parse_actions lno line delim stop activate i' cr'))
      else Inr (i, cr))"
  by pat_completeness auto
termination
  by (relation "measure (\<lambda>(lno, line, delim, stop, activate, i, cr). length line - i)") (auto dest: parseNameWithArgs_ge)

declare parse_actions.simps [simp del]

definition options_rule ::
    "(KeyID \<Rightarrow> KeyModifierMask \<Rightarrow> UInt32) \<Rightarrow> nat \<Rightarrow> string \<Rightarrow> nat \<Rightarrow> string \<Rightarrow> string list \<Rightarrow> string \<Rightarrow> string list \<Rightarrow> ConfigFile \<Rightarrow>
     cfg_error + ConfigFile" where
  "options_rule register lno line i name nameArgs value valueArgs c =
     bind_sum (parseCondition (cf_config c) lno name nameArgs) (\<lambda>cond.
     bind_sum (if value \<noteq> [] \<or> \<not> (i < length line \<and> line ! i = CHR '';'')
               then parseAction lno value valueArgs True (c, Rule_new cond) else Inr (c, Rule_new cond)) (\<lambda>cr.
     bind_sum (parse_actions lno line [CHR '','', CHR '';'', CHR 0x0A] (\<lambda>ch. ch = CHR '';'') True i cr) (\<lambda>(i, cr).
     bind_sum (if i < length line
               then (case find_first_not_of line blanks (i + 1) of
                   None \<Rightarrow> Inr (i, cr)
                 | Some k \<Rightarrow> parse_actions lno line [CHR '','', CHR 0x0A] (\<lambda>_. False) False (k - 1) cr)
               else Inr (i, cr)) (\<lambda>(_, c, rule).
       Inr (c\<lparr>cf_inputFilter := addFilterRule register rule (cf_inputFilter c)\<rparr>)))))"

subsection \<open>Options\<close>

definition global_option :: "nat \<Rightarrow> string \<Rightarrow> string \<Rightarrow> (OptionID \<times> (cfg_error + OptionValue)) option" where
  "global_option lno name value =
     (if name = ''heartbeat'' then Some (kOptionHeartbeat, parseInt lno value)
      else if name = ''switchCorners'' then Some (kOptionScreenSwitchCorners, parseCorners lno value)
      else if name = ''switchCornerSize'' then Some (kOptionScreenSwitchCornerSize, parseInt lno value)
      else if name = ''switchDelay'' then Some (kOptionScreenSwitchDelay, parseInt lno value)
      else if name = ''switchDoubleTap'' then Some (kOptionScreenSwitchTwoTap, parseInt lno value)
      else if name = ''switchNeedsShift'' then Some (kOptionScreenSwitchNeedsShift, parseBoolean lno value)
      else if name = ''switchNeedsControl'' then Some (kOptionScreenSwitchNeedsControl, parseBoolean lno value)
      else if name = ''switchNeedsAlt'' then Some (kOptionScreenSwitchNeedsAlt, parseBoolean lno value)
      else if name = ''screenSaverSync'' then Some (kOptionScreenSaverSync, parseBoolean lno value)
      else if name = ''relativeMouseMoves'' then Some (kOptionRelativeMouseMoves, parseBoolean lno value)
      else if name = ''win32KeepForeground'' then Some (kOptionWin32KeepForeground, parseBoolean lno value)
      else if name = ''clipboardSharing'' then Some (kOptionClipboardSharing, parseBoolean lno value)
      else None)"

definition kDefaultPort :: int where
  "kDefaultPort = 24800"

definition set_address :: "arch_net \<Rightarrow> nat \<Rightarrow> string \<Rightarrow> ConfigFile \<Rightarrow> cfg_error + ConfigFile" where
  "set_address net lno value c =
     (case bind_sum (NetworkAddress_named value kDefaultPort) (resolve net) of
        Inl e \<Rightarrow> Inl (XConfigRead lno ''%{1}'' (''invalid address argument '' @ XSocketAddress_what e))
      | Inr a \<Rightarrow> Inr (c\<lparr>cf_barrierAddress := a\<rparr>))"

text \<open>The settings that are not options of the topology; \<open>None\<close> when there is no such setting.\<close>

definition global_setting :: "arch_net \<Rightarrow> nat \<Rightarrow> string \<Rightarrow> string \<Rightarrow> ConfigFile \<Rightarrow> (cfg_error + ConfigFile) option" where
  "global_setting net lno name value c =
     (let flag = (\<lambda>f. Some (bind_sum (parseBoolean lno value) (\<lambda>v. Inr (f (v \<noteq> 0)))))
      in if name = ''address'' then Some (set_address net lno value c)
         else if name = ''server'' then Some (Inr (c\<lparr>cf_serverName := value\<rparr>))
         else if name = ''serverIp'' then Some (Inr (c\<lparr>cf_serverIp := value\<rparr>))
         else if name = ''autoConfig'' then flag (\<lambda>b. c\<lparr>cf_clientAutoConfig := b\<rparr>)
         else if name = ''enableDragDrop'' then flag (\<lambda>b. c\<lparr>cf_enableDragDrop := b\<rparr>)
         else if name = ''requireClientCertificate'' then flag (\<lambda>b. c\<lparr>cf_requireClientCertificate := b\<rparr>)
         else if name = ''dropTarget'' then Some (Inr (upd_config (\<lambda>cfg. cfg\<lparr>cfg_dropTarget := stripQuotes value\<rparr>) c))
         else if name = ''cryptoEnabled'' then flag (\<lambda>b. c\<lparr>cf_cryptoEnabled := b\<rparr>)
         else if name = ''logFilename'' then Some (Inr (c\<lparr>cf_logFilename := value\<rparr>))
         else if name \<in> {''logLevel'', ''logToFile'', ''serverIp'', ''autoConfig'', ''networkInterface'', ''port'', ''gridSize''}
         then Some (Inr c)
         else None)"

definition handled_option :: "arch_net \<Rightarrow> nat \<Rightarrow> string \<Rightarrow> string \<Rightarrow> ConfigFile \<Rightarrow> (cfg_error + ConfigFile) option" where
  "handled_option net lno name value c =
     (case global_option lno name value of
        Some (opt, parsed) \<Rightarrow> Some (bind_sum parsed (\<lambda>v. Inr (upd_config (\<lambda>cfg. snd (addOption cfg [] opt v)) c)))
      | None \<Rightarrow> global_setting net lno name value c)"

definition options_line :: "arch_net \<Rightarrow> (KeyID \<Rightarrow> KeyModifierMask \<Rightarrow> UInt32) \<Rightarrow> section_item" where
  "options_line net register lno line screen c =
     bind_sum (parseNameWithArgs lno ''name'' line ''='' 0) (\<lambda>(i, name, nameArgs).
     bind_sum (parseNameWithArgs lno ''value'' line [CHR '','', CHR '';'', CHR 0x0A] (i + 1)) (\<lambda>(i, value, valueArgs).
     bind_sum
       (case handled_option net lno name value c of
          Some r \<Rightarrow> bind_sum r (\<lambda>c'.
            if i < length line \<and> (line ! i = CHR '','' \<or> line ! i = CHR '';'')
            then Inl (XConfigRead lno ''to many arguments to %s'' name) else Inr c')
        | None \<Rightarrow> options_rule register lno line i name nameArgs value valueArgs c)
       (\<lambda>c'. Inr (screen, c'))))"

definition readSectionOptions ::
    "arch_net \<Rightarrow> (KeyID \<Rightarrow> KeyModifierMask \<Rightarrow> UInt32) \<Rightarrow> ConfigFile \<Rightarrow> ConfigReadContext \<Rightarrow> cfg_error + (ConfigFile \<times> ConfigReadContext)" where
  "readSectionOptions net register = read_lines (options_line net register) ''options'' []"

section \<open>The file\<close>

definition readSection ::
    "arch_net \<Rightarrow> (KeyID \<Rightarrow> KeyModifierMask \<Rightarrow> UInt32) \<Rightarrow> ConfigFile \<Rightarrow> ConfigReadContext \<Rightarrow> cfg_error + (ConfigFile \<times> ConfigReadContext)" where
  "readSection net register c s =
     bind_sum (readLine s) (\<lambda>(l, s'). case l of
       None \<Rightarrow> Inr (c, s')
     | Some line \<Rightarrow>
         let lno = rc_line s'
         in if take 8 line \<noteq> ''section:'' then Inl (XConfigRead lno ''found data outside section'' [])
            else (case find_first_not_of line blanks 8 of
                None \<Rightarrow> Inl (XConfigRead lno ''section name is missing'' [])
              | Some i \<Rightarrow>
                  let name = drop i line
                  in if find_first_of name blanks 0 \<noteq> None then Inl (XConfigRead lno ''unexpected data after section name'' [])
                     else if name = ''options'' then readSectionOptions net register c s'
                     else if name = ''screens'' then readSectionScreens c s'
                     else if name = ''links'' then readSectionLinks c s'
                     else if name = ''aliases'' then readSectionAliases c s'
                     else if name = ''network'' then readSectionNetwork c s'
                     else if name = ''monitors'' then readSectionMonitors c s'
                     else Inl (XConfigRead lno ''unknown section name \"%{1}\"'' name)))"

text \<open>Every section consumes a line, or the stream has failed.\<close>

lemma read_lines_length: "read_lines item sec screen c s = Inr (c', s') \<Longrightarrow> length (rc_stream s') < length (rc_stream s)"
proof (induction item sec screen c s rule: read_lines.induct)
  case (1 item sec screen c s)
  show ?case
  proof (cases "readLine s")
    case (Inr r)
    with 1(2) obtain line s1 where r: "readLine s = Inr (Some line, s1)"
      by (cases r; cases "fst r") (auto simp: read_lines.simps [of item sec screen c s])
    note len = readLine_length [OF r]
    show ?thesis
    proof (cases "line = ''end''")
      case True
      then show ?thesis using 1(2) r len by (auto simp: read_lines.simps [of item sec screen c s])
    next
      case False
      then obtain screen' c1 where i: "item (rc_line s1) line screen c = Inr (screen', c1)"
        using 1(2) r by (cases "item (rc_line s1) line screen c") (auto simp: read_lines.simps [of item sec screen c s])
      then show ?thesis using 1(1) [OF r refl refl False i refl] 1(2) r len False
        by (simp add: read_lines.simps [of item sec screen c s])
    qed
  qed (use 1(2) in \<open>simp add: read_lines.simps [of item sec screen c s]\<close>)
qed

lemma readLine_loop_fail: "readLine_loop s = Inr (None, s') \<Longrightarrow> rc_fail s'"
proof (induction s rule: readLine_loop.induct)
  case (1 s)
  then show ?case
    by (subst (asm) (2) readLine_loop.simps) (auto simp: Let_def split: option.splits if_splits prod.splits)
qed

lemma readSection_progress:
  assumes "readSection net register c s = Inr (c', s')"
  shows "rc_fail s' \<or> length (rc_stream s') < length (rc_stream s)"
proof (cases "readLine s")
  case (Inr r)
  obtain l s1 where r: "r = (l, s1)" by (cases r)
  show ?thesis
  proof (cases l)
    case None
    then show ?thesis using assms Inr r readLine_loop_fail by (fastforce simp: readSection_def readLine_def)
  next
    case (Some line)
    note len = readLine_length [of s line s1]
    show ?thesis using assms Inr r Some len
      by (auto simp: readSection_def Let_def readSectionOptions_def readSectionScreens_def readSectionLinks_def readSectionAliases_def
          readSectionNetwork_def readSectionMonitors_def split: option.splits if_splits dest!: read_lines_length)
  qed
qed (use assms in \<open>simp add: readSection_def\<close>)

function read_sections ::
    "arch_net \<Rightarrow> (KeyID \<Rightarrow> KeyModifierMask \<Rightarrow> UInt32) \<Rightarrow> ConfigFile \<Rightarrow> ConfigReadContext \<Rightarrow> cfg_error + (ConfigFile \<times> ConfigReadContext)" where
  "read_sections net register tmp s =
     (if rc_fail s then Inr (tmp, s)
      else case readSection net register tmp s of
        Inl e \<Rightarrow> Inl e
      | Inr (tmp', s') \<Rightarrow> read_sections net register tmp' s')"
  by pat_completeness auto
termination
  by (relation "measures [\<lambda>(net, register, tmp, s). (if rc_fail s then 0 else 1), \<lambda>(net, register, tmp, s). length (rc_stream s)]")
     (auto dest: readSection_progress)

declare read_sections.simps [simp del]

text \<open>\<^verbatim>\<open>Config::read\<close> and \<^verbatim>\<open>operator>>\<close>: the new configuration is assigned at the end, the input filter keeps its primary client.\<close>

definition Config_read ::
    "arch_net \<Rightarrow> (KeyID \<Rightarrow> KeyModifierMask \<Rightarrow> UInt32) \<Rightarrow> ConfigFile \<Rightarrow> ConfigReadContext \<Rightarrow> cfg_error + (ConfigFile \<times> ConfigReadContext)" where
  "Config_read net register c s =
     bind_sum (read_sections net register ConfigFile_new s) (\<lambda>(tmp, s').
       Inr (tmp\<lparr>cf_inputFilter := InputFilter_assign register (cf_inputFilter tmp) (cf_inputFilter c)\<rparr>, s'))"

definition read_config :: "arch_net \<Rightarrow> (KeyID \<Rightarrow> KeyModifierMask \<Rightarrow> UInt32) \<Rightarrow> ConfigFile \<Rightarrow> string \<Rightarrow> cfg_error + ConfigFile" where
  "read_config net register c s = bind_sum (Config_read net register c (ConfigReadContext_new s)) (\<lambda>(c', _). Inr c')"

end
