(* ===== verification/Config_Write.thy ===== *)
theory Config_Write
  imports Config_Read
begin

text \<open>
  Writing a configuration, \<^verbatim>\<open>operator<<\<close> of \<^verbatim>\<open>server/Config.cpp\<close>, and comparing two of them.  A failing \<^verbatim>\<open>assert\<close> is \<open>None\<close>.
\<close>

section \<open>Options as text\<close>

definition getOptionName :: "OptionID \<Rightarrow> string option" where
  "getOptionName opt =
     (if opt = kOptionHalfDuplexCapsLock then Some ''halfDuplexCapsLock''
      else if opt = kOptionHalfDuplexNumLock then Some ''halfDuplexNumLock''
      else if opt = kOptionHalfDuplexScrollLock then Some ''halfDuplexScrollLock''
      else if opt = kOptionModifierMapForShift then Some ''shift''
      else if opt = kOptionModifierMapForControl then Some ''ctrl''
      else if opt = kOptionModifierMapForAlt then Some ''alt''
      else if opt = kOptionModifierMapForAltGr then Some ''altgr''
      else if opt = kOptionModifierMapForMeta then Some ''meta''
      else if opt = kOptionModifierMapForSuper then Some ''super''
      else if opt = kOptionHeartbeat then Some ''heartbeat''
      else if opt = kOptionScreenSwitchCorners then Some ''switchCorners''
      else if opt = kOptionScreenSwitchCornerSize then Some ''switchCornerSize''
      else if opt = kOptionScreenSwitchDelay then Some ''switchDelay''
      else if opt = kOptionScreenSwitchTwoTap then Some ''switchDoubleTap''
      else if opt = kOptionScreenSwitchNeedsShift then Some ''switchNeedsShift''
      else if opt = kOptionScreenSwitchNeedsControl then Some ''switchNeedsControl''
      else if opt = kOptionScreenSwitchNeedsAlt then Some ''switchNeedsAlt''
      else if opt = kOptionScreenSaverSync then Some ''screenSaverSync''
      else if opt = kOptionXTestXineramaUnaware then Some ''xtestIsXineramaUnaware''
      else if opt = kOptionRelativeMouseMoves then Some ''relativeMouseMoves''
      else if opt = kOptionWin32KeepForeground then Some ''win32KeepForeground''
      else if opt = kOptionScreenPreserveFocus then Some ''preserveFocus''
      else if opt = kOptionClipboardSharing then Some ''clipboardSharing''
      else None)"

definition boolean_options :: "OptionID list" where
  "boolean_options = [kOptionHalfDuplexCapsLock, kOptionHalfDuplexNumLock, kOptionHalfDuplexScrollLock, kOptionScreenSwitchNeedsShift,
     kOptionScreenSwitchNeedsControl, kOptionScreenSwitchNeedsAlt, kOptionScreenSaverSync, kOptionXTestXineramaUnaware,
     kOptionRelativeMouseMoves, kOptionWin32KeepForeground, kOptionScreenPreserveFocus, kOptionClipboardSharing]"

definition modifier_options :: "OptionID list" where
  "modifier_options = [kOptionModifierMapForShift, kOptionModifierMapForControl, kOptionModifierMapForAlt, kOptionModifierMapForAltGr,
     kOptionModifierMapForMeta, kOptionModifierMapForSuper]"

definition number_options :: "OptionID list" where
  "number_options = [kOptionHeartbeat, kOptionScreenSwitchCornerSize, kOptionScreenSwitchDelay, kOptionScreenSwitchTwoTap]"

definition modifier_text :: "OptionValue \<Rightarrow> string" where
  "modifier_text value =
     (if value = kKeyModifierIDShift then ''shift''
      else if value = kKeyModifierIDControl then ''ctrl''
      else if value = kKeyModifierIDAlt then ''alt''
      else if value = kKeyModifierIDAltGr then ''altgr''
      else if value = kKeyModifierIDMeta then ''meta''
      else if value = kKeyModifierIDSuper then ''super''
      else ''none'')"

definition corners_text :: "OptionValue \<Rightarrow> string" where
  "corners_text value =
     ''none'' @
     (if value AND kTopLeftMask \<noteq> 0 then '' +top-left'' else []) @
     (if value AND kTopRightMask \<noteq> 0 then '' +top-right'' else []) @
     (if value AND kBottomLeftMask \<noteq> 0 then '' +bottom-left'' else []) @
     (if value AND kBottomRightMask \<noteq> 0 then '' +bottom-right'' else [])"

definition getOptionValue :: "OptionID \<Rightarrow> OptionValue \<Rightarrow> string" where
  "getOptionValue opt value =
     (if opt \<in> set boolean_options then (if value \<noteq> 0 then ''true'' else ''false'')
      else if opt \<in> set modifier_options then modifier_text value
      else if opt \<in> set number_options then print_int (sint value)
      else if opt = kOptionScreenSwitchCorners then corners_text value
      else [])"

definition option_text :: "OptionID \<times> OptionValue \<Rightarrow> string option" where
  "option_text = (\<lambda>(opt, v).
     case getOptionName opt of
       None \<Rightarrow> None
     | Some name \<Rightarrow> if getOptionValue opt v = [] then None else Some (name @ '' = '' @ getOptionValue opt v))"

section \<open>The file\<close>

text \<open>A line of the file with its indentation.\<close>

definition nl :: string where "nl = [CHR 0x0A]"
definition tab1 :: string where "tab1 = [CHR 0x09]"
definition tab2 :: string where "tab2 = [CHR 0x09, CHR 0x09]"

definition write_line :: "string \<Rightarrow> string \<Rightarrow> string" where
  "write_line indent text = indent @ text @ nl"

definition write_options :: "string \<Rightarrow> (OptionID, OptionValue) smap \<Rightarrow> string" where
  "write_options indent opts = concat (map (write_line indent) (List.map_filter option_text opts))"

definition write_screen :: "Config \<Rightarrow> string \<Rightarrow> string" where
  "write_screen cfg screen =
     write_line tab1 (screen @ '':'') @
     (case getOptions cfg screen of None \<Rightarrow> [] | Some opts \<Rightarrow> write_options tab2 opts) @
     (case smap_find CaselessCmp_less screen (cfg_screenDropTargets cfg) of
        Some (_, target) \<Rightarrow> if target \<noteq> [] then write_line tab2 (''dropTarget = '' @ target) else []
      | None \<Rightarrow> [])"

definition dirName :: "EDirection \<Rightarrow> string option" where
  "dirName dir = (if dir = kNoDirection then None else Some (direction_name dir))"

definition formatInterval :: "rat \<Rightarrow> rat \<Rightarrow> string" where
  "formatInterval a b =
     (if a = 0 \<and> b = 1 then [] else ''('' @ print_int (to_percent a) @ '','' @ print_int (to_percent b) @ '')'')"

definition link_text :: "CellEdge \<times> CellEdge \<Rightarrow> string option" where
  "link_text = (\<lambda>(src, dst).
     map_option (\<lambda>side. side @ formatInterval (ce_first src) (ce_second src) @ '' = '' @ ce_name dst @
       formatInterval (ce_first dst) (ce_second dst)) (dirName (ce_side src)))"

definition neighbors :: "Config \<Rightarrow> string \<Rightarrow> (CellEdge, CellEdge) smap option" where
  "neighbors cfg screen =
     map_option (\<lambda>(_, cell). cell_neighbors cell) (smap_find CaselessCmp_less (getCanonicalName cfg screen) (cfg_map cfg))"

definition write_links :: "Config \<Rightarrow> string \<Rightarrow> string option" where
  "write_links cfg screen = do {
     links \<leftarrow> neighbors cfg screen;
     texts \<leftarrow> those (map link_text links);
     Some (write_line tab1 (screen @ '':'') @ concat (map (write_line tab2) texts))
   }"

text \<open>\<^verbatim>\<open>std::multimap::insert\<close>: behind the entries with the same key.\<close>

fun multimap_insert :: "('k \<Rightarrow> 'k \<Rightarrow> bool) \<Rightarrow> 'k \<Rightarrow> 'v \<Rightarrow> ('k \<times> 'v) list \<Rightarrow> ('k \<times> 'v) list" where
  "multimap_insert lt k v [] = [(k, v)]"
| "multimap_insert lt k v ((k', v') # m) = (if lt k k' then (k, v) # (k', v') # m else (k', v') # multimap_insert lt k v m)"

definition aliases_by_screen :: "Config \<Rightarrow> (string \<times> string) list" where
  "aliases_by_screen cfg =
     foldl (\<lambda>m (a, t). if a \<noteq> t then multimap_insert CaselessCmp_less t a m else m) [] (cfg_names cfg)"

fun write_aliases :: "string \<Rightarrow> (string \<times> string) list \<Rightarrow> string" where
  "write_aliases screen [] = []"
| "write_aliases screen ((t, a) # m) =
     (if t \<noteq> screen then write_line tab1 (t @ '':'') else []) @ write_line tab2 a @ write_aliases t m"

definition write_config :: "ConfigFile \<Rightarrow> string option" where
  "write_config c = do {
     let cfg = cf_config c;
     links \<leftarrow> those (map (\<lambda>(screen, _). write_links cfg screen) (cfg_map cfg));
     Some (write_line [] ''section: screens'' @ concat (map (\<lambda>(screen, _). write_screen cfg screen) (cfg_map cfg)) @ write_line [] ''end'' @
       write_line [] ''section: links'' @ concat links @ write_line [] ''end'' @
       (if length (cfg_map cfg) \<noteq> length (cfg_names cfg)
        then write_line [] ''section: aliases'' @ write_aliases [] (aliases_by_screen cfg) @ write_line [] ''end'' else []) @
       write_line [] ''section: options'' @ write_options tab1 (cfg_globalOptions cfg) @
       (if NetworkAddress_isValid (cf_barrierAddress c) then write_line tab1 (''address = '' @ na_hostname (cf_barrierAddress c)) else []) @
       (if cfg_dropTarget cfg \<noteq> [] then write_line tab1 (''dropTarget = '' @ cfg_dropTarget cfg) else []) @
       InputFilter_format tab1 (cf_inputFilter c) @ write_line [] ''end'')
   }"

section \<open>Comparison\<close>

text \<open>
  \<^verbatim>\<open>Config::operator==\<close>.  The comparison of the addresses reads both of them: it is \<open>None\<close> when one was never resolved.\<close>

definition NetworkNode_eq :: "NetworkNode \<Rightarrow> NetworkNode \<Rightarrow> bool" where
  "NetworkNode_eq a b \<longleftrightarrow> nn_ip a = nn_ip b \<and> nn_sshUser a = nn_sshUser b \<and> nn_sshPort a = nn_sshPort b \<and> nn_clientCmd a = nn_clientCmd b"

definition networkNodes_eq :: "(string, NetworkNode) smap \<Rightarrow> (string, NetworkNode) smap \<Rightarrow> bool" where
  "networkNodes_eq m x \<longleftrightarrow> length m = length x \<and>
     list_all (\<lambda>(k, n). case smap_find CaselessCmp_less k x of None \<Rightarrow> False | Some (_, n') \<Rightarrow> NetworkNode_eq n n') m"

definition topology_eq :: "Config \<Rightarrow> Config \<Rightarrow> bool" where
  "topology_eq c x \<longleftrightarrow>
     length (cfg_map c) = length (cfg_map x) \<and> length (cfg_names c) = length (cfg_names x) \<and>
     cfg_globalOptions c = cfg_globalOptions x \<and>
     list_all2 (\<lambda>(n, a) (m, b). CaselessCmp_equal n m \<and> Cell_eq a b) (cfg_map c) (cfg_map x) \<and>
     list_all2 (\<lambda>(a, t) (b, u). CaselessCmp_equal a b \<and> CaselessCmp_equal t u) (cfg_names c) (cfg_names x)"

text \<open>\<^verbatim>\<open>InputFilter::operator==\<close>: the sorted texts of the rules.\<close>

fun insert_text :: "string \<Rightarrow> string list \<Rightarrow> string list" where
  "insert_text x [] = [x]"
| "insert_text x (y # ys) = (if str_less y x then y # insert_text x ys else x # y # ys)"

definition sort_texts :: "string list \<Rightarrow> string list" where
  "sort_texts xs = foldr insert_text xs []"

definition InputFilter_eq :: "InputFilter \<Rightarrow> InputFilter \<Rightarrow> bool" where
  "InputFilter_eq f x \<longleftrightarrow>
     length (if_ruleList f) = length (if_ruleList x) \<and>
     sort_texts (map Rule_format (if_ruleList f)) = sort_texts (map Rule_format (if_ruleList x))"

definition Config_eq :: "ConfigFile \<Rightarrow> ConfigFile \<Rightarrow> bool option" where
  "Config_eq c x =
     (if cf_serverName c \<noteq> cf_serverName x \<or> cf_enableDragDrop c \<noteq> cf_enableDragDrop x \<or>
         cf_requireClientCertificate c \<noteq> cf_requireClientCertificate x \<or>
         cfg_dropTarget (cf_config c) \<noteq> cfg_dropTarget (cf_config x) \<or>
         cfg_screenDropTargets (cf_config c) \<noteq> cfg_screenDropTargets (cf_config x) \<or>
         \<not> networkNodes_eq (cf_networkNodes c) (cf_networkNodes x)
      then Some False
      else map_option (\<lambda>same. same \<and> topology_eq (cf_config c) (cf_config x) \<and> InputFilter_eq (cf_inputFilter c) (cf_inputFilter x))
             (NetworkAddress_eq (cf_barrierAddress c) (cf_barrierAddress x)))"

end
