(* ===== verification/Config_Roundtrip.thy ===== *)
theory Config_Roundtrip
  imports Config_Write
begin

text \<open>
  What \<^verbatim>\<open>operator<<\<close> writes is what \<^verbatim>\<open>operator>>\<close> reads: screens with their options, links, aliases and global options come back.  The theory
  goes up from lines to sections: a written line is read back as it is, a section is a fold of its lines, and every fold rebuilds
  one part of the configuration.
\<close>

section \<open>Lines\<close>

lemma index_where_take: "index_where P s = Some i \<Longrightarrow> list_all (\<lambda>c. \<not> P c) (take i s)"
  by (induction s arbitrary: i) (auto split: if_splits)

lemma find_first_not_of_blanks:
  "set bs \<subseteq> set cs \<Longrightarrow> c \<notin> set cs \<Longrightarrow> find_first_not_of (pre @ bs @ c # t) cs (length pre) = Some (length pre + length bs)"
  by (subst find_first_not_of_def) (auto simp: index_where_append list_all_iff subset_iff)

lemma find_last_not_of_last: "s \<noteq> [] \<Longrightarrow> last s \<notin> set cs \<Longrightarrow> find_last_not_of s cs = Some (length s - 1)"
  by (cases s rule: rev_cases) (auto simp: find_last_not_of_def)

text \<open>A line that comes back as it was written.\<close>

definition clean :: "string \<Rightarrow> bool" where
  "clean l \<longleftrightarrow> l \<noteq> [] \<and> list_all (\<lambda>c. line_char c \<and> c \<noteq> CHR ''#'') l \<and> isgraph (hd l) \<and> isgraph (last l)"

lemma isgraph_not_blank: "isgraph c \<Longrightarrow> c \<notin> set (CHR '' '' # CHR 0x0D # CHR 0x09 # [])"
  by (auto simp: isgraph_def)

lemma line_char_not_nl: "line_char c \<Longrightarrow> c \<noteq> CHR 0x0A"
  by (auto simp: line_char_def isgraph_def)

lemma strip_line_clean:
  assumes "set ind \<subseteq> set blanks" "clean l"
  shows "strip_line (ind @ l) = l"
proof -
  obtain c t where l: "l = c # t" and c: "c \<notin> set blanks"
    using assms(2) isgraph_not_blank [of "hd l"] by (cases l) (auto simp: clean_def blanks_def)
  have "find_first_not_of (ind @ l) blanks 0 = Some (length ind)"
    using find_first_not_of_blanks [OF assms(1) c, of "[]" t] l by simp
  moreover have "find_first_of l ''#'' 0 = None"
    using assms(2) find_first_of_none [of "''#''" l "[]"] by (auto simp: clean_def list_all_iff)
  moreover have "find_last_not_of l (CHR '' '' # CHR 0x0D # CHR 0x09 # []) = Some (length l - 1)"
    using assms(2) isgraph_not_blank [of "last l"] by (intro find_last_not_of_last) (auto simp: clean_def)
  ultimately show ?thesis using l by (simp add: strip_line_def)
qed

definition ctx :: "string \<Rightarrow> nat \<Rightarrow> ConfigReadContext" where
  "ctx s n = \<lparr>rc_stream = s, rc_fail = False, rc_line = n\<rparr>"

lemma ctx_simps [simp]: "rc_stream (ctx s n) = s" "rc_fail (ctx s n) = False" "rc_line (ctx s n) = n"
  by (simp_all add: ctx_def)

lemma readLine_clean:
  assumes "set ind \<subseteq> set blanks" "clean l"
  shows "readLine (ctx (write_line ind l @ rest) n) = Inr (Some l, ctx rest (n + 1))"
proof -
  have "CHR 0x0A \<notin> set (ind @ l)"
    using assms line_char_not_nl by (auto simp: clean_def list_all_iff blanks_def)
  from getline_field [OF this, of rest] show ?thesis
    using strip_line_clean [OF assms] assms(2)
    by (simp add: readLine_def write_line_def nl_def readLine_loop.simps Let_def clean_def list_all_iff ctx_def)
qed

section \<open>Sections\<close>

text \<open>The lines of a section one after the other.\<close>

fun run_items :: "section_item \<Rightarrow> nat \<Rightarrow> string list \<Rightarrow> string \<times> ConfigFile \<Rightarrow> cfg_error + (string \<times> ConfigFile)" where
  "run_items item n [] st = Inr st"
| "run_items item n (l # ls) st = bind_sum (item (n + 1) l (fst st) (snd st)) (run_items item (n + 1) ls)"

definition section_text :: "(string \<times> string) list \<Rightarrow> string" where
  "section_text ls = concat (map (\<lambda>(ind, l). write_line ind l) ls)"

definition clean_lines :: "(string \<times> string) list \<Rightarrow> bool" where
  "clean_lines ls \<longleftrightarrow> list_all (\<lambda>(ind, l). set ind \<subseteq> set blanks \<and> clean l \<and> l \<noteq> ''end'') ls"

lemma clean_end: "clean ''end''"
  by (simp add: clean_def line_char_def isgraph_def)

lemma read_lines_text:
  assumes "clean_lines ls"
  shows "read_lines item sec screen c (ctx (section_text ls @ write_line [] ''end'' @ rest) n) =
    bind_sum (run_items item n (map snd ls) (screen, c)) (\<lambda>(_, c'). Inr (c', ctx rest (n + length ls + 1)))"
  using assms
proof (induction ls arbitrary: screen c n)
  case Nil
  then show ?case
    using readLine_clean [OF _ clean_end, of "[]" rest n] by (simp add: section_text_def read_lines.simps)
next
  case (Cons a ls)
  obtain ind l where a: "a = (ind, l)" by (cases a)
  have "readLine (ctx (section_text (a # ls) @ write_line [] ''end'' @ rest) n) =
      Inr (Some l, ctx (section_text ls @ write_line [] ''end'' @ rest) (n + 1))"
    using readLine_clean [of ind l "section_text ls @ write_line [] ''end'' @ rest" n] Cons.prems
    by (simp add: section_text_def a clean_lines_def)
  then show ?case
    using Cons by (cases "item (n + 1) l screen c")
      (auto simp: read_lines.simps [of item sec screen c] a clean_lines_def split: prod.splits)
qed

lemma run_items_append:
  "run_items item n (ls @ ls') st = bind_sum (run_items item n ls st) (run_items item (n + length ls) ls')"
proof (induction ls arbitrary: n st)
  case (Cons l ls)
  then show ?case by (cases "item (n + 1) l (fst st) (snd st)") auto
qed simp

section \<open>Option values\<close>

lemma option_numbers:
  shows "kOptionHalfDuplexCapsLock = 1212433228"
    "kOptionHalfDuplexNumLock = 1212436044"
    "kOptionHalfDuplexScrollLock = 1212437324"
    "kOptionModifierMapForShift = 1296909907"
    "kOptionModifierMapForControl = 1296909891"
    "kOptionModifierMapForAlt = 1296909889"
    "kOptionModifierMapForAltGr = 1296909895"
    "kOptionModifierMapForMeta = 1296909901"
    "kOptionModifierMapForSuper = 1296909906"
    "kOptionHeartbeat = 1212240468"
    "kOptionScreenSwitchCorners = 1397965645"
    "kOptionScreenSwitchCornerSize = 1397965651"
    "kOptionScreenSwitchDelay = 1397970772"
    "kOptionScreenSwitchTwoTap = 1397970004"
    "kOptionScreenSwitchNeedsShift = 1397968467"
    "kOptionScreenSwitchNeedsControl = 1397968451"
    "kOptionScreenSwitchNeedsAlt = 1397968449"
    "kOptionScreenSaverSync = 1397970514"
    "kOptionXTestXineramaUnaware = 1481922645"
    "kOptionScreenPreserveFocus = 1397116739"
    "kOptionRelativeMouseMoves = 1296321620"
    "kOptionWin32KeepForeground = 1598768727"
    "kOptionClipboardSharing = 1129074771"
  by (simp_all add: option_code_def readUInt32_def of_char_def kOptionHalfDuplexCapsLock_def kOptionHalfDuplexNumLock_def kOptionHalfDuplexScrollLock_def kOptionModifierMapForShift_def kOptionModifierMapForControl_def kOptionModifierMapForAlt_def kOptionModifierMapForAltGr_def kOptionModifierMapForMeta_def kOptionModifierMapForSuper_def kOptionHeartbeat_def kOptionScreenSwitchCorners_def kOptionScreenSwitchCornerSize_def kOptionScreenSwitchDelay_def kOptionScreenSwitchTwoTap_def kOptionScreenSwitchNeedsShift_def kOptionScreenSwitchNeedsControl_def kOptionScreenSwitchNeedsAlt_def kOptionScreenSaverSync_def kOptionXTestXineramaUnaware_def kOptionScreenPreserveFocus_def kOptionRelativeMouseMoves_def kOptionWin32KeepForeground_def kOptionClipboardSharing_def)

lemmas option_lists = boolean_options_def modifier_options_def number_options_def

text \<open>The options that each section knows, with the values that have a text.\<close>

definition screen_value_ok :: "OptionID \<Rightarrow> OptionValue \<Rightarrow> bool" where
  "screen_value_ok opt v \<longleftrightarrow>
     opt \<in> set [kOptionHalfDuplexCapsLock, kOptionHalfDuplexNumLock, kOptionHalfDuplexScrollLock, kOptionXTestXineramaUnaware,
       kOptionScreenPreserveFocus] \<and> v \<in> set [0, 1] \<or>
     opt \<in> set modifier_options \<and> v \<in> set [0, 1, 2, 3, 4, 5, 6] \<or>
     opt = kOptionScreenSwitchCornerSize \<or>
     opt = kOptionScreenSwitchCorners \<and> v \<in> set [0, 1, 2, 3, 4, 5, 6, 7, 8, 9, 10, 11, 12, 13, 14, 15]"

text \<open>The text of global corners has blanks, and the options section reads a value only up to a blank: only no corner at all comes back.\<close>

definition global_value_ok :: "OptionID \<Rightarrow> OptionValue \<Rightarrow> bool" where
  "global_value_ok opt v \<longleftrightarrow>
     opt \<in> set [kOptionScreenSwitchNeedsShift, kOptionScreenSwitchNeedsControl, kOptionScreenSwitchNeedsAlt, kOptionScreenSaverSync,
       kOptionRelativeMouseMoves, kOptionWin32KeepForeground, kOptionClipboardSharing] \<and> v \<in> set [0, 1] \<or>
     opt \<in> set number_options \<or>
     opt = kOptionScreenSwitchCorners \<and> v = 0"

lemma parseBoolean_text: "v \<in> set [0, 1] \<Longrightarrow> parseBoolean lno (if v \<noteq> 0 then ''true'' else ''false'') = Inr v"
  by (auto simp: parseBoolean_def CaselessCmp_equal_iff tolower_char_def)

lemma parseModifierKey_text: "v \<in> set [0, 1, 2, 3, 4, 5, 6] \<Longrightarrow> parseModifierKey lno (modifier_text v) = Inr v"
  by (auto simp: parseModifierKey_def modifier_text_def CaselessCmp_equal_iff tolower_char_def modifier_ids)

text \<open>Numbers.\<close>

lemma strtol10_decimal:
  assumes "n < 2 ^ 63"
  shows "strtol10 (decimal n) = (int n, length (decimal n), False)"
proof -
  let ?s = "decimal n"
  note dig = decimal_chars [of _ n]
  have "takeWhile isspace ?s = []" "takeWhile isdigit ?s = ?s" "takeWhile (\<lambda>c. c = CHR ''+'' \<or> c = CHR ''-'') (take 1 ?s) = []"
    using dig by (cases ?s; auto)+
  then show ?thesis using assms by (simp add: strtol10_def decimal_val_decimal Let_def del: takeWhile_eq_all_conv)
qed

lemma strtol10_minus_decimal:
  assumes "n \<le> 2 ^ 63"
  shows "strtol10 (CHR ''-'' # decimal n) = (- int n, 1 + length (decimal n), False)"
proof -
  let ?s = "decimal n"
  have "takeWhile isdigit ?s = ?s" using decimal_chars [of _ n] by (cases ?s; auto)
  then show ?thesis using assms by (simp add: strtol10_def isspace_def decimal_val_decimal Let_def del: takeWhile_eq_all_conv)
qed

lemma parseInt_text: "parseInt lno (print_int (sint v)) = Inr v"
proof -
  have r: "- (2 ^ 31) \<le> sint v" "sint v < 2 ^ 31" using sint_greater_eq [of v] sint_less [of v] by simp_all
  have "strtol10 (print_int (sint v)) = (sint v, length (print_int (sint v)), False)"
  proof (cases "sint v < 0")
    case True
    then have "nat (- sint v) \<le> 2 ^ 63" using r by simp
    from strtol10_minus_decimal [OF this] True show ?thesis by (simp add: print_int_def)
  next
    case False
    then have "nat (sint v) < 2 ^ 63" using r by simp
    from strtol10_decimal [OF this] False show ?thesis by (simp add: print_int_def)
  qed
  then show ?thesis by (simp add: parseInt_def)
qed

text \<open>Corners: the first one is \<open>none\<close>, the others are added.\<close>

lemmas search_defs = find_first_of_def find_first_not_of_def blanks_def substr_to_def

lemma parseCorners_text:
  assumes "v \<in> set [0, 1, 2, 3, 4, 5, 6, 7, 8, 9, 10, 11, 12, 13, 14, 15]"
  shows "parseCorners lno (corners_text v) = Inr v"
proof -
  have "parseCorner lno ''none'' = Inr 0" "parseCorner lno ''top-left'' = Inr 1" "parseCorner lno ''top-right'' = Inr 2"
    "parseCorner lno ''bottom-left'' = Inr 4" "parseCorner lno ''bottom-right'' = Inr 8"
    by (simp_all add: parseCorner_def CaselessCmp_equal_iff tolower_char_def kNoCornerMask_def kTopLeftMask_def kTopRightMask_def
        kBottomLeftMask_def kBottomRightMask_def)
  then show ?thesis using assms
    by (auto simp: parseCorners_def corners_text_def kTopLeftMask_def kTopRightMask_def kBottomLeftMask_def kBottomRightMask_def search_defs)
qed

section \<open>Names and values\<close>

text \<open>The characters of screen names; digits and names of options are among them.\<close>

definition word_char :: "char \<Rightarrow> bool" where
  "word_char c \<longleftrightarrow> isalnum c \<or> c = CHR ''_'' \<or> c = CHR ''-'' \<or> c = CHR ''.''"

definition word_text :: "string \<Rightarrow> bool" where
  "word_text s \<longleftrightarrow> s \<noteq> [] \<and> list_all word_char s"

lemma word_char_plain:
  assumes "word_char c"
  shows "isgraph c" "line_char c" "c \<notin> set (blanks @ ''#=(),;:'')"
  using assms by (auto simp: word_char_def isalnum_def isgraph_def line_char_def blanks_def Let_def)

lemma find_first_of_word:
  assumes "list_all word_char s" "set cs \<subseteq> set (blanks @ ''#=(),;:'')" "c \<in> set cs"
  shows "find_first_of (pre @ s @ c # t) cs (length pre) = Some (length pre + length s)"
    "find_first_of (pre @ s) cs (length pre) = None"
proof -
  have "list_all (\<lambda>c. c \<notin> set cs) s" using assms(1,2) word_char_plain(3) by (auto simp: list_all_iff subset_iff)
  then show "find_first_of (pre @ s @ c # t) cs (length pre) = Some (length pre + length s)"
    "find_first_of (pre @ s) cs (length pre) = None" using assms(3) find_first_of_at find_first_of_none by metis+
qed

lemma find_first_not_of_end: "set bs \<subseteq> set cs \<Longrightarrow> find_first_not_of (pre @ bs) cs (length pre) = None"
  by (auto simp: find_first_not_of_def index_where_None list_all_iff)

lemma parse_assignment_text:
  assumes "word_text name" "isgraph c"
  shows "parse_assignment lno (name @ '' = '' @ c # t) = Inr (name, c # t)"
proof -
  have c: "c \<notin> set blanks" using isgraph_not_blank [OF assms(2)] by (auto simp: blanks_def)
  have "find_first_of (name @ '' = '' @ c # t) (blanks @ ''='') 0 = Some (length name)"
    using find_first_of_word(1) [of name "blanks @ ''=''" "CHR '' ''" "[]" "CHR ''='' # CHR '' '' # c # t"] assms(1)
    by (auto simp: word_text_def blanks_def)
  moreover have "find_first_not_of (name @ '' = '' @ c # t) blanks (length name) = Some (length name + 1)"
    using find_first_not_of_blanks [of "'' ''" blanks "CHR ''=''" name "CHR '' '' # c # t"] by (simp add: blanks_def)
  moreover have "find_first_not_of (name @ '' = '' @ c # t) blanks (length name + 2) = Some (length name + 3)"
    using find_first_not_of_blanks [of "'' ''" blanks c "name @ '' =''" t] c by (simp add: blanks_def)
  ultimately show ?thesis using assms(1)
    by (simp add: parse_assignment_def word_text_def nth_append Let_def)
qed

lemma trim_arg_word: "word_text s \<Longrightarrow> trim_arg s = s \<and> find_last_not_of s blanks \<noteq> None"
  using find_last_not_of_last [of s blanks] find_first_not_of_at [of "hd s" blanks "[]" "tl s"] word_char_plain(3)
  by (cases s) (auto simp: trim_arg_def word_text_def list_all_iff)

lemma parse_args_pair:
  assumes "word_text a" "word_text b"
  shows "parse_args (pre @ a @ CHR '','' # b @ CHR '')'' # t) (length pre) = Some ([a, b], length pre + length a + 1 + length b)"
proof -
  let ?l = "pre @ a @ CHR '','' # b @ CHR '')'' # t"
  have "find_first_of ?l '',)'' (length pre) = Some (length pre + length a)"
    using find_first_of_word(1) [of a "'',)''" "CHR '',''" pre] assms(1) by (simp add: word_text_def blanks_def)
  moreover have "find_first_of ?l '',)'' (length pre + length a + 1) = Some (length pre + length a + 1 + length b)"
    using find_first_of_word(1) [of b "'',)''" "CHR '')''" "pre @ a @ '',''" t] assms(2) by (simp add: word_text_def blanks_def)
  ultimately show ?thesis
    using trim_arg_word [OF assms(1)] trim_arg_word [OF assms(2)]
    by (simp add: parse_args.simps [of ?l] nth_append Let_def)
qed

text \<open>An interval in text is nothing or two numbers; \<open>args\<close> is what it is read as.\<close>

definition interval_text :: "string list \<Rightarrow> string" where
  "interval_text args = (case args of [a, b] \<Rightarrow> ''('' @ a @ '','' @ b @ '')'' | _ \<Rightarrow> [])"

definition interval_args :: "string list \<Rightarrow> bool" where
  "interval_args args \<longleftrightarrow> args = [] \<or> length args = 2 \<and> list_all word_text args"

lemma parseNameWithArgs_name:
  assumes n: "word_text name" and a: "interval_args args"
  shows "parseNameWithArgs lno kind (name @ interval_text args @ '' = '' @ t) ''='' 0 =
    Inr (length name + length (interval_text args) + 1, name, args)"
proof -
  let ?l = "name @ interval_text args @ '' = '' @ t"
  have start: "find_first_not_of ?l blanks 0 = Some 0"
    using n word_char_plain(3) [of "hd name"] find_first_not_of_at [of "hd name" blanks "[]" "tl name @ interval_text args @ '' = '' @ t"]
    by (cases name) (auto simp: word_text_def)
  have i: "find_first_of ?l (blanks @ ''(='') 0 = Some (length name)"
    using find_first_of_word(1) [of name "blanks @ ''(=''" "hd (interval_text args @ '' '')" "[]" "tl (interval_text args @ '' '') @ ''= '' @ t"]
      n a by (auto simp: word_text_def interval_text_def interval_args_def blanks_def split: list.splits)
  show ?thesis
  proof (cases args)
    case Nil
    then have "find_first_not_of ?l blanks (length name) = Some (length name + 1)"
      using find_first_not_of_blanks [of "'' ''" blanks "CHR ''=''" name "'' '' @ t"] by (simp add: interval_text_def blanks_def)
    then show ?thesis using start i Nil by (simp add: parseNameWithArgs_def interval_text_def nth_append Let_def)
  next
    case (Cons x xs)
    then obtain y where xy: "args = [x, y]" "word_text x" "word_text y" using a by (cases xs) (auto simp: interval_args_def)
    have "find_first_not_of ?l blanks (length name) = Some (length name)"
      using find_first_not_of_at [of "CHR ''(''" blanks name] xy(1) by (simp add: interval_text_def blanks_def)
    moreover have "parse_args ?l (length name + 1) = Some ([x, y], length name + 1 + length x + 1 + length y)"
      using parse_args_pair [OF xy(2,3), of "name @ ''(''" "'' = '' @ t"] xy(1) by (simp add: interval_text_def)
    moreover have "find_first_not_of ?l blanks (length name + length x + length y + 3) = Some (length name + length x + length y + 4)"
      using find_first_not_of_blanks [of "'' ''" blanks "CHR ''=''" "name @ interval_text args" "'' '' @ t"] xy(1)
      by (simp add: interval_text_def blanks_def eval_nat_numeral ac_simps)
    ultimately show ?thesis using start i xy(1)
      by (simp add: parseNameWithArgs_def interval_text_def nth_append Let_def eval_nat_numeral ac_simps)
  qed
qed

lemma parseNameWithArgs_value:
  assumes n: "word_text name" and a: "interval_args args" and d: "set delim \<subseteq> set '',;'' \<union> {CHR 0x0A}" "delim = [] \<or> CHR 0x0A \<in> set delim"
  shows "parseNameWithArgs lno kind (pre @ '' '' @ name @ interval_text args) delim (length pre) =
    Inr (length (pre @ '' '' @ name @ interval_text args), name, args)"
proof -
  let ?l = "pre @ '' '' @ name @ interval_text args"
  have start: "find_first_not_of ?l blanks (length pre) = Some (length pre + 1)"
    using n word_char_plain(3) [of "hd name"] find_first_not_of_blanks [of "'' ''" blanks "hd name" pre "tl name @ interval_text args"]
    by (cases name) (auto simp: word_text_def blanks_def)
  have "list_all (\<lambda>c. c \<notin> set (blanks @ ''('' @ delim)) name"
    using n d(1) word_char_plain line_char_not_nl by (fastforce simp: word_text_def list_all_iff)
  note i = find_first_of_at [OF this, of "CHR ''(''" "pre @ '' ''"] find_first_of_none [OF this, of "pre @ '' ''"]
  show ?thesis
  proof (cases args)
    case Nil
    then show ?thesis using start i d(2) find_first_not_of_end [of "[]" blanks ?l]
      by (auto simp: parseNameWithArgs_def interval_text_def Let_def)
  next
    case (Cons x xs)
    then obtain y where xy: "args = [x, y]" "word_text x" "word_text y" using a by (cases xs) (auto simp: interval_args_def)
    have "find_first_not_of ?l blanks (length pre + 1 + length name) = Some (length pre + 1 + length name)"
      using find_first_not_of_at [of "CHR ''(''" blanks "pre @ '' '' @ name"] xy(1) by (simp add: interval_text_def blanks_def)
    moreover have "parse_args ?l (length pre + length name + 2) = Some ([x, y], length pre + length name + 2 + length x + 1 + length y)"
      using parse_args_pair [OF xy(2,3), of "pre @ '' '' @ name @ ''(''" "[]"] xy(1) by (simp add: interval_text_def)
    moreover have "find_first_not_of ?l blanks (length pre + length name + length x + length y + 4) = None"
      using find_first_not_of_end [of "[]" blanks ?l] xy(1) by (simp add: interval_text_def eval_nat_numeral ac_simps)
    ultimately show ?thesis using start i xy(1) d(2)
      by (auto simp: parseNameWithArgs_def interval_text_def nth_append Let_def eval_nat_numeral ac_simps)
  qed
qed

section \<open>Option lines\<close>

lemma print_int_word: "word_text (print_int v)"
proof -
  have "word_char c" if "c \<in> set (decimal n)" for c n
    using decimal_chars(1) [OF that] by (auto simp: word_char_def isalnum_def isdigit_def Let_def)
  then show ?thesis by (auto simp: word_text_def print_int_def list_all_iff word_char_def)
qed

lemma print_int_not_Nil [simp]: "print_int v \<noteq> []"
  using print_int_word by (auto simp: word_text_def)

lemma modifier_text_word: "word_text (modifier_text v)"
  by (simp add: modifier_text_def word_text_def word_char_def isalnum_def)

lemma option_names:
  shows "getOptionName kOptionHalfDuplexCapsLock = Some ''halfDuplexCapsLock''"
    "getOptionName kOptionHalfDuplexNumLock = Some ''halfDuplexNumLock''"
    "getOptionName kOptionHalfDuplexScrollLock = Some ''halfDuplexScrollLock''"
    "getOptionName kOptionModifierMapForShift = Some ''shift''"
    "getOptionName kOptionModifierMapForControl = Some ''ctrl''"
    "getOptionName kOptionModifierMapForAlt = Some ''alt''"
    "getOptionName kOptionModifierMapForAltGr = Some ''altgr''"
    "getOptionName kOptionModifierMapForMeta = Some ''meta''"
    "getOptionName kOptionModifierMapForSuper = Some ''super''"
    "getOptionName kOptionXTestXineramaUnaware = Some ''xtestIsXineramaUnaware''"
    "getOptionName kOptionScreenSwitchCorners = Some ''switchCorners''"
    "getOptionName kOptionScreenSwitchCornerSize = Some ''switchCornerSize''"
    "getOptionName kOptionScreenPreserveFocus = Some ''preserveFocus''"
    "getOptionName kOptionHeartbeat = Some ''heartbeat''"
    "getOptionName kOptionScreenSwitchDelay = Some ''switchDelay''"
    "getOptionName kOptionScreenSwitchTwoTap = Some ''switchDoubleTap''"
    "getOptionName kOptionScreenSwitchNeedsShift = Some ''switchNeedsShift''"
    "getOptionName kOptionScreenSwitchNeedsControl = Some ''switchNeedsControl''"
    "getOptionName kOptionScreenSwitchNeedsAlt = Some ''switchNeedsAlt''"
    "getOptionName kOptionScreenSaverSync = Some ''screenSaverSync''"
    "getOptionName kOptionRelativeMouseMoves = Some ''relativeMouseMoves''"
    "getOptionName kOptionWin32KeepForeground = Some ''win32KeepForeground''"
    "getOptionName kOptionClipboardSharing = Some ''clipboardSharing''"
  by (simp_all add: getOptionName_def option_numbers)

lemma option_values:
  shows "getOptionValue kOptionHalfDuplexCapsLock v = (if v \<noteq> 0 then ''true'' else ''false'')"
    "getOptionValue kOptionHalfDuplexNumLock v = (if v \<noteq> 0 then ''true'' else ''false'')"
    "getOptionValue kOptionHalfDuplexScrollLock v = (if v \<noteq> 0 then ''true'' else ''false'')"
    "getOptionValue kOptionModifierMapForShift v = modifier_text v"
    "getOptionValue kOptionModifierMapForControl v = modifier_text v"
    "getOptionValue kOptionModifierMapForAlt v = modifier_text v"
    "getOptionValue kOptionModifierMapForAltGr v = modifier_text v"
    "getOptionValue kOptionModifierMapForMeta v = modifier_text v"
    "getOptionValue kOptionModifierMapForSuper v = modifier_text v"
    "getOptionValue kOptionXTestXineramaUnaware v = (if v \<noteq> 0 then ''true'' else ''false'')"
    "getOptionValue kOptionScreenSwitchCorners v = corners_text v"
    "getOptionValue kOptionScreenSwitchCornerSize v = print_int (sint v)"
    "getOptionValue kOptionScreenPreserveFocus v = (if v \<noteq> 0 then ''true'' else ''false'')"
    "getOptionValue kOptionHeartbeat v = print_int (sint v)"
    "getOptionValue kOptionScreenSwitchDelay v = print_int (sint v)"
    "getOptionValue kOptionScreenSwitchTwoTap v = print_int (sint v)"
    "getOptionValue kOptionScreenSwitchNeedsShift v = (if v \<noteq> 0 then ''true'' else ''false'')"
    "getOptionValue kOptionScreenSwitchNeedsControl v = (if v \<noteq> 0 then ''true'' else ''false'')"
    "getOptionValue kOptionScreenSwitchNeedsAlt v = (if v \<noteq> 0 then ''true'' else ''false'')"
    "getOptionValue kOptionScreenSaverSync v = (if v \<noteq> 0 then ''true'' else ''false'')"
    "getOptionValue kOptionRelativeMouseMoves v = (if v \<noteq> 0 then ''true'' else ''false'')"
    "getOptionValue kOptionWin32KeepForeground v = (if v \<noteq> 0 then ''true'' else ''false'')"
    "getOptionValue kOptionClipboardSharing v = (if v \<noteq> 0 then ''true'' else ''false'')"
  by (simp_all add: getOptionValue_def option_lists option_numbers)

lemma screen_options:
  shows "screen_option lno ''halfDuplexCapsLock'' t = Some (kOptionHalfDuplexCapsLock, parseBoolean lno t)"
    "screen_option lno ''halfDuplexNumLock'' t = Some (kOptionHalfDuplexNumLock, parseBoolean lno t)"
    "screen_option lno ''halfDuplexScrollLock'' t = Some (kOptionHalfDuplexScrollLock, parseBoolean lno t)"
    "screen_option lno ''shift'' t = Some (kOptionModifierMapForShift, parseModifierKey lno t)"
    "screen_option lno ''ctrl'' t = Some (kOptionModifierMapForControl, parseModifierKey lno t)"
    "screen_option lno ''alt'' t = Some (kOptionModifierMapForAlt, parseModifierKey lno t)"
    "screen_option lno ''altgr'' t = Some (kOptionModifierMapForAltGr, parseModifierKey lno t)"
    "screen_option lno ''meta'' t = Some (kOptionModifierMapForMeta, parseModifierKey lno t)"
    "screen_option lno ''super'' t = Some (kOptionModifierMapForSuper, parseModifierKey lno t)"
    "screen_option lno ''xtestIsXineramaUnaware'' t = Some (kOptionXTestXineramaUnaware, parseBoolean lno t)"
    "screen_option lno ''switchCorners'' t = Some (kOptionScreenSwitchCorners, parseCorners lno t)"
    "screen_option lno ''switchCornerSize'' t = Some (kOptionScreenSwitchCornerSize, parseInt lno t)"
    "screen_option lno ''preserveFocus'' t = Some (kOptionScreenPreserveFocus, parseBoolean lno t)"
  by (simp_all add: screen_option_def)

lemma global_options:
  shows "global_option lno ''heartbeat'' t = Some (kOptionHeartbeat, parseInt lno t)"
    "global_option lno ''switchCorners'' t = Some (kOptionScreenSwitchCorners, parseCorners lno t)"
    "global_option lno ''switchCornerSize'' t = Some (kOptionScreenSwitchCornerSize, parseInt lno t)"
    "global_option lno ''switchDelay'' t = Some (kOptionScreenSwitchDelay, parseInt lno t)"
    "global_option lno ''switchDoubleTap'' t = Some (kOptionScreenSwitchTwoTap, parseInt lno t)"
    "global_option lno ''switchNeedsShift'' t = Some (kOptionScreenSwitchNeedsShift, parseBoolean lno t)"
    "global_option lno ''switchNeedsControl'' t = Some (kOptionScreenSwitchNeedsControl, parseBoolean lno t)"
    "global_option lno ''switchNeedsAlt'' t = Some (kOptionScreenSwitchNeedsAlt, parseBoolean lno t)"
    "global_option lno ''screenSaverSync'' t = Some (kOptionScreenSaverSync, parseBoolean lno t)"
    "global_option lno ''relativeMouseMoves'' t = Some (kOptionRelativeMouseMoves, parseBoolean lno t)"
    "global_option lno ''win32KeepForeground'' t = Some (kOptionWin32KeepForeground, parseBoolean lno t)"
    "global_option lno ''clipboardSharing'' t = Some (kOptionClipboardSharing, parseBoolean lno t)"
  by (simp_all add: global_option_def)

definition value_text :: "string \<Rightarrow> bool" where
  "value_text t \<longleftrightarrow> clean t \<and> last t \<noteq> CHR '':''"

lemma word_value: "word_text t \<Longrightarrow> value_text t"
  using word_char_plain [of "hd t"] word_char_plain [of "last t"] word_char_plain
  by (fastforce simp: value_text_def clean_def word_text_def list_all_iff)

lemma corners_value: "value_text (corners_text v)"
  by (simp add: value_text_def clean_def corners_text_def line_char_def isgraph_def)

lemma boolean_word: "word_text (if b then ''true'' else ''false'')"
  by (simp add: word_text_def word_char_def isalnum_def)

lemma screen_option_line:
  assumes "screen_value_ok opt v"
  shows "\<exists>name. getOptionName opt = Some name \<and> word_text name \<and> value_text (getOptionValue opt v) \<and>
    (\<forall>lno. screen_option lno name (getOptionValue opt v) = Some (opt, Inr v))"
proof -
  note ok = assms [unfolded screen_value_ok_def]
  have w: "word_text ''halfDuplexCapsLock''" "word_text ''halfDuplexNumLock''" "word_text ''halfDuplexScrollLock''"
    "word_text ''xtestIsXineramaUnaware''" "word_text ''preserveFocus''" "word_text ''shift''" "word_text ''ctrl''" "word_text ''alt''"
    "word_text ''altgr''" "word_text ''meta''" "word_text ''super''" "word_text ''switchCornerSize''" "word_text ''switchCorners''"
    by (simp_all add: word_text_def word_char_def isalnum_def)
  from ok show ?thesis
  proof (elim disjE conjE)
    assume o: "opt \<in> set [kOptionHalfDuplexCapsLock, kOptionHalfDuplexNumLock, kOptionHalfDuplexScrollLock, kOptionXTestXineramaUnaware,
       kOptionScreenPreserveFocus]" and v: "v \<in> set [0, 1]"
    show ?thesis using o parseBoolean_text [OF v] word_value [OF boolean_word [of "v \<noteq> 0"]]
      by (auto simp: option_names option_values screen_options w split del: if_split)
  next
    assume o: "opt \<in> set modifier_options" and v: "v \<in> set [0, 1, 2, 3, 4, 5, 6]"
    show ?thesis using o parseModifierKey_text [OF v] word_value [OF modifier_text_word]
      by (auto simp: modifier_options_def option_names option_values screen_options w)
  next
    assume o: "opt = kOptionScreenSwitchCornerSize"
    show ?thesis using o by (simp add: option_names option_values screen_options w parseInt_text word_value [OF print_int_word])
  next
    assume o: "opt = kOptionScreenSwitchCorners" and v: "v \<in> set [0, 1, 2, 3, 4, 5, 6, 7, 8, 9, 10, 11, 12, 13, 14, 15]"
    show ?thesis using o by (simp add: option_names option_values screen_options w parseCorners_text [OF v] corners_value)
  qed
qed

lemma global_option_line:
  assumes "global_value_ok opt v"
  shows "\<exists>name. getOptionName opt = Some name \<and> word_text name \<and> word_text (getOptionValue opt v) \<and>
    (\<forall>lno. global_option lno name (getOptionValue opt v) = Some (opt, Inr v))"
proof -
  note ok = assms [unfolded global_value_ok_def]
  have w: "word_text ''heartbeat''" "word_text ''switchCorners''" "word_text ''switchCornerSize''" "word_text ''switchDelay''"
    "word_text ''switchDoubleTap''" "word_text ''switchNeedsShift''" "word_text ''switchNeedsControl''" "word_text ''switchNeedsAlt''"
    "word_text ''screenSaverSync''" "word_text ''relativeMouseMoves''" "word_text ''win32KeepForeground''" "word_text ''clipboardSharing''"
    by (simp_all add: word_text_def word_char_def isalnum_def)
  from ok show ?thesis
  proof (elim disjE conjE)
    assume o: "opt \<in> set [kOptionScreenSwitchNeedsShift, kOptionScreenSwitchNeedsControl, kOptionScreenSwitchNeedsAlt,
       kOptionScreenSaverSync, kOptionRelativeMouseMoves, kOptionWin32KeepForeground, kOptionClipboardSharing]" and v: "v \<in> set [0, 1]"
    show ?thesis using o parseBoolean_text [OF v] boolean_word [of "v \<noteq> 0"]
      by (auto simp: option_names option_values global_options w split del: if_split)
  next
    assume o: "opt \<in> set number_options"
    show ?thesis using o parseInt_text print_int_word by (auto simp: number_options_def option_names option_values global_options w)
  next
    assume o: "opt = kOptionScreenSwitchCorners" and v: "v = 0"
    have "word_text (corners_text 0)" by (simp add: corners_text_def word_text_def word_char_def isalnum_def)
    then show ?thesis using o v parseCorners_text [of 0] by (simp add: option_names option_values global_options w)
  qed
qed

section \<open>Rebuilding maps\<close>

context ordered_map
begin

lemma insert_last: "(\<And>x. x \<in> set m \<Longrightarrow> lt (fst x) k) \<Longrightarrow> smap_insert lt k v m = m @ [(k, v)]"
proof (induction m)
  case (Cons a m)
  have "lt (fst a) k" using Cons.prems by simp
  then show ?case using Cons lt_asym [of "fst a" k] by (cases a) auto
qed simp

lemma erase_last: "(\<And>x. x \<in> set m \<Longrightarrow> lt (fst x) k) \<Longrightarrow> smap_erase lt k m = m"
proof (induction m)
  case (Cons a m)
  have "lt (fst a) k" using Cons.prems by simp
  then show ?case using Cons by (cases a) simp
qed simp

lemma ascending_snocD: "ascending (xs @ (k, v) # ys) \<Longrightarrow> x \<in> set xs \<Longrightarrow> lt (fst x) k"
  by (auto simp: ascending_def sorted_wrt_append)

lemma update_mid: "ascending (xs @ (k, v) # ys) \<Longrightarrow> smap_update lt k f (xs @ (k, v) # ys) = xs @ (k, f v) # ys"
proof (induction xs)
  case (Cons a xs)
  have "lt (fst a) k" using ascending_snocD [OF Cons.prems, of a] by simp
  then show ?case using Cons lt_asym [of "fst a" k] by (cases a) (auto simp: ascending_def)
qed (auto simp: irrefl)

lemma find_mid: "ascending (xs @ (k, v) # ys) \<Longrightarrow> smap_find lt k (xs @ (k, v) # ys) = Some (k, v)"
  by (simp add: find_Some_iff)

lemma ascending_distinct: "ascending m \<Longrightarrow> distinct m"
  by (induction m) (auto simp: irrefl)

lemma ascending_unique: "ascending xs \<Longrightarrow> ascending ys \<Longrightarrow> set xs = set ys \<Longrightarrow> xs = ys"
proof (induction xs arbitrary: ys)
  case (Cons x xs)
  then obtain y ys' where ys: "ys = y # ys'" by (cases ys) auto
  have lx: "z = x \<or> lt (fst x) (fst z)" if "z \<in> set (x # xs)" for z using Cons.prems(1) that by (auto simp: ascending_def)
  have ly: "z = y \<or> lt (fst y) (fst z)" if "z \<in> set ys" for z using Cons.prems(2) that ys by (auto simp: ascending_def)
  have "x = y" using lx [of y] ly [of x] Cons.prems(3) ys lt_asym by auto
  moreover have "x \<notin> set xs" "y \<notin> set ys'" using Cons.prems(1,2) ys irrefl by (auto simp: ascending_def)
  ultimately have "set xs = set ys'" using Cons.prems(3) insert_ident [of y "set xs" "set ys'"] by (simp add: ys)
  then have "xs = ys'" using Cons.IH [of ys'] Cons.prems(1,2) by (simp add: ys)
  then show ?case using \<open>x = y\<close> ys by simp
qed simp

end

section \<open>The screens section\<close>

abbreviation screens_item :: section_item where
  "screens_item \<equiv> screen_line ''screen'' screens_start screens_argument"

definition option_line :: "OptionID \<times> OptionValue \<Rightarrow> string" where
  "option_line = (\<lambda>(opt, v). the (getOptionName opt) @ '' = '' @ getOptionValue opt v)"

lemma assignment_clean:
  assumes "word_text name" "value_text t"
  shows "clean (name @ '' = '' @ t)" "name @ '' = '' @ t \<noteq> ''end''" "last (name @ '' = '' @ t) \<noteq> CHR '':''"
proof -
  show "clean (name @ '' = '' @ t)"
    using assms word_char_plain [of "hd name"] word_char_plain
    by (auto simp: clean_def value_text_def word_text_def list_all_iff line_char_def [of "CHR '' ''"] line_char_def [of "CHR ''=''"] isgraph_def [of "CHR ''=''"])
  have "CHR '' '' \<in> set (name @ '' = '' @ t)" "CHR '' '' \<notin> set ''end''" by simp_all
  then show "name @ '' = '' @ t \<noteq> ''end''" by metis
  show "last (name @ '' = '' @ t) \<noteq> CHR '':''" using assms(2) by (simp add: value_text_def clean_def)
qed

lemma value_text_Cons: "value_text t \<Longrightarrow> \<exists>c r. t = c # r \<and> isgraph c"
  by (cases t) (auto simp: value_text_def clean_def)

lemma option_text_lines:
  assumes "\<And>x. x \<in> set os \<Longrightarrow> \<exists>name. getOptionName (fst x) = Some name \<and> value_text (getOptionValue (fst x) (snd x))"
  shows "List.map_filter option_text os = map option_line os"
  using assms
proof (induction os)
  case (Cons x os)
  obtain name where "getOptionName (fst x) = Some name" "getOptionValue (fst x) (snd x) \<noteq> []"
    using Cons.prems [of x] by (auto simp: value_text_def clean_def)
  then have "option_text x = Some (option_line x)" by (cases x) (simp add: option_text_def option_line_def)
  then show ?case using Cons by (simp add: map_filter_simps)
qed (simp add: map_filter_simps)

lemma screens_option:
  assumes ok: "screen_value_ok opt v" and m: "cfg_map (cf_config c) = xs @ [(screen, cell)]" "names.ascending (cfg_map (cf_config c))"
    and s: "screen \<noteq> []" and asc: "\<And>x. x \<in> set (cell_options cell) \<Longrightarrow> fst x < opt"
  shows "screens_item lno (option_line (opt, v)) screen c =
    Inr (screen, upd_config (\<lambda>cfg. cfg\<lparr>cfg_map := xs @ [(screen, cell\<lparr>cell_options := cell_options cell @ [(opt, v)]\<rparr>)]\<rparr>) c)"
proof -
  obtain name where n: "getOptionName opt = Some name" "word_text name" "value_text (getOptionValue opt v)"
    "screen_option lno name (getOptionValue opt v) = Some (opt, Inr v)" using screen_option_line [OF ok] by blast
  obtain ch r where r: "getOptionValue opt v = ch # r" "isgraph ch" using value_text_Cons [OF n(3)] by blast
  have "smap_find CaselessCmp_less screen (cfg_map (cf_config c)) = Some (screen, cell)"
    using names.find_mid [of xs screen cell "[]"] m by simp
  moreover have "smap_update CaselessCmp_less screen f (cfg_map (cf_config c)) = xs @ [(screen, f cell)]" for f
    using names.update_mid [of xs screen cell "[]" f] m by simp
  ultimately show ?thesis
    using assignment_clean(3) [OF n(2,3)] parse_assignment_text [OF n(2) r(2), of lno r] n(1,4) r s opts.insert_last [OF asc]
    by (simp add: screen_line_def option_line_def screens_argument_def addOption_def update_options_def upd_config_def)
qed

lemma screens_options:
  assumes "\<And>x. x \<in> set os \<Longrightarrow> screen_value_ok (fst x) (snd x)" "cfg_map (cf_config c) = xs @ [(screen, cell)]"
    "names.ascending (cfg_map (cf_config c))" "screen \<noteq> []" "opts.ascending (cell_options cell @ os)"
  shows "run_items screens_item n (map option_line os) (screen, c) =
    Inr (screen, upd_config (\<lambda>cfg. cfg\<lparr>cfg_map := xs @ [(screen, cell\<lparr>cell_options := cell_options cell @ os\<rparr>)]\<rparr>) c)"
  using assms
proof (induction os arbitrary: c cell n)
  case (Cons x os)
  obtain opt v where x: "x = (opt, v)" by (cases x)
  let ?cell = "cell\<lparr>cell_options := cell_options cell @ [(opt, v)]\<rparr>"
  let ?c = "upd_config (\<lambda>cfg. cfg\<lparr>cfg_map := xs @ [(screen, ?cell)]\<rparr>) c"
  have "screens_item (n + 1) (option_line x) screen c = Inr (screen, ?c)"
    unfolding x using Cons.prems x opts.ascending_snocD [of "cell_options cell" opt v os] by (intro screens_option) auto
  moreover have "names.ascending (cfg_map (cf_config ?c))"
    using Cons.prems(2,3) names.ascending_keys [of "xs @ [(screen, ?cell)]" "xs @ [(screen, cell)]"] by (simp add: upd_config_def)
  ultimately show ?case using Cons.IH [of ?c ?cell "n + 1"] Cons.prems x by (simp add: upd_config_def)
qed (simp add: upd_config_def)

lemma labels_chars: "c \<in> set s \<Longrightarrow> c = CHR ''.'' \<or> (\<exists>p \<in> set (labels s). c \<in> set p)"
proof (induction s rule: labels.induct)
  case (1 s)
  let ?r = "dropWhile (\<lambda>c. c \<noteq> CHR ''.'') s"
  have ne: "s \<noteq> []" using 1(2) by auto
  have "c \<in> set (takeWhile (\<lambda>c. c \<noteq> CHR ''.'') s) \<or> c \<in> set ?r"
    using 1(2) takeWhile_dropWhile_id [of "\<lambda>c. c \<noteq> CHR ''.''" s] by (metis Un_iff set_append)
  moreover have "c = CHR ''.'' \<or> c \<in> set (drop 1 ?r)" if "c \<in> set ?r"
    using that hd_dropWhile [of "\<lambda>c. c \<noteq> CHR ''.''" s] by (cases ?r) auto
  ultimately show ?case using 1(1) [OF ne] ne by (subst labels.simps) auto
qed

lemma valid_name_word: "isValidScreenName n \<Longrightarrow> word_text n"
  using labels_chars [of _ n] isValidScreenName_labels [of n 0]
  by (fastforce simp: isValidScreenName_def word_text_def word_char_def list_all_iff valid_label_def)

lemma valid_name_neq: "isValidScreenName n \<Longrightarrow> n \<noteq> []"
  by (simp add: isValidScreenName_def)

lemma header_clean:
  assumes "isValidScreenName n"
  shows "clean (n @ '':'')" "n @ '':'' \<noteq> ''end''" "last (n @ '':'') = CHR '':''"
  using word_value [OF valid_name_word [OF assms]]
  by (auto simp: clean_def value_text_def line_char_def [of "CHR '':''"] isgraph_def [of "CHR '':''"] append_eq_Cons_conv)

text \<open>A screen without its links.\<close>

definition bare :: "string \<times> Cell \<Rightarrow> string \<times> Cell" where
  "bare x = (fst x, Cell_new\<lparr>cell_options := cell_options (snd x)\<rparr>)"

lemma fst_bare [simp]: "fst (bare x) = fst x"
  by (simp add: bare_def)

definition self_named :: "string \<times> Cell \<Rightarrow> string \<times> string" where
  "self_named x = (fst x, fst x)"

definition screen_lines :: "string \<times> Cell \<Rightarrow> (string \<times> string) list" where
  "screen_lines x = (tab1, fst x @ '':'') # map (\<lambda>x. (tab2, option_line x)) (cell_options (snd x))"

definition screen_ok :: "string \<times> Cell \<Rightarrow> bool" where
  "screen_ok x \<longleftrightarrow> isValidScreenName (fst x) \<and> opts.ascending (cell_options (snd x)) \<and>
     list_all (\<lambda>(opt, v). screen_value_ok opt v) (cell_options (snd x))"

lemma screens_header:
  assumes v: "isValidScreenName s" and m: "cfg_map (cf_config c) = map bare xs" "cfg_names (cf_config c) = map self_named xs"
    and asc: "\<And>x. x \<in> set xs \<Longrightarrow> CaselessCmp_less (fst x) s"
  shows "screens_item lno (s @ '':'') prev c =
    Inr (s, upd_config (\<lambda>cfg. cfg\<lparr>cfg_map := map bare xs @ [(s, Cell_new)], cfg_names := map self_named xs @ [(s, s)]\<rparr>) c)"
proof -
  have ins: "smap_insert CaselessCmp_less s Cell_new (map bare xs) = map bare xs @ [(s, Cell_new)]"
    "smap_insert CaselessCmp_less s s (map self_named xs) = map self_named xs @ [(s, s)]"
    using asc by (auto intro!: names.insert_last simp: bare_def self_named_def)
  have "smap_find CaselessCmp_less s (map self_named xs) = None"
    using asc by (induction xs) (auto simp: self_named_def)
  then show ?thesis
    using v m ins header_clean(3) [OF v]
    by (simp add: screen_line_def screens_start_def addScreen_def upd_config_def)
qed

lemma screens_section:
  assumes "names.ascending (xs @ ys)" "list_all screen_ok ys"
    "cfg_map (cf_config c) = map bare xs" "cfg_names (cf_config c) = map self_named xs"
  shows "\<exists>s'. run_items screens_item n (concat (map (\<lambda>x. map snd (screen_lines x)) ys)) (s, c) =
    Inr (s', upd_config (\<lambda>cfg. cfg\<lparr>cfg_map := map bare (xs @ ys), cfg_names := map self_named (xs @ ys)\<rparr>) c)"
  using assms
proof (induction ys arbitrary: xs s c n)
  case Nil
  then show ?case by (auto simp: upd_config_def)
next
  case (Cons y ys)
  obtain name cell where y: "y = (name, cell)" by (cases y)
  have ok: "isValidScreenName name" "opts.ascending (cell_options cell)"
    "\<And>x. x \<in> set (cell_options cell) \<Longrightarrow> screen_value_ok (fst x) (snd x)"
    using Cons.prems(2) y by (auto simp: screen_ok_def list_all_iff)
  have lt: "CaselessCmp_less (fst x) name" if "x \<in> set xs" for x
    using names.ascending_snocD [of xs name cell ys] Cons.prems(1) y that by simp
  let ?c1 = "upd_config (\<lambda>cfg. cfg\<lparr>cfg_map := map bare xs @ [(name, Cell_new)], cfg_names := map self_named xs @ [(name, name)]\<rparr>) c"
  let ?c2 = "upd_config (\<lambda>cfg. cfg\<lparr>cfg_map := map bare (xs @ [y]), cfg_names := map self_named (xs @ [y])\<rparr>) c"
  have h: "screens_item (n + 1) (name @ '':'') s c = Inr (name, ?c1)"
    using screens_header [OF ok(1) Cons.prems(3,4) lt] .
  have "names.ascending (map bare xs @ [(name, Cell_new)])"
    using names.ascending_keys [of "map bare xs @ [(name, Cell_new)]" "xs @ [y]"] names.ascending_append [of "xs @ [y]" ys] Cons.prems(1)
    by (simp add: y bare_def comp_def)
  then have o: "run_items screens_item (n + 1) (map option_line (cell_options cell)) (name, ?c1) = Inr (name, ?c2)"
    using screens_options [of "cell_options cell" ?c1 "map bare xs" name Cell_new "n + 1"] ok valid_name_neq [OF ok(1)] y
    by (simp add: upd_config_def bare_def self_named_def Cell_new_def)
  show ?case
    using Cons.IH [of "xs @ [y]" ?c2 "n + 1 + length (cell_options cell)" name] Cons.prems h o
    by (simp add: screen_lines_def y run_items_append comp_def) (simp add: upd_config_def)
qed

section \<open>The links section\<close>

text \<open>Intervals in whole percents.\<close>

definition interval_ok :: "rat \<Rightarrow> rat \<Rightarrow> bool" where
  "interval_ok a b \<longleftrightarrow> 0 \<le> to_percent a \<and> to_percent a < to_percent b \<and> to_percent b \<le> 100 \<and>
     a = of_percent (of_int (to_percent a)) \<and> b = of_percent (of_int (to_percent b))"

definition format_args :: "rat \<Rightarrow> rat \<Rightarrow> string list" where
  "format_args a b = (if a = 0 \<and> b = 1 then [] else [print_int (to_percent a), print_int (to_percent b)])"

lemma formatInterval_args: "formatInterval a b = interval_text (format_args a b)" "interval_args (format_args a b)"
  using print_int_word by (auto simp: formatInterval_def interval_text_def format_args_def interval_args_def)

lemma not_prefix_of_digits: "list_all isdigit s \<Longrightarrow> s \<noteq> [] \<Longrightarrow> \<not> caseless_prefix ''infinity'' s \<and> \<not> caseless_prefix ''inf'' s \<and>
  \<not> caseless_prefix ''nan'' s \<and> \<not> caseless_prefix ''0x'' s"
  by (cases s; cases "tl s") (auto simp: caseless_prefix_def isdigit_def tolower_char_def)

lemma strtod_number:
  assumes "0 \<le> k" "k \<le> 100"
  shows "strtod (print_int k) = (DFin (of_int k), length (print_int k))"
proof -
  let ?s = "decimal (nat k)"
  note dig = decimal_chars [of _ "nat k"]
  have s: "print_int k = ?s" using assms(1) by (simp add: print_int_def)
  have sp: "takeWhile isspace ?s = []" "takeWhile (\<lambda>c. c = CHR ''+'' \<or> c = CHR ''-'') (take 1 ?s) = []" using dig by (cases ?s; auto)+
  have all: "takeWhile isdigit ?s = ?s" "list_all isdigit ?s" using dig by (auto simp: list_all_iff takeWhile_eq_all_conv)
  have m: "mantissa isdigit ?s = Some (?s, [], length ?s)" by (simp add: mantissa_def all(1) Let_def)
  have d: "dbl (of_nat (decimal_val ?s)) = DFin (of_int k)"
    using round64_int [OF assms] assms by (simp add: dbl_def decimal_val_decimal)
  have "strtod_body ?s (\<lambda>v. v) False = Some (DFin (of_int k), length ?s)"
    using not_prefix_of_digits [OF all(2) decimal_not_Nil] by (simp add: strtod_body_def m exponent_part_def d)
  then show ?thesis using sp by (simp add: strtod_def s Let_def)
qed

lemma parseInterval_text:
  assumes "interval_ok a b"
  shows "parseInterval lno (format_args a b) = Inr (a, b)"
proof (cases "a = 0 \<and> b = 1")
  case False
  let ?i = "to_percent a" and ?j = "to_percent b"
  have k: "0 \<le> ?i" "?i \<le> 100" "0 \<le> ?j" "?j \<le> 100" "?i < ?j" using assms by (auto simp: interval_ok_def)
  then have "\<not> (of_int ?i :: rat) < 0" "\<not> 100 < (of_int ?i :: rat)" "\<not> (of_int ?j :: rat) < 0" "\<not> 100 < (of_int ?j :: rat)"
    "(of_int ?i :: rat) < of_int ?j" by simp_all
  moreover have "of_percent (of_int ?i) = a" "of_percent (of_int ?j) = b" using assms by (simp_all add: interval_ok_def)
  ultimately show ?thesis using False
    by (simp add: format_args_def parseInterval_def strtod_number [OF k(1,2)] strtod_number [OF k(3,4)] dge_def Let_def)
qed (simp add: format_args_def parseInterval_def)

lemma interval_edge: "interval_ok a b \<Longrightarrow> side \<noteq> kNoDirection \<Longrightarrow>
    CellEdge_make name side a b = Some \<lparr>ce_name = name, ce_side = side, ce_first = a, ce_second = b\<rparr>"
  using of_percent_range(1) [of "to_percent a"] of_percent_range(2) [of "to_percent b"] of_percent_less [of "to_percent a" "to_percent b"]
  by (auto simp: interval_ok_def CellEdge_make_def)

definition link_ok :: "(string \<times> Cell) list \<Rightarrow> CellEdge \<times> CellEdge \<Rightarrow> bool" where
  "link_ok screens l \<longleftrightarrow>
     ce_name (fst l) = [] \<and> ce_side (fst l) \<noteq> kNoDirection \<and> ce_side (snd l) = ce_side (fst l) \<and>
     interval_ok (ce_first (fst l)) (ce_second (fst l)) \<and> interval_ok (ce_first (snd l)) (ce_second (snd l)) \<and>
     isValidScreenName (ce_name (snd l)) \<and> list_ex (\<lambda>x. CaselessCmp_equal (fst x) (ce_name (snd l))) screens"

definition link_line :: "CellEdge \<times> CellEdge \<Rightarrow> string" where
  "link_line l = direction_name (ce_side (fst l)) @ interval_text (format_args (ce_first (fst l)) (ce_second (fst l))) @ '' = '' @
     ce_name (snd l) @ interval_text (format_args (ce_first (snd l)) (ce_second (snd l)))"

lemma link_text_line: "link_ok zs l \<Longrightarrow> link_text l = Some (link_line l)"
  by (cases l) (simp add: link_text_def link_ok_def dirName_def link_line_def formatInterval_args)

lemma direction_word: "dir \<noteq> kNoDirection \<Longrightarrow> word_text (direction_name dir) \<and> direction_of (direction_name dir) = Some dir"
  by (cases dir) (simp_all add: word_text_def word_char_def isalnum_def direction_of_def)

lemma find_self_named:
  assumes "names.ascending zs" "x \<in> set zs" "CaselessCmp_equal (fst x) n"
  shows "smap_find CaselessCmp_less n (map self_named zs) = Some (fst x, fst x)"
proof -
  have "names.ascending (map self_named zs)" using assms(1) by (simp add: names.ascending_def sorted_wrt_map self_named_def)
  moreover have "(fst x, fst x) \<in> set (map self_named zs)" using assms(2) by (force simp: self_named_def)
  ultimately show ?thesis using assms(3) by (simp add: names.find_Some_iff names_eqv)
qed

abbreviation links_item :: section_item where
  "links_item \<equiv> screen_line ''screen'' known_screen links_argument"

lemma Cell_add_last:
  assumes wf: "cell_wf (cell\<lparr>cell_neighbors := ns @ (src, dst) # rest\<rparr>)" and n: "cell_neighbors cell = ns"
  shows "Cell_add cell src dst = (True, cell\<lparr>cell_neighbors := ns @ [(src, dst)]\<rparr>)"
proof -
  have asc: "edges.ascending (ns @ (src, dst) # rest)" using cell_wfD(1) [OF wf] by simp
  have lt: "CellEdge_less (fst x) src" if "x \<in> set ns" for x using edges.ascending_snocD [OF asc that] .
  have "cell_wf (cell\<lparr>cell_neighbors := ns\<rparr>)"
    using cell_wf_subset [OF wf, of ns] edges.ascending_append [OF asc] by auto
  then have "cell_wf cell" using n by (metis Cell.surjective Cell.update_convs(1))
  moreover have "edge_valid src" using wf by (simp add: cell_wf_def)
  moreover have "\<not> CellEdge_overlaps (fst x) src" if x: "x \<in> set ns" for x
  proof -
    have "edges.eqv (fst x) src \<or> \<not> CellEdge_overlaps (fst x) src" using wf x by (force simp: cell_wf_def)
    then show ?thesis using lt [OF x] by (simp add: edges.eqv_def)
  qed
  ultimately have "\<not> Cell_overlaps cell src" using Cell_overlaps_iff n by blast
  then show ?thesis using n edges.insert_last [OF lt] edges.erase_last [OF lt] by (simp add: Cell_add_def)
qed

lemma links_line:
  assumes l: "link_ok zs l" and m: "cfg_map (cf_config c) = xs @ (s, cell) # ys" "names.ascending (cfg_map (cf_config c))"
    and z: "cfg_names (cf_config c) = map self_named zs" "names.ascending zs" "x \<in> set zs" "fst x = s" "isValidScreenName s"
    and wf: "cell_wf (cell\<lparr>cell_neighbors := cell_neighbors cell @ l # rest\<rparr>)"
  shows "links_item lno (link_line l) s c =
    Inr (s, upd_config (\<lambda>cfg. cfg\<lparr>cfg_map := xs @ (s, cell\<lparr>cell_neighbors := cell_neighbors cell @ [l]\<rparr>) # ys\<rparr>) c)"
proof -
  obtain src dst where sd: "l = (src, dst)" by (cases l)
  note ok = l [unfolded link_ok_def sd fst_conv snd_conv]
  let ?sa = "format_args (ce_first src) (ce_second src)" and ?da = "format_args (ce_first dst) (ce_second dst)"
  let ?pre = "direction_name (ce_side src) @ interval_text ?sa @ '' =''"
  note dir = direction_word [of "ce_side src"] and dw = valid_name_word [of "ce_name dst"]
  have line: "link_line l = direction_name (ce_side src) @ interval_text ?sa @ '' = '' @ ce_name dst @ interval_text ?da"
    "link_line l = ?pre @ '' '' @ ce_name dst @ interval_text ?da" by (simp_all add: link_line_def sd)
  have p1: "parseNameWithArgs lno ''link'' (link_line l) ''='' 0 =
      Inr (length (direction_name (ce_side src)) + length (interval_text ?sa) + 1, direction_name (ce_side src), ?sa)"
    unfolding line(1) using ok dir formatInterval_args(2) by (intro parseNameWithArgs_name) auto
  have p2: "parseNameWithArgs lno ''screen'' (link_line l) [] (length (direction_name (ce_side src)) + length (interval_text ?sa) + 1 + 1) =
      Inr (length (link_line l), ce_name dst, ?da)"
    using parseNameWithArgs_value [of "ce_name dst" ?da "[]" lno "''screen''" ?pre] ok dw formatInterval_args(2)
    by (simp add: line(2) del: append_assoc)
  have colon: "last (link_line l) \<noteq> CHR '':''"
    using word_value [OF dw] ok by (auto simp: line(2) interval_text_def value_text_def clean_def split: list.splits)
  have canon: "getCanonicalName (cf_config c) s = s"
    using find_self_named [OF z(2,3), of s] z(1,4) by (simp add: getCanonicalName_def CaselessCmp_equal_iff)
  have known: "isScreen (cf_config c) (ce_name dst)"
    using ok find_self_named [OF z(2)] z(1) by (fastforce simp: isScreen_def list_ex_iff)
  have con: "connect (cf_config c) s (ce_side src) (ce_first src) (ce_second src) (ce_name dst) (ce_first dst) (ce_second dst) =
      Some (True, (cf_config c)\<lparr>cfg_map := xs @ (s, cell\<lparr>cell_neighbors := cell_neighbors cell @ [l]\<rparr>) # ys\<rparr>)"
  proof -
    have "CellEdge_make [] (ce_side src) (ce_first src) (ce_second src) = Some src"
      "CellEdge_make (ce_name dst) (ce_side src) (ce_first dst) (ce_second dst) = Some dst"
      using ok interval_edge by (auto intro: CellEdge.equality)
    moreover have "smap_find CaselessCmp_less s (cfg_map (cf_config c)) = Some (s, cell)"
      "smap_update CaselessCmp_less s f (cfg_map (cf_config c)) = xs @ (s, f cell) # ys" for f
      using names.find_mid names.update_mid m by metis+
    moreover have "Cell_add cell src dst = (True, cell\<lparr>cell_neighbors := cell_neighbors cell @ [l]\<rparr>)"
      using Cell_add_last [OF _ refl] wf sd by blast
    ultimately show ?thesis using ok by (simp add: connect_def canon)
  qed
  have "links_argument lno (link_line l) s c =
      Inr (upd_config (\<lambda>cfg. cfg\<lparr>cfg_map := xs @ (s, cell\<lparr>cell_neighbors := cell_neighbors cell @ [l]\<rparr>) # ys\<rparr>) c)"
    using ok dir p1 p2 known con parseInterval_text by (simp add: links_argument_def upd_config_def)
  then show ?thesis using colon z(5) valid_name_neq by (simp add: screen_line_def)
qed

lemma links_cell:
  assumes "\<And>l. l \<in> set ls \<Longrightarrow> link_ok zs l" "cfg_map (cf_config c) = xs @ (s, cell) # ys" "names.ascending (cfg_map (cf_config c))"
    and "cfg_names (cf_config c) = map self_named zs" "names.ascending zs" "x \<in> set zs" "fst x = s" "isValidScreenName s"
    and "cell_wf (cell\<lparr>cell_neighbors := cell_neighbors cell @ ls\<rparr>)"
  shows "run_items links_item n (map link_line ls) (s, c) =
    Inr (s, upd_config (\<lambda>cfg. cfg\<lparr>cfg_map := xs @ (s, cell\<lparr>cell_neighbors := cell_neighbors cell @ ls\<rparr>) # ys\<rparr>) c)"
  using assms
proof (induction ls arbitrary: c cell n)
  case (Cons l ls)
  let ?cell = "cell\<lparr>cell_neighbors := cell_neighbors cell @ [l]\<rparr>"
  let ?c = "upd_config (\<lambda>cfg. cfg\<lparr>cfg_map := xs @ (s, ?cell) # ys\<rparr>) c"
  have "links_item (n + 1) (link_line l) s c = Inr (s, ?c)"
    using Cons.prems by (intro links_line) auto
  moreover have "names.ascending (cfg_map (cf_config ?c))"
    using Cons.prems(2,3) names.ascending_keys [of "xs @ (s, ?cell) # ys" "xs @ (s, cell) # ys"] by (simp add: upd_config_def)
  ultimately show ?case using Cons.IH [of ?c ?cell "n + 1"] Cons.prems by (simp add: upd_config_def)
qed (simp add: upd_config_def)

definition links_lines :: "string \<times> Cell \<Rightarrow> (string \<times> string) list" where
  "links_lines x = (tab1, fst x @ '':'') # map (\<lambda>l. (tab2, link_line l)) (cell_neighbors (snd x))"

lemma known_screen_self:
  assumes "cfg_names (cf_config c) = map self_named zs" "names.ascending zs" "x \<in> set zs" "isValidScreenName (fst x)"
  shows "known_screen lno (fst x) c = Inr c"
  using find_self_named [OF assms(2,3), of "fst x"] assms(1) valid_name_neq [OF assms(4)]
  by (simp add: known_screen_def isScreen_def isCanonicalName_def getCanonicalName_def CaselessCmp_equal_iff)

lemma links_section:
  assumes "names.ascending (xs @ ys)" "list_all screen_ok ys" "list_all (\<lambda>y. list_all (link_ok zs) (cell_neighbors (snd y)) \<and> cell_wf (snd y)) ys"
    "cfg_map (cf_config c) = xs @ map bare ys"
    "cfg_names (cf_config c) = map self_named zs" "names.ascending zs" "set ys \<subseteq> set zs"
  shows "\<exists>s'. run_items links_item n (concat (map (\<lambda>x. map snd (links_lines x)) ys)) (s, c) =
    Inr (s', upd_config (\<lambda>cfg. cfg\<lparr>cfg_map := xs @ ys\<rparr>) c)"
  using assms
proof (induction ys arbitrary: xs s c n)
  case (Cons y ys)
  obtain name cell where y: "y = (name, cell)" by (cases y)
  have v: "isValidScreenName name" using Cons.prems(2) y by (simp add: screen_ok_def)
  let ?bare = "Cell_new\<lparr>cell_options := cell_options cell\<rparr>"
  let ?c = "upd_config (\<lambda>cfg. cfg\<lparr>cfg_map := xs @ y # map bare ys\<rparr>) c"
  have h: "links_item (n + 1) (name @ '':'') s c = Inr (name, c)"
    using known_screen_self [OF Cons.prems(5,6), of y] Cons.prems(7) v y by (simp add: screen_line_def)
  have "names.ascending (cfg_map (cf_config c))"
    using Cons.prems(1,4) names.ascending_keys [of "xs @ map bare (y # ys)" "xs @ y # ys"] by (simp add: comp_def)
  note asc = this
  have m: "cfg_map (cf_config c) = xs @ (name, ?bare) # map bare ys" using Cons.prems(4) y by (simp add: bare_def)
  have whole: "?bare\<lparr>cell_neighbors := cell_neighbors ?bare @ cell_neighbors cell\<rparr> = cell" by (simp add: Cell_new_def)
  have o: "run_items links_item (n + 1) (map link_line (cell_neighbors cell)) (name, c) = Inr (name, ?c)"
    using links_cell [OF _ m asc Cons.prems(5,6), of "cell_neighbors cell" y "n + 1", unfolded whole]
      Cons.prems(3,7) y v by (simp add: list_all_iff)
  show ?case
    using Cons.IH [of "xs @ [y]" ?c "n + 1 + length (cell_neighbors cell)" name] Cons.prems h o
    by (simp add: links_lines_def y run_items_append comp_def) (simp add: upd_config_def)
qed (simp add: upd_config_def)

section \<open>The aliases section\<close>

abbreviation aliases_item :: section_item where
  "aliases_item \<equiv> screen_line ''screen'' known_screen aliases_argument"

fun alias_lines :: "string \<Rightarrow> (string \<times> string) list \<Rightarrow> (string \<times> string) list" where
  "alias_lines screen [] = []"
| "alias_lines screen ((t, a) # m) = (if t \<noteq> screen then [(tab1, t @ '':'')] else []) @ (tab2, a) # alias_lines t m"

lemma write_aliases_lines: "write_aliases screen ps = section_text (alias_lines screen ps)"
  by (induction screen ps rule: alias_lines.induct) (simp_all add: section_text_def)

text \<open>The pairs of screen and alias that are to be added to the names \<open>N\<close>, towards the names \<open>M\<close>.\<close>

definition alias_ok :: "(string, string) smap \<Rightarrow> (string, Cell) smap \<Rightarrow> string \<times> string \<Rightarrow> bool" where
  "alias_ok N m = (\<lambda>(t, a). isValidScreenName t \<and> isValidScreenName a \<and> a \<noteq> ''end'' \<and> (t, t) \<in> set N \<and>
     smap_find CaselessCmp_less t m \<noteq> None)"

lemma alias_added:
  assumes asc: "names.ascending M" "names.ascending N" and sub: "set N \<subseteq> set M" "(a, t) \<in> set M" "(a, t) \<notin> set N"
  shows "smap_find CaselessCmp_less a N = None" "names.ascending (smap_insert CaselessCmp_less a t N)"
    "set (smap_insert CaselessCmp_less a t N) = insert (a, t) (set N)"
proof -
  have new: "\<not> names.eqv (fst x) a" if "x \<in> set N" for x
  proof
    assume e: "names.eqv (fst x) a"
    have "x \<in> set M" using that sub(1) by auto
    then have "smap_find CaselessCmp_less a M = Some x" "smap_find CaselessCmp_less a M = Some (a, t)"
      using names.find_Some_iff [OF asc(1), of a "fst x" "snd x"] names.find_Some_iff [OF asc(1), of a a t] e sub(2) by simp_all
    then show False using that sub(3) by simp
  qed
  then show "smap_find CaselessCmp_less a N = None" using names.find_None_iff [OF asc(2)] by blast
  show "names.ascending (smap_insert CaselessCmp_less a t N)" by (rule names.ascending_insert [OF asc(2)])
  show "set (smap_insert CaselessCmp_less a t N) = insert (a, t) (set N)" using new names.set_insert [OF asc(2), of a t] by auto
qed

lemma aliases_step:
  assumes "names.ascending (cfg_names (cf_config c))" "alias_ok (cfg_names (cf_config c)) (cfg_map (cf_config c)) (t, a)"
    "smap_find CaselessCmp_less a (cfg_names (cf_config c)) = None"
  shows "run_items aliases_item n (map snd ((if t \<noteq> screen then [(tab1, t @ '':'')] else []) @ [(tab2, a)])) (screen, c) =
    Inr (t, upd_config (\<lambda>cfg. cfg\<lparr>cfg_names := smap_insert CaselessCmp_less a t (cfg_names cfg)\<rparr>) c)"
proof -
  have ok: "isValidScreenName t" "isValidScreenName a" "(t, t) \<in> set (cfg_names (cf_config c))"
    "smap_find CaselessCmp_less t (cfg_map (cf_config c)) \<noteq> None" using assms(2) by (auto simp: alias_ok_def)
  have "smap_find CaselessCmp_less t (cfg_names (cf_config c)) = Some (t, t)"
    using names.find_Some_iff [OF assms(1), of t t t] ok(3) by simp
  then have h: "known_screen lno t c = Inr c" for lno
    using valid_name_neq [OF ok(1)] by (simp add: known_screen_def isScreen_def isCanonicalName_def getCanonicalName_def CaselessCmp_equal_iff)
  have "aliases_item lno a t c = Inr (t, upd_config (\<lambda>cfg. cfg\<lparr>cfg_names := smap_insert CaselessCmp_less a t (cfg_names cfg)\<rparr>) c)" for lno
    using word_value [OF valid_name_word [OF ok(2)]] valid_name_neq [OF ok(1)] ok(2,4) assms(3)
    by (auto simp: screen_line_def aliases_argument_def addAlias_def upd_config_def value_text_def)
  then show ?thesis using h header_clean(3) [OF ok(1)]
    by (cases "t = screen") (simp_all add: screen_line_def [of _ _ _ _ "t @ '':''"])
qed

lemma aliases_section:
  assumes "names.ascending M" "names.ascending (cfg_names (cf_config c))"
    "set (cfg_names (cf_config c)) \<union> prod.swap ` set ps \<subseteq> set M" "set (cfg_names (cf_config c)) \<inter> prod.swap ` set ps = {}" "distinct ps"
    "list_all (alias_ok (cfg_names (cf_config c)) (cfg_map (cf_config c))) ps"
  shows "\<exists>s' N. run_items aliases_item n (map snd (alias_lines s ps)) (s, c) = Inr (s', upd_config (\<lambda>cfg. cfg\<lparr>cfg_names := N\<rparr>) c) \<and>
    names.ascending N \<and> set N = set (cfg_names (cf_config c)) \<union> prod.swap ` set ps"
  using assms
proof (induction ps arbitrary: s c n)
  case Nil
  show ?case by (intro exI [of _ s] exI [of _ "cfg_names (cf_config c)"]) (use Nil in \<open>simp add: upd_config_def\<close>)
next
  case (Cons p ps)
  obtain t a where p: "p = (t, a)" by (cases p)
  let ?N = "smap_insert CaselessCmp_less a t (cfg_names (cf_config c))"
  let ?c = "upd_config (\<lambda>cfg. cfg\<lparr>cfg_names := smap_insert CaselessCmp_less a t (cfg_names cfg)\<rparr>) c"
  have new: "(a, t) \<in> set M" "(a, t) \<notin> set (cfg_names (cf_config c))" "set (cfg_names (cf_config c)) \<subseteq> set M" using Cons.prems(3,4) p by auto
  note added = alias_added [OF Cons.prems(1,2) new(3,1,2)]
  have step: "run_items aliases_item n (map snd ((if t \<noteq> s then [(tab1, t @ '':'')] else []) @ [(tab2, a)])) (s, c) = Inr (t, ?c)"
    using Cons.prems(2,6) p added(1) by (intro aliases_step) auto
  have c: "cfg_names (cf_config ?c) = ?N" "cfg_map (cf_config ?c) = cfg_map (cf_config c)" by (simp_all add: upd_config_def)
  have "list_all (alias_ok ?N (cfg_map (cf_config c))) ps"
    using Cons.prems(6) added(3) by (auto simp: list_all_iff alias_ok_def)
  moreover have "(t, a) \<notin> set ps" using Cons.prems(5) p by simp
  then have u: "set ?N \<union> prod.swap ` set ps \<subseteq> set M" "set ?N \<inter> prod.swap ` set ps = {}"
    using Cons.prems(3,4) p unfolding added(3) by auto
  ultimately obtain s' N where run: "run_items aliases_item (n + (if t \<noteq> s then 2 else 1)) (map snd (alias_lines t ps)) (t, ?c) =
      Inr (s', upd_config (\<lambda>cfg. cfg\<lparr>cfg_names := N\<rparr>) ?c)" "names.ascending N" "set N = set ?N \<union> prod.swap ` set ps"
    using Cons.IH [of ?c "n + (if t \<noteq> s then 2 else 1)" t, unfolded c] Cons.prems(1,5) added(2) u by auto
  moreover have "run_items aliases_item n (map snd (alias_lines s (p # ps))) (s, c) =
      run_items aliases_item (n + (if t \<noteq> s then 2 else 1)) (map snd (alias_lines t ps)) (t, ?c)"
  proof -
    let ?h = "(if t \<noteq> s then [(tab1, t @ '':'')] else []) @ [(tab2, a)]"
    have "alias_lines s (p # ps) = ?h @ alias_lines t ps" by (simp add: p)
    then have "run_items aliases_item n (map snd (alias_lines s (p # ps))) (s, c) =
        run_items aliases_item (n + length (map snd ?h)) (map snd (alias_lines t ps)) (t, ?c)"
      by (simp only: map_append [of snd ?h] run_items_append step bind_sum_simps)
    moreover have "length (map snd ?h) = (if t \<noteq> s then 2 else 1)" by simp
    ultimately show ?thesis by (simp only:)
  qed
  ultimately show ?case using added(3) p by (intro exI [of _ s'] exI [of _ N]) (auto simp: upd_config_def)
qed

lemma multimap_insert_set: "set (multimap_insert lt k v m) = insert (k, v) (set m)"
proof (induction m)
  case (Cons x m)
  then show ?case by (cases x) auto
qed simp

lemma multimap_insert_distinct: "distinct (multimap_insert lt k v m) \<longleftrightarrow> (k, v) \<notin> set m \<and> distinct m"
proof (induction m)
  case (Cons x m)
  then show ?case by (cases x) (auto simp: multimap_insert_set)
qed simp

lemma aliases_fold:
  fixes ns :: "(string, string) smap"
  defines "f \<equiv> \<lambda>m (a, t). if a \<noteq> t then multimap_insert CaselessCmp_less t a m else m"
  shows "set (foldl f m ns) = set m \<union> prod.swap ` {x \<in> set ns. fst x \<noteq> snd x}"
    "distinct m \<Longrightarrow> distinct ns \<Longrightarrow> set m \<inter> prod.swap ` set ns = {} \<Longrightarrow> distinct (foldl f m ns)"
proof -
  have one: "set (f m x) = (if fst x \<noteq> snd x then insert (prod.swap x) (set m) else set m)"
    "distinct m \<Longrightarrow> prod.swap x \<notin> set m \<Longrightarrow> distinct (f m x)" for m x
    by (cases x; simp add: f_def multimap_insert_set multimap_insert_distinct)+
  show "set (foldl f m ns) = set m \<union> prod.swap ` {x \<in> set ns. fst x \<noteq> snd x}"
  proof (induction ns arbitrary: m)
    case (Cons x ns)
    have "{y \<in> set (x # ns). fst y \<noteq> snd y} = (if fst x \<noteq> snd x then {x} else {}) \<union> {y \<in> set ns. fst y \<noteq> snd y}" by auto
    then show ?case using Cons one(1) [of m x] by (simp add: image_Un)
  qed simp
  show "distinct m \<Longrightarrow> distinct ns \<Longrightarrow> set m \<inter> prod.swap ` set ns = {} \<Longrightarrow> distinct (foldl f m ns)"
  proof (induction ns arbitrary: m)
    case (Cons x ns)
    have "prod.swap x \<notin> prod.swap ` set ns" using Cons.prems(2) by (cases x) (auto simp: image_iff)
    then have "set (f m x) \<inter> prod.swap ` set ns = {}" using Cons.prems(3) one(1) [of m x] by auto
    then show ?case using Cons.IH [of "f m x"] Cons.prems one(2) [of m x] by auto
  qed simp
qed

lemma aliases_by_screen_set:
  assumes "names.ascending (cfg_names cfg)"
  shows "set (aliases_by_screen cfg) = prod.swap ` {x \<in> set (cfg_names cfg). fst x \<noteq> snd x}" "distinct (aliases_by_screen cfg)"
proof -
  show "set (aliases_by_screen cfg) = prod.swap ` {x \<in> set (cfg_names cfg). fst x \<noteq> snd x}" "distinct (aliases_by_screen cfg)"
    using names.ascending_distinct [OF assms] aliases_fold(1) [of "[]" "cfg_names cfg"] aliases_fold(2) [of "[]" "cfg_names cfg"] by (simp_all add: aliases_by_screen_def)
qed

section \<open>The options section\<close>

lemma options_line_option:
  assumes "global_value_ok opt v"
  shows "options_line net register lno (option_line (opt, v)) s c =
    Inr (s, upd_config (\<lambda>cfg. cfg\<lparr>cfg_globalOptions := smap_insert (<) opt v (cfg_globalOptions cfg)\<rparr>) c)"
proof -
  obtain name where n: "getOptionName opt = Some name" "word_text name" "word_text (getOptionValue opt v)"
    "global_option lno name (getOptionValue opt v) = Some (opt, Inr v)" using global_option_line [OF assms] by blast
  let ?l = "name @ '' = '' @ getOptionValue opt v"
  have l: "option_line (opt, v) = ?l" by (simp add: option_line_def n(1))
  have e: "interval_text [] = []" "interval_args []" by (simp_all add: interval_text_def interval_args_def)
  have "parseNameWithArgs lno ''name'' ?l ''='' 0 = Inr (length name + 1, name, [])"
    using parseNameWithArgs_name [OF n(2) e(2), of lno "''name''"] e(1) by simp
  moreover have "parseNameWithArgs lno ''value'' ?l [CHR '','', CHR '';'', CHR 0x0A] (length name + 2) =
      Inr (length ?l, getOptionValue opt v, [])"
    using parseNameWithArgs_value [OF n(3) e(2), of "[CHR '','', CHR '';'', CHR 0x0A]" lno "''value''" "name @ '' =''"] e(1) by simp
  ultimately show ?thesis
    by (simp add: options_line_def l handled_option_def n(4) addOption_def update_options_def upd_config_def)
qed

lemma options_section:
  assumes "opts.ascending (cfg_globalOptions (cf_config c) @ os)" "list_all (\<lambda>(opt, v). global_value_ok opt v) os"
  shows "run_items (options_line net register) n (map option_line os) (s, c) =
    Inr (s, upd_config (\<lambda>cfg. cfg\<lparr>cfg_globalOptions := cfg_globalOptions cfg @ os\<rparr>) c)"
  using assms
proof (induction os arbitrary: c n)
  case (Cons x os)
  obtain opt v where x: "x = (opt, v)" by (cases x)
  let ?c = "upd_config (\<lambda>cfg. cfg\<lparr>cfg_globalOptions := cfg_globalOptions cfg @ [x]\<rparr>) c"
  have "smap_insert (<) opt v (cfg_globalOptions (cf_config c)) = cfg_globalOptions (cf_config c) @ [x]"
    unfolding x using opts.ascending_snocD [of "cfg_globalOptions (cf_config c)" opt v os] Cons.prems(1) x by (intro opts.insert_last) simp
  then have "options_line net register (n + 1) (option_line x) s c = Inr (s, ?c)"
    using options_line_option [of opt v net register "n + 1" s c] Cons.prems(2) by (simp add: x upd_config_def)
  then show ?case using Cons.IH [of ?c "n + 1"] Cons.prems by (simp add: upd_config_def)
qed (simp add: upd_config_def)

section \<open>The file\<close>

lemma section_header:
  assumes "nm \<in> {''screens'', ''links'', ''aliases'', ''options''}"
  shows "readSection net register c (ctx (write_line [] (''section: '' @ nm) @ rest) n) =
    (if nm = ''options'' then readSectionOptions net register else if nm = ''screens'' then readSectionScreens
     else if nm = ''links'' then readSectionLinks else readSectionAliases) c (ctx rest (n + 1))"
proof -
  have w: "word_text nm" using assms by (auto simp: word_text_def word_char_def isalnum_def)
  have "clean (''section: '' @ nm)" using assms by (auto simp: clean_def line_char_def isgraph_def)
  then have l: "readLine (ctx (write_line [] (''section: '' @ nm) @ rest) n) = Inr (Some (''section: '' @ nm), ctx rest (n + 1))"
    by (intro readLine_clean) simp
  have i: "find_first_not_of (''section: '' @ nm) blanks 8 = Some 9"
    using w word_char_plain(3) [of "hd nm"] find_first_not_of_blanks [of "'' ''" blanks "hd nm" "''section:''" "tl nm"]
    by (cases nm) (auto simp: word_text_def blanks_def eval_nat_numeral)
  have j: "find_first_of nm blanks 0 = None"
    using find_first_of_word(2) [of nm blanks "CHR '' ''" "[]"] w by (simp add: word_text_def blanks_def)
  have "readSection net register c (ctx (write_line [] (''section: '' @ nm) @ rest) n) =
      (if nm = ''options'' then readSectionOptions net register c (ctx rest (n + 1))
       else if nm = ''screens'' then readSectionScreens c (ctx rest (n + 1))
       else if nm = ''links'' then readSectionLinks c (ctx rest (n + 1))
       else if nm = ''aliases'' then readSectionAliases c (ctx rest (n + 1))
       else if nm = ''network'' then readSectionNetwork c (ctx rest (n + 1))
       else if nm = ''monitors'' then readSectionMonitors c (ctx rest (n + 1))
       else Inl (XConfigRead (n + 1) ''unknown section name \"%{1}\"'' nm))"
    unfolding readSection_def l bind_sum_simps prod.case option.case i Let_def by (simp add: j)
  then show ?thesis using assms by auto
qed

definition text_section :: "string \<Rightarrow> (string \<times> string) list \<Rightarrow> string" where
  "text_section nm ls = write_line [] (''section: '' @ nm) @ section_text ls @ write_line [] ''end''"

lemma section_read:
  assumes "clean_lines ls"
    and sec: "(nm, item) \<in> {(''screens'', screens_item), (''links'', links_item), (''aliases'', aliases_item),
      (''options'', options_line net register)}"
    and run: "\<And>n. \<exists>s'. run_items item n (map snd ls) ([], c) = Inr (s', c')"
  shows "read_sections net register c (ctx (text_section nm ls @ rest) n) = read_sections net register c' (ctx rest (n + length ls + 2))"
proof -
  obtain s' where "run_items item (n + 1) (map snd ls) ([], c) = Inr (s', c')" using run by blast
  then have "read_lines item nm [] c (ctx (section_text ls @ write_line [] ''end'' @ rest) (n + 1)) = Inr (c', ctx rest (n + length ls + 2))"
    using read_lines_text [OF assms(1), of item nm "[]" c rest "n + 1"] by simp
  then have "readSection net register c (ctx (write_line [] (''section: '' @ nm) @ section_text ls @ write_line [] ''end'' @ rest) n) =
      Inr (c', ctx rest (n + length ls + 2))"
    using sec section_header [of nm net register c "section_text ls @ write_line [] ''end'' @ rest" n]
    by (auto simp: readSectionOptions_def readSectionScreens_def readSectionLinks_def readSectionAliases_def)
  then show ?thesis unfolding text_section_def by (subst read_sections.simps) simp
qed

lemma read_sections_end: "\<exists>s. read_sections net register c (ctx [] n) = Inr (c, s)"
  by (subst read_sections.simps)
     (simp add: readSection_def readLine_def readLine_loop.simps [of "ctx [] n\<lparr>rc_line := Suc n\<rparr>"] ctx_def getline_def
       readLine_loop.simps read_sections.simps)

text \<open>
  The configurations that the text can express: valid names, none of the aliases called \<open>end\<close>, links between screens under their own names with
  intervals in whole percents, options that their section knows, no drop targets, no monitors, no address and no rules.
\<close>

definition config_text_ok :: "ConfigFile \<Rightarrow> bool" where
  "config_text_ok c \<longleftrightarrow>
     (let cfg = cf_config c
      in list_all screen_ok (cfg_map cfg) \<and>
         list_all (\<lambda>x. list_all (link_ok (cfg_map cfg)) (cell_neighbors (snd x))) (cfg_map cfg) \<and>
         list_all (\<lambda>(a, t). isValidScreenName a \<and> a \<noteq> ''end'' \<and> t \<in> fst ` set (cfg_map cfg)) (cfg_names cfg) \<and>
         opts.ascending (cfg_globalOptions cfg) \<and> list_all (\<lambda>(opt, v). global_value_ok opt v) (cfg_globalOptions cfg) \<and>
         cfg_monitors cfg = [] \<and> cfg_dropTarget cfg = [] \<and> cfg_screenDropTargets cfg = [] \<and>
         \<not> NetworkAddress_isValid (cf_barrierAddress c) \<and> if_ruleList (cf_inputFilter c) = [])"

lemma those_map: "(\<And>x. x \<in> set xs \<Longrightarrow> f x = Some (g x)) \<Longrightarrow> those (map f xs) = Some (map g xs)"
  by (induction xs) auto

lemma section_text_simps [simp]: "section_text [] = []" "section_text ((i, l) # ls) = write_line i l @ section_text ls"
  "section_text (ls @ ls') = section_text ls @ section_text ls'" "section_text (concat lss) = concat (map section_text lss)"
proof -
  show "section_text (concat lss) = concat (map section_text lss)" by (induction lss) (simp_all add: section_text_def)
qed (simp_all add: section_text_def)

subsection \<open>What is written\<close>

lemma write_options_lines:
  assumes "\<And>x. x \<in> set os \<Longrightarrow> \<exists>name. getOptionName (fst x) = Some name \<and> value_text (getOptionValue (fst x) (snd x))"
  shows "write_options ind os = section_text (map (\<lambda>x. (ind, option_line x)) os)"
proof -
  have "List.map_filter option_text os = map option_line os" using assms by (rule option_text_lines)
  then show ?thesis by (simp add: write_options_def section_text_def comp_def)
qed

lemma screen_options_named: "screen_ok x \<Longrightarrow> p \<in> set (cell_options (snd x)) \<Longrightarrow>
    \<exists>name. getOptionName (fst p) = Some name \<and> word_text name \<and> value_text (getOptionValue (fst p) (snd p))"
  using screen_option_line [of "fst p" "snd p"] by (fastforce simp: screen_ok_def list_all_iff)

lemma global_options_named: "list_all (\<lambda>(opt, v). global_value_ok opt v) os \<Longrightarrow> p \<in> set os \<Longrightarrow>
    \<exists>name. getOptionName (fst p) = Some name \<and> word_text name \<and> value_text (getOptionValue (fst p) (snd p))"
  using global_option_line [of "fst p" "snd p"] word_value by (fastforce simp: list_all_iff)

lemma screen_written:
  assumes wf: "config_wf (cf_config c)" and ok: "config_text_ok c" and x: "x \<in> set (cfg_map (cf_config c))"
  shows "write_screen (cf_config c) (fst x) = section_text (screen_lines x)"
proof -
  have s: "screen_ok x" using ok x by (auto simp: config_text_ok_def list_all_iff Let_def)
  then have "fst x \<noteq> []" using valid_name_neq by (simp add: screen_ok_def)
  moreover have "smap_find CaselessCmp_less (fst x) (cfg_map (cf_config c)) = Some x"
    using names.find_Some_iff [OF config_wfD(1) [OF wf], of "fst x" "fst x" "snd x"] x by simp
  moreover have "write_options tab2 (cell_options (snd x)) = section_text (map (\<lambda>p. (tab2, option_line p)) (cell_options (snd x)))"
    using screen_options_named [OF s] by (intro write_options_lines) blast
  moreover have "cfg_screenDropTargets (cf_config c) = []" using ok by (simp add: config_text_ok_def Let_def)
  ultimately show ?thesis by (cases x) (simp add: write_screen_def getOptions_def screen_lines_def)
qed

lemma links_written:
  assumes wf: "config_wf (cf_config c)" and ok: "config_text_ok c" and x: "x \<in> set (cfg_map (cf_config c))"
  shows "write_links (cf_config c) (fst x) = Some (section_text (links_lines x))"
proof -
  obtain n cell where nc: "x = (n, cell)" by (cases x)
  have "list_all (link_ok (cfg_map (cf_config c))) (cell_neighbors cell)"
    using ok x nc by (fastforce simp: config_text_ok_def list_all_iff Let_def)
  then have t: "those (map link_text (cell_neighbors cell)) = Some (map link_line (cell_neighbors cell))"
    using link_text_line by (intro those_map) (auto simp: list_all_iff)
  have "smap_find CaselessCmp_less n (cfg_names (cf_config c)) = Some (n, n)"
    using names.find_Some_iff [OF config_wfD(2) [OF wf], of n n n] config_wfD(4) [OF wf, of n cell] x nc by simp
  moreover have "smap_find CaselessCmp_less n (cfg_map (cf_config c)) = Some (n, cell)"
    using names.find_Some_iff [OF config_wfD(1) [OF wf], of n n cell] x nc by simp
  ultimately have "neighbors (cf_config c) n = Some (cell_neighbors cell)" by (simp add: neighbors_def getCanonicalName_def)
  then show ?thesis using t by (simp add: write_links_def nc links_lines_def section_text_def comp_def)
qed

text \<open>The four sections, the third one when there are aliases.\<close>

lemma config_written:
  assumes wf: "config_wf (cf_config c)" and ok: "config_text_ok c"
  shows "write_config c = Some (text_section ''screens'' (concat (map screen_lines (cfg_map (cf_config c)))) @
    text_section ''links'' (concat (map links_lines (cfg_map (cf_config c)))) @
    (if length (cfg_map (cf_config c)) \<noteq> length (cfg_names (cf_config c))
     then text_section ''aliases'' (alias_lines [] (aliases_by_screen (cf_config c))) else []) @
    text_section ''options'' (map (\<lambda>p. (tab1, option_line p)) (cfg_globalOptions (cf_config c))))"
proof -
  let ?m = "cfg_map (cf_config c)"
  have l: "those (map (\<lambda>(screen, _). write_links (cf_config c) screen) ?m) = Some (map (\<lambda>x. section_text (links_lines x)) ?m)"
    using links_written [OF wf ok] by (intro those_map) (auto split: prod.splits)
  have s: "map (\<lambda>(screen, _). write_screen (cf_config c) screen) ?m = map (\<lambda>x. section_text (screen_lines x)) ?m"
    using screen_written [OF wf ok] by (auto split: prod.splits)
  have o: "write_options tab1 (cfg_globalOptions (cf_config c)) =
      section_text (map (\<lambda>p. (tab1, option_line p)) (cfg_globalOptions (cf_config c)))"
    using global_options_named [of "cfg_globalOptions (cf_config c)"] ok
    by (intro write_options_lines) (auto simp: config_text_ok_def Let_def)
  have e: "\<not> NetworkAddress_isValid (cf_barrierAddress c)" "cfg_dropTarget (cf_config c) = []" "InputFilter_format tab1 (cf_inputFilter c) = []"
    using ok by (simp_all add: config_text_ok_def Let_def InputFilter_format_def)
  show ?thesis unfolding write_config_def Let_def l s o write_aliases_lines using e by (simp add: text_section_def comp_def)
qed

subsection \<open>Every written line comes back\<close>

lemma tabs_blank: "set tab1 \<subseteq> set blanks" "set tab2 \<subseteq> set blanks"
  by (simp_all add: tab1_def tab2_def blanks_def)

lemma option_line_clean:
  assumes "\<exists>name. getOptionName (fst p) = Some name \<and> word_text name \<and> value_text (getOptionValue (fst p) (snd p))"
  shows "clean (option_line p) \<and> option_line p \<noteq> ''end''"
  using assms assignment_clean by (cases p) (fastforce simp: option_line_def)

definition text_char :: "char \<Rightarrow> bool" where
  "text_char c \<longleftrightarrow> line_char c \<and> c \<noteq> CHR ''#''"

lemma text_char_word: "word_text s \<Longrightarrow> list_all text_char s"
  using word_char_plain by (auto simp: word_text_def list_all_iff text_char_def)

lemma text_char_interval: "interval_args args \<Longrightarrow> list_all text_char (interval_text args)"
  using text_char_word by (auto simp: interval_args_def interval_text_def text_char_def [of "CHR ''(''"] text_char_def [of "CHR '')''"]
      text_char_def [of "CHR '',''"] line_char_def isgraph_def split: list.splits)

lemma link_line_clean:
  assumes "link_ok zs l"
  shows "clean (link_line l) \<and> link_line l \<noteq> ''end''"
proof -
  note ok = assms [unfolded link_ok_def]
  let ?d = "direction_name (ce_side (fst l))" and ?n = "ce_name (snd l)"
  let ?i = "interval_text (format_args (ce_first (fst l)) (ce_second (fst l)))"
    and ?j = "interval_text (format_args (ce_first (snd l)) (ce_second (snd l)))"
  have d: "word_text ?d" using ok direction_word by blast
  have n: "word_text ?n" using ok valid_name_word by blast
  have all: "list_all text_char (link_line l)"
    using text_char_word [OF d] text_char_word [OF n] text_char_interval [OF formatInterval_args(2)]
    by (simp add: link_line_def text_char_def [of "CHR '' ''"] text_char_def [of "CHR ''=''"] line_char_def isgraph_def)
  have "isgraph (hd (link_line l))" using d word_char_plain(1) by (cases ?d) (auto simp: link_line_def word_text_def)
  moreover have "isgraph (last (link_line l))"
  proof (cases "?j = []")
    case True
    have "isgraph (last ?n)" using n word_char_plain(1) by (auto simp: word_text_def list_all_iff)
    then show ?thesis using n True by (simp add: link_line_def word_text_def)
  next
    case False
    then have "last ?j = CHR '')''" by (auto simp: interval_text_def split: list.splits)
    then show ?thesis using False by (simp add: link_line_def isgraph_def)
  qed
  moreover have "CHR '' '' \<in> set (link_line l)" "CHR '' '' \<notin> set ''end''" by (simp_all add: link_line_def)
  then have "link_line l \<noteq> ''end''" by metis
  moreover have "link_line l \<noteq> []" by (simp add: link_line_def)
  ultimately show ?thesis using all by (simp add: clean_def text_char_def [abs_def])
qed

lemma lines_clean:
  "screen_ok x \<Longrightarrow> clean_lines (screen_lines x)"
  "screen_ok x \<Longrightarrow> list_all (link_ok zs) (cell_neighbors (snd x)) \<Longrightarrow> clean_lines (links_lines x)"
  using header_clean(1,2) [of "fst x"] option_line_clean [OF screen_options_named [of x]] link_line_clean tabs_blank
  by (auto simp: clean_lines_def screen_lines_def links_lines_def list_all_iff screen_ok_def)

lemma alias_lines_clean: "list_all (alias_ok N m) ps \<Longrightarrow> clean_lines (alias_lines s ps)"
proof (induction s ps rule: alias_lines.induct)
  case (2 screen t a ps)
  then have "isValidScreenName t" "isValidScreenName a" "a \<noteq> ''end''" by (auto simp: alias_ok_def)
  then show ?case using 2 header_clean(1,2) [of t] word_value [OF valid_name_word, of a] tabs_blank
    by (auto simp: clean_lines_def value_text_def)
qed (simp add: clean_lines_def)

lemma clean_lines_concat: "list_all clean_lines lss \<Longrightarrow> clean_lines (concat lss)"
  by (induction lss) (auto simp: clean_lines_def)

subsection \<open>The configuration comes back\<close>

lemma aliases_to_add:
  assumes wf: "config_wf (cf_config c)" and ok: "config_text_ok c"
  defines "m \<equiv> cfg_map (cf_config c)" and "ns \<equiv> cfg_names (cf_config c)" and "ps \<equiv> aliases_by_screen (cf_config c)"
  shows "set (map self_named m) \<union> prod.swap ` set ps = set ns" "set (map self_named m) \<inter> prod.swap ` set ps = {}"
    "list_all (alias_ok (map self_named m) m) ps"
proof -
  have self: "set (map self_named m) \<subseteq> set ns" using config_wfD(4) [OF wf] by (auto simp: self_named_def m_def ns_def)
  have ps: "prod.swap ` set ps = {x \<in> set ns. fst x \<noteq> snd x}"
    using aliases_by_screen_set(1) [OF config_wfD(2) [OF wf]] by (simp add: ps_def ns_def image_image)
  have n: "isValidScreenName a \<and> a \<noteq> ''end'' \<and> (\<exists>cell. (t, cell) \<in> set m \<and> isValidScreenName t)" if "(a, t) \<in> set ns" for a t
    using that ok by (fastforce simp: config_text_ok_def list_all_iff Let_def ns_def m_def screen_ok_def)
  have "{x \<in> set ns. fst x = snd x} \<subseteq> set (map self_named m)"
  proof
    fix x assume "x \<in> {x \<in> set ns. fst x = snd x}"
    then obtain a cell where "x = (a, a)" "(a, cell) \<in> set m" using n by (cases x) auto
    then show "x \<in> set (map self_named m)" by (force simp: self_named_def)
  qed
  then show "set (map self_named m) \<union> prod.swap ` set ps = set ns" using self ps by auto
  show "set (map self_named m) \<inter> prod.swap ` set ps = {}" unfolding ps by (auto simp: self_named_def)
  show "list_all (alias_ok (map self_named m) m) ps"
    unfolding list_all_iff
  proof
    fix p assume "p \<in> set ps"
    then have "prod.swap p \<in> set ns" using ps by blast
    then obtain cell where p: "p = (fst p, snd p)" "isValidScreenName (snd p)" "snd p \<noteq> ''end''" "(fst p, cell) \<in> set m"
      "isValidScreenName (fst p)" using n [of "snd p" "fst p"] by (cases p) auto
    define t where "t = fst p"
    note p = p [folded t_def]
    then have "smap_find CaselessCmp_less t m \<noteq> None" "(t, t) \<in> set (map self_named m)"
      using names.find_Some_iff [OF config_wfD(1) [OF wf], of t t cell] by (auto simp: m_def self_named_def image_iff intro: bexI [of _ "(t, cell)"])
    then show "alias_ok (map self_named m) m p" using p by (auto simp: alias_ok_def split: prod.splits)
  qed
qed

lemma no_aliases:
  assumes wf: "config_wf (cf_config c)" and len: "length (cfg_map (cf_config c)) = length (cfg_names (cf_config c))"
  shows "map self_named (cfg_map (cf_config c)) = cfg_names (cf_config c)"
proof -
  let ?s = "map self_named (cfg_map (cf_config c))" and ?ns = "cfg_names (cf_config c)"
  have asc: "names.ascending ?s" "names.ascending ?ns"
    using config_wfD(1,2) [OF wf] by (simp_all add: names.ascending_def sorted_wrt_map self_named_def)
  have "set ?s \<subseteq> set ?ns" using config_wfD(4) [OF wf] by (auto simp: self_named_def)
  moreover have "card (set ?s) = card (set ?ns)"
    using names.ascending_distinct [OF asc(1)] names.ascending_distinct [OF asc(2)] len by (simp add: distinct_card del: set_map)
  ultimately have "set ?s = set ?ns" by (intro card_subset_eq) simp_all
  then show ?thesis by (rule names.ascending_unique [OF asc])
qed

lemma aliases_read:
  assumes wf: "config_wf (cf_config c)" and ok: "config_text_ok c"
    and d: "cfg_map (cf_config d) = cfg_map (cf_config c)" "cfg_names (cf_config d) = map self_named (cfg_map (cf_config c))"
  shows "\<exists>n'. read_sections net register d (ctx ((if length (cfg_map (cf_config c)) \<noteq> length (cfg_names (cf_config c))
       then text_section ''aliases'' (alias_lines [] (aliases_by_screen (cf_config c))) else []) @ rest) n) =
    read_sections net register (upd_config (\<lambda>cfg. cfg\<lparr>cfg_names := cfg_names (cf_config c)\<rparr>) d) (ctx rest n')"
proof (cases "length (cfg_map (cf_config c)) = length (cfg_names (cf_config c))")
  case True
  then have "upd_config (\<lambda>cfg. cfg\<lparr>cfg_names := cfg_names (cf_config c)\<rparr>) d = d"
    using no_aliases [OF wf] d(2) by (simp add: upd_config_def)
  then show ?thesis using True by auto
next
  case False
  let ?ps = "aliases_by_screen (cf_config c)"
  note add = aliases_to_add [OF wf ok]
  have asc: "names.ascending (cfg_names (cf_config c))" "names.ascending (cfg_names (cf_config d))"
    using config_wfD(1,2) [OF wf] by (simp_all add: d(2) names.ascending_def sorted_wrt_map self_named_def)
  have "\<exists>s'. run_items aliases_item k (map snd (alias_lines [] ?ps)) ([], d) =
      Inr (s', upd_config (\<lambda>cfg. cfg\<lparr>cfg_names := cfg_names (cf_config c)\<rparr>) d)" for k
  proof -
    obtain s' N where N: "run_items aliases_item k (map snd (alias_lines [] ?ps)) ([], d) = Inr (s', upd_config (\<lambda>cfg. cfg\<lparr>cfg_names := N\<rparr>) d)"
      "names.ascending N" "set N = set (cfg_names (cf_config c))"
      using aliases_section [OF asc, of ?ps k "[]", unfolded d, OF eq_refl [OF add(1)] add(2) aliases_by_screen_set(2) [OF asc(1)] add(3)]
      unfolding add(1) by blast
    then show ?thesis using names.ascending_unique [OF N(2) asc(1)] by auto
  qed
  from section_read [where nm = "''aliases''", OF alias_lines_clean [OF add(3)] _ this, of net register rest n] False show ?thesis
    by auto
qed

lemma config_read_back:
  assumes wf: "config_wf (cf_config c)" and ok: "config_text_ok c" and w: "write_config c = Some text"
  shows "\<exists>s. read_sections net register ConfigFile_new (ctx text 0) = Inr (ConfigFile_new\<lparr>cf_config := cf_config c\<rparr>, s)"
proof -
  let ?m = "cfg_map (cf_config c)" and ?g = "cfg_globalOptions (cf_config c)"
  let ?sl = "concat (map screen_lines ?m)" and ?ll = "concat (map links_lines ?m)" and ?ol = "map (\<lambda>p. (tab1, option_line p)) ?g"
  let ?at = "if length ?m \<noteq> length (cfg_names (cf_config c)) then text_section ''aliases'' (alias_lines [] (aliases_by_screen (cf_config c))) else []"
  let ?c1 = "upd_config (\<lambda>cfg. cfg\<lparr>cfg_map := map bare ?m, cfg_names := map self_named ?m\<rparr>) ConfigFile_new"
  let ?c2 = "upd_config (\<lambda>cfg. cfg\<lparr>cfg_map := ?m\<rparr>) ?c1"
  let ?c3 = "upd_config (\<lambda>cfg. cfg\<lparr>cfg_names := cfg_names (cf_config c)\<rparr>) ?c2"
  note k = ok [unfolded config_text_ok_def Let_def]
  have s: "list_all screen_ok ?m" "names.ascending ?m" using k config_wfD(1) [OF wf] by simp_all
  have l: "list_all (\<lambda>y. list_all (link_ok ?m) (cell_neighbors (snd y)) \<and> cell_wf (snd y)) ?m"
    using k config_wfD(3) [OF wf] by (auto simp: list_all_iff)
  have clean: "clean_lines ?sl" "clean_lines ?ll"
    using s(1) l lines_clean(1) lines_clean(2) [of _ ?m] by (fastforce simp: list_all_iff intro!: clean_lines_concat)+
  have "clean_lines ?ol"
    using option_line_clean [OF global_options_named [of ?g]] k tabs_blank by (auto simp: list_all_iff clean_lines_def)
  note clean = clean this
  have "\<exists>s'. run_items screens_item n (map snd ?sl) ([], ConfigFile_new) = Inr (s', ?c1)" for n
    using screens_section [of "[]" ?m ConfigFile_new n "[]"] s by (simp add: ConfigFile_new_def Config_new_def map_concat comp_def)
  note r1 = section_read [where nm = "''screens''", OF clean(1) _ this]
  have "\<exists>s'. run_items links_item n (map snd ?ll) ([], ?c1) = Inr (s', ?c2)" for n
    using links_section [of "[]" ?m ?m ?c1 n "[]"] s l by (simp add: upd_config_def map_concat comp_def)
  note r2 = section_read [where nm = "''links''", OF clean(2) _ this]
  have "\<exists>s'. run_items (options_line net register) n (map snd ?ol) ([], ?c3) = Inr (s', ConfigFile_new\<lparr>cf_config := cf_config c\<rparr>)" for n
    using options_section [of ?c3 ?g net register n "[]"] k
    by (simp add: upd_config_def ConfigFile_new_def Config_new_def comp_def)
  note r4 = section_read [where nm = "''options''", OF clean(3) _ this]
  have "text = text_section ''screens'' ?sl @ text_section ''links'' ?ll @ ?at @ text_section ''options'' ?ol"
    using config_written [OF wf ok] w by simp
  then obtain n where "read_sections net register ConfigFile_new (ctx text 0) =
      read_sections net register ?c2 (ctx (?at @ text_section ''options'' ?ol) n)"
    using r1 [of net register "text_section ''links'' ?ll @ ?at @ text_section ''options'' ?ol" 0]
      r2 [of net register "?at @ text_section ''options'' ?ol"] by simp
  moreover obtain n' where "read_sections net register ?c2 (ctx (?at @ text_section ''options'' ?ol) n) =
      read_sections net register ?c3 (ctx (text_section ''options'' ?ol) n')"
    using aliases_read [OF wf ok, of ?c2 net register "text_section ''options'' ?ol" n] by (auto simp: upd_config_def)
  moreover obtain n'' where "read_sections net register ?c3 (ctx (text_section ''options'' ?ol) n') =
      read_sections net register (ConfigFile_new\<lparr>cf_config := cf_config c\<rparr>) (ctx [] n'')"
    using r4 [of net register "[]" n'] by simp
  ultimately show ?thesis using read_sections_end [of net register "ConfigFile_new\<lparr>cf_config := cf_config c\<rparr>" n''] by simp
qed


definition two_screen_file :: ConfigFile where
  "two_screen_file = ConfigFile_new\<lparr>cf_config := Config_new\<lparr>
     cfg_map := [(''left'', Cell_new\<lparr>cell_neighbors :=
         [(\<lparr>ce_name = [], ce_side = kRight, ce_first = 0, ce_second = 1\<rparr>,
           \<lparr>ce_name = ''right'', ce_side = kRight, ce_first = 0, ce_second = 1\<rparr>)],
         cell_options := [(kOptionScreenSwitchCornerSize, 50)]\<rparr>), (''right'', Cell_new)],
     cfg_names := [(''left'', ''left''), (''main'', ''left''), (''right'', ''right'')],
     cfg_globalOptions := [(kOptionHeartbeat, 5000)]\<rparr>\<rparr>"

lemma two_screen_file_ok: "config_wf (cf_config two_screen_file)" "config_text_ok two_screen_file"
proof -
  have o: "CaselessCmp_less ''left'' ''main''" "CaselessCmp_less ''left'' ''right''" "CaselessCmp_less ''main'' ''right''"
    by code_simp+
  show "config_wf (cf_config two_screen_file)"
    using o by (simp add: config_wf_def two_screen_file_def cell_wf_def Cell_new_def edge_valid_def CaselessCmp_equal_iff)
  have v: "isValidScreenName ''left''" "isValidScreenName ''main''" "isValidScreenName ''right''"
    by (code_simp)+
  have p: "to_percent 0 = 0" "to_percent 1 = 100"
    using to_of_percent [of 0] to_of_percent [of 100] of_percent_ends by simp_all
  have i: "interval_ok 0 1" using p of_percent_ends by (simp add: interval_ok_def)
  show "config_text_ok two_screen_file"
    using v i by (simp add: config_text_ok_def two_screen_file_def screen_ok_def Cell_new_def Config_new_def ConfigFile_new_def link_ok_def
        screen_value_ok_def global_value_ok_def number_options_def NetworkAddress_isValid_def NetworkAddress_new_def InputFilter_new_def
        CaselessCmp_equal_iff)
qed


end
