(* ===== verification/Config_Valid.thy ===== *)
theory Config_Valid
  imports Config_Roundtrip
begin

text \<open>
  What a configuration file can do to the server: whatever text is read, a configuration that comes out of it is well formed, its names are
  valid, and no link leads to an unknown screen.
\<close>

section \<open>The invariant\<close>

definition file_wf :: "Config \<Rightarrow> bool" where
  "file_wf cfg \<longleftrightarrow> config_wf cfg \<and> (\<forall>(a, t) \<in> set (cfg_names cfg). isValidScreenName a) \<and>
     (\<forall>(n, cell) \<in> set (cfg_map cfg). \<forall>(s, d) \<in> set (cell_neighbors cell). isScreen cfg (ce_name d))"

lemma isScreen_iff: "config_wf cfg \<Longrightarrow> isScreen cfg n \<longleftrightarrow> (\<exists>x \<in> set (cfg_names cfg). CaselessCmp_equal (fst x) n)"
  using names.find_None_iff [OF config_wfD(2)] by (auto simp: isScreen_def names_eqv)

lemma file_wf_grow:
  assumes "file_wf cfg" "config_wf cfg'" "set (cfg_names cfg) \<subseteq> set (cfg_names cfg')"
    and "\<And>a t. (a, t) \<in> set (cfg_names cfg') - set (cfg_names cfg) \<Longrightarrow> isValidScreenName a"
    and "\<And>n cell s d. (n, cell) \<in> set (cfg_map cfg') \<Longrightarrow> (s, d) \<in> set (cell_neighbors cell) \<Longrightarrow>
      isScreen cfg (ce_name d)"
  shows "file_wf cfg'"
proof -
  have "isScreen cfg n \<Longrightarrow> isScreen cfg' n" for n
    using assms(1-3) isScreen_iff [of cfg n] isScreen_iff [of cfg' n] by (auto simp: file_wf_def)
  then show ?thesis using assms by (fastforce simp: file_wf_def)
qed

lemma file_wf_new: "file_wf Config_new"
  using config_wf_new by (simp add: file_wf_def Config_new_def)

lemma file_wf_link: "file_wf cfg \<Longrightarrow> (n, cell) \<in> set (cfg_map cfg) \<Longrightarrow> (s, d) \<in> set (cell_neighbors cell) \<Longrightarrow> isScreen cfg (ce_name d)"
  by (fastforce simp: file_wf_def)

lemma file_wf_addScreen:
  assumes "file_wf cfg" "isValidScreenName name"
  shows "file_wf (snd (addScreen cfg name))"
proof (cases "smap_find CaselessCmp_less name (cfg_names cfg) = None")
  case True
  have wf: "config_wf cfg" using assms(1) by (simp add: file_wf_def)
  have "set (smap_insert CaselessCmp_less name Cell_new (cfg_map cfg)) \<subseteq> insert (name, Cell_new) (set (cfg_map cfg))"
    "set (cfg_names cfg) \<subseteq> set (smap_insert CaselessCmp_less name name (cfg_names cfg))"
    "set (smap_insert CaselessCmp_less name name (cfg_names cfg)) \<subseteq> insert (name, name) (set (cfg_names cfg))"
    using names.set_insert [OF config_wfD(1) [OF wf]] names.set_insert [OF config_wfD(2) [OF wf]] by auto
  then show ?thesis
    using True assms config_wf_addScreen [OF wf, of name] file_wf_link [OF assms(1)]
    by (intro file_wf_grow [OF assms(1)]) (auto simp: addScreen_def Cell_new_def)
qed (use assms in \<open>simp add: addScreen_def\<close>)

lemma file_wf_addAlias:
  assumes "file_wf cfg" "isValidScreenName a"
  shows "file_wf (snd (addAlias cfg t a))"
proof -
  have wf: "config_wf cfg" using assms(1) by (simp add: file_wf_def)
  have "set (cfg_names cfg) \<subseteq> set (smap_insert CaselessCmp_less a t (cfg_names cfg))"
    "set (smap_insert CaselessCmp_less a t (cfg_names cfg)) \<subseteq> insert (a, t) (set (cfg_names cfg))"
    using names.set_insert [OF config_wfD(2) [OF wf]] by auto
  then show ?thesis
    using assms config_wf_addAlias [OF wf, of t a] file_wf_link [OF assms(1)]
    by (intro file_wf_grow [OF assms(1)]) (auto simp: addAlias_def split: if_splits)
qed

lemma file_wf_addOption:
  assumes "file_wf cfg"
  shows "file_wf (snd (addOption cfg s opt v))"
proof -
  have wf: "config_wf cfg" using assms(1) by (simp add: file_wf_def)
  then have "config_wf (snd (addOption cfg s opt v))" by (rule config_step_wf [OF config_step.addOption])
  then show ?thesis using file_wf_link [OF assms] names.set_update [OF config_wfD(1) [OF wf]]
    by (intro file_wf_grow [OF assms]) (auto simp: addOption_def update_options_def split: if_splits)
qed

lemma file_wf_connect:
  assumes "file_wf cfg" "connect cfg s side a b d a' b' = Some (r, cfg')" "isScreen cfg d"
  shows "file_wf cfg'"
proof -
  have wf: "config_wf cfg" using assms(1) by (simp add: file_wf_def)
  have names: "cfg_names cfg' = cfg_names cfg"
    using assms(2) by (auto simp: connect_def split: if_splits option.splits prod.splits)
  have "isScreen cfg (ce_name e)" if "(n, cell) \<in> set (cfg_map cfg')" "(k, e) \<in> set (cell_neighbors cell)" for n cell k e
  proof (cases "cfg' = cfg")
    case False
    then obtain m old src dst where f: "smap_find CaselessCmp_less (getCanonicalName cfg s) (cfg_map cfg) = Some (m, old)"
      and e: "CellEdge_make [] side a b = Some src" "CellEdge_make d side a' b' = Some dst"
      and c': "cfg' = cfg\<lparr>cfg_map := smap_update CaselessCmp_less (getCanonicalName cfg s) (\<lambda>_. snd (Cell_add old src dst)) (cfg_map cfg)\<rparr>"
      using assms(2) by (auto simp: connect_def split: if_splits option.splits prod.splits)
    have old: "(m, old) \<in> set (cfg_map cfg)" using f names.find_Some_iff [OF config_wfD(1) [OF wf]] by blast
    have "set (cell_neighbors (snd (Cell_add old src dst))) \<subseteq> insert (src, dst) (set (cell_neighbors old))"
      using edges.set_erase [OF cell_wfD(1)] edges.set_insert [OF edges.ascending_erase [OF cell_wfD(1)]]
        config_wfD(3) [OF wf old] by (auto simp: Cell_add_def split: if_splits)
    moreover have "ce_name dst = d" using e(2) by (auto simp: CellEdge_make_def split: if_splits)
    moreover have "(n, cell) \<in> set (cfg_map cfg) \<or> cell = snd (Cell_add old src dst)"
      using that(1) names.set_update [OF config_wfD(1) [OF wf]] by (auto simp: c' split: if_splits)
    ultimately show ?thesis using that(2) assms(3) file_wf_link [OF assms(1)] old by auto
  qed (use that file_wf_link [OF assms(1)] in blast)
  then show ?thesis using config_wf_connect [OF wf assms(2)] names by (intro file_wf_grow [OF assms(1)]) auto
qed

text \<open>The other fields do not matter.\<close>

lemma file_wf_cong: "cfg_map cfg' = cfg_map cfg \<Longrightarrow> cfg_names cfg' = cfg_names cfg \<Longrightarrow> file_wf cfg' = file_wf cfg"
  by (simp add: file_wf_def config_wf_def isScreen_def)

section \<open>Every section keeps it\<close>

abbreviation file_ok :: "ConfigFile \<Rightarrow> bool" where
  "file_ok c \<equiv> file_wf (cf_config c)"

definition keeps :: "section_item \<Rightarrow> bool" where
  "keeps item \<longleftrightarrow> (\<forall>lno line s c s' c'. file_ok c \<longrightarrow> item lno line s c = Inr (s', c') \<longrightarrow> file_ok c')"

lemma bind_sum_Inr: "bind_sum x f = Inr y \<longleftrightarrow> (\<exists>a. x = Inr a \<and> f a = Inr y)"
  by (cases x) auto

lemma keeps_screen_line:
  assumes "\<And>lno s c c'. file_ok c \<Longrightarrow> start lno s c = Inr c' \<Longrightarrow> file_ok c'"
    and "\<And>lno line s c c'. file_ok c \<Longrightarrow> argument lno line s c = Inr c' \<Longrightarrow> file_ok c'"
  shows "keeps (screen_line what start argument)"
  unfolding keeps_def
proof (intro allI impI)
  fix lno line s c s' c'
  assume c: "file_ok c" and r: "screen_line what start argument lno line s c = Inr (s', c')"
  consider "start lno (butlast line) c = Inr c'" | "argument lno line s c = Inr c'"
    using r by (auto simp: screen_line_def bind_sum_Inr split: if_splits)
  then show "file_ok c'" using assms(1) [OF c] assms(2) [OF c] by cases blast+
qed

lemma read_lines_keeps:
  assumes "keeps item" "file_ok c" "read_lines item sec screen c s = Inr (c', s')"
  shows "file_ok c'"
  using assms
proof (induction item sec screen c s rule: read_lines.induct)
  case (1 item sec screen c s)
  obtain line s1 where r: "readLine s = Inr (Some line, s1)"
    using 1(4) by (subst (asm) read_lines.simps) (auto split: sum.splits option.splits)
  show ?case
  proof (cases "line = ''end''")
    case True
    then show ?thesis using 1(3,4) r by (subst (asm) read_lines.simps) auto
  next
    case False
    then obtain screen' c1 where i: "item (rc_line s1) line screen c = Inr (screen', c1)"
      using 1(4) r by (subst (asm) read_lines.simps) (auto split: sum.splits)
    then have "file_ok c1" using 1(2,3) unfolding keeps_def by blast
    then show ?thesis using 1(1) [OF r refl refl False i refl] 1(2,4) r i False by (subst (asm) read_lines.simps [of item sec screen c s]) simp
  qed
qed

lemma screens_keeps: "keeps screens_item"
proof (rule keeps_screen_line)
  show "file_ok c'" if "file_ok c" "screens_start lno s c = Inr c'" for lno s c c'
    using that file_wf_addScreen [OF that(1), of s] by (auto simp: screens_start_def split: if_splits bool.splits prod.splits)
  show "file_ok c'" if "file_ok c" "screens_argument lno line s c = Inr c'" for lno line s c c'
  proof -
    have "file_wf ((cf_config c)\<lparr>cfg_screenDropTargets := m\<rparr>)" for m
      using file_wf_cong [of "(cf_config c)\<lparr>cfg_screenDropTargets := m\<rparr>" "cf_config c"] that(1) by simp
    then show ?thesis using that file_wf_addOption
      by (auto simp: screens_argument_def bind_sum_Inr upd_config_def split: option.splits if_splits)
  qed
qed

lemma known_screen_same: "known_screen lno s c = Inr c' \<Longrightarrow> c' = c"
  by (auto simp: known_screen_def split: if_splits)

lemma links_tail:
  assumes "file_ok c" "(case direction_of side of
      None \<Rightarrow> Inl e1
    | Some dir \<Rightarrow> if \<not> isScreen (cf_config c) d then Inl e2
        else (case connect (cf_config c) s dir a b d a' b' of
            None \<Rightarrow> Inl e3 | Some (False, _) \<Rightarrow> Inl e4 | Some (True, cfg) \<Rightarrow> Inr (c\<lparr>cf_config := cfg\<rparr>))) = Inr c'"
  shows "file_ok c'"
proof -
  obtain dir where dir: "direction_of side = Some dir" "isScreen (cf_config c) d"
    using assms(2) by (cases "direction_of side") (auto split: if_split_asm)
  then obtain r cfg where "connect (cf_config c) s dir a b d a' b' = Some (r, cfg)" "c' = c\<lparr>cf_config := cfg\<rparr>"
    using assms(2) by (cases "connect (cf_config c) s dir a b d a' b'") (auto split: bool.split_asm)
  then show ?thesis using file_wf_connect [OF assms(1)] dir(2) by auto
qed

lemma links_keeps: "keeps links_item"
proof (rule keeps_screen_line)
  show "file_ok c'" if "file_ok c" "links_argument lno line s c = Inr c'" for lno line s c c'
    using that(2) unfolding links_argument_def bind_sum_Inr
    by (elim exE conjE, simp only: split_beta bind_sum_Inr, elim exE conjE, simp only: split_beta bind_sum_Inr, elim exE conjE)
       (rule links_tail [OF that(1)])
qed (use known_screen_same in blast)

lemma aliases_keeps: "keeps aliases_item"
proof (rule keeps_screen_line)
  show "file_ok c'" if "file_ok c" "aliases_argument lno line s c = Inr c'" for lno line s c c'
    using that file_wf_addAlias [OF that(1), of line s]
    by (auto simp: aliases_argument_def split: if_splits bool.splits prod.splits)
qed (use known_screen_same in blast)

lemma network_keeps: "keeps (screen_line ''screen'' network_start network_argument)"
  by (rule keeps_screen_line) (auto simp: network_start_def network_argument_def bind_sum_Inr Let_def split: if_splits prod.splits)

lemma monitors_keeps: "keeps (screen_line ''monitor'' monitors_start monitors_argument)"
proof (rule keeps_screen_line)
  have m: "file_ok (upd_monitor n f c)" if "file_ok c" for n f c
    using file_wf_cong [of "cf_config (upd_monitor n f c)" "cf_config c"] that by (simp add: upd_monitor_def upd_config_def)
  show "file_ok c'" if "file_ok c" "monitors_start lno s c = Inr c'" for lno s c c'
    using that m file_wf_addScreen [OF that(1), of s]
    by (auto simp: monitors_start_def Let_def upd_config_def split: if_splits)
  show "file_ok c'" if "file_ok c" "monitors_argument lno line s c = Inr c'" for lno line s c c'
    using that m by (auto simp: monitors_argument_def bind_sum_Inr Let_def split: if_splits prod.splits)
qed

lemma parseAction_config: "parseAction lno name args activate (c, rule) = Inr (c', rule') \<Longrightarrow> cf_config c' = cf_config c"
  by (auto simp: parseAction_def Let_def bind_sum_Inr split: if_splits option.splits prod.splits)

lemma parse_actions_config: "parse_actions lno line delim stop activate i cr = Inr (i', cr') \<Longrightarrow> cf_config (fst cr') = cf_config (fst cr)"
proof (induction lno line delim stop activate i cr rule: parse_actions.induct)
  case (1 lno line delim stop activate i cr)
  show ?case
  proof (cases "i < length line \<and> \<not> stop (line ! i)")
    case True
    then obtain k v args cr1 where p: "parseNameWithArgs lno ''value'' line delim (i + 1) = Inr (k, v, args)"
      "parseAction lno v args activate cr = Inr cr1"
      using 1(2) by (subst (asm) parse_actions.simps) (auto split: sum.split_asm)
    have "cf_config (fst cr1) = cf_config (fst cr)" using parseAction_config p(2) by (cases cr; cases cr1) auto
    then show ?thesis using 1(1) [OF True p(1) refl refl p(2)] 1(2) True p
      by (subst (asm) parse_actions.simps [of _ _ _ _ _ i]) simp
  next
    case False
    then show ?thesis using 1(2) by (subst (asm) parse_actions.simps) (auto split: if_split_asm)
  qed
qed

lemma options_rule_config: "options_rule register lno line i name nameArgs v valueArgs c = Inr c' \<Longrightarrow> cf_config c' = cf_config c"
  by (auto simp: options_rule_def bind_sum_Inr split: if_split_asm option.split_asm prod.split_asm
      dest!: parseAction_config parse_actions_config)

lemma handled_option_keeps: "handled_option net lno name v c = Some (Inr c') \<Longrightarrow> file_ok c \<Longrightarrow> file_ok c'"
proof -
  assume h: "handled_option net lno name v c = Some (Inr c')" and c: "file_ok c"
  have "file_wf ((cf_config c)\<lparr>cfg_dropTarget := t\<rparr>)" for t
    using file_wf_cong [of "(cf_config c)\<lparr>cfg_dropTarget := t\<rparr>" "cf_config c"] c by simp
  then show ?thesis using h c file_wf_addOption
    by (auto simp: handled_option_def global_setting_def set_address_def Let_def bind_sum_Inr upd_config_def
        split: option.split_asm prod.split_asm if_split_asm sum.split_asm)
qed

lemma options_keeps: "keeps (options_line net register)"
  unfolding keeps_def
proof (intro allI impI)
  fix lno line s c s' c'
  assume c: "file_ok c" and r: "options_line net register lno line s c = Inr (s', c')"
  then obtain i name nameArgs v valueArgs where
    h: "(case handled_option net lno name v c of
          Some r \<Rightarrow> bind_sum r (\<lambda>c'.
            if i < length line \<and> (line ! i = CHR '','' \<or> line ! i = CHR '';'')
            then Inl (XConfigRead lno ''to many arguments to %s'' name) else Inr c')
        | None \<Rightarrow> options_rule register lno line i name nameArgs v valueArgs c) = Inr c'"
    by (auto simp: options_line_def bind_sum_Inr)
  show "file_ok c'"
  proof (cases "handled_option net lno name v c")
    case None
    then show ?thesis using h c options_rule_config by fastforce
  next
    case (Some r)
    then have "r = Inr c'" using h by (auto simp: bind_sum_Inr split: if_split_asm)
    then show ?thesis using handled_option_keeps Some c by blast
  qed
qed

lemmas sections_keep = read_lines_keeps [OF screens_keeps] read_lines_keeps [OF links_keeps] read_lines_keeps [OF aliases_keeps]
  read_lines_keeps [OF network_keeps] read_lines_keeps [OF monitors_keeps] read_lines_keeps [OF options_keeps]

lemma readSection_keeps:
  assumes c: "file_ok c" and r: "readSection net register c s = Inr (c', s')"
  shows "file_ok c'"
proof -
  obtain l s1 where l: "readLine s = Inr (l, s1)" using r by (auto simp: readSection_def bind_sum_Inr)
  show ?thesis
  proof (cases l)
    case None
    then show ?thesis using r l c by (simp add: readSection_def)
  next
    case (Some line)
    have "readSectionOptions net register c s1 = Inr (c', s') \<or> readSectionScreens c s1 = Inr (c', s') \<or>
        readSectionLinks c s1 = Inr (c', s') \<or> readSectionAliases c s1 = Inr (c', s') \<or>
        readSectionNetwork c s1 = Inr (c', s') \<or> readSectionMonitors c s1 = Inr (c', s')"
      using r l Some by (simp add: readSection_def Let_def split: option.split_asm if_split_asm)
    then show ?thesis using sections_keep [OF c]
      by (auto simp: readSectionOptions_def readSectionScreens_def readSectionLinks_def readSectionAliases_def
          readSectionNetwork_def readSectionMonitors_def)
  qed
qed

lemma read_sections_keeps: "read_sections net register c s = Inr (c', s') \<Longrightarrow> file_ok c \<Longrightarrow> file_ok c'"
proof (induction net register c s rule: read_sections.induct)
  case (1 net register c s)
  show ?case
  proof (cases "rc_fail s")
    case True
    then show ?thesis using 1(2,3) by (subst (asm) read_sections.simps) simp
  next
    case False
    then obtain c1 s1 where r: "readSection net register c s = Inr (c1, s1)"
      using 1(2) by (subst (asm) read_sections.simps) (auto split: sum.split_asm)
    then show ?thesis using 1(1) [OF False r refl] 1(2,3) False readSection_keeps
      by (subst (asm) read_sections.simps [of _ _ _ s]) auto
  qed
qed

text \<open>
  C34.  Whatever text a configuration is read from, and whatever the network answers: if reading succeeds, both name maps are ordered, every name
  is a valid screen name and stands for a screen, the links of a screen are proper intervals that do not overlap, and every link leads to a
  known screen.
\<close>

theorem read_config_safe:
  assumes "read_config net register old text = Inr c"
  shows "file_wf (cf_config c)"
proof -
  obtain tmp s where "read_sections net register ConfigFile_new (ConfigReadContext_new text) = Inr (tmp, s)" "cf_config c = cf_config tmp"
    using assms by (auto simp: read_config_def Config_read_def bind_sum_Inr)
  then show ?thesis using read_sections_keeps file_wf_new by (fastforce simp: ConfigFile_new_def)
qed

theorem read_config_safe_witness:
  "\<exists>text c. write_config two_screen_file = Some text \<and>
    read_config \<lparr>newAnyAddr4 = [], newAnyAddr6 = [], nameToAddr = (\<lambda>_. Inl XNameUnknown), setAddrPort = (\<lambda>a p. a)\<rparr> (\<lambda>key m. 7)
      ConfigFile_new text = Inr c \<and> file_wf (cf_config c)"
proof -
  let ?net = "\<lparr>newAnyAddr4 = [], newAnyAddr6 = [], nameToAddr = (\<lambda>_. Inl XNameUnknown), setAddrPort = (\<lambda>a p. a)\<rparr> :: arch_net"
  obtain t where w: "write_config two_screen_file = Some t" using config_written [OF two_screen_file_ok] by blast
  then obtain c where "read_config ?net (\<lambda>key m. 7) ConfigFile_new t = Inr c"
    using config_read_back [OF two_screen_file_ok w, of ?net "\<lambda>key m. 7"]
    by (auto simp: read_config_def Config_read_def ConfigReadContext_new_def ctx_def)
  with w show ?thesis using read_config_safe by blast
qed

section \<open>What is lost\<close>

text \<open>
  C35.  The corners that are switched off for all screens are lost when a configuration is written and read: the text that \<^verbatim>\<open>operator<<\<close> writes for
  them has blanks, the options section reads a value only up to a blank and does not report the rest, so that whatever the option was, it is
  read back as no corner at all.
\<close>

theorem global_corners_lost:
  "\<exists>line. option_text (kOptionScreenSwitchCorners, v) = Some line \<and>
    options_line net register lno line s c = Inr (s, upd_config (\<lambda>cfg. snd (addOption cfg [] kOptionScreenSwitchCorners 0)) c)"
proof (intro exI conjI)
  have n: "getOptionName kOptionScreenSwitchCorners = Some ''switchCorners''" "getOptionValue kOptionScreenSwitchCorners v = corners_text v"
    by (simp_all add: option_names option_values)
  show "option_text (kOptionScreenSwitchCorners, v) = Some (''switchCorners = '' @ corners_text v)"
    using n corners_value [of v] by (simp add: option_text_def value_text_def clean_def)
  obtain r where r: "corners_text v = ''none'' @ r" "r = [] \<or> (\<exists>q. r = '' +'' @ q)" by (auto simp: corners_text_def)
  have "parseNameWithArgs lno ''name'' (''switchCorners = none'' @ r) ''='' 0 = Inr (14, ''switchCorners'', [])"
    by (simp add: parseNameWithArgs_def search_defs)
  moreover have "\<exists>i. parseNameWithArgs lno ''value'' (''switchCorners = none'' @ r) [CHR '','', CHR '';'', CHR 0x0A] 15 = Inr (i, ''none'', []) \<and>
      (i < length (''switchCorners = none'' @ r) \<longrightarrow> (''switchCorners = none'' @ r) ! i = CHR ''+'')"
    using r(2) by (auto simp: parseNameWithArgs_def search_defs eval_nat_numeral)
  moreover have "parseCorners lno ''none'' = Inr 0" using parseCorners_text [of 0 lno] by (simp add: corners_text_def)
  ultimately show "options_line net register lno (''switchCorners = '' @ corners_text v) s c =
      Inr (s, upd_config (\<lambda>cfg. snd (addOption cfg [] kOptionScreenSwitchCorners 0)) c)"
    using r(1) by (auto simp: options_line_def handled_option_def global_options)
qed

text \<open>An empty argument list, as in \<open>connect()\<close>, is taken for a missing parenthesis.\<close>

lemma empty_arguments_refused:
  assumes "word_text name"
  shows "parseNameWithArgs lno kind (name @ ''()'' @ t) ''='' 0 = Inl (XConfigRead lno ''missing )'' [])"
proof -
  let ?l = "name @ ''()'' @ t"
  have "find_first_not_of ?l blanks 0 = Some 0"
    using assms word_char_plain(3) [of "hd name"] find_first_not_of_at [of "hd name" blanks "[]" "tl name @ ''()'' @ t"]
    by (cases name) (auto simp: word_text_def)
  moreover have "find_first_of ?l (blanks @ ''(='') 0 = Some (length name)"
    using find_first_of_word(1) [of name "blanks @ ''(=''" "CHR ''(''" "[]" "'')'' @ t"] assms by (simp add: word_text_def blanks_def)
  moreover have "find_first_not_of ?l blanks (length name) = Some (length name)"
    using find_first_not_of_at [of "CHR ''(''" blanks name] by (simp add: blanks_def)
  moreover have "parse_args ?l (length name + 1) = None"
    using find_first_of_at [of "'',)''" "[]" "CHR '')''" "name @ ''(''" t]
    by (subst parse_args.simps) (simp add: nth_append trim_arg_def find_last_not_of_def find_first_not_of_def)
  ultimately show ?thesis by (simp add: parseNameWithArgs_def nth_append Let_def)
qed

end
