(* ===== verification/Fingerprints.thy ===== *)
theory Fingerprints
  imports Config_Text
begin

text \<open>
  The database of trusted certificates, \<^verbatim>\<open>net/FingerprintDatabase.cpp\<close> and \<^verbatim>\<open>net/FingerprintData.cpp\<close>.  A file is the text of its
  stream; opening it is left to the caller.
\<close>

datatype FingerprintType = INVALID | SHA1 | SHA256

record FingerprintData =
  fp_algorithm :: string
  fp_data :: bytes

definition FingerprintData_new :: FingerprintData where
  "FingerprintData_new = \<lparr>fp_algorithm = [], fp_data = []\<rparr>"

definition fp_valid :: "FingerprintData \<Rightarrow> bool" where
  "fp_valid fp \<longleftrightarrow> fp_algorithm fp \<noteq> []"

definition fingerprint_type_to_string :: "FingerprintType \<Rightarrow> string" where
  "fingerprint_type_to_string t = (case t of INVALID \<Rightarrow> ''invalid'' | SHA1 \<Rightarrow> ''sha1'' | SHA256 \<Rightarrow> ''sha256'')"

definition fingerprint_type_from_string :: "string \<Rightarrow> FingerprintType" where
  "fingerprint_type_from_string s = (if s = ''sha1'' then SHA1 else if s = ''sha256'' then SHA256 else INVALID)"

definition parse_db_line :: "string \<Rightarrow> FingerprintData" where
  "parse_db_line line =
     (if count_list line (CHR '':'') = 19 \<and> length line = 40 + 19
      then (let d = from_hex line in if d = [] then FingerprintData_new
              else \<lparr>fp_algorithm = fingerprint_type_to_string SHA1, fp_data = d\<rparr>)
      else (case find_first_of line '':'' 0 of
          None \<Rightarrow> FingerprintData_new
        | Some v \<Rightarrow>
            if take v line \<noteq> ''v2'' then FingerprintData_new
            else (case find_first_of line '':'' (v + 1) of
                None \<Rightarrow> FingerprintData_new
              | Some a \<Rightarrow>
                  let algorithm = take (a - (v + 1)) (drop (v + 1) line); d = from_hex (drop (a + 1) line)
                  in if d = [] then FingerprintData_new else \<lparr>fp_algorithm = algorithm, fp_data = d\<rparr>)))"

definition to_db_line :: "FingerprintData \<Rightarrow> string" where
  "to_db_line fp = ''v2:'' @ fp_algorithm fp @ '':'' @ to_hex (fp_data fp) 2 (CHR ''0'')"

record FingerprintDatabase =
  fingerprints :: "FingerprintData list"

definition FingerprintDatabase_new :: FingerprintDatabase where
  "FingerprintDatabase_new = \<lparr>fingerprints = []\<rparr>"

definition db_clear :: "FingerprintDatabase \<Rightarrow> FingerprintDatabase" where
  "db_clear db = db\<lparr>fingerprints := []\<rparr>"

definition is_trusted :: "FingerprintData \<Rightarrow> FingerprintDatabase \<Rightarrow> bool" where
  "is_trusted fp db \<longleftrightarrow> list_ex (\<lambda>x. fp_algorithm x = fp_algorithm fp \<and> fp_data x = fp_data fp) (fingerprints db)"

definition add_trusted :: "FingerprintData \<Rightarrow> FingerprintDatabase \<Rightarrow> FingerprintDatabase" where
  "add_trusted fp db = (if is_trusted fp db then db else db\<lparr>fingerprints := fingerprints db @ [fp]\<rparr>)"

function read_stream :: "string \<Rightarrow> FingerprintDatabase \<Rightarrow> FingerprintDatabase" where
  "read_stream s db =
     (case getline (CHR 0x0A) s of
        None \<Rightarrow> db
      | Some (line, rest) \<Rightarrow>
          read_stream rest
            (if line = [] then db
             else let fp = parse_db_line line
                  in if \<not> fp_valid fp then db else db\<lparr>fingerprints := fingerprints db @ [fp]\<rparr>))"
  by pat_completeness auto
termination
  by (relation "measure (\<lambda>(s, db). length s)") (auto dest: getline_length)

declare read_stream.simps [simp del]

definition write_stream :: "FingerprintDatabase \<Rightarrow> string" where
  "write_stream db = concat (map (\<lambda>fp. to_db_line fp @ [CHR 0x0A]) (fingerprints db))"

section \<open>What is stored is what is trusted\<close>

lemma is_trusted_iff: "is_trusted fp db \<longleftrightarrow> fp \<in> set (fingerprints db)"
proof -
  have "fp_algorithm x = fp_algorithm fp \<and> fp_data x = fp_data fp \<longleftrightarrow> x = fp" for x by auto
  then show ?thesis by (simp add: is_trusted_def list_ex_iff)
qed

text \<open>Fingerprints that the format can store.\<close>

definition fp_storable :: "FingerprintData \<Rightarrow> bool" where
  "fp_storable fp \<longleftrightarrow> fp_algorithm fp \<noteq> [] \<and> CHR '':'' \<notin> set (fp_algorithm fp) \<and> CHR 0x0A \<notin> set (fp_algorithm fp) \<and> fp_data fp \<noteq> []"

lemma to_hex_chars: "c \<in> set (to_hex bs 2 (CHR ''0'')) \<Longrightarrow> c \<noteq> CHR '':'' \<and> c \<noteq> CHR 0x0A"
proof -
  have d: "hex_digit i \<noteq> CHR '':'' \<and> hex_digit i \<noteq> CHR 0x0A" if "i < 16" for i
    using hex_digit_chars [OF that] by (auto simp: hex_to_number_def)
  have "c \<noteq> CHR '':'' \<and> c \<noteq> CHR 0x0A" if "c \<in> set (hex_digits b)" for b
    using that d [of "unat b"] d [OF less_mult_imp_div_less, of "unat b" 16] d [of "unat b mod 16"] unsigned_less [where ?'a = nat, of b]
    by (auto simp: hex_digits_def Let_def split: if_splits)
  then show "c \<in> set (to_hex bs 2 (CHR ''0'')) \<Longrightarrow> c \<noteq> CHR '':'' \<and> c \<noteq> CHR 0x0A"
    by (auto simp: to_hex_def Let_def)
qed

lemma parse_to_db_line:
  assumes "fp_storable fp"
  shows "parse_db_line (to_db_line fp) = fp"
proof -
  let ?h = "to_hex (fp_data fp) 2 (CHR ''0'')"
  have "count_list (to_db_line fp) (CHR '':'') = 2"
    using assms to_hex_chars [of "CHR '':''" "fp_data fp"] by (auto simp: to_db_line_def fp_storable_def count_list_0_iff)
  moreover have "find_first_of (to_db_line fp) '':'' 0 = Some 2"
    using find_first_of_at [of "'':''" "''v2''" "CHR '':''" "[]"] by (simp add: to_db_line_def)
  moreover have "find_first_of (to_db_line fp) '':'' 3 = Some (3 + length (fp_algorithm fp))"
    using find_first_of_at [of "'':''" "fp_algorithm fp" "CHR '':''" "''v2:''" ?h] assms
    by (auto simp: to_db_line_def fp_storable_def list_all_iff eval_nat_numeral)
  moreover have "drop (4 + length (fp_algorithm fp)) (to_db_line fp) = ?h" by (simp add: to_db_line_def eval_nat_numeral)
  moreover have "take (length (fp_algorithm fp)) (drop 3 (to_db_line fp)) = fp_algorithm fp" "take 2 (to_db_line fp) = ''v2''"
    by (simp_all add: to_db_line_def)
  ultimately show ?thesis
    using assms from_hex_to_hex [of "fp_data fp"]
    by (simp add: parse_db_line_def Let_def fp_storable_def)
qed

lemma read_written:
  assumes "list_all fp_storable fps"
  shows "read_stream (concat (map (\<lambda>fp. to_db_line fp @ [CHR 0x0A]) fps)) db = db\<lparr>fingerprints := fingerprints db @ fps\<rparr>"
  using assms
proof (induction fps arbitrary: db)
  case Nil
  then show ?case by (simp add: read_stream.simps getline_def)
next
  case (Cons fp fps)
  have "CHR 0x0A \<notin> set (to_db_line fp)"
    using Cons.prems to_hex_chars [of _ "fp_data fp"] by (auto simp: to_db_line_def fp_storable_def)
  then have "getline (CHR 0x0A) (to_db_line fp @ CHR 0x0A # concat (map (\<lambda>fp. to_db_line fp @ [CHR 0x0A]) fps)) =
      Some (to_db_line fp, concat (map (\<lambda>fp. to_db_line fp @ [CHR 0x0A]) fps))" by (rule getline_field)
  moreover have "to_db_line fp \<noteq> []" "fp_valid fp" using Cons.prems by (simp_all add: to_db_line_def fp_valid_def fp_storable_def)
  ultimately show ?case using Cons parse_to_db_line [of fp] by (simp add: read_stream.simps [of "_ @ _"])
qed

lemma added_fingerprints: "set (fingerprints (foldl (\<lambda>db fp. add_trusted fp db) db fps)) = set (fingerprints db) \<union> set fps"
  by (induction fps arbitrary: db) (auto simp: add_trusted_def is_trusted_iff)

text \<open>
  C38.  A certificate is trusted after a restart exactly when it was added: after any sequence of \<^verbatim>\<open>add_trusted\<close>, writing the database and
  reading it into an empty one, \<^verbatim>\<open>is_trusted\<close> holds for the added fingerprints and for no other.
\<close>

theorem trusted_after_restart:
  assumes "list_all fp_storable fps"
  shows "is_trusted fp (read_stream (write_stream (foldl (\<lambda>db fp. add_trusted fp db) FingerprintDatabase_new fps)) FingerprintDatabase_new)
    \<longleftrightarrow> fp \<in> set fps"
proof -
  let ?db = "foldl (\<lambda>db fp. add_trusted fp db) FingerprintDatabase_new fps"
  have "set (fingerprints ?db) = set fps" using added_fingerprints [of FingerprintDatabase_new fps] by (simp add: FingerprintDatabase_new_def)
  moreover from this have "list_all fp_storable (fingerprints ?db)" using assms by (simp add: list_all_iff)
  ultimately show ?thesis using read_written [of "fingerprints ?db" FingerprintDatabase_new]
    by (simp add: is_trusted_iff write_stream_def FingerprintDatabase_new_def)
qed

theorem trusted_after_restart_witness:
  "is_trusted \<lparr>fp_algorithm = ''sha256'', fp_data = [1, 255]\<rparr>
    (read_stream (write_stream (foldl (\<lambda>db fp. add_trusted fp db) FingerprintDatabase_new
       [\<lparr>fp_algorithm = ''sha1'', fp_data = [7]\<rparr>, \<lparr>fp_algorithm = ''sha256'', fp_data = [1, 255]\<rparr>])) FingerprintDatabase_new)"
  using trusted_after_restart [of "[\<lparr>fp_algorithm = ''sha1'', fp_data = [7]\<rparr>, \<lparr>fp_algorithm = ''sha256'', fp_data = [1, 255]\<rparr>]"
    "\<lparr>fp_algorithm = ''sha256'', fp_data = [1, 255]\<rparr>"]
  by (simp add: fp_storable_def)

end
