(* ===== verification/Drag_Information.thy ===== *)
theory Drag_Information
  imports Config_Text Stream_Chunks
begin

text \<open>
  The list of dragged files, \<^verbatim>\<open>barrier/DragInformation.cpp\<close>: names and sizes between commas.  Positions are \<^verbatim>\<open>size_t\<close> with \<^verbatim>\<open>npos\<close> their largest value, and
  wrap around; a position beyond the text and a missing list element raise \<^verbatim>\<open>std::out_of_range\<close>.
\<close>

record DragInformation =
  di_filename :: string
  di_filesize :: size_t

datatype drag_error = DragOutOfRange

definition npos :: size_t where
  "npos = - 1"

definition wfind :: "string \<Rightarrow> char \<Rightarrow> size_t \<Rightarrow> size_t" where
  "wfind s c pos = (case find_first_of s [c] (unat pos) of None \<Rightarrow> npos | Some i \<Rightarrow> of_nat i)"

text \<open>\<^verbatim>\<open>find_last_of\<close>, from a position backwards; without a match the result is \<^verbatim>\<open>npos\<close>.\<close>

definition wfind_last :: "string \<Rightarrow> char \<Rightarrow> size_t \<Rightarrow> size_t" where
  "wfind_last s c pos = of_nat (length (dropWhile (\<lambda>d. d \<noteq> c) (rev (take (Suc (unat pos)) s)))) - 1"

definition wsubstr :: "string \<Rightarrow> size_t \<Rightarrow> size_t \<Rightarrow> drag_error + string" where
  "wsubstr s pos n = (if unat pos > length s then Inl DragOutOfRange else Inr (take (unat n) (drop (unat pos) s)))"

text \<open>\<^verbatim>\<open>stringToNum\<close> stops at a null character; \<open>junk\<close> is the value of its variable before it is read.\<close>

definition stringToNum :: "size_t \<Rightarrow> string \<Rightarrow> size_t" where
  "stringToNum junk str = stringToSizeType junk (takeWhile (\<lambda>c. c \<noteq> CHR 0x00) str)"

fun parse_files ::
    "size_t \<Rightarrow> string \<Rightarrow> char \<Rightarrow> nat \<Rightarrow> nat \<Rightarrow> size_t \<Rightarrow> DragInformation list \<Rightarrow> drag_error + DragInformation list" where
  "parse_files junk s slash 0 index startPos files = Inr files"
| "parse_files junk s slash (Suc togo) index startPos files =
     (let findResult1 = wfind s (CHR '','') startPos; findResult2 = wfind_last s slash findResult1
      in if findResult1 = startPos then Inr files
         else bind_sum
           (if findResult1 - findResult2 > 1
            then map_sum id (\<lambda>name. files @ [\<lparr>di_filename = name, di_filesize = 0\<rparr>])
              (wsubstr s (findResult2 + 1) (findResult1 - findResult2 - 1))
            else Inr files) (\<lambda>files1.
         let findResult2 = wfind s (CHR '','') (findResult1 + 1)
         in bind_sum
           (if findResult2 - findResult1 > 1
            then bind_sum (wsubstr s (findResult1 + 1) (findResult2 - findResult1 - 1)) (\<lambda>filesize.
                 if index < length files1
                 then Inr (files1[index := (files1 ! index)\<lparr>di_filesize := stringToNum junk filesize\<rparr>]) else Inl DragOutOfRange)
            else Inr files1) (\<lambda>files2.
         parse_files junk s slash togo (index + 1) (findResult1 + 1) files2)))"

declare parse_files.simps(2) [simp del]

definition slash_of :: "string \<Rightarrow> char" where
  "slash_of s = (if CHR ''/'' \<in> set s then CHR ''/'' else CHR 0x5C)"

definition parseDragInfo :: "size_t \<Rightarrow> UInt32 \<Rightarrow> string \<Rightarrow> drag_error + DragInformation list" where
  "parseDragInfo junk fileNum s = parse_files junk s (slash_of s) (unat fileNum) 0 0 []"

definition getDragFileExtension :: "string \<Rightarrow> string" where
  "getDragFileExtension filename =
     (if CHR ''.'' \<in> set filename then rev (takeWhile (\<lambda>c. c \<noteq> CHR ''.'') (rev filename)) else [])"

text \<open>The sizes come from the file system: \<open>None\<close> for a file that cannot be opened.  The result is the text and the number of files in it.\<close>

fun setupDragInfo :: "(string \<Rightarrow> size_t option) \<Rightarrow> DragInformation list \<Rightarrow> string \<times> int" where
  "setupDragInfo getFileSize [] = ([], 0)"
| "setupDragInfo getFileSize (f # fs) =
     (let (out, n) = setupDragInfo getFileSize fs
      in case getFileSize (di_filename f) of
           None \<Rightarrow> (out, n)
         | Some sz \<Rightarrow> (di_filename f @ '','' @ decimal (unat sz) @ '','' @ out, n + 1))"

section \<open>One file and two files\<close>

definition base_name :: "char \<Rightarrow> string \<Rightarrow> string" where
  "base_name slash path = rev (takeWhile (\<lambda>c. c \<noteq> slash) (rev path))"

definition dir_name :: "char \<Rightarrow> string \<Rightarrow> string" where
  "dir_name slash path = rev (dropWhile (\<lambda>c. c \<noteq> slash) (rev path))"

lemma stringToNum_decimal: "stringToNum junk (decimal (unat n)) = n"
proof -
  have "c \<noteq> CHR 0x00" if "c \<in> set (decimal (unat n))" for c using decimal_chars(1) [OF that] by (auto simp: isdigit_def)
  then have "takeWhile (\<lambda>c. c \<noteq> CHR 0x00) (decimal (unat n)) = decimal (unat n)" by (auto simp: takeWhile_eq_all_conv)
  then show ?thesis using stringToSizeType_decimal [of junk n] by (simp only: stringToNum_def sizeTypeToString_def)
qed

lemma unat_size_t: "k < 2 ^ 64 \<Longrightarrow> unat (of_nat k :: size_t) = k"
  by (simp add: unat_of_nat take_bit_eq_mod)

lemma wfind_at:
  assumes "length pre + length a < 2 ^ 64" "c \<notin> set a"
  shows "wfind (pre @ a @ c # t) c (of_nat (length pre)) = of_nat (length pre + length a)"
proof -
  have "find_first_of (pre @ a @ c # t) [c] (length pre) = Some (length pre + length a)"
    using assms(2) by (intro find_first_of_at) (auto simp: list_all_iff)
  then show ?thesis using assms(1) by (simp add: wfind_def unat_size_t)
qed

lemma wsubstr_at:
  assumes "length pre + length a < 2 ^ 64"
  shows "wsubstr (pre @ a @ t) (of_nat (length pre)) (of_nat (length a)) = Inr a"
  using assms by (simp add: wsubstr_def unat_size_t)

lemma base_name_split: "dir_name slash path @ base_name slash path = path"
  unfolding base_name_def dir_name_def
  by (metis rev_append rev_rev_ident takeWhile_dropWhile_id)

lemma wfind_last_at:
  assumes "length a < 2 ^ 64" "slash \<noteq> c"
  shows "wfind_last (a @ c # t) slash (of_nat (length a)) = of_nat (length (dir_name slash a)) - 1"
  using assms by (simp add: wfind_last_def unat_size_t dir_name_def)

lemma less_one_size_t: "0 < k \<Longrightarrow> k + 1 < 2 ^ 64 \<Longrightarrow> 1 < (of_nat k :: size_t) + 1"
  using unat_size_t [of "k + 1"] by (simp add: word_less_nat_alt add.commute)

text \<open>One round of the loop, on text that is cut at its position into a name, a size and the rest.\<close>

lemma parse_files_step:
  assumes len: "length pre + length path + length sz + 2 < 2 ^ 64"
    and c: "CHR '','' \<notin> set path" "CHR '','' \<notin> set sz" "path \<noteq> []" "sz \<noteq> []"
    and s: "s = pre @ path @ '','' @ sz @ '','' @ rest" and slash: "slash \<noteq> CHR '',''" "base_name slash (pre @ path) \<noteq> []"
    and i: "length files = index"
  shows "parse_files junk s slash (Suc togo) index (of_nat (length pre)) files =
    parse_files junk s slash togo (index + 1) (of_nat (length pre + length path) + 1)
      (files @ [\<lparr>di_filename = base_name slash (pre @ path), di_filesize = stringToNum junk sz\<rparr>])"
proof -
  let ?b = "base_name slash (pre @ path)" and ?d = "dir_name slash (pre @ path)"
  have db: "?d @ ?b = pre @ path" by (rule base_name_split)
  then have lb: "length ?d + length ?b = length pre + length path" by (metis length_append)
  have r1: "wfind s (CHR '','') (of_nat (length pre)) = of_nat (length pre + length path)"
    using wfind_at [of pre path "CHR '',''" "sz @ '','' @ rest"] len c(1) by (simp add: s)
  have r2: "wfind_last s slash (of_nat (length pre + length path)) = of_nat (length ?d) - 1"
    using wfind_last_at [of "pre @ path" slash "CHR '',''" "sz @ '','' @ rest"] len slash(1) by (simp add: s)
  have d2: "(of_nat (length pre + length path) :: size_t) - (of_nat (length ?d) - 1) = of_nat (length ?b) + 1"
    using arg_cong [OF lb, of "of_nat :: nat \<Rightarrow> size_t"] by (simp add: algebra_simps)
  have "s = ?d @ ?b @ '','' @ sz @ '','' @ rest" using db by (simp add: s)
  then have name: "wsubstr s (of_nat (length ?d)) (of_nat (length ?b)) = Inr ?b"
    using wsubstr_at [of ?d ?b] lb len by simp
  have r3: "wfind s (CHR '','') (of_nat (length pre + length path) + 1) = of_nat (length pre + length path) + 1 + of_nat (length sz)"
    using wfind_at [of "pre @ path @ '',''" sz "CHR '',''" rest] len c(2) by (simp add: s ac_simps)
  have r4: "wsubstr s (of_nat (length pre + length path) + 1) (of_nat (length sz)) = Inr sz"
    using wsubstr_at [of "pre @ path @ '',''" sz "'','' @ rest"] len by (simp add: s ac_simps)
  have "unat (of_nat (length pre + length path) :: size_t) \<noteq> unat (of_nat (length pre) :: size_t)"
    using len c(3) by (simp add: unat_size_t del: of_nat_add)
  then have ne: "(of_nat (length pre + length path) :: size_t) \<noteq> of_nat (length pre)" by metis
  have big: "1 < (of_nat (length ?b) :: size_t) + 1" "1 < (of_nat (length sz) :: size_t) + 1"
    using less_one_size_t [of "length ?b"] less_one_size_t [of "length sz"] slash(2) c(4) lb len by auto
  show ?thesis
    unfolding parse_files.simps(2) Let_def r1 r2 r3 d2
    using ne big i by (simp add: name r4 nth_append list_update_append add.commute [of "1 :: size_t"] del: of_nat_add)
qed

text \<open>A path the sender announces: a file below a directory, written with slashes and without commas.\<close>

definition drag_path :: "string \<Rightarrow> bool" where
  "drag_path path \<longleftrightarrow> CHR ''/'' \<in> set path \<and> CHR '','' \<notin> set path \<and> base_name (CHR ''/'') path \<noteq> []"

lemma base_name_append: "slash \<in> set a \<Longrightarrow> slash \<notin> set b \<Longrightarrow> base_name slash (a @ b) = base_name slash a @ b"
  by (auto simp: base_name_def takeWhile_append)

text \<open>The number of files that are sent and what is read when that number and the text arrive.\<close>

definition drag_transfer :: "size_t \<Rightarrow> (string \<Rightarrow> size_t option) \<Rightarrow> DragInformation list \<Rightarrow> drag_error + DragInformation list" where
  "drag_transfer junk getFileSize files = (let (s, n) = setupDragInfo getFileSize files in parseDragInfo junk (of_int n) s)"

lemma decimal_size_t:
  "length (decimal (unat (n :: size_t))) \<le> 20" "decimal (unat n) \<noteq> []" "CHR '','' \<notin> set (decimal (unat n))" "CHR ''/'' \<notin> set (decimal (unat n))"
proof -
  have "unat n < 2 ^ 64" using unsigned_less [where ?'a = nat, of n] by simp
  then show "length (decimal (unat n)) \<le> 20" by (intro decimal_length) simp_all
  show "decimal (unat n) \<noteq> []" by (subst decimal.simps) simp
  show "CHR '','' \<notin> set (decimal (unat n))" "CHR ''/'' \<notin> set (decimal (unat n))"
    using decimal_chars(1) [of "CHR '',''" "unat n"] decimal_chars(1) [of "CHR ''/''" "unat n"] by (auto simp: isdigit_def)
qed

lemma drag_first:
  assumes "drag_path path" "length path < 2 ^ 63" "s = path @ '','' @ decimal (unat n) @ '','' @ rest"
  shows "parse_files junk s (CHR ''/'') (Suc togo) 0 0 [] =
    parse_files junk s (CHR ''/'') togo 1 (of_nat (length path) + 1) [\<lparr>di_filename = base_name (CHR ''/'') path, di_filesize = n\<rparr>]"
proof -
  have l: "length [] + length path + length (decimal (unat n)) + 2 < 2 ^ 64" using assms(2) decimal_size_t(1) [of n] by simp
  have p: "CHR '','' \<notin> set path" "path \<noteq> []" "base_name (CHR ''/'') ([] @ path) \<noteq> []" using assms(1) by (auto simp: drag_path_def)
  show ?thesis
    using parse_files_step [where pre = "[]" and files = "[]", OF l p(1) decimal_size_t(3) p(2) decimal_size_t(2) _ _ p(3), of s rest 0 junk togo] assms(3)
    by (simp add: stringToNum_decimal)
qed

lemma drag_second:
  assumes "drag_path path" "drag_path path2" "length path + length path2 < 2 ^ 63"
    and "s = path @ '','' @ decimal (unat (n :: size_t)) @ '','' @ path2 @ '','' @ rest"
  shows "parse_files junk s (CHR ''/'') (Suc togo) 1 (of_nat (length path) + 1) [e] =
    parse_files junk s (CHR ''/'') togo 2 (of_nat (length path + length (decimal (unat n)) + 1) + 1)
      [e, \<lparr>di_filename = base_name (CHR ''/'') path @ '','' @ decimal (unat n), di_filesize = stringToNum junk path2\<rparr>]"
proof -
  let ?n = "decimal (unat n)"
  have l: "length (path @ '','') + length ?n + length path2 + 2 < 2 ^ 64" using assms(3) decimal_size_t(1) [of n] by simp
  have p: "CHR '','' \<notin> set path2" "path2 \<noteq> []" using assms(2) by (auto simp: drag_path_def)
  have b: "base_name (CHR ''/'') ((path @ '','') @ ?n) = base_name (CHR ''/'') path @ '','' @ ?n"
    using base_name_append [of "CHR ''/''" path "'','' @ ?n"] assms(1) decimal_size_t(4) [of n] by (simp add: drag_path_def)
  have "s = (path @ '','') @ ?n @ '','' @ path2 @ '','' @ rest" by (simp add: assms(4))
  note step = parse_files_step [where files = "[e]" and slash = "CHR ''/''", OF l decimal_size_t(3) p(1) decimal_size_t(2) p(2) this, of 1 junk togo, unfolded b]
  show ?thesis using step by (simp add: ac_simps eval_nat_numeral)
qed

text \<open>
  C40.  A single dragged file arrives with the last part of its path and its size.  Of two files only the first does: the loop of
  \<^verbatim>\<open>parseDragInfo\<close> continues behind the first name instead of behind the first size, so that the second entry is named after the first file and its
  size, and what follows is taken for its size.
\<close>

theorem second_file_misread:
  assumes "getFileSize (di_filename f) = Some n" "drag_path (di_filename f)"
    and "getFileSize (di_filename g) = Some k" "drag_path (di_filename g)" "length (di_filename f) + length (di_filename g) < 2 ^ 63"
  shows "drag_transfer junk getFileSize [f] = Inr [\<lparr>di_filename = base_name (CHR ''/'') (di_filename f), di_filesize = n\<rparr>] \<and>
    drag_transfer junk getFileSize [f, g] =
      Inr [\<lparr>di_filename = base_name (CHR ''/'') (di_filename f), di_filesize = n\<rparr>,
           \<lparr>di_filename = base_name (CHR ''/'') (di_filename f) @ '','' @ decimal (unat n), di_filesize = stringToNum junk (di_filename g)\<rparr>]"
proof -
  let ?f = "di_filename f" and ?g = "di_filename g"
  have "parseDragInfo junk 1 (?f @ '','' @ decimal (unat n) @ '','') = Inr [\<lparr>di_filename = base_name (CHR ''/'') ?f, di_filesize = n\<rparr>]"
    using drag_first [OF assms(2) _ refl, where n = n and rest = "[]" and junk = junk and togo = 0] assms(2,5) by (simp add: parseDragInfo_def slash_of_def drag_path_def)
  moreover have "parseDragInfo junk 2 (?f @ '','' @ decimal (unat n) @ '','' @ ?g @ '','' @ decimal (unat k) @ '','') =
      Inr [\<lparr>di_filename = base_name (CHR ''/'') ?f, di_filesize = n\<rparr>,
        \<lparr>di_filename = base_name (CHR ''/'') ?f @ '','' @ decimal (unat n), di_filesize = stringToNum junk ?g\<rparr>]"
  proof -
    have "slash_of (?f @ t) = CHR ''/''" for t using assms(2) by (simp add: slash_of_def drag_path_def)
    moreover have "length ?f < 2 ^ 63" using assms(5) by simp
    moreover have "unat (2 :: UInt32) = Suc (Suc 0)" by simp
    ultimately show ?thesis
      using drag_first [OF assms(2) _ refl, where n = n and rest = "?g @ '','' @ decimal (unat k) @ '',''" and junk = junk and togo = "Suc 0"]
        drag_second [OF assms(2,4,5) refl, where n = n and rest = "decimal (unat k) @ '',''" and junk = junk and togo = 0]
      by (simp only: parseDragInfo_def parse_files.simps(1) One_nat_def)
  qed
  ultimately show ?thesis using assms(1,3) by (simp add: drag_transfer_def)
qed

theorem second_file_misread_witness:
  "drag_transfer 0 (\<lambda>path. Some 12) [\<lparr>di_filename = ''/a/b'', di_filesize = 0\<rparr>, \<lparr>di_filename = ''/a/c'', di_filesize = 0\<rparr>] =
     Inr [\<lparr>di_filename = ''b'', di_filesize = 12\<rparr>, \<lparr>di_filename = ''b,12'', di_filesize = 0\<rparr>]"
proof -
  have "drag_path ''/a/b''" "drag_path ''/a/c''" "base_name (CHR ''/'') ''/a/b'' = ''b''" "stringToNum 0 ''/a/c'' = 0" "decimal (unat (12 :: size_t)) = ''12''"
    by code_simp+
  then show ?thesis
    using second_file_misread [of "\<lambda>path. Some 12" "\<lparr>di_filename = ''/a/b'', di_filesize = 0\<rparr>" 12 "\<lparr>di_filename = ''/a/c'', di_filesize = 0\<rparr>" 12 0]
    by simp
qed

end
