(* ===== verification/Screen_State.thy ===== *)
theory Screen_State
  imports Config_Read Drag_Information
begin

text \<open>
  The screen of a machine, \<^verbatim>\<open>barrier/Screen.cpp\<close>: what both the server's and the client's own screen have in common.  The platform's
  screen is not modelled; what it is told is the list \<open>scr_calls\<close>, in order, and what it answers is an argument.  A failing assertion is
  \<open>None\<close>.
\<close>

type_synonym KeyButton = UInt16

datatype PlatformCall =
    PUpdateKeyMap | PUpdateKeyState | PEnable | PDisable | PEnter | PLeave bool
  | POpenScreensaver bool | PCloseScreensaver | PScreensaver bool
  | PSetClipboard UInt8 "Clipboard option" | PCheckClipboards
  | PReconfigure UInt32 | PWarpCursor int int
  | PFakeCtrlAltDel | PFakeKeyDown KeyID KeyModifierMask KeyButton | PFakeKeyRepeat KeyID KeyModifierMask int KeyButton | PFakeKeyUp KeyButton | PFakeAllKeysUp
  | PFakeMouseButton ButtonID bool | PFakeMouseMove int int | PFakeMouseRelativeMove int int | PFakeMouseWheel int int
  | PResetOptions | PSetOptions "UInt32 list" | PSetHalfDuplexMask KeyModifierMask | PSetSequenceNumber UInt32
  | PRegisterHotKey KeyID KeyModifierMask | PUnregisterHotKey UInt32 | PFakeInputBegin | PFakeInputEnd
  | PSetDraggingStarted bool | PFakeDraggingFiles "DragInformation list" | PClearDraggingFilename | PSetDropTarget string
  | PShapeChanged

record Screen =
  m_isPrimary :: bool
  m_enabled :: bool
  m_entered :: bool
  m_screenSaverSync :: bool
  m_halfDuplex :: KeyModifierMask
  m_fakeInput :: bool
  m_enableDragDrop :: bool
  scr_calls :: "PlatformCall list"

definition call :: "PlatformCall \<Rightarrow> Screen \<Rightarrow> Screen" where
  "call c s = s\<lparr>scr_calls := scr_calls s @ [c]\<rparr>"

definition KeyModifierCapsLock :: UInt32 where "KeyModifierCapsLock = 0x1000"
definition KeyModifierNumLock :: UInt32 where "KeyModifierNumLock = 0x2000"
definition kKeyDelete :: KeyID where "kKeyDelete = 0xEFFF"
definition kButtonLeft :: ButtonID where "kButtonLeft = 1"

definition scr_resetOptions :: "Screen \<Rightarrow> Screen" where
  "scr_resetOptions s =
     (let s1 = s\<lparr>m_halfDuplex := 0\<rparr>;
          s2 = (if \<not> m_screenSaverSync s1
                then let s1 = s1\<lparr>m_screenSaverSync := True\<rparr> in if \<not> m_isPrimary s1 then call (POpenScreensaver False) s1 else s1
                else s1)
      in call PResetOptions s2)"

definition Screen_new :: "bool \<Rightarrow> Screen" where
  "Screen_new primary = scr_resetOptions
     \<lparr>m_isPrimary = primary, m_enabled = False, m_entered = primary, m_screenSaverSync = True, m_halfDuplex = 0,
      m_fakeInput = False, m_enableDragDrop = False, scr_calls = []\<rparr>"

section \<open>Enabling, entering and leaving\<close>

definition enablePrimary :: "Screen \<Rightarrow> Screen" where
  "enablePrimary s = call PShapeChanged (call (POpenScreensaver True) s)"

definition scr_grabClipboard :: "UInt8 \<Rightarrow> Screen \<Rightarrow> Screen" where
  "scr_grabClipboard i s = call (PSetClipboard i None) s"

definition enableSecondary :: "Screen \<Rightarrow> Screen" where
  "enableSecondary s =
     (let s1 = fold scr_grabClipboard (map of_nat [0..<unat kClipboardEnd]) s
      in if m_screenSaverSync s1 then call (POpenScreensaver False) s1 else s1)"

definition disablePrimary :: "Screen \<Rightarrow> Screen" where
  "disablePrimary s = call PCloseScreensaver s"

definition disableSecondary :: "Screen \<Rightarrow> Screen" where
  "disableSecondary s = call PCloseScreensaver s"

definition leavePrimary :: "Screen \<Rightarrow> Screen" where
  "leavePrimary s = call PUpdateKeyState s"

definition leaveSecondary :: "Screen \<Rightarrow> Screen" where
  "leaveSecondary s = call PFakeAllKeysUp s"

definition scr_enable :: "Screen \<Rightarrow> Screen option" where
  "scr_enable s =
     (if m_enabled s then None
      else let s1 = call PEnable (call PUpdateKeyState (call PUpdateKeyMap s));
               s2 = (if m_isPrimary s1 then enablePrimary s1 else enableSecondary s1)
           in Some (s2\<lparr>m_enabled := True\<rparr>))"

text \<open>\<^verbatim>\<open>enterPrimary\<close> and \<^verbatim>\<open>enterSecondary\<close> are empty; the mask of \<^verbatim>\<open>enter\<close> is not used.\<close>

definition scr_enter :: "KeyModifierMask \<Rightarrow> Screen \<Rightarrow> Screen option" where
  "scr_enter toggleMask s = (if m_entered s then None else Some (call PEnter (s\<lparr>m_entered := True\<rparr>)))"

text \<open>\<open>ok\<close> is the platform's answer: whether the screen can be left.\<close>

definition scr_leave :: "bool \<Rightarrow> Screen \<Rightarrow> (Screen \<times> bool) option" where
  "scr_leave ok s =
     (if \<not> m_entered s then None
      else let s1 = call (PLeave ok) s
           in if \<not> ok then Some (s1, False)
              else let s2 = (if m_isPrimary s1 then leavePrimary s1 else leaveSecondary s1)
                   in Some ((call PCheckClipboards s2)\<lparr>m_entered := False\<rparr>, True))"

definition scr_disable :: "bool \<Rightarrow> Screen \<Rightarrow> Screen option" where
  "scr_disable ok s =
     (if \<not> m_enabled s then None
      else map_option
        (\<lambda>s1. let s2 = call PDisable s1; s3 = (if m_isPrimary s2 then disablePrimary s2 else disableSecondary s2)
              in s3\<lparr>m_enabled := False\<rparr>)
        (if \<not> m_isPrimary s \<and> m_entered s then map_option fst (scr_leave ok s)
         else if m_isPrimary s \<and> \<not> m_entered s then scr_enter 0 s
         else Some s))"

text \<open>The destructor, for a screen that is not the mock of the tests.\<close>

definition Screen_destroy :: "bool \<Rightarrow> Screen \<Rightarrow> Screen option" where
  "Screen_destroy ok s =
     Option.bind (if m_enabled s then scr_disable ok s else Some s) (\<lambda>s1.
       if \<not> m_enabled s1 \<and> m_entered s1 = m_isPrimary s1 then Some s1 else None)"

section \<open>Input, options and the rest\<close>

definition scr_reconfigure :: "UInt32 \<Rightarrow> Screen \<Rightarrow> Screen option" where
  "scr_reconfigure activeSides s = (if \<not> m_isPrimary s then None else Some (call (PReconfigure activeSides) s))"

definition scr_warpCursor :: "int \<Rightarrow> int \<Rightarrow> Screen \<Rightarrow> Screen option" where
  "scr_warpCursor x y s = (if \<not> m_isPrimary s then None else Some (call (PWarpCursor x y) s))"

definition scr_setClipboard :: "UInt8 \<Rightarrow> Clipboard option \<Rightarrow> Screen \<Rightarrow> Screen" where
  "scr_setClipboard i clipboard s = call (PSetClipboard i clipboard) s"

definition scr_screensaver :: "bool \<Rightarrow> Screen \<Rightarrow> Screen" where
  "scr_screensaver activate s = (if \<not> m_isPrimary s \<and> m_screenSaverSync s then call (PScreensaver activate) s else s)"

text \<open>\<open>emulated\<close> is the platform's answer to \<^verbatim>\<open>fakeCtrlAltDel\<close>.\<close>

definition scr_keyDown :: "bool \<Rightarrow> KeyID \<Rightarrow> KeyModifierMask \<Rightarrow> KeyButton \<Rightarrow> Screen \<Rightarrow> Screen" where
  "scr_keyDown emulated i m button s =
     (if i = kKeyDelete \<and> m AND (KeyModifierControl OR KeyModifierAlt) = KeyModifierControl OR KeyModifierAlt
      then let s1 = call PFakeCtrlAltDel s in if emulated then s1 else call (PFakeKeyDown i m button) s1
      else call (PFakeKeyDown i m button) s)"

definition scr_keyRepeat :: "KeyID \<Rightarrow> KeyModifierMask \<Rightarrow> int \<Rightarrow> KeyButton \<Rightarrow> Screen \<Rightarrow> Screen option" where
  "scr_keyRepeat i m cnt button s = (if m_isPrimary s then None else Some (call (PFakeKeyRepeat i m cnt button) s))"

definition scr_keyUp :: "KeyID \<Rightarrow> KeyModifierMask \<Rightarrow> KeyButton \<Rightarrow> Screen \<Rightarrow> Screen" where
  "scr_keyUp i m button s = call (PFakeKeyUp button) s"

definition scr_mouseDown :: "ButtonID \<Rightarrow> Screen \<Rightarrow> Screen" where
  "scr_mouseDown button s = call (PFakeMouseButton button True) s"

definition scr_mouseUp :: "ButtonID \<Rightarrow> Screen \<Rightarrow> Screen" where
  "scr_mouseUp button s = call (PFakeMouseButton button False) s"

definition scr_mouseMove :: "int \<Rightarrow> int \<Rightarrow> Screen \<Rightarrow> Screen option" where
  "scr_mouseMove x y s = (if m_isPrimary s then None else Some (call (PFakeMouseMove x y) s))"

definition scr_mouseRelativeMove :: "int \<Rightarrow> int \<Rightarrow> Screen \<Rightarrow> Screen option" where
  "scr_mouseRelativeMove dx dy s = (if m_isPrimary s then None else Some (call (PFakeMouseRelativeMove dx dy) s))"

definition scr_mouseWheel :: "int \<Rightarrow> int \<Rightarrow> Screen \<Rightarrow> Screen option" where
  "scr_mouseWheel xDelta yDelta s = (if m_isPrimary s then None else Some (call (PFakeMouseWheel xDelta yDelta) s))"

text \<open>The loop of \<^verbatim>\<open>setOptions\<close> over pairs.  A list of odd length is read behind its end only when its last element is one of
  the options of the screen.\<close>

definition half_duplex :: "KeyModifierMask \<Rightarrow> UInt32 \<Rightarrow> Screen \<Rightarrow> Screen" where
  "half_duplex key v s = s\<lparr>m_halfDuplex := if v \<noteq> 0 then m_halfDuplex s OR key else m_halfDuplex s AND NOT key\<rparr>"

definition screen_option_value :: "UInt32 \<Rightarrow> UInt32 \<Rightarrow> Screen \<Rightarrow> Screen" where
  "screen_option_value i v s =
     (if i = kOptionScreenSaverSync then s\<lparr>m_screenSaverSync := v \<noteq> 0\<rparr>
      else if i = kOptionHalfDuplexCapsLock then half_duplex KeyModifierCapsLock v s
      else if i = kOptionHalfDuplexNumLock then half_duplex KeyModifierNumLock v s
      else if i = kOptionHalfDuplexScrollLock then half_duplex KeyModifierScrollLock v s
      else s)"

fun screen_options :: "UInt32 list \<Rightarrow> Screen \<Rightarrow> Screen option" where
  "screen_options [] s = Some s"
| "screen_options [i] s =
     (if i \<in> {kOptionScreenSaverSync, kOptionHalfDuplexCapsLock, kOptionHalfDuplexNumLock, kOptionHalfDuplexScrollLock} then None else Some s)"
| "screen_options (i # v # options) s = screen_options options (screen_option_value i v s)"

definition scr_setOptions :: "UInt32 list \<Rightarrow> Screen \<Rightarrow> Screen option" where
  "scr_setOptions options s =
     map_option (\<lambda>s1.
       let s2 = call (PSetHalfDuplexMask (m_halfDuplex s1)) s1;
           s3 = (if \<not> m_isPrimary s2 \<and> m_screenSaverSync s \<noteq> m_screenSaverSync s2
                 then (if m_screenSaverSync s2 then call (POpenScreensaver False) s2 else call PCloseScreensaver s2) else s2)
       in call (PSetOptions options) s3) (screen_options options s)"

definition scr_setSequenceNumber :: "UInt32 \<Rightarrow> Screen \<Rightarrow> Screen" where
  "scr_setSequenceNumber seqNum s = call (PSetSequenceNumber seqNum) s"

definition scr_registerHotKey :: "KeyID \<Rightarrow> KeyModifierMask \<Rightarrow> Screen \<Rightarrow> Screen" where
  "scr_registerHotKey key m s = call (PRegisterHotKey key m) s"

definition scr_unregisterHotKey :: "UInt32 \<Rightarrow> Screen \<Rightarrow> Screen" where
  "scr_unregisterHotKey i s = call (PUnregisterHotKey i) s"

definition scr_fakeInputBegin :: "Screen \<Rightarrow> Screen option" where
  "scr_fakeInputBegin s = (if m_fakeInput s then None else Some (call PFakeInputBegin (s\<lparr>m_fakeInput := True\<rparr>)))"

definition scr_fakeInputEnd :: "Screen \<Rightarrow> Screen option" where
  "scr_fakeInputEnd s = (if \<not> m_fakeInput s then None else Some (call PFakeInputEnd (s\<lparr>m_fakeInput := False\<rparr>)))"

text \<open>The platform answers which mouse button is down, if any.\<close>

definition scr_isLockedToScreen :: "ButtonID option \<Rightarrow> Screen \<Rightarrow> bool" where
  "scr_isLockedToScreen down s =
     (case down of None \<Rightarrow> False | Some buttonID \<Rightarrow> if m_enableDragDrop s then buttonID \<noteq> kButtonLeft else True)"

definition scr_getJumpZoneSize :: "int \<Rightarrow> Screen \<Rightarrow> int" where
  "scr_getJumpZoneSize platform s = (if \<not> m_isPrimary s then 0 else platform)"

definition scr_setDraggingStarted :: "bool \<Rightarrow> Screen \<Rightarrow> Screen" where
  "scr_setDraggingStarted started s = call (PSetDraggingStarted started) s"

definition scr_startDraggingFiles :: "DragInformation list \<Rightarrow> Screen \<Rightarrow> Screen" where
  "scr_startDraggingFiles fileList s = call (PFakeDraggingFiles fileList) s"

definition scr_setEnableDragDrop :: "bool \<Rightarrow> Screen \<Rightarrow> Screen" where
  "scr_setEnableDragDrop enabled s = s\<lparr>m_enableDragDrop := enabled\<rparr>"

definition scr_clearDraggingFilename :: "Screen \<Rightarrow> Screen" where
  "scr_clearDraggingFilename s = call PClearDraggingFilename s"

definition scr_setDropTarget :: "string \<Rightarrow> Screen \<Rightarrow> Screen" where
  "scr_setDropTarget target s = call (PSetDropTarget target) s"

section \<open>The screen as a state machine\<close>

text \<open>The steps of a screen in use.  Its owner enters and leaves it only while it is enabled.\<close>

inductive scr_step :: "Screen \<Rightarrow> Screen \<Rightarrow> bool" where
  enable: "scr_enable s = Some s' \<Longrightarrow> scr_step s s'"
| disable: "scr_disable True s = Some s' \<Longrightarrow> scr_step s s'"
| enter: "m_enabled s \<Longrightarrow> scr_enter toggleMask s = Some s' \<Longrightarrow> scr_step s s'"
| leave: "m_enabled s \<Longrightarrow> scr_leave ok s = Some (s', left) \<Longrightarrow> scr_step s s'"
| resetOptions: "scr_step s (scr_resetOptions s)"
| setOptions: "scr_setOptions options s = Some s' \<Longrightarrow> scr_step s s'"
| screensaver: "scr_step s (scr_screensaver activate s)"
| fakeInputBegin: "scr_fakeInputBegin s = Some s' \<Longrightarrow> scr_step s s'"
| fakeInputEnd: "scr_fakeInputEnd s = Some s' \<Longrightarrow> scr_step s s'"
| keyDown: "scr_step s (scr_keyDown emulated i m button s)"
| keyRepeat: "scr_keyRepeat i m cnt button s = Some s' \<Longrightarrow> scr_step s s'"
| keyUp: "scr_step s (scr_keyUp i m button s)"
| mouseDown: "scr_step s (scr_mouseDown mb s)"
| mouseUp: "scr_step s (scr_mouseUp mb s)"
| mouseMove: "scr_mouseMove x y s = Some s' \<Longrightarrow> scr_step s s'"
| mouseRelativeMove: "scr_mouseRelativeMove x y s = Some s' \<Longrightarrow> scr_step s s'"
| mouseWheel: "scr_mouseWheel x y s = Some s' \<Longrightarrow> scr_step s s'"
| reconfigure: "scr_reconfigure sides s = Some s' \<Longrightarrow> scr_step s s'"
| warpCursor: "scr_warpCursor x y s = Some s' \<Longrightarrow> scr_step s s'"
| setClipboard: "scr_step s (scr_setClipboard cid cb s)"
| grabClipboard: "scr_step s (scr_grabClipboard cid s)"
| setSequenceNumber: "scr_step s (scr_setSequenceNumber seqNum s)"
| registerHotKey: "scr_step s (scr_registerHotKey i m s)"
| unregisterHotKey: "scr_step s (scr_unregisterHotKey h s)"
| setDraggingStarted: "scr_step s (scr_setDraggingStarted started s)"
| startDraggingFiles: "scr_step s (scr_startDraggingFiles files s)"
| setEnableDragDrop: "scr_step s (scr_setEnableDragDrop enabled s)"
| clearDraggingFilename: "scr_step s (scr_clearDraggingFilename s)"
| setDropTarget: "scr_step s (scr_setDropTarget target s)"

text \<open>What the platform's screen knows from the calls: whether it is enabled, whether the cursor is on it, whether the screen saver is
  watched or held back, and whether input is being faked.\<close>

record PlatformView =
  pv_enabled :: bool
  pv_entered :: bool
  pv_saver :: "bool option"
  pv_faking :: bool

fun pv_call :: "PlatformCall \<Rightarrow> PlatformView \<Rightarrow> PlatformView" where
  "pv_call PEnable v = v\<lparr>pv_enabled := True\<rparr>"
| "pv_call PDisable v = v\<lparr>pv_enabled := False\<rparr>"
| "pv_call PEnter v = v\<lparr>pv_entered := True\<rparr>"
| "pv_call (PLeave ok) v = (if ok then v\<lparr>pv_entered := False\<rparr> else v)"
| "pv_call (POpenScreensaver notify) v = v\<lparr>pv_saver := Some notify\<rparr>"
| "pv_call PCloseScreensaver v = v\<lparr>pv_saver := None\<rparr>"
| "pv_call PFakeInputBegin v = v\<lparr>pv_faking := True\<rparr>"
| "pv_call PFakeInputEnd v = v\<lparr>pv_faking := False\<rparr>"
| "pv_call c v = v"

definition platform_view :: "Screen \<Rightarrow> PlatformView" where
  "platform_view s = fold pv_call (scr_calls s) \<lparr>pv_enabled = False, pv_entered = m_isPrimary s, pv_saver = None, pv_faking = False\<rparr>"

text \<open>What the platform should know of the screen saver of an enabled screen: the primary is notified, a secondary holds it back when
  it is synchronized.\<close>

definition saver_wanted :: "Screen \<Rightarrow> bool option" where
  "saver_wanted s = (if m_isPrimary s then Some True else if m_screenSaverSync s then Some False else None)"

definition scr_wf :: "Screen \<Rightarrow> bool" where
  "scr_wf s \<longleftrightarrow>
     pv_enabled (platform_view s) = m_enabled s \<and> pv_entered (platform_view s) = m_entered s \<and> pv_faking (platform_view s) = m_fakeInput s \<and>
     (if m_enabled s then pv_saver (platform_view s) = saver_wanted s
      else m_entered s = m_isPrimary s \<and>
        (pv_saver (platform_view s) = None \<or> \<not> m_isPrimary s \<and> m_screenSaverSync s \<and> pv_saver (platform_view s) = Some False))"

lemma platform_view_call: "platform_view (call c s) = pv_call c (platform_view s)"
  by (simp add: platform_view_def call_def)

lemma call_fields [simp]:
  "m_isPrimary (call c s) = m_isPrimary s" "m_enabled (call c s) = m_enabled s" "m_entered (call c s) = m_entered s"
  "m_screenSaverSync (call c s) = m_screenSaverSync s" "m_halfDuplex (call c s) = m_halfDuplex s" "m_fakeInput (call c s) = m_fakeInput s"
  by (simp_all add: call_def)

lemma platform_view_fields [simp]:
  "platform_view (s\<lparr>m_enabled := a\<rparr>) = platform_view s" "platform_view (s\<lparr>m_entered := a\<rparr>) = platform_view s"
  "platform_view (s\<lparr>m_screenSaverSync := a\<rparr>) = platform_view s" "platform_view (s\<lparr>m_halfDuplex := k\<rparr>) = platform_view s"
  "platform_view (s\<lparr>m_fakeInput := a\<rparr>) = platform_view s" "platform_view (s\<lparr>m_enableDragDrop := a\<rparr>) = platform_view s"
  by (simp_all add: platform_view_def)

lemma screen_options_keeps:
  "screen_options options s = Some s' \<Longrightarrow> platform_view s' = platform_view s \<and> m_isPrimary s' = m_isPrimary s \<and>
     m_enabled s' = m_enabled s \<and> m_entered s' = m_entered s \<and> m_fakeInput s' = m_fakeInput s"
  by (induction options s rule: screen_options.induct) (auto simp: screen_option_value_def half_duplex_def split: if_splits)

text \<open>Most calls say nothing about enabling, entering, the screen saver or faked input.\<close>

fun pv_neutral :: "PlatformCall \<Rightarrow> bool" where
  "pv_neutral PEnable = False" | "pv_neutral PDisable = False" | "pv_neutral PEnter = False" | "pv_neutral (PLeave ok) = False"
| "pv_neutral (POpenScreensaver notify) = False" | "pv_neutral PCloseScreensaver = False"
| "pv_neutral PFakeInputBegin = False" | "pv_neutral PFakeInputEnd = False" | "pv_neutral c = True"

lemma pv_call_neutral: "pv_neutral c \<Longrightarrow> pv_call c v = v"
  by (cases c) auto

lemma scr_wf_neutral [simp]: "pv_neutral c \<Longrightarrow> scr_wf (call c s) = scr_wf s"
  by (simp add: scr_wf_def saver_wanted_def platform_view_call pv_call_neutral)

lemma scr_wf_dragDrop [simp]: "scr_wf (s\<lparr>m_enableDragDrop := a\<rparr>) = scr_wf s"
  by (simp add: scr_wf_def saver_wanted_def)

lemmas scr_input_defs = scr_screensaver_def scr_keyDown_def scr_keyRepeat_def scr_keyUp_def scr_mouseDown_def scr_mouseUp_def
  scr_mouseMove_def scr_mouseRelativeMove_def scr_mouseWheel_def scr_reconfigure_def scr_warpCursor_def scr_setClipboard_def scr_grabClipboard_def
  scr_setSequenceNumber_def scr_registerHotKey_def scr_unregisterHotKey_def scr_setDraggingStarted_def scr_startDraggingFiles_def
  scr_setEnableDragDrop_def scr_clearDraggingFilename_def scr_setDropTarget_def

lemmas scr_wf_defs = scr_wf_def saver_wanted_def platform_view_call Let_def

lemma grabbed_clipboards [simp]: "map of_nat [0..<unat kClipboardEnd] = [0, 1 :: UInt8]"
  by (simp add: kClipboardEnd_def upt_rec)

lemma scr_wf_new: "scr_wf (Screen_new primary)"
  by (simp add: Screen_new_def scr_resetOptions_def scr_wf_def platform_view_def call_def)

lemma scr_wf_resetOptions: "scr_wf s \<Longrightarrow> scr_wf (scr_resetOptions s)"
  by (auto simp: scr_resetOptions_def scr_wf_defs)

lemma scr_wf_setOptions:
  assumes "scr_setOptions options s = Some s'" "scr_wf s"
  shows "scr_wf s'"
proof -
  obtain s1 where s1: "screen_options options s = Some s1" using assms(1) by (auto simp: scr_setOptions_def)
  note k = screen_options_keeps [OF this, THEN conjunct1] screen_options_keeps [OF this, THEN conjunct2]
  let ?s2 = "call (PSetHalfDuplexMask (m_halfDuplex s1)) s1"
  have s': "s' = call (PSetOptions options) (if \<not> m_isPrimary s1 \<and> m_screenSaverSync s \<noteq> m_screenSaverSync s1
      then (if m_screenSaverSync s1 then call (POpenScreensaver False) ?s2 else call PCloseScreensaver ?s2) else ?s2)"
    using assms(1) s1 by (auto simp: scr_setOptions_def Let_def)
  show ?thesis
    using assms(2) k(2) unfolding s'
    by (cases "m_isPrimary s"; cases "m_enabled s"; cases "m_screenSaverSync s"; cases "m_screenSaverSync s1")
      (simp_all add: scr_wf_def saver_wanted_def platform_view_call k(1))
qed

lemma scr_wf_enable: "scr_enable s = Some s' \<Longrightarrow> scr_wf s \<Longrightarrow> scr_wf s'"
  by (cases "m_isPrimary s") (auto simp: scr_enable_def enablePrimary_def enableSecondary_def scr_grabClipboard_def scr_wf_defs split: if_splits)

lemma scr_wf_leave: "scr_leave ok s = Some (s', left) \<Longrightarrow> m_enabled s \<Longrightarrow> scr_wf s \<Longrightarrow> scr_wf s'"
  by (auto simp: scr_leave_def leavePrimary_def leaveSecondary_def scr_wf_defs split: if_splits)

lemma scr_wf_enter: "scr_enter toggleMask s = Some s' \<Longrightarrow> m_enabled s \<Longrightarrow> scr_wf s \<Longrightarrow> scr_wf s'"
  by (auto simp: scr_enter_def scr_wf_defs split: if_splits)

lemma scr_disable_result:
  "scr_wf s \<Longrightarrow> m_enabled s \<Longrightarrow> \<exists>s'. scr_disable ok s = Some s' \<and> \<not> m_enabled s' \<and> m_isPrimary s' = m_isPrimary s \<and>
     (m_entered s' = m_isPrimary s \<longleftrightarrow> ok \<or> m_isPrimary s \<or> \<not> m_entered s) \<and> (m_entered s' = m_isPrimary s \<longrightarrow> scr_wf s')"
  by (cases "m_isPrimary s"; cases "m_entered s"; cases ok)
    (simp_all add: scr_disable_def disablePrimary_def disableSecondary_def scr_enter_def scr_leave_def leaveSecondary_def scr_wf_defs)

lemma scr_wf_step: "scr_step s s' \<Longrightarrow> scr_wf s \<Longrightarrow> scr_wf s'"
proof (induction rule: scr_step.induct)
  case (disable s s')
  then have "m_enabled s" by (auto simp: scr_disable_def split: if_splits)
  with disable scr_disable_result [of s True] show ?case by auto
next
  case (fakeInputBegin s s')
  then show ?case by (auto simp: scr_fakeInputBegin_def scr_wf_defs split: if_splits)
next
  case (fakeInputEnd s s')
  then show ?case by (auto simp: scr_fakeInputEnd_def scr_wf_defs split: if_splits)
qed (auto simp: scr_input_defs Let_def scr_wf_resetOptions intro: scr_wf_enable scr_wf_leave scr_wf_enter scr_wf_setOptions split: if_splits)

lemma scr_wf_reachable: "scr_step\<^sup>*\<^sup>* (Screen_new primary) s \<Longrightarrow> scr_wf s"
  by (induction rule: rtranclp_induct) (auto intro: scr_wf_new scr_wf_step)

lemma Screen_destroy_fails:
  assumes "scr_wf s"
  shows "Screen_destroy ok s = None \<longleftrightarrow> m_enabled s \<and> \<not> m_isPrimary s \<and> m_entered s \<and> \<not> ok"
proof (cases "m_enabled s")
  case True
  obtain s' where "scr_disable ok s = Some s'" "\<not> m_enabled s'" "m_isPrimary s' = m_isPrimary s"
      "m_entered s' = m_isPrimary s \<longleftrightarrow> ok \<or> m_isPrimary s \<or> \<not> m_entered s"
    using scr_disable_result [OF assms True, of ok] by blast
  then show ?thesis using True by (auto simp: Screen_destroy_def)
next
  case False
  then show ?thesis using assms by (simp add: Screen_destroy_def scr_wf_def)
qed

text \<open>
  C39.  Whatever sequence of operations a screen goes through, the platform's screen, which sees only the calls, agrees with it on being
  enabled, on the cursor being there and on faked input, and while it is enabled the screen saver is watched on the primary and held back exactly on
  a secondary that synchronizes it.  The assertions of the destructor hold unless the platform refuses to leave the screen of an active secondary, an answer
  that \<^verbatim>\<open>disable\<close> ignores.
\<close>

theorem screen_agrees_with_platform:
  assumes "scr_step\<^sup>*\<^sup>* (Screen_new primary) s"
  shows "pv_enabled (platform_view s) = m_enabled s \<and> pv_entered (platform_view s) = m_entered s \<and> pv_faking (platform_view s) = m_fakeInput s \<and>
    (m_enabled s \<longrightarrow> pv_saver (platform_view s) = saver_wanted s) \<and>
    (Screen_destroy ok s = None \<longleftrightarrow> m_enabled s \<and> \<not> m_isPrimary s \<and> m_entered s \<and> \<not> ok)"
  using scr_wf_reachable [OF assms] Screen_destroy_fails [OF scr_wf_reachable [OF assms], of ok] by (simp add: scr_wf_def split: if_splits)

definition active_secondary :: Screen where
  "active_secondary = the (Option.bind (scr_enable (Screen_new False)) (scr_enter 0))"

theorem screen_agrees_with_platform_witness:
  "m_enabled active_secondary \<and> pv_saver (platform_view active_secondary) = Some False \<and> Screen_destroy False active_secondary = None"
proof -
  let ?s = "the (scr_enable (Screen_new False))"
  have "scr_enable (Screen_new False) = Some ?s" "scr_enter 0 ?s = Some active_secondary" "m_enabled ?s" by code_simp+
  then have "scr_step (Screen_new False) ?s" "scr_step ?s active_secondary" by (auto intro: scr_step.intros)
  then have "scr_step\<^sup>*\<^sup>* (Screen_new False) active_secondary" by (meson converse_rtranclp_into_rtranclp rtranclp.rtrancl_refl)
  moreover have "m_enabled active_secondary" "saver_wanted active_secondary = Some False" "m_entered active_secondary" "\<not> m_isPrimary active_secondary"
    by code_simp+
  ultimately show ?thesis using screen_agrees_with_platform [of False active_secondary False] by simp
qed

text \<open>Options that are reset while the screen is disabled, as at the start of a new connection, hold the screen saver back although the screen is
  not in use.\<close>

lemma saver_held_back_disabled:
  assumes "m_enabled s" "\<not> m_isPrimary s" "\<not> m_screenSaverSync s"
  shows "\<exists>s'. scr_disable True s = Some s' \<and> \<not> m_enabled (scr_resetOptions s') \<and> pv_saver (platform_view (scr_resetOptions s')) = Some False"
proof -
  have "\<exists>s'. scr_disable True s = Some s' \<and> \<not> m_enabled s' \<and> \<not> m_isPrimary s' \<and> \<not> m_screenSaverSync s'"
    using assms by (simp add: scr_disable_def disableSecondary_def scr_leave_def leaveSecondary_def Let_def)
  then show ?thesis by (auto simp: scr_resetOptions_def platform_view_call Let_def)
qed

end
