(* ===== verification/Spec2Isabelle.thy ===== *)
theory Spec2Isabelle
  imports Barrier_Prelude Stream_Buffer Byte_Source Packet_Stream Protocol_Util String_Util
    Clipboard_Data Stream_Chunks Unicode_Conv Std_Map Float32 Config_Topology
    Wildcard_Match Server_Geometry Server_Search Server_Switch Server_Clients Server_Invariant Server_Handlers
    Server_Events Server_Messages
    Display_List Server_Proxy Proxy_Run Message_Source Proxy_Motion Client_Peer Peer_Link
    Client_Core Client_Run Handshake
    Priority_Queue Event_Queue Event_Delivery Event_Timers Event_Startup
    Float64 Config_Text Key_Names Network_Address Input_Filter Config_Read Config_Write Config_Roundtrip Config_Valid
    Fingerprints Drag_Information Screen_State
begin

text \<open>
  Barrier shares one keyboard and mouse between several computers.  The server owns the devices; when
  the cursor leaves its screen it goes to a client, and keys, motion and clipboards follow it over the
  network.  This library models the program's own logic: the bytes on the wire, the server's decisions, and the
  conversation between a server and a client.  Source paths are below \<^verbatim>\<open>src/src/lib\<close>.

  \<^bold>\<open>The wire.\<close>  A stream of bytes is cut into packets, a packet holds one message.
  \<^item> \<open>Stream_Buffer\<close> (\<^verbatim>\<open>io/StreamBuffer.cpp\<close>): the chunked FIFO; locale \<open>byte_fifo\<close> is its contract and the
    refinement to a list of bytes its interpretation.
  \<^item> \<open>Packet_Stream\<close> (\<^verbatim>\<open>barrier/PacketStreamFilter.cpp\<close>): four byte lengths and packets, the size limit,
    events; framing is a round trip for every way the bytes are split into blocks.
  \<^item> \<open>Byte_Source\<close> and \<open>Protocol_Util\<close> (\<^verbatim>\<open>barrier/ProtocolUtil.cpp\<close>, \<^verbatim>\<open>barrier/protocol_types.cpp\<close>): the format driven
    writer and reader over any source of bytes (a locale), and the message formats; what is written is
    read back, truncation is an error and never an out-of-range access.
  \<^item> \<open>Clipboard_Data\<close> (\<^verbatim>\<open>barrier/IClipboard.cpp\<close>, \<^verbatim>\<open>barrier/Clipboard.cpp\<close>) and \<open>Stream_Chunks\<close>
    (\<^verbatim>\<open>barrier/ClipboardChunk.cpp\<close>, \<^verbatim>\<open>barrier/FileChunk.cpp\<close>, \<^verbatim>\<open>barrier/StreamChunker.cpp\<close>): marshalling of clipboards and the
    transfer of clipboards and files in pieces.
  \<^item> \<open>String_Util\<close> (\<^verbatim>\<open>base/String.cpp\<close>) and \<open>Unicode_Conv\<close> (\<^verbatim>\<open>base/Unicode.cpp\<close>): the string functions and the
    encodings of text.

  \<^bold>\<open>The configuration.\<close>  \<open>Std_Map\<close> is \<^verbatim>\<open>std::map\<close> with a comparison object, \<open>Float32\<close> the
  rounding of \<^verbatim>\<open>float\<close>.  \<open>Config_Topology\<close> (\<^verbatim>\<open>server/Config.cpp\<close>) models screens, aliases, links between edges
  and options, with an invariant of every configuration the operations build.
  \<^item> \<open>Float64\<close>: the rounding of \<^verbatim>\<open>double\<close> and percents as \<^verbatim>\<open>float\<close>.  \<open>Config_Text\<close>: \<^verbatim>\<open>ConfigReadContext\<close>, the lines of a configuration file and the values in them.
    \<open>Key_Names\<close> (\<^verbatim>\<open>barrier/key_types.cpp\<close>, \<^verbatim>\<open>barrier/KeyMap.cpp\<close>): keys and modifiers as text.  \<open>Network_Address\<close> (\<^verbatim>\<open>net/NetworkAddress.cpp\<close>): host and
    port.
  \<^item> \<open>Fingerprints\<close> (\<^verbatim>\<open>net/FingerprintDatabase.cpp\<close>): the certificates a user trusts, as a file of lines.
  \<^item> \<open>Input_Filter\<close> (\<^verbatim>\<open>server/InputFilter.cpp\<close>): the rules of hot keys, which rule acts on an event, and how copying rules loses hot keys.
  \<^item> \<open>Config_Read\<close> and \<open>Config_Write\<close>: the six sections of the file, \<^verbatim>\<open>operator>>\<close>, \<^verbatim>\<open>operator<<\<close> and \<^verbatim>\<open>operator==\<close>.  \<open>Config_Roundtrip\<close>: what is written is read
    back; \<open>Config_Valid\<close>: whatever is read is well formed, and what the format loses.

  \<^bold>\<open>The server\<close> (\<^verbatim>\<open>server/Server.cpp\<close>).
  \<^item> \<open>Wildcard_Match\<close>: the patterns of monitors.
  \<^item> \<open>Server_Geometry\<close>: the state of the server as a record, displays and monitors, and the search for the
    neighbor in a direction; \<open>Server_Search\<close>: where the search ends, and when it does not.
  \<^item> \<open>Server_Switch\<close>: delays, double taps, dead corners, clipboards, mouse motion and keys;
    \<open>Server_Clients\<close>: the tables of clients, options, the event handlers and the constructor.
  \<^item> \<open>Server_Invariant\<close> and \<open>Server_Handlers\<close>: every handler keeps the tables consistent and has a result;
    \<open>Server_Events\<close>: the server as a state machine over events and its reachable states;
    \<open>Server_Messages\<close>: what clients are told when the cursor changes screens.

  \<^bold>\<open>The connection.\<close>
  \<^item> \<open>Display_List\<close> (\<^verbatim>\<open>barrier/protocol_types.h\<close>): the text in which a client declares its displays, a round trip.
  \<^item> \<open>Server_Proxy\<close> (\<^verbatim>\<open>client/ServerProxy.cpp\<close>): the server as the client sees it, both parsers, every message handler, the compression
    of mouse motion and the translation of modifier keys.  \<open>Proxy_Run\<close>: locale \<open>proxy_stream\<close> is what the proxy needs of its
    stream, \<open>handleData\<close> always returns; \<open>Proxy_Motion\<close>: when compressing motion is the same as performing it, and when not.
  \<^item> \<open>Client_Peer\<close> (\<^verbatim>\<open>server/ClientProxy1_0.cpp\<close> to \<^verbatim>\<open>server/ClientProxy1_6.cpp\<close>, \<^verbatim>\<open>server/ClientProxyUnknown.cpp\<close>): the client as the server sees it,
    one record with its minor version.
  \<^item> \<open>Message_Source\<close>: locale \<open>message_source\<close>, a stream positioned in a message; the packet filter is its
    interpretation.  \<open>Peer_Link\<close>: every call on the server's proxy arrives as that call on the client.
  \<^item> \<open>Client_Core\<close> (\<^verbatim>\<open>client/Client.cpp\<close>): connecting, greeting, suspending, clipboards and the calls of the proxy; \<open>Client_Run\<close>: the client
    as a state machine and the invariant of its reachable states; \<open>Handshake\<close>: the greeting of client and server.

  \<^bold>\<open>The screen.\<close>  \<open>Screen_State\<close> (\<^verbatim>\<open>barrier/Screen.cpp\<close>): the screen of a machine as a state machine over the calls it makes on the platform, and
  that the platform agrees with it.  \<open>Drag_Information\<close> (\<^verbatim>\<open>barrier/DragInformation.cpp\<close>): the text that announces dragged files, and what is lost
  of a second one.

  \<^bold>\<open>The event queue\<close> (\<^verbatim>\<open>base/EventQueue.cpp\<close>).
  \<^item> \<open>Priority_Queue\<close> (\<^verbatim>\<open>base/PriorityQueue.h\<close>): locale \<open>std_heap\<close> is what the standard promises of heap algorithms, given by a model of
    them.  \<open>Event_Queue\<close>: events, handlers, timers, waiting and the loop.
  \<^item> \<open>Event_Delivery\<close>: the loop delivers every event once and in order, over the contract \<open>event_fifo\<close> of the buffer; \<open>Event_Timers\<close>: the
    timers implement a schedule of due times; \<open>Event_Startup\<close>: the start of the loop, interleaved with a thread that adds an event.

  \<^bold>\<open>How the model corresponds to the code.\<close>  A class is a record with the source's fields, a method a
  function from the record to the new record.  An assertion that fails, an access out of range, or the use of an object that was
  deleted is \<open>None\<close> or the left side of a sum.  Client objects live in a heap; what the server tells
  them is a list of outputs in order.  What the platform answers during one event (the clock, the modifier
  keys, whether the screen can be left, clipboard contents) is the record \<open>Env\<close>.  Integers of fixed width are words
  where they are sent or wrap around; coordinates are unbounded, as C++ leaves their overflow undefined.

  \<^bold>\<open>Loops.\<close>  Loops over data are structural recursion or \<^verbatim>\<open>function\<close> with a measure.  Loops that may not end are
  \<^verbatim>\<open>partial_function (option)\<close>, so that not returning is \<open>None\<close>: replacing an empty string, the search for a neighbor, the message
  loops of the two proxies, and waiting for and dispatching events.  Theorems state when the first two return, that the loop of the
  client's proxy always does and that the event loop does after a quit event.  Reading a configuration always ends: every line is consumed.  No fuel
  is used.

  \<^bold>\<open>What is not modelled.\<close>  Sockets, TLS, threads, the platform screens, logging, the
  graphical front end and process set-up are operating system calls.  The synthesis of key strokes in \<^verbatim>\<open>barrier/KeyMap.cpp\<close> works on layout tables
  that each platform fills.  Of the server and the client, the drag and drop threads, the file
  transfer threads and the destructors are left out.
\<close>

end
